(* ===== verification/Prelude.thy ===== *)
theory Prelude
  imports Main "HOL-Library.Word" "HOL-Library.State_Monad"
begin

text \<open>
  What every component shares: the collections that carry the proofs, bytes and their
  values as natural numbers, Go's \<open>int64\<close> with its wrap-around, and the
  parts of Go's \<open>strings\<close>, \<open>strconv\<close> and \<open>path/filepath\<close> packages that the program
  calls. A Go string is a sequence of bytes, and so is a HOL \<open>string\<close>: a \<open>char\<close> is
  one byte. Case mapping and white space are those of the ASCII bytes; the program applies
  them to kernel files, command output and addresses, and leaves other bytes alone.
\<close>

named_theorems go_defs \<open>definitions of small operations, unfolded to evaluate them\<close>
named_theorems byte_nat \<open>comparisons of bytes as comparisons of numbers\<close>
named_theorems emits_rules \<open>what each operation returns and which calls it makes\<close>

type_synonym byte = "8 word"
type_synonym int64 = "64 word"

abbreviation code :: "char \<Rightarrow> nat" where
  "code c \<equiv> of_char c"

definition bytes_of :: "string \<Rightarrow> byte list" where
  "bytes_of s = map of_char s"

lemma byte_less_iff [byte_nat]: "(b :: byte) < c \<longleftrightarrow> unat b < unat c"
  by (simp add: word_less_nat_alt)

lemma byte_le_iff [byte_nat]: "(b :: byte) \<le> c \<longleftrightarrow> unat b \<le> unat c"
  by (simp add: word_le_nat_alt)

lemma byte_eq_iff [byte_nat]: "(b :: byte) = c \<longleftrightarrow> unat b = unat c"
  by (simp add: word_unat_eq_iff)

lemma byte_bound: "unat (b :: byte) < 256"
proof -
  have "(unat b :: nat) < 2 ^ LENGTH(8)" by (rule unsigned_less)
  then show ?thesis by simp
qed

lemma bytes_of_append [simp]: "bytes_of (s @ t) = bytes_of s @ bytes_of t"
  by (simp add: bytes_of_def)

lemma length_bytes_of [simp]: "length (bytes_of s) = length s"
  by (simp add: bytes_of_def)


subsection \<open>Signed 64-bit integers\<close>

text \<open>
  Go's \<open>int64\<close> arithmetic wraps. A value is kept as the mathematical integer it stands for,
  and \<open>wrap64\<close> is applied where the source computes with \<open>int64\<close>.
\<close>

definition max_int64 :: int where
  "max_int64 = 9223372036854775807"

definition wrap64 :: "int \<Rightarrow> int" where
  "wrap64 n = (n + 9223372036854775808) mod 18446744073709551616 - 9223372036854775808"

definition in_int64 :: "int \<Rightarrow> bool" where
  "in_int64 n \<longleftrightarrow> - 9223372036854775808 \<le> n \<and> n \<le> max_int64"

lemma wrap64_id: "in_int64 n \<Longrightarrow> wrap64 n = n"
  by (simp add: in_int64_def wrap64_def max_int64_def mod_pos_pos_trivial)

lemma wrap64_range: "in_int64 (wrap64 n)"
proof -
  have "0 \<le> (n + 9223372036854775808) mod 18446744073709551616"
    and "(n + 9223372036854775808) mod 18446744073709551616 < (18446744073709551616 :: int)"
    by simp_all
  then show ?thesis
    unfolding in_int64_def wrap64_def max_int64_def by linarith
qed


subsection \<open>Package strings\<close>

fun has_prefix :: "'a list \<Rightarrow> 'a list \<Rightarrow> bool" where
  "has_prefix s [] = True"
| "has_prefix [] (p # ps) = False"
| "has_prefix (c # s) (p # ps) = (c = p \<and> has_prefix s ps)"

definition has_suffix :: "'a list \<Rightarrow> 'a list \<Rightarrow> bool" where
  "has_suffix s p = has_prefix (rev s) (rev p)"

lemma has_prefix_iff: "has_prefix s p \<longleftrightarrow> (\<exists>t. s = p @ t)"
  by (induction s p rule: has_prefix.induct) auto

lemma has_prefix_append [simp]: "has_prefix (p @ t) p"
  by (auto simp: has_prefix_iff)

lemma has_suffix_iff: "has_suffix s p \<longleftrightarrow> (\<exists>t. s = t @ p)"
proof -
  have "has_suffix s p \<longleftrightarrow> (\<exists>t. rev s = rev p @ t)"
    by (simp add: has_suffix_def has_prefix_iff)
  also have "\<dots> \<longleftrightarrow> (\<exists>t. s = t @ p)"
    by (metis rev_append rev_rev_ident)
  finally show ?thesis .
qed

definition trim_prefix :: "'a list \<Rightarrow> 'a list \<Rightarrow> 'a list" where
  "trim_prefix s p = (if has_prefix s p then drop (length p) s else s)"

definition trim_suffix :: "'a list \<Rightarrow> 'a list \<Rightarrow> 'a list" where
  "trim_suffix s p = (if has_suffix s p then take (length s - length p) s else s)"

definition cut_prefix :: "'a list \<Rightarrow> 'a list \<Rightarrow> 'a list option" where
  "cut_prefix s p = (if has_prefix s p then Some (drop (length p) s) else None)"

text \<open>\<open>strings.Index\<close>, with \<open>None\<close> for -1, and what is built on it.\<close>

fun index_of :: "'a list \<Rightarrow> 'a list \<Rightarrow> nat option" where
  "index_of [] p = (if p = [] then Some 0 else None)"
| "index_of (c # s) p =
     (if has_prefix (c # s) p then Some 0 else map_option Suc (index_of s p))"

definition str_contains :: "'a list \<Rightarrow> 'a list \<Rightarrow> bool" where
  "str_contains s p = (index_of s p \<noteq> None)"

definition cut :: "'a list \<Rightarrow> 'a list \<Rightarrow> 'a list \<times> 'a list \<times> bool" where
  "cut s p = (case index_of s p of
      None \<Rightarrow> (s, [], False)
    | Some i \<Rightarrow> (take i s, drop (i + length p) s, True))"

text \<open>\<open>strings.LastIndexByte\<close>.\<close>

fun last_index :: "'a list \<Rightarrow> 'a \<Rightarrow> nat option" where
  "last_index [] c = None"
| "last_index (x # xs) c = (case last_index xs c of
      Some i \<Rightarrow> Some (Suc i)
    | None \<Rightarrow> (if x = c then Some 0 else None))"

text \<open>\<open>strings.Split\<close> with a separator of one byte.\<close>

fun split_on :: "'a \<Rightarrow> 'a list \<Rightarrow> 'a list list" where
  "split_on c [] = [[]]"
| "split_on c (x # xs) =
     (if x = c then [] # split_on c xs
      else (case split_on c xs of [] \<Rightarrow> [[x]] | p # ps \<Rightarrow> (x # p) # ps))"

fun join_with :: "'a list \<Rightarrow> 'a list list \<Rightarrow> 'a list" where
  "join_with sep [] = []"
| "join_with sep [x] = x"
| "join_with sep (x # y # ys) = x @ sep @ join_with sep (y # ys)"

definition trim_left_of :: "('a \<Rightarrow> bool) \<Rightarrow> 'a list \<Rightarrow> 'a list" where
  "trim_left_of p s = dropWhile p s"

definition trim_right_of :: "('a \<Rightarrow> bool) \<Rightarrow> 'a list \<Rightarrow> 'a list" where
  "trim_right_of p s = rev (dropWhile p (rev s))"

definition trim_of :: "('a \<Rightarrow> bool) \<Rightarrow> 'a list \<Rightarrow> 'a list" where
  "trim_of p s = trim_right_of p (trim_left_of p s)"

definition is_space :: "char \<Rightarrow> bool" where
  "is_space c \<longleftrightarrow> code c = 32 \<or> (9 \<le> code c \<and> code c \<le> 13)"

definition trim_space :: "string \<Rightarrow> string" where
  "trim_space s = trim_of is_space s"

fun fields_aux :: "string \<Rightarrow> string \<Rightarrow> string list" where
  "fields_aux acc [] = (if acc = [] then [] else [rev acc])"
| "fields_aux acc (c # s) =
     (if is_space c then (if acc = [] then fields_aux [] s else rev acc # fields_aux [] s)
      else fields_aux (c # acc) s)"

definition str_fields :: "string \<Rightarrow> string list" where
  "str_fields s = fields_aux [] s"

text \<open>\<open>strings.ReplaceAll\<close> of one byte.\<close>

definition replace_char :: "'a \<Rightarrow> 'a list \<Rightarrow> 'a list \<Rightarrow> 'a list" where
  "replace_char c r s = concat (map (\<lambda>x. if x = c then r else [x]) s)"

definition count_char :: "'a \<Rightarrow> 'a list \<Rightarrow> nat" where
  "count_char c s = length (filter (\<lambda>x. x = c) s)"

definition lower_char :: "char \<Rightarrow> char" where
  "lower_char c = (if 65 \<le> code c \<and> code c \<le> 90 then char_of (code c + 32) else c)"

definition upper_char :: "char \<Rightarrow> char" where
  "upper_char c = (if 97 \<le> code c \<and> code c \<le> 122 then char_of (code c - 32) else c)"

definition to_lower :: "string \<Rightarrow> string" where
  "to_lower s = map lower_char s"

definition to_upper :: "string \<Rightarrow> string" where
  "to_upper s = map upper_char s"

definition newline :: char where
  "newline = CHR 0x0A"

definition spaces :: "nat \<Rightarrow> string" where
  "spaces n = replicate n (CHR '' '')"

lemma split_on_not_Nil [simp]: "split_on c s \<noteq> []"
  by (cases s) (auto split: list.splits)

lemma join_with_Cons: "ys \<noteq> [] \<Longrightarrow> join_with sep (x # ys) = x @ sep @ join_with sep ys"
  by (cases ys) auto

lemma join_split: "join_with [c] (split_on c s) = s"
proof (induction s)
  case (Cons x xs)
  obtain p ps where ps: "split_on c xs = p # ps"
    by (cases "split_on c xs") auto
  with Cons show ?case
    by (cases ps) auto
qed simp

lemma split_on_no_sep: "c \<notin> set s \<Longrightarrow> split_on c s = [s]"
  by (induction s) auto

lemma split_on_append:
  "c \<notin> set s \<Longrightarrow> split_on c (s @ c # t) = s # split_on c t"
  by (induction s) auto

lemma split_join:
  "ss \<noteq> [] \<Longrightarrow> \<forall>s\<in>set ss. c \<notin> set s \<Longrightarrow> split_on c (join_with [c] ss) = ss"
  by (induction "[c]" ss rule: join_with.induct) (auto simp: split_on_append split_on_no_sep)

lemma split_on_parts: "p \<in> set (split_on c s) \<Longrightarrow> c \<notin> set p"
proof (induction s arbitrary: p)
  case (Cons x xs)
  obtain q qs where q: "split_on c xs = q # qs"
    by (cases "split_on c xs") auto
  with Cons show ?case
    by (auto split: if_splits)
qed simp

lemma index_of_Some_iff:
  "index_of s p = Some i \<Longrightarrow> \<exists>t. s = take i s @ p @ t \<and> length (take i s) = i"
proof (induction s p arbitrary: i rule: index_of.induct)
  case (1 p)
  then show ?case by (simp split: if_splits)
next
  case (2 c s p)
  show ?case
  proof (cases "has_prefix (c # s) p")
    case True
    with "2.prems" have "i = 0" by simp
    moreover from True obtain t where "c # s = p @ t" by (auto simp: has_prefix_iff)
    ultimately show ?thesis by auto
  next
    case False
    with "2.prems" obtain j where j: "index_of s p = Some j" "i = Suc j" by auto
    from "2.IH" [OF False j(1)] obtain t where "s = take j s @ p @ t" "length (take j s) = j"
      by blast
    with j(2) show ?thesis by auto
  qed
qed

lemma index_of_None: "index_of s p = None \<Longrightarrow> s \<noteq> u @ p @ t"
proof (induction s p arbitrary: u rule: index_of.induct)
  case (1 p)
  then show ?case by (auto split: if_splits)
next
  case (2 c s p)
  then have n: "\<not> has_prefix (c # s) p" "index_of s p = None" by (auto split: if_splits)
  show ?case
  proof (cases u)
    case Nil
    with n(1) show ?thesis by (auto simp: has_prefix_iff)
  next
    case (Cons x u')
    with "2.IH" [OF n] show ?thesis by auto
  qed
qed

lemma str_contains_iff: "str_contains s p \<longleftrightarrow> (\<exists>u t. s = u @ p @ t)"
proof
  assume "str_contains s p"
  then obtain i where "index_of s p = Some i" by (auto simp: str_contains_def)
  from index_of_Some_iff [OF this] show "\<exists>u t. s = u @ p @ t" by blast
next
  assume "\<exists>u t. s = u @ p @ t"
  then show "str_contains s p"
    unfolding str_contains_def by (metis index_of_None)
qed

lemma str_contains_set: "str_contains s p \<Longrightarrow> set p \<subseteq> set s"
  by (auto simp: str_contains_iff)

text \<open>\<open>strings.Cut\<close> at a separator of one byte.\<close>

lemma index_of_char: "c \<notin> set s \<Longrightarrow> index_of (s @ c # t) [c] = Some (length s)"
  by (induction s) auto

lemma index_of_char_None: "c \<notin> set s \<Longrightarrow> index_of s [c] = None"
  by (induction s) auto

lemma cut_char: "c \<notin> set s \<Longrightarrow> cut (s @ c # t) [c] = (s, t, True)"
  by (simp add: cut_def index_of_char)

lemma cut_char_None: "c \<notin> set s \<Longrightarrow> cut s [c] = (s, [], False)"
  by (simp add: cut_def index_of_char_None)

lemma trim_right_of_suffix: "\<exists>t. s = trim_right_of p s @ t \<and> (\<forall>x\<in>set t. p x)"
proof -
  have "rev s = takeWhile p (rev s) @ dropWhile p (rev s)" by simp
  then have "s = rev (dropWhile p (rev s)) @ rev (takeWhile p (rev s))"
    by (metis rev_append rev_rev_ident)
  moreover have "\<forall>x\<in>set (rev (takeWhile p (rev s))). p x"
    by (auto dest: set_takeWhileD)
  ultimately show ?thesis
    unfolding trim_right_of_def by blast
qed

lemma set_trim_of: "set (trim_of p s) \<subseteq> set s"
  unfolding trim_of_def trim_right_of_def trim_left_of_def
  by (auto dest!: set_dropWhileD)

lemma trim_of_id:
  "s = [] \<or> (\<not> p (hd s) \<and> \<not> p (last s)) \<Longrightarrow> trim_of p s = s"
  by (auto simp: trim_of_def trim_right_of_def trim_left_of_def dropWhile_eq_self_iff
      [THEN iffD2] hd_rev)

lemma fields_aux_no_space:
  "f \<in> set (fields_aux acc s) \<Longrightarrow> list_all (\<lambda>c. \<not> is_space c) acc \<Longrightarrow>
   f \<noteq> [] \<and> list_all (\<lambda>c. \<not> is_space c) f"
proof (induction acc s rule: fields_aux.induct)
  case (1 acc)
  then show ?case by (cases "acc = []") simp_all
next
  case (2 acc c s)
  show ?case
  proof (cases "is_space c")
    case True
    show ?thesis
    proof (cases "acc = []")
      case True
      with \<open>is_space c\<close> "2.prems" "2.IH"(1) show ?thesis by simp
    next
      case False
      with \<open>is_space c\<close> "2.prems" have "f = rev acc \<or> f \<in> set (fields_aux [] s)" by simp
      with False \<open>is_space c\<close> "2.prems" "2.IH"(2) show ?thesis by auto
    qed
  next
    case False
    with "2.prems" "2.IH"(3) show ?thesis by simp
  qed
qed

lemma fields_no_space:
  "f \<in> set (str_fields s) \<Longrightarrow> f \<noteq> [] \<and> list_all (\<lambda>c. \<not> is_space c) f"
  unfolding str_fields_def by (rule fields_aux_no_space) auto

lemma fields_aux_word:
  "list_all (\<lambda>c. \<not> is_space c) w \<Longrightarrow> fields_aux acc (w @ s) = fields_aux (rev w @ acc) s"
  by (induction w arbitrary: acc) auto


subsection \<open>Numbers in text\<close>

definition is_digit :: "char \<Rightarrow> bool" where
  "is_digit c \<longleftrightarrow> 48 \<le> code c \<and> code c \<le> 57"

definition digit_val :: "char \<Rightarrow> nat" where
  "digit_val c = code c - 48"

definition digit_char :: "nat \<Rightarrow> char" where
  "digit_char d = char_of (48 + d)"

fun digits_val :: "nat \<Rightarrow> string \<Rightarrow> nat" where
  "digits_val acc [] = acc"
| "digits_val acc (c # cs) = digits_val (10 * acc + digit_val c) cs"

fun show_nat :: "nat \<Rightarrow> string" where
  "show_nat n = (if n < 10 then [digit_char n] else show_nat (n div 10) @ [digit_char (n mod 10)])"

declare show_nat.simps [simp del]

definition show_int :: "int \<Rightarrow> string" where
  "show_int n = (if n < 0 then CHR ''-'' # show_nat (nat (- n)) else show_nat (nat n))"

text \<open>
  \<open>strconv.ParseInt(s, 10, 64)\<close>: an optional sign and at least one digit, or an error; a
  value out of range is an error too. (With an explicit base 10, underscores are refused.)
\<close>

definition parse_int64 :: "string \<Rightarrow> int option" where
  "parse_int64 s =
     (let (neg, ds) = (case s of
          [] \<Rightarrow> (False, [])
        | c # cs \<Rightarrow> (if c = CHR ''-'' then (True, cs) else if c = CHR ''+'' then (False, cs)
                      else (False, c # cs)))
      in if ds = [] \<or> \<not> list_all is_digit ds then None
         else let v = (if neg then - int (digits_val 0 ds) else int (digits_val 0 ds))
              in if in_int64 v then Some v else None)"

lemma digit_char_code: "d < 10 \<Longrightarrow> code (digit_char d) = 48 + d"
  by (simp add: digit_char_def)

lemma digit_char_digit: "d < 10 \<Longrightarrow> is_digit (digit_char d)"
  by (simp add: is_digit_def digit_char_code)

lemma digit_val_char: "d < 10 \<Longrightarrow> digit_val (digit_char d) = d"
  by (simp add: digit_val_def digit_char_code)

lemma digits_val_append: "digits_val acc (s @ t) = digits_val (digits_val acc s) t"
  by (induction s arbitrary: acc) auto

lemma show_nat_digits: "list_all is_digit (show_nat n)"
proof (induction n rule: show_nat.induct)
  case (1 n)
  show ?case
  proof (cases "n < 10")
    case True
    then show ?thesis by (subst show_nat.simps) (simp add: digit_char_digit)
  next
    case False
    with 1 have "list_all is_digit (show_nat (n div 10))" by simp
    with False show ?thesis by (subst show_nat.simps) (simp add: digit_char_digit)
  qed
qed

lemma show_nat_not_Nil [simp]: "show_nat n \<noteq> []"
  by (subst show_nat.simps) simp

lemma digits_val_show [simp]: "digits_val 0 (show_nat n) = n"
proof (induction n rule: show_nat.induct)
  case (1 n)
  show ?case
  proof (cases "n < 10")
    case True
    then show ?thesis by (subst show_nat.simps) (simp add: digit_val_char)
  next
    case False
    with 1 have "digits_val 0 (show_nat (n div 10)) = n div 10" by simp
    with False show ?thesis
      by (subst show_nat.simps) (simp add: digits_val_append digit_val_char)
  qed
qed

lemma hd_show_nat_digit: "is_digit (hd (show_nat n))"
  using show_nat_digits [of n] by (cases "show_nat n") auto

lemma digit_not_sign: "is_digit c \<Longrightarrow> c \<noteq> CHR ''-'' \<and> c \<noteq> CHR ''+''"
  by (auto simp: is_digit_def)

lemma show_int_inj: "show_int m = show_int n \<Longrightarrow> m = n"
proof -
  assume eq: "show_int m = show_int n"
  have neq: "show_nat k \<noteq> CHR ''-'' # t" for k t
    using hd_show_nat_digit [of k] digit_not_sign by (cases "show_nat k") force+
  have inj: "show_nat k = show_nat l \<Longrightarrow> k = l" for k l
    by (metis digits_val_show)
  show ?thesis
    using eq neq neq [symmetric] by (auto simp: show_int_def split: if_splits dest!: inj)
qed

text \<open>Reading back what was printed.\<close>

lemma parse_show_int: "in_int64 n \<Longrightarrow> parse_int64 (show_int n) = Some n"
proof (cases "n < 0")
  case True
  assume "in_int64 n"
  with True show ?thesis
    using show_nat_digits [of "nat (- n)"] by (simp add: parse_int64_def show_int_def)
next
  case False
  assume n: "in_int64 n"
  obtain c cs where c: "show_nat (nat n) = c # cs"
    by (cases "show_nat (nat n)") auto
  with show_nat_digits [of "nat n"] have d: "is_digit c" "list_all is_digit (c # cs)" by auto
  from c have "digits_val 0 (c # cs) = nat n" by (metis digits_val_show)
  with d c False n show ?thesis
    using digit_not_sign [OF d(1)] by (simp add: parse_int64_def show_int_def)
qed


subsection \<open>Package path/filepath\<close>

text \<open>
  \<open>filepath.Clean\<close> drops empty and \<open>.\<close> elements and lets \<open>..\<close> remove the element before it;
  \<open>filepath.Join\<close> joins with slashes and cleans the result.
\<close>

fun clean_step :: "bool \<Rightarrow> string list \<Rightarrow> string \<Rightarrow> string list" where
  "clean_step rooted st c =
     (if c = [] \<or> c = ''.'' then st
      else if c = ''..'' then
        (case st of
           [] \<Rightarrow> (if rooted then [] else [''..''])
         | t # ts \<Rightarrow> (if t = ''..'' then ''..'' # st else ts))
      else c # st)"

definition path_clean :: "string \<Rightarrow> string" where
  "path_clean p =
     (let rooted = has_prefix p ''/'';
          st = foldl (clean_step rooted) [] (split_on (CHR ''/'') p);
          r = join_with ''/'' (rev st)
      in if rooted then CHR ''/'' # r else if r = [] then ''.'' else r)"

definition path_join :: "string list \<Rightarrow> string" where
  "path_join elems =
     (case dropWhile (\<lambda>e. e = []) elems of
        [] \<Rightarrow> []
      | es \<Rightarrow> path_clean (join_with ''/'' es))"

definition path_base :: "string \<Rightarrow> string" where
  "path_base p =
     (if p = [] then ''.''
      else let q = trim_right_of (\<lambda>c. c = CHR ''/'') p
           in if q = [] then ''/'' else last (split_on (CHR ''/'') q))"

definition path_dir :: "string \<Rightarrow> string" where
  "path_dir p =
     (case last_index p (CHR ''/'') of
        None \<Rightarrow> ''.''
      | Some i \<Rightarrow> path_clean (take (Suc i) p))"

text \<open>A path element that \<open>filepath.Join\<close> leaves as it is.\<close>

definition plain_elem :: "string \<Rightarrow> bool" where
  "plain_elem e \<longleftrightarrow> e \<noteq> [] \<and> e \<noteq> ''.'' \<and> e \<noteq> ''..'' \<and> CHR ''/'' \<notin> set e"

lemma foldl_clean_plain:
  "\<forall>e\<in>set es. plain_elem e \<Longrightarrow> foldl (clean_step r) st es = rev es @ st"
  by (induction es arbitrary: st) (auto simp: plain_elem_def)

lemma path_clean_plain:
  assumes "\<forall>e\<in>set es. plain_elem e"
  shows "path_clean (CHR ''/'' # join_with ''/'' es) = CHR ''/'' # join_with ''/'' es"
proof (cases es)
  case Nil
  then show ?thesis by (simp add: path_clean_def)
next
  case (Cons e es')
  then have "split_on (CHR ''/'') (join_with ''/'' es) = es"
    using assms by (intro split_join) (auto simp: plain_elem_def)
  then show ?thesis
    using foldl_clean_plain [OF assms] by (simp add: path_clean_def)
qed

lemma path_join_plain:
  assumes "ds \<noteq> []" "\<forall>e\<in>set (ds @ es). plain_elem e" "es \<noteq> []"
  shows "path_join ((CHR ''/'' # join_with ''/'' ds) # es) =
         CHR ''/'' # join_with ''/'' (ds @ es)"
proof -
  have app: "join_with s (xs @ ys) = join_with s xs @ s @ join_with s ys"
    if "xs \<noteq> []" "ys \<noteq> []" for s :: string and xs ys
    using that by (induction s xs rule: join_with.induct) (auto simp: join_with_Cons)
  have "join_with ''/'' ((CHR ''/'' # join_with ''/'' ds) # es) =
        CHR ''/'' # join_with ''/'' (ds @ es)"
    using assms(1,3) by (simp add: join_with_Cons app)
  then show ?thesis
    using path_clean_plain [OF assms(2)] by (simp add: path_join_def)
qed

lemmas go_string_defs [go_defs] =
  trim_prefix_def trim_suffix_def cut_prefix_def has_suffix_def str_contains_def cut_def
  trim_left_of_def trim_right_of_def trim_of_def trim_space_def is_space_def str_fields_def
  replace_char_def count_char_def lower_char_def upper_char_def to_lower_def to_upper_def
  path_clean_def path_join_def path_base_def path_dir_def newline_def is_digit_def
  digit_val_def digit_char_def

end
