(* ===== verification/Utf8.thy ===== *)
theory Utf8
  imports Prelude
begin

text \<open>
  The parts of Go's \<open>unicode/utf8\<close> package that the console filter, the journal writer and
  \<open>printable\<close> call: \<open>FullRune\<close>, \<open>DecodeRune\<close> and the iteration of a string by runes. A rune
  is a natural number. \<open>enc\<close> is the encoding that the decoder inverts; \<open>decode_encode\<close> and
  \<open>decode_sound\<close> say that a decoded rune is a valid one and its bytes are its encoding.
\<close>

definition rune_error :: nat where
  "rune_error = 65533"

definition valid_rune :: "nat \<Rightarrow> bool" where
  "valid_rune r \<longleftrightarrow> r < 55296 \<or> (57344 \<le> r \<and> r < 1114112)"

text \<open>The size that a first byte announces and the range of its second byte.\<close>

definition first_info :: "nat \<Rightarrow> nat \<times> nat \<times> nat" where
  "first_info x =
     (if x < 194 then (1, 0, 0)
      else if x < 224 then (2, 128, 191)
      else if x = 224 then (3, 160, 191)
      else if x = 237 then (3, 128, 159)
      else if x < 240 then (3, 128, 191)
      else if x = 240 then (4, 144, 191)
      else if x < 244 then (4, 128, 191)
      else if x = 244 then (4, 128, 143)
      else (1, 0, 0))"

definition is_cont :: "nat \<Rightarrow> bool" where
  "is_cont b \<longleftrightarrow> 128 \<le> b \<and> b \<le> 191"

definition full_nat :: "nat list \<Rightarrow> bool" where
  "full_nat p = (case p of
      [] \<Rightarrow> False
    | b # bs \<Rightarrow>
       (let (n, lo, hi) = first_info b in
        if n \<le> length p then True
        else (case bs of
            [] \<Rightarrow> False
          | b1 # bs1 \<Rightarrow>
             (if b1 < lo \<or> hi < b1 then True
              else (case bs1 of [] \<Rightarrow> False | b2 # _ \<Rightarrow> \<not> is_cont b2)))))"

definition decode_nat :: "nat list \<Rightarrow> nat \<times> nat" where
  "decode_nat p = (case p of
      [] \<Rightarrow> (rune_error, 0)
    | b # bs \<Rightarrow>
       (if b < 128 then (b, 1)
        else let (n, lo, hi) = first_info b in
          if n = 1 \<or> length p < n \<or> p ! 1 < lo \<or> hi < p ! 1 then (rune_error, 1)
          else if n = 2 then (b mod 32 * 64 + p ! 1 mod 64, 2)
          else if \<not> is_cont (p ! 2) then (rune_error, 1)
          else if n = 3 then (b mod 16 * 4096 + p ! 1 mod 64 * 64 + p ! 2 mod 64, 3)
          else if \<not> is_cont (p ! 3) then (rune_error, 1)
          else (b mod 8 * 262144 + p ! 1 mod 64 * 4096 + p ! 2 mod 64 * 64 + p ! 3 mod 64, 4)))"

definition enc_nat :: "nat \<Rightarrow> nat list" where
  "enc_nat r =
     (if r < 128 then [r]
      else if r < 2048 then [192 + r div 64, 128 + r mod 64]
      else if r < 65536 then [224 + r div 4096, 128 + r div 64 mod 64, 128 + r mod 64]
      else [240 + r div 262144, 128 + r div 4096 mod 64, 128 + r div 64 mod 64, 128 + r mod 64])"

definition full_rune :: "byte list \<Rightarrow> bool" where
  "full_rune p = full_nat (map unat p)"

definition decode_rune :: "byte list \<Rightarrow> nat \<times> nat" where
  "decode_rune p = decode_nat (map unat p)"

definition enc :: "nat \<Rightarrow> byte list" where
  "enc r = map of_nat (enc_nat r)"

lemmas utf8_defs [go_defs] =
  first_info_def is_cont_def full_nat_def decode_nat_def enc_nat_def full_rune_def
  decode_rune_def enc_def rune_error_def valid_rune_def

text \<open>A rune split into its base-64 digits.\<close>

lemma rune_digits2: "\<exists>a b. (r :: nat) = a * 64 + b \<and> b < 64"
  by (rule exI [of _ "r div 64"], rule exI [of _ "r mod 64"]) simp

lemma rune_digits3: "\<exists>a b c. (r :: nat) = a * 4096 + b * 64 + c \<and> b < 64 \<and> c < 64"
proof -
  obtain x c where "r = x * 64 + c" "c < 64" using rune_digits2 by blast
  moreover obtain a b where "x = a * 64 + b" "b < 64" using rune_digits2 by blast
  ultimately show ?thesis by (intro exI [of _ a] exI [of _ b] exI [of _ c]) simp
qed

lemma rune_digits4:
  "\<exists>a b c d. (r :: nat) = a * 262144 + b * 4096 + c * 64 + d \<and> b < 64 \<and> c < 64 \<and> d < 64"
proof -
  obtain x c d where "r = x * 4096 + c * 64 + d" "c < 64" "d < 64" using rune_digits3 by blast
  moreover obtain a b where "x = a * 64 + b" "b < 64" using rune_digits2 by blast
  ultimately show ?thesis
    by (intro exI [of _ a] exI [of _ b] exI [of _ c] exI [of _ d]) simp
qed

lemma low_digit: "c < 64 \<Longrightarrow> (x * 64 + c) div 64 = (x :: nat)" "c < 64 \<Longrightarrow> (x * 64 + c) mod 64 = c"
  by simp_all

lemma digits3_div_mod:
  assumes "b < 64" "c < 64"
  shows "(a * 4096 + b * 64 + c) div 4096 = (a :: nat)"
    and "(a * 4096 + b * 64 + c) div 64 mod 64 = b"
    and "(a * 4096 + b * 64 + c) mod 64 = c"
proof -
  have r: "a * 4096 + b * 64 + c = (a * 64 + b) * 64 + c" by simp
  have h: "n div 4096 = n div 64 div 64" for n :: nat
    by (simp only: div_mult2_eq [symmetric]) simp
  show "(a * 4096 + b * 64 + c) mod 64 = c" by (simp only: r low_digit assms)
  show "(a * 4096 + b * 64 + c) div 64 mod 64 = b" by (simp only: r low_digit assms)
  show "(a * 4096 + b * 64 + c) div 4096 = a" by (simp only: h) (simp only: r low_digit assms)
qed

lemma digits4_div_mod:
  assumes "b < 64" "c < 64" "d < 64"
  shows "(a * 262144 + b * 4096 + c * 64 + d) div 262144 = (a :: nat)"
    and "(a * 262144 + b * 4096 + c * 64 + d) div 4096 mod 64 = b"
    and "(a * 262144 + b * 4096 + c * 64 + d) div 64 mod 64 = c"
    and "(a * 262144 + b * 4096 + c * 64 + d) mod 64 = d"
proof -
  let ?r = "a * 262144 + b * 4096 + c * 64 + d"
  have r: "?r = ((a * 64 + b) * 64 + c) * 64 + d" by simp
  have h: "n div 262144 = n div 64 div 64 div 64" "n div 4096 = n div 64 div 64" for n :: nat
    by (simp_all only: div_mult2_eq [symmetric]) simp_all
  show "?r mod 64 = d" by (simp only: r low_digit assms)
  show "?r div 64 mod 64 = c" by (simp only: r low_digit assms)
  show "?r div 4096 mod 64 = b" by (simp only: h) (simp only: r low_digit assms)
  show "?r div 262144 = a" by (simp only: h) (simp only: r low_digit assms)
qed

text \<open>The leading bits that the encoder sets and the decoder masks off.\<close>

lemma lead_bits:
  "a < 32 \<Longrightarrow> (192 + a) mod 32 = (a :: nat)"
  "a < 16 \<Longrightarrow> (224 + a) mod 16 = (a :: nat)"
  "a < 8 \<Longrightarrow> (240 + a) mod 8 = (a :: nat)"
  "b < 64 \<Longrightarrow> (128 + b) mod 64 = (b :: nat)"
  using mod_mult_self1 [of a 6 32] mod_mult_self1 [of a 14 16] mod_mult_self1 [of a 30 8]
    mod_mult_self1 [of b 2 64]
  by (simp_all add: add.commute)

lemma first_info_lead:
  "a < 16 \<Longrightarrow> first_info (224 + a) =
     (3, if a = 0 then 160 else 128, if a = 13 then 159 else 191)"
  "a < 5 \<Longrightarrow> first_info (240 + a) =
     (4, if a = 0 then 144 else 128, if a = 4 then 143 else 191)"
  by (auto simp: first_info_def)

text \<open>The encoding of a rune by its digits.\<close>

lemma enc_nat_cases:
  assumes "valid_rune r"
  obtains "r < 128" "enc_nat r = [r]"
  | a b where "128 \<le> r" "r < 2048" "r = a * 64 + b" "b < 64" "2 \<le> a" "a < 32"
      "enc_nat r = [192 + a, 128 + b]"
  | a b c where "2048 \<le> r" "r < 65536" "r = a * 4096 + b * 64 + c" "b < 64" "c < 64" "a < 16"
      "enc_nat r = [224 + a, 128 + b, 128 + c]"
  | a b c d where "65536 \<le> r" "r < 1114112" "r = a * 262144 + b * 4096 + c * 64 + d"
      "b < 64" "c < 64" "d < 64" "a < 5"
      "enc_nat r = [240 + a, 128 + b, 128 + c, 128 + d]"
proof -
  consider "r < 128" | "128 \<le> r" "r < 2048" | "2048 \<le> r" "r < 65536" | "65536 \<le> r" "r < 1114112"
    using assms unfolding valid_rune_def by linarith
  then show thesis
  proof cases
    case 1
    then show ?thesis by (intro that(1)) (simp_all add: enc_nat_def)
  next
    case 2
    obtain a b where "r = a * 64 + b" "b < 64" using rune_digits2 by blast
    with 2 show ?thesis by (intro that(2) [of a b]) (simp_all add: enc_nat_def)
  next
    case 3
    obtain a b c where d: "r = a * 4096 + b * 64 + c" "b < 64" "c < 64"
      using rune_digits3 by blast
    with 3 digits3_div_mod [OF d(2,3), of a, folded d(1)] show ?thesis
      by (intro that(3) [of a b c]) (simp_all add: enc_nat_def)
  next
    case 4
    obtain a b c d where d: "r = a * 262144 + b * 4096 + c * 64 + d" "b < 64" "c < 64" "d < 64"
      using rune_digits4 by blast
    then have "a < 5" using 4 by linarith
    moreover have "enc_nat r = [240 + a, 128 + b, 128 + c, 128 + d]"
      using 4 digits4_div_mod [OF d(2-4), of a, folded d(1)] by (simp add: enc_nat_def)
    ultimately show ?thesis using 4 d by (intro that(4)) assumption+
  qed
qed

lemma enc_nat_bytes: "valid_rune r \<Longrightarrow> x \<in> set (enc_nat r) \<Longrightarrow> x < 256"
  by (erule enc_nat_cases) auto

lemma unat_enc: "valid_rune r \<Longrightarrow> map unat (enc r) = enc_nat r"
  using enc_nat_bytes [of r] by (auto simp: enc_def unat_of_nat intro!: map_idI)

lemma enc_ascii: "r < 128 \<Longrightarrow> enc r = [of_nat r]"
  by (simp add: enc_def enc_nat_def)

lemma enc_not_Nil [simp]: "enc r \<noteq> []"
  by (simp add: enc_def enc_nat_def)

lemma decode_enc_nat:
  assumes "valid_rune r"
  shows "decode_nat (enc_nat r @ rest) = (r, length (enc_nat r))"
  using assms
proof (cases rule: enc_nat_cases)
  case 1
  then show ?thesis by (simp add: decode_nat_def)
next
  case (2 a b)
  then show ?thesis by (simp add: decode_nat_def first_info_def lead_bits)
next
  case (3 a b c)
  have "224 + a = 224 \<Longrightarrow> 32 \<le> b" using 3 by simp
  moreover have "224 + a = 237 \<Longrightarrow> b < 32" using 3 assms by (simp add: valid_rune_def)
  ultimately show ?thesis
    using 3 by (auto simp: decode_nat_def first_info_def is_cont_def numeral_2_eq_2 lead_bits)
next
  case (4 a b c d)
  have "a = 0 \<Longrightarrow> 16 \<le> b" using 4 by simp
  moreover have "a = 4 \<Longrightarrow> b < 16" using 4 by simp
  ultimately show ?thesis
    using 4
    by (auto simp: decode_nat_def first_info_def is_cont_def numeral_2_eq_2 numeral_3_eq_3 lead_bits)
qed

theorem decode_encode:
  assumes "valid_rune r"
  shows "decode_rune (enc r @ rest) = (r, length (enc r))"
  using decode_enc_nat [OF assms, of "map unat rest"] unat_enc [OF assms]
  by (simp add: decode_rune_def enc_def)

lemma take_enc_nat:
  assumes "p \<noteq> []" "\<forall>x\<in>set p. x < 256" "decode_nat p = (r, n)" "\<not> (r = rune_error \<and> n = 1)"
  shows "valid_rune r \<and> n \<le> length p \<and> take n p = enc_nat r"
proof -
  obtain b bs where p: "p = b # bs" using assms(1) by (cases p) auto
  obtain m lo hi where i: "first_info b = (m, lo, hi)" by (cases "first_info b") auto
  show ?thesis
  proof (cases "b < 128")
    case True
    with assms p show ?thesis by (auto simp: decode_nat_def enc_nat_def valid_rune_def)
  next
    case False
    with assms(3,4) p i have m: "m \<noteq> 1" "m \<le> length p" "lo \<le> p ! 1" "p ! 1 \<le> hi"
      by (auto simp: decode_nat_def split: if_splits)
    have m234: "m = 2 \<or> m = 3 \<or> m = 4"
      using i m(1) by (auto simp: first_info_def split: if_splits)
    from m(2) m234 p obtain b1 bs1 where bs: "bs = b1 # bs1" by (cases bs) auto
    have b1: "lo \<le> b1" "b1 \<le> hi" using m(3,4) p bs by simp_all
    consider (two) "m = 2" | (three) "m = 3" | (four) "m = 4" using m234 by blast
    then show ?thesis
    proof cases
      case two
      then have "194 \<le> b" "b < 224" "128 \<le> b1" "b1 < 192"
        using i b1 by (auto simp: first_info_def split: if_splits)
      moreover have "192 \<le> b" using calculation by simp
      moreover obtain k l where k: "b = 192 + k" "b1 = 128 + l"
        using calculation by (meson le_iff_add)
      ultimately have "k < 32" "2 \<le> k" "l < 64" by simp_all
      then show ?thesis
        using assms(3) p i bs two False m k
        by (auto simp: decode_nat_def enc_nat_def valid_rune_def lead_bits)
    next
      case three
      with m(2) p bs obtain b2 bs2 where bs1: "bs1 = b2 # bs2" by (cases bs1) auto
      from three have r: "224 \<le> b" "b < 240" "128 \<le> b1" "b1 < 192" "b = 224 \<longrightarrow> 160 \<le> b1"
        "b = 237 \<longrightarrow> b1 < 160"
        using i b1 by (auto simp: first_info_def split: if_splits)
      have c: "128 \<le> b2" "b2 < 192"
        using assms(3,4) p i bs bs1 three False m
        by (auto simp: decode_nat_def is_cont_def split: if_splits)
      obtain k l j where k: "b = 224 + k" "b1 = 128 + l" "b2 = 128 + j"
        using r c by (meson le_iff_add)
      have "k < 16" "l < 64" "j < 64" using r c k by simp_all
      moreover have "r = k * 4096 + l * 64 + j" "n = 3"
        using assms(3) p i bs bs1 three False m c k calculation
        by (auto simp: decode_nat_def is_cont_def numeral_2_eq_2 lead_bits)
      moreover have kl: "k = 0 \<longrightarrow> 32 \<le> l" "k = 13 \<longrightarrow> l < 32" using r k by simp_all
      moreover have "valid_rune (k * 4096 + l * 64 + j)"
      proof -
        consider "k < 13" | "k = 13" | "14 \<le> k" by linarith
        then show ?thesis
          using kl(2) \<open>k < 16\<close> \<open>l < 64\<close> \<open>j < 64\<close> unfolding valid_rune_def by cases linarith+
      qed
      moreover have "\<not> k * 4096 + l * 64 + j < 2048"
        using kl(1) by (cases "k = 0") linarith+
      moreover note digits3_div_mod [of l j k]
      ultimately show ?thesis
        using p bs bs1 k by (auto simp: enc_nat_def numeral_3_eq_3)
    next
      case four
      with m(2) p bs obtain b2 b3 bs3 where bs1: "bs1 = b2 # b3 # bs3"
        by (cases bs1; cases "tl bs1") auto
      from four have r: "240 \<le> b" "b < 245" "128 \<le> b1" "b1 < 192" "b = 240 \<longrightarrow> 144 \<le> b1"
        "b = 244 \<longrightarrow> b1 < 144"
        using i b1 by (auto simp: first_info_def split: if_splits)
      have c: "128 \<le> b2" "b2 < 192" "128 \<le> b3" "b3 < 192"
        using assms(3,4) p i bs bs1 four False m
        by (auto simp: decode_nat_def is_cont_def split: if_splits)
      obtain k l j h where k: "b = 240 + k" "b1 = 128 + l" "b2 = 128 + j" "b3 = 128 + h"
        using r c by (meson le_iff_add)
      have "k < 5" "l < 64" "j < 64" "h < 64" using r c k by simp_all
      moreover have rk: "r = k * 262144 + l * 4096 + j * 64 + h" and n: "n = 4"
        using assms(3) p i bs bs1 four False m c k calculation
        by (auto simp: decode_nat_def is_cont_def numeral_2_eq_2 numeral_3_eq_3 lead_bits)
      moreover have "k = 0 \<longrightarrow> 16 \<le> l" "k = 4 \<longrightarrow> l < 16" using r k by simp_all
      ultimately have v: "65536 \<le> r" "r < 1114112" by (cases "k = 0"; cases "k = 4"; simp)+
      have "enc_nat r = [b, b1, b2, b3]"
        using v k digits4_div_mod [OF \<open>l < 64\<close> \<open>j < 64\<close> \<open>h < 64\<close>, of k, folded rk]
        by (simp add: enc_nat_def)
      then show ?thesis
        using p bs bs1 n v by (simp add: valid_rune_def)
    qed
  qed
qed

text \<open>What the decoder returns for bytes.\<close>

theorem decode_sound:
  assumes "p \<noteq> []" "decode_rune p = (r, n)" "\<not> (r = rune_error \<and> n = 1)"
  shows "valid_rune r \<and> n \<le> length p \<and> take n p = enc r"
proof -
  have b: "\<forall>x\<in>set (map unat p). x < 256" using byte_bound by auto
  have d: "decode_nat (map unat p) = (r, n)" using assms(2) by (simp add: decode_rune_def)
  have t: "valid_rune r \<and> n \<le> length p \<and> take n (map unat p) = enc_nat r"
    using take_enc_nat [OF _ b d assms(3)] assms(1) by simp
  have "map of_nat (map unat q) = q" for q :: "byte list"
    by (simp add: comp_def)
  then have "take n p = map of_nat (take n (map unat p))"
    by (simp only: take_map)
  also have "\<dots> = enc r"
    using t by (simp only: enc_def)
  finally show ?thesis using t by simp
qed

lemma decode_nat_size:
  assumes "p \<noteq> []" "decode_nat p = (r, n)"
  shows "1 \<le> n \<and> n \<le> length p"
proof -
  obtain b bs where p: "p = b # bs" using assms(1) by (cases p) auto
  obtain m lo hi where i: "first_info b = (m, lo, hi)" by (cases "first_info b") auto
  then have "m = 1 \<or> m = 2 \<or> m = 3 \<or> m = 4"
    by (auto simp: first_info_def split: if_splits)
  moreover have "n = 1 \<or> (n = m \<and> m \<le> length p) \<or> (n = 4 \<and> m \<noteq> 2 \<and> m \<noteq> 3 \<and> m \<noteq> 1 \<and> m \<le> length p)"
    using assms(2) p i by (auto simp: decode_nat_def split: if_splits)
  ultimately show ?thesis using p by auto
qed

lemma decode_size: "p \<noteq> [] \<Longrightarrow> decode_rune p = (r, n) \<Longrightarrow> 1 \<le> n \<and> n \<le> length p"
  using decode_nat_size [of "map unat p"] by (simp add: decode_rune_def)

text \<open>Less than a whole rune is at most three bytes, and starts with a byte of at least 194.\<close>

lemma not_full_bound: "\<not> full_rune p \<Longrightarrow> length p \<le> 3"
  by (cases p) (auto simp: full_rune_def full_nat_def first_info_def split: if_splits)

lemma not_full_first: "p \<noteq> [] \<Longrightarrow> \<not> full_rune p \<Longrightarrow> 194 \<le> unat (hd p)"
  by (cases p) (auto simp: full_rune_def full_nat_def first_info_def split: if_splits)

lemma full_rune_enc:
  assumes "valid_rune r"
  shows "full_rune (enc r)"
proof -
  have "full_nat (enc_nat r)"
    using assms
    by (cases rule: enc_nat_cases) (simp_all add: full_nat_def first_info_lead first_info_def)
  then show ?thesis by (simp add: full_rune_def unat_enc assms)
qed

lemma not_full_prefix:
  assumes "valid_rune r" "0 < k" "k < length (enc r)"
  shows "\<not> full_rune (take k (enc r))"
proof -
  have l: "length (enc r) = length (enc_nat r)" by (simp add: enc_def)
  have t: "map unat (take k (enc r)) = take k (enc_nat r)"
    by (simp add: take_map [symmetric] unat_enc assms(1))
  show ?thesis
    using assms(1)
  proof (cases rule: enc_nat_cases)
    case 1
    with assms l show ?thesis by simp
  next
    case (2 a b)
    with assms l have "k = 1" by simp
    with 2 t show ?thesis by (simp add: full_rune_def full_nat_def first_info_def)
  next
    case (3 a b c)
    with assms l have "k = 1 \<or> k = 2" by auto
    moreover have "224 + a = 224 \<Longrightarrow> 32 \<le> b" using 3 by simp
    moreover have "224 + a = 237 \<Longrightarrow> b < 32" using 3 assms by (simp add: valid_rune_def)
    ultimately show ?thesis
      using 3 t
      by (auto simp: full_rune_def full_nat_def first_info_lead numeral_2_eq_2 split: if_splits)
  next
    case (4 a b c d)
    with assms l have "k = 1 \<or> k = 2 \<or> k = 3" by auto
    moreover have "a = 0 \<Longrightarrow> 16 \<le> b" "a = 4 \<Longrightarrow> b < 16" using 4 by simp_all
    ultimately show ?thesis
      using 4 t
      by (auto simp: full_rune_def full_nat_def first_info_lead is_cont_def numeral_2_eq_2
          numeral_3_eq_3 split: if_splits)
  qed
qed

text \<open>The runes of a string with their sizes, as Go's range loop visits them.\<close>

function runes_of :: "byte list \<Rightarrow> (nat \<times> byte list) list" where
  "runes_of p =
     (if p = [] then []
      else (fst (decode_rune p), take (snd (decode_rune p)) p) #
           runes_of (drop (snd (decode_rune p)) p))"
  by pat_completeness auto
termination
proof (relation "measure length")
  fix p :: "byte list"
  assume "p \<noteq> []"
  with decode_size [of p "fst (decode_rune p)" "snd (decode_rune p)"]
  show "(drop (snd (decode_rune p)) p, p) \<in> measure length"
    by simp
qed simp

declare runes_of.simps [simp del]

lemma runes_of_enc: "valid_rune r \<Longrightarrow> runes_of (enc r @ p) = (r, enc r) # runes_of p"
  by (subst runes_of.simps) (simp add: decode_encode)

lemma runes_of_Nil [simp]: "runes_of [] = []"
  by (simp add: runes_of.simps)

text \<open>Valid UTF-8 is a sequence of encoded runes.\<close>

definition encs :: "nat list \<Rightarrow> byte list" where
  "encs rs = concat (map enc rs)"

lemma encs_simps [simp]: "encs [] = []" "encs (r # rs) = enc r @ encs rs" "encs (rs @ qs) = encs rs @ encs qs"
  by (simp_all add: encs_def)

lemma runes_of_encs: "\<forall>r\<in>set rs. valid_rune r \<Longrightarrow> runes_of (encs rs) = map (\<lambda>r. (r, enc r)) rs"
  by (induction rs) (simp_all add: runes_of_enc)

end
