(* ===== verification/Streams.thy ===== *)
theory Streams
  imports Utf8
begin

text \<open>
  The interface of a component that is fed bytes and emits output, in whatever pieces the reads
  deliver them: the console filter and the journal's line writer. The laws a provider promises
  are that feeding a concatenation is feeding its parts in order, that its invariant is kept,
  and that what it emits is acceptable. The client's lemmas are the independence of the chunks
  and the safety of everything that a whole stream emits.
\<close>

fun run_chunks :: "('s \<Rightarrow> byte list \<Rightarrow> 's \<times> 'o list) \<Rightarrow> 's \<Rightarrow> byte list list \<Rightarrow> 's \<times> 'o list" where
  "run_chunks w s [] = (s, [])"
| "run_chunks w s (c # cs) =
     (let (s', o1) = w s c; (s'', o2) = run_chunks w s' cs in (s'', o1 @ o2))"

locale byte_stage =
  fixes step :: "'s \<Rightarrow> byte list \<Rightarrow> 's \<times> 'o list"
    and inv :: "'s \<Rightarrow> bool"
    and good :: "'o list \<Rightarrow> bool"
  assumes step_Nil: "step s [] = (s, [])"
    and step_append: "step s (xs @ ys) =
      (let (s', o1) = step s xs; (s'', o2) = step s' ys in (s'', o1 @ o2))"
    and step_inv: "inv s \<Longrightarrow> inv (fst (step s xs))"
    and step_good: "inv s \<Longrightarrow> good (snd (step s xs))"
begin

lemma chunks_concat: "run_chunks step s cs = step s (concat cs)"
  by (induction cs arbitrary: s) (simp_all add: step_Nil step_append)

lemma chunks_good: "inv s \<Longrightarrow> good (snd (run_chunks step s cs))"
  by (simp add: chunks_concat step_good)

lemma chunks_inv: "inv s \<Longrightarrow> inv (fst (run_chunks step s cs))"
  by (simp add: chunks_concat step_inv)

lemma same_bytes_same_output: "concat cs = concat ds \<Longrightarrow> run_chunks step s cs = run_chunks step s ds"
  by (simp add: chunks_concat)

end

end
