(* ===== verification/EscapeFilter.thy ===== *)
theory EscapeFilter
  imports Streams
begin

text \<open>
  \<open>escapeFilter\<close> of cmd/invirtio/console.go, through which the console client passes the
  guest's output to the operator's terminal. The record is the Go struct without its writer,
  the state is its \<open>iota\<close> enumeration, and \<open>feed_step\<close> and \<open>filter_text\<close> are the bodies of
  \<open>feed\<close> and \<open>text\<close>. The Go \<open>text\<close> feeds the bytes that follow an invalid sequence again; the
  model returns them, and \<open>feed_all\<close> puts them in front of the bytes still to feed. The
  theorems are against \<open>terminal_safe\<close>, a terminal that decodes UTF-8 and follows ECMA-48.
\<close>

datatype filter_state = FilterText | FilterEscape | FilterString | FilterStringEscape | FilterDrop

record escape_filter =
  ef_state :: filter_state
  ef_pending :: "byte list"

definition new_filter :: escape_filter where
  "new_filter = \<lparr>ef_state = FilterText, ef_pending = []\<rparr>"

definition opens_string :: "nat \<Rightarrow> bool" where
  "opens_string c \<longleftrightarrow> c \<in> {0x5d, 0x50, 0x58, 0x5e, 0x5f, 0x6b, 0x9d, 0x90, 0x98, 0x9e, 0x9f}"

text \<open>The intermediate bytes of the character set designations, \<open>()*+-./\<close>.\<close>

definition designates :: "nat \<Rightarrow> bool" where
  "designates c \<longleftrightarrow> c \<in> {0x28, 0x29, 0x2a, 0x2b, 0x2d, 0x2e, 0x2f}"

definition filter_text ::
  "escape_filter \<Rightarrow> byte \<Rightarrow> byte list \<Rightarrow> escape_filter \<times> byte list \<times> byte list" where
  "filter_text f b out =
     (if ef_pending f = [] \<and> b < 0x80 then
        (if b = 0x1b then (f\<lparr>ef_state := FilterEscape\<rparr>, out, []) else (f, out @ [b], []))
      else
        let p = ef_pending f @ [b] in
        if \<not> full_rune p then (f\<lparr>ef_pending := p\<rparr>, out, [])
        else
          let (r, size) = decode_rune p;
              sq = take size p;
              rest = drop size p;
              f0 = f\<lparr>ef_pending := []\<rparr>
          in if r = rune_error \<and> size = 1 then
               (if opens_string (unat (hd sq)) then f0\<lparr>ef_state := FilterString\<rparr> else f0, out, rest)
             else if 0x80 \<le> r \<and> r \<le> 0x9f then
               (if opens_string r then f0\<lparr>ef_state := FilterString\<rparr> else f0, out, rest)
             else (f0, out @ sq, rest))"

definition feed_step ::
  "escape_filter \<Rightarrow> byte \<Rightarrow> byte list \<Rightarrow> escape_filter \<times> byte list \<times> byte list" where
  "feed_step f b out =
     (case ef_state f of
        FilterText \<Rightarrow> filter_text f b out
      | FilterEscape \<Rightarrow>
          (if b = 0x1b \<or> b = 0x7f then (f, out, [])
           else if b = 0x18 \<or> b = 0x1a then (f\<lparr>ef_state := FilterText\<rparr>, out @ [b], [])
           else if b < 0x20 then (f, out @ [b], [])
           else if 0x80 \<le> b then filter_text (f\<lparr>ef_state := FilterText\<rparr>) b out
           else if opens_string (unat b) then (f\<lparr>ef_state := FilterString\<rparr>, out, [])
           else if 0x20 \<le> b \<and> b \<le> 0x2f \<and> \<not> designates (unat b)
             then (f\<lparr>ef_state := FilterDrop\<rparr>, out, [])
           else (f\<lparr>ef_state := FilterText\<rparr>, out @ [0x1b, b], []))
      | FilterDrop \<Rightarrow>
          (if b = 0x1b then (f\<lparr>ef_state := FilterEscape\<rparr>, out, [])
           else if b = 0x18 \<or> b = 0x1a then (f\<lparr>ef_state := FilterText\<rparr>, out @ [b], [])
           else if b < 0x20 then (f, out @ [b], [])
           else if 0x30 \<le> b \<and> b \<le> 0x7e then (f\<lparr>ef_state := FilterText\<rparr>, out, [])
           else if 0x80 \<le> b then filter_text (f\<lparr>ef_state := FilterText\<rparr>) b out
           else (f, out, []))
      | s \<Rightarrow>
          (if b = 0x07 \<or> b = 0x9c \<or> (s = FilterStringEscape \<and> b = 0x5c)
             then (f\<lparr>ef_state := FilterText\<rparr>, out, [])
           else if b = 0x1b then (f\<lparr>ef_state := FilterStringEscape\<rparr>, out, [])
           else (f\<lparr>ef_state := FilterString\<rparr>, out, [])))"

text \<open>What one byte of text does: one case per path through the code.\<close>

lemma filter_text_cases:
  obtains (plain) "ef_pending f = []" "b < 0x80" "b \<noteq> 0x1b" "filter_text f b out = (f, out @ [b], [])"
  | (escape) "ef_pending f = []" "filter_text f b out = (f\<lparr>ef_state := FilterEscape\<rparr>, out, [])"
  | (wait) "\<not> full_rune (ef_pending f @ [b])"
      "filter_text f b out = (f\<lparr>ef_pending := ef_pending f @ [b]\<rparr>, out, [])"
  | (skip) r n s' where "decode_rune (ef_pending f @ [b]) = (r, n)" "s' = FilterString \<or> s' = ef_state f"
      "filter_text f b out =
        (f\<lparr>ef_pending := [], ef_state := s'\<rparr>, out, drop n (ef_pending f @ [b]))"
  | (emit) r n where "decode_rune (ef_pending f @ [b]) = (r, n)" "\<not> (r = rune_error \<and> n = 1)"
      "\<not> (0x80 \<le> r \<and> r \<le> 0x9f)" "\<not> (ef_pending f = [] \<and> b < 0x80)"
      "filter_text f b out =
        (f\<lparr>ef_pending := []\<rparr>, out @ take n (ef_pending f @ [b]), drop n (ef_pending f @ [b]))"
proof -
  obtain r n where d: "decode_rune (ef_pending f @ [b]) = (r, n)"
    by (cases "decode_rune (ef_pending f @ [b])") auto
  have e: "f\<lparr>ef_pending := [], ef_state := ef_state f\<rparr> = f\<lparr>ef_pending := []\<rparr>" by (cases f) simp
  show thesis
  proof (cases "ef_pending f = [] \<and> b < 0x80")
    case True
    then show ?thesis
      by (cases "b = 0x1b") (rule escape, simp_all add: filter_text_def, rule plain,
          simp_all add: filter_text_def)
  next
    case nt: False
    show ?thesis
    proof (cases "full_rune (ef_pending f @ [b])")
      case False
      with nt show ?thesis by (intro wait) (simp_all only: filter_text_def Let_def if_False if_True simp_thms)
    next
      case full: True
      consider "r = rune_error \<and> n = 1" | "\<not> (r = rune_error \<and> n = 1)" "0x80 \<le> r \<and> r \<le> 0x9f"
        | "\<not> (r = rune_error \<and> n = 1)" "\<not> (0x80 \<le> r \<and> r \<le> 0x9f)" by blast
      then show ?thesis
      proof cases
        case 1
        then show ?thesis
          using skip [OF d, of "if opens_string (unat (hd (take n (ef_pending f @ [b])))) then FilterString
              else ef_state f"] full nt d e
          by (simp add: filter_text_def split: if_splits)
      next
        case 2
        then show ?thesis
          using skip [OF d, of "if opens_string r then FilterString else ef_state f"] full nt d e
          by (auto simp add: filter_text_def split: if_splits)
      next
        case 3
        then show ?thesis
          by (intro emit [OF d]) (simp_all only: filter_text_def Let_def if_False if_True simp_thms nt full d
              prod.case)
      qed
    qed
  qed
qed

lemma filter_text_sizes:
  assumes "filter_text f b out = (f', out', rest)"
  shows "length rest + length (ef_pending f') \<le> length (ef_pending f) + 1 \<and>
    (rest \<noteq> [] \<longrightarrow> length rest + length (ef_pending f') < length (ef_pending f) + 1)"
proof -
  have n: "1 \<le> n \<and> n \<le> length (ef_pending f) + 1" if "decode_rune (ef_pending f @ [b]) = (r, n)" for r n
    using decode_size [OF _ that] by simp
  from filter_text_cases [of f b out] show ?thesis
  proof cases
    case (skip r n s')
    then show ?thesis using assms n [OF skip(1)] by auto
  next
    case (emit r n)
    then show ?thesis using assms n [OF emit(1)] by auto
  qed (use assms in auto)
qed

text \<open>A step treats its byte as text, or it moves to another state and keeps what is pending.\<close>

lemma feed_step_cases:
  "feed_step f b out = filter_text (f\<lparr>ef_state := FilterText\<rparr>) b out \<or>
   (\<exists>s' out'. feed_step f b out = (f\<lparr>ef_state := s'\<rparr>, out', []))"
proof -
  have keep: "\<exists>s' out'. (f, o1, []) = (f\<lparr>ef_state := s'\<rparr>, out', [])" for o1 :: "byte list"
    by (rule exI [of _ "ef_state f"]) (cases f, simp)
  have move: "\<exists>s' out'. (f\<lparr>ef_state := s\<rparr>, o1, []) = (f\<lparr>ef_state := s'\<rparr>, out', [])"
    for s and o1 :: "byte list"
    by blast
  show ?thesis
  proof (cases "ef_state f")
    case FilterText
    then have eq: "f\<lparr>ef_state := FilterText\<rparr> = f" by (cases f) simp
    show ?thesis by (simp only: eq feed_step_def FilterText filter_state.case simp_thms)
  qed (simp_all only: feed_step_def filter_state.case keep move simp_thms split: if_split)
qed

lemma feed_step_sizes:
  assumes "feed_step f b out = (f', out', rest)"
  shows "length rest + length (ef_pending f') \<le> length (ef_pending f) + 1"
    and "rest \<noteq> [] \<Longrightarrow> length rest + length (ef_pending f') < length (ef_pending f) + 1"
proof -
  have "length rest + length (ef_pending f') \<le> length (ef_pending f) + 1 \<and>
    (rest \<noteq> [] \<longrightarrow> length rest + length (ef_pending f') < length (ef_pending f) + 1)"
    using assms filter_text_sizes [of "f\<lparr>ef_state := FilterText\<rparr>" b out f' out' rest]
      feed_step_cases [of f b out]
    by auto
  then show "length rest + length (ef_pending f') \<le> length (ef_pending f) + 1"
    and "rest \<noteq> [] \<Longrightarrow> length rest + length (ef_pending f') < length (ef_pending f) + 1"
    by auto
qed

function feed_all :: "escape_filter \<Rightarrow> byte list \<Rightarrow> byte list \<Rightarrow> escape_filter \<times> byte list" where
  "feed_all f [] out = (f, out)"
| "feed_all f (b # bs) out =
     (case feed_step f b out of (f', out', rest) \<Rightarrow> feed_all f' (rest @ bs) out')"
  by pat_completeness auto
termination
proof (relation "measures [\<lambda>(f, bs, out). length bs + length (ef_pending f), \<lambda>(f, bs, out). length bs]",
    goal_cases)
  case (2 f b bs out f' y out' rest)
  then have "feed_step f b out = (f', out', rest)" by simp
  from feed_step_sizes [OF this] show ?case
    by (cases "rest = []") auto
qed simp

text \<open>\<open>feed\<close> of one byte, and \<open>Write\<close> with the bytes that go to the writer.\<close>

definition feed :: "escape_filter \<Rightarrow> byte \<Rightarrow> byte list \<Rightarrow> escape_filter \<times> byte list" where
  "feed f b out = feed_all f [b] out"

definition filter_write :: "escape_filter \<Rightarrow> byte list \<Rightarrow> escape_filter \<times> byte list" where
  "filter_write f p = feed_all f p []"

text \<open>The output so far is only appended to, and feeding is sequential.\<close>

lemma filter_text_out:
  "filter_text f b out = (let (f', w, rest) = filter_text f b [] in (f', out @ w, rest))"
  by (simp add: filter_text_def Let_def split: prod.split)

lemma feed_step_out:
  "feed_step f b out = (let (f', w, rest) = feed_step f b [] in (f', out @ w, rest))"
  using filter_text_out [of "f\<lparr>ef_state := FilterText\<rparr>" b out] filter_text_out [of f b out]
  by (cases "ef_state f") (simp_all add: feed_step_def)

lemma feed_all_out: "feed_all f bs out = (let (f', w) = feed_all f bs [] in (f', out @ w))"
proof -
  have "\<forall>out. feed_all f bs out = (let (f', w) = feed_all f bs [] in (f', out @ w))" for o0 :: "byte list"
  proof (induction f bs o0 rule: feed_all.induct)
    case (2 f b bs o0)
    obtain f' w rest where s: "feed_step f b [] = (f', w, rest)"
      by (cases "feed_step f b []") auto
    then have "feed_step f b o0 = (f', o0 @ w, rest)"
      using feed_step_out [of f b o0] by simp
    then have "\<forall>o1. feed_all f' (rest @ bs) o1 =
        (let (f'', v) = feed_all f' (rest @ bs) [] in (f'', o1 @ v))"
      by (intro "2.IH" [of f' "(o0 @ w, rest)"]) simp_all
    then have IH: "feed_all f' (rest @ bs) o1 =
        (let (f'', v) = feed_all f' (rest @ bs) [] in (f'', o1 @ v))" for o1
      by blast
    show ?case
    proof
      fix out
      show "feed_all f (b # bs) out = (let (f', w) = feed_all f (b # bs) [] in (f', out @ w))"
        using feed_step_out [of f b out] IH [of "out @ w"] IH [of w] s
        by (simp split: prod.splits)
    qed
  qed simp
  then show ?thesis by blast
qed

lemma feed_all_append:
  "feed_all f (xs @ ys) out = (let (f', w) = feed_all f xs out in feed_all f' ys w)"
  by (induction f xs out rule: feed_all.induct) (simp_all split: prod.split)

lemma feed_seq: "feed_all f (b # bs) out = (let (f', w) = feed f b out in feed_all f' bs w)"
  using feed_all_append [of f "[b]" bs out] by (simp add: feed_def)


text \<open>
  The loops of the source: \<open>Write\<close> feeds its bytes one after the other, and a step that has bytes
  left over feeds those before it returns.
\<close>

lemma feed_all_foldl: "feed_all f bs out = foldl (\<lambda>(g, w) b. feed g b w) (f, out) bs"
  by (induction bs arbitrary: f out) (simp_all add: feed_seq case_prod_unfold Let_def del: feed_all.simps(2))

lemma feed_refeeds:
  "feed_step f b out = (f', out', rest) \<Longrightarrow>
   feed f b out = foldl (\<lambda>(g, w) c. feed g c w) (f', out') rest"
  using feed_all_foldl [of f' rest out'] by (simp add: feed_def)


subsection \<open>What reaches the terminal\<close>

text \<open>
  The output is a sequence of tokens: an encoded rune that is neither ESC nor a C1 control, or
  ESC with a byte after it that neither opens a string nor begins a sequence other than a
  character set designation.
\<close>

datatype token = TRune nat | TEsc nat

definition c1_rune :: "nat \<Rightarrow> bool" where
  "c1_rune r \<longleftrightarrow> 128 \<le> r \<and> r \<le> 159"

fun tok_ok :: "token \<Rightarrow> bool" where
  "tok_ok (TRune r) = (valid_rune r \<and> r \<noteq> 27 \<and> \<not> c1_rune r)"
| "tok_ok (TEsc b) = (32 \<le> b \<and> b < 127 \<and> \<not> opens_string b \<and> (b \<le> 47 \<longrightarrow> designates b))"

fun tok_runes :: "token \<Rightarrow> nat list" where
  "tok_runes (TRune r) = [r]"
| "tok_runes (TEsc b) = [27, b]"

definition tok_bytes :: "token list \<Rightarrow> byte list" where
  "tok_bytes ts = encs (concat (map tok_runes ts))"

definition safe_out :: "byte list \<Rightarrow> bool" where
  "safe_out p \<longleftrightarrow> (\<exists>ts. list_all tok_ok ts \<and> p = tok_bytes ts)"

definition filter_inv :: "escape_filter \<Rightarrow> bool" where
  "filter_inv f \<longleftrightarrow> (ef_pending f \<noteq> [] \<longrightarrow> ef_state f = FilterText \<and> \<not> full_rune (ef_pending f))"

lemma tok_bytes_simps [simp]:
  "tok_bytes [] = []"
  "tok_bytes (t # ts) = encs (tok_runes t) @ tok_bytes ts"
  by (simp_all add: tok_bytes_def)

lemma safe_out_Nil [simp]: "safe_out []"
  by (auto simp: safe_out_def intro!: exI [of _ "[]"])

lemma safe_out_append: "safe_out p \<Longrightarrow> safe_out q \<Longrightarrow> safe_out (p @ q)"
  unfolding safe_out_def
proof (elim exE conjE)
  fix ts us
  assume "list_all tok_ok ts" "p = tok_bytes ts" "list_all tok_ok us" "q = tok_bytes us"
  then show "\<exists>ts. list_all tok_ok ts \<and> p @ q = tok_bytes ts"
    by (intro exI [of _ "ts @ us"]) (simp add: tok_bytes_def)
qed

lemma safe_rune: "tok_ok (TRune r) \<Longrightarrow> safe_out (enc r)"
  unfolding safe_out_def by (intro exI [of _ "[TRune r]"]) simp

lemma enc_byte: "b < 0x80 \<Longrightarrow> enc (unat b) = [b]"
  by (simp add: enc_ascii byte_nat)

lemma safe_byte: "b < 0x80 \<Longrightarrow> b \<noteq> 0x1b \<Longrightarrow> safe_out [b]"
  using safe_rune [of "unat b"] enc_byte [of b] by (simp add: byte_nat valid_rune_def c1_rune_def)

lemma safe_esc: "tok_ok (TEsc (unat b)) \<Longrightarrow> safe_out [0x1b, b]"
  unfolding safe_out_def
  using enc_byte [of b] by (intro exI [of _ "[TEsc (unat b)]"]) (simp add: byte_nat enc_ascii)

lemma filter_text_safe:
  assumes "filter_text f b [] = (f', w, rest)" "filter_inv f" "ef_state f = FilterText"
  shows "filter_inv f' \<and> safe_out w"
proof (cases rule: filter_text_cases [of f b "[]"])
  case plain
  with assms show ?thesis by (auto simp: safe_byte)
next
  case escape
  with assms show ?thesis by (auto simp: filter_inv_def)
next
  case wait
  with assms show ?thesis by (auto simp: filter_inv_def)
next
  case (skip r n s')
  with assms show ?thesis by (auto simp: filter_inv_def)
next
  case (emit r n)
  let ?p = "ef_pending f @ [b]"
  have v: "valid_rune r" "take n ?p = enc r" "n \<le> length ?p"
    using decode_sound [OF _ emit(1,2)] by auto
  have "1 \<le> n" using decode_size [OF _ emit(1)] by simp
  have "128 \<le> unat (hd ?p)"
  proof (cases "ef_pending f = []")
    case True
    with emit(4) show ?thesis by (simp add: byte_nat)
  next
    case False
    with assms(2) not_full_first [OF False] show ?thesis by (simp add: filter_inv_def)
  qed
  moreover have "hd (enc r) = hd ?p"
    using v(2) \<open>1 \<le> n\<close> by (metis hd_take le_zero_eq not_gr_zero zero_neq_one)
  ultimately have "r \<noteq> 27" by (auto simp: enc_ascii)
  then have "safe_out (take n ?p)"
    using v emit(3) by (simp add: safe_rune c1_rune_def)
  with emit assms show ?thesis by (auto simp: filter_inv_def)
qed

lemma feed_step_safe:
  assumes "feed_step f b [] = (f', w, rest)" "filter_inv f"
  shows "filter_inv f' \<and> safe_out w"
proof (cases "ef_state f = FilterText")
  case True
  with assms show ?thesis by (auto simp: feed_step_def dest: filter_text_safe)
next
  case nt: False
  with assms(2) have p: "ef_pending f = []" by (auto simp: filter_inv_def)
  then have i: "filter_inv (f\<lparr>ef_state := s\<rparr>)" for s by (simp add: filter_inv_def)
  have t: "filter_inv f' \<and> safe_out w"
    if "filter_text (f\<lparr>ef_state := FilterText\<rparr>) b [] = (f', w, rest)"
    using filter_text_safe [OF that i] by simp
  have c: "safe_out [b]" if "b < 0x20" "b \<noteq> 0x1b"
    using that by (intro safe_byte) (auto simp: byte_nat)
  have e: "safe_out [0x1b, b]"
    if "\<not> b < 0x20" "\<not> 0x80 \<le> b" "b \<noteq> 0x7f" "\<not> opens_string (unat b)"
      "\<not> (0x20 \<le> b \<and> b \<le> 0x2f \<and> \<not> designates (unat b))"
    using that by (intro safe_esc) (auto simp: byte_nat)
  show ?thesis
  proof (cases "ef_state f")
    case FilterEscape
    show ?thesis
      using assms(1) t c e i [of FilterText] i [of FilterString] i [of FilterDrop] assms(2)
      unfolding feed_step_def FilterEscape filter_state.case
      by (simp split: if_splits) (auto simp: byte_nat intro: safe_byte)
  next
    case FilterDrop
    show ?thesis
      using assms(1) t c i [of FilterText] i [of FilterEscape] assms(2)
      unfolding feed_step_def FilterDrop filter_state.case
      by (simp split: if_splits) (auto simp: byte_nat intro: safe_byte)
  qed (use nt assms(1) i in \<open>auto simp: feed_step_def split: if_splits\<close>)
qed

lemma feed_all_safe:
  assumes "filter_inv f"
  shows "filter_inv (fst (feed_all f bs out)) \<and> (\<exists>w. snd (feed_all f bs out) = out @ w \<and> safe_out w)"
  using assms
proof (induction f bs out rule: feed_all.induct)
  case (2 f b bs out)
  obtain f' w rest where s: "feed_step f b [] = (f', w, rest)"
    by (cases "feed_step f b []") auto
  then have s': "feed_step f b out = (f', out @ w, rest)"
    using feed_step_out [of f b out] by simp
  from feed_step_safe [OF s "2.prems"] have f': "filter_inv f'" "safe_out w" by auto
  have "filter_inv (fst (feed_all f' (rest @ bs) (out @ w))) \<and>
      (\<exists>v. snd (feed_all f' (rest @ bs) (out @ w)) = (out @ w) @ v \<and> safe_out v)"
    using s' f' by (intro "2.IH" [of f' "(out @ w, rest)"]) simp_all
  then obtain v where "filter_inv (fst (feed_all f' (rest @ bs) (out @ w)))"
      "snd (feed_all f' (rest @ bs) (out @ w)) = out @ (w @ v)" "safe_out v"
    by auto
  with s' safe_out_append [OF f'(2)] show ?case by auto
qed (auto intro!: exI [of _ "[]"])

text \<open>The filter provides the interface of a stream of bytes.\<close>

interpretation console: byte_stage filter_write filter_inv safe_out
proof
  fix s :: escape_filter and xs ys :: "byte list"
  show "filter_write s [] = (s, [])"
    by (simp add: filter_write_def)
  obtain s' o1 where 1: "feed_all s xs [] = (s', o1)" by (cases "feed_all s xs []") auto
  obtain s'' o2 where 2: "feed_all s' ys [] = (s'', o2)" by (cases "feed_all s' ys []") auto
  show "filter_write s (xs @ ys) =
      (let (s', o1) = filter_write s xs; (s'', o2) = filter_write s' ys in (s'', o1 @ o2))"
    using feed_all_append [of s xs ys "[]"] feed_all_out [of s' ys o1] 1 2
    by (simp add: filter_write_def)
  assume i: "filter_inv s"
  show "filter_inv (fst (filter_write s xs))" and "safe_out (snd (filter_write s xs))"
    using feed_all_safe [OF i, of xs "[]"] by (auto simp: filter_write_def)
qed

lemma new_filter_inv: "filter_inv new_filter"
  by (simp add: filter_inv_def new_filter_def)


subsection \<open>A terminal\<close>

text \<open>
  The terminal's parser, over runes: the states that ECMA-48 gives to escape sequences and
  control sequences. \<open>InString\<close> is a control string (OSC, DCS, SOS, PM, APC or the title string
  of screen), and \<open>Recode\<close> an escape sequence with an intermediate byte that does not designate
  a character set.
\<close>

datatype terminal = Ground | Escape | Inter | Csi | InString | Recode

definition term_step :: "terminal \<Rightarrow> nat \<Rightarrow> terminal" where
  "term_step s r =
     (if s = InString then (if r = 7 \<or> r = 0x9c then Ground else InString)
      else if c1_rune r then (if opens_string r then InString else Ground)
      else if r = 0x1b then Escape
      else if r = 0x18 \<or> r = 0x1a then Ground
      else if r < 0x20 then s
      else case s of
          Escape \<Rightarrow>
            (if r = 0x7f then Escape
             else if opens_string r then InString
             else if r \<le> 0x2f then (if designates r then Inter else Recode)
             else if r = 0x5b then Csi
             else Ground)
        | Inter \<Rightarrow> (if r < 0x30 \<or> r = 0x7f then Inter else Ground)
        | Csi \<Rightarrow> (if r < 0x40 \<or> r = 0x7f then Csi else Ground)
        | _ \<Rightarrow> s)"

fun term_ok :: "terminal \<Rightarrow> nat list \<Rightarrow> bool" where
  "term_ok s [] = True"
| "term_ok s (r # rs) =
     (let s' = term_step s r in s' \<noteq> InString \<and> s' \<noteq> Recode \<and> \<not> c1_rune r \<and> term_ok s' rs)"

text \<open>
  A stream is safe when it is valid UTF-8 and, read from the ground state, never opens a string,
  never recodes and has no C1 control.
\<close>

definition terminal_safe :: "byte list \<Rightarrow> bool" where
  "terminal_safe p =
     (list_all (\<lambda>(r, sq). \<not> (r = rune_error \<and> length sq = 1)) (runes_of p) \<and>
      term_ok Ground (map fst (runes_of p)))"

lemma term_ok_tokens:
  assumes "list_all tok_ok ts" "s = Ground \<or> s = Inter \<or> s = Csi"
  shows "term_ok s (concat (map tok_runes ts))"
  using assms
proof (induction ts arbitrary: s)
  case (Cons t ts)
  show ?case
  proof (cases t)
    case (TRune r)
    with Cons.prems have "term_step s r = Ground \<or> term_step s r = Inter \<or> term_step s r = Csi"
      by (auto simp: term_step_def)
    then have "term_ok (term_step s r) (concat (map tok_runes ts))"
      using Cons by simp
    with TRune Cons.prems \<open>term_step s r = Ground \<or> term_step s r = Inter \<or> term_step s r = Csi\<close>
    show ?thesis by (auto simp: Let_def)
  next
    case (TEsc b)
    have e: "term_step s 27 = Escape" using Cons.prems(2) by (auto simp: term_step_def c1_rune_def)
    from TEsc Cons.prems
    have b: "term_step Escape b = Ground \<or> term_step Escape b = Inter \<or> term_step Escape b = Csi"
      by (auto simp: term_step_def c1_rune_def)
    then have "term_ok (term_step Escape b) (concat (map tok_runes ts))"
      using Cons by simp
    moreover have "\<not> c1_rune b" "\<not> c1_rune 27" using TEsc Cons.prems by (auto simp: c1_rune_def)
    ultimately show ?thesis using TEsc e b by (auto simp: Let_def)
  qed
qed simp

lemma safe_out_terminal: "safe_out p \<Longrightarrow> terminal_safe p"
proof -
  assume "safe_out p"
  then obtain ts where ts: "list_all tok_ok ts" and p: "p = encs (concat (map tok_runes ts))"
    by (auto simp: safe_out_def tok_bytes_def)
  let ?rs = "concat (map tok_runes ts)"
  have "valid_rune r" if "t \<in> set ts" "r \<in> set (tok_runes t)" for t r
    using ts that by (cases t) (auto simp: list_all_iff valid_rune_def)
  then have v: "\<forall>r\<in>set ?rs. valid_rune r" by auto
  have "length (enc rune_error) = 3" by (simp add: enc_def enc_nat_def rune_error_def)
  then show ?thesis
    unfolding terminal_safe_def p runes_of_encs [OF v]
    using term_ok_tokens [OF ts, of Ground] by (auto simp: list_all_iff comp_def)
qed

subsection \<open>What passes unchanged\<close>

text \<open>The bytes of a rune collect in \<open>pending\<close> until the last one, and then go out together.\<close>

lemma feed_rune_bytes:
  assumes r: "valid_rune r" "128 \<le> r" "\<not> c1_rune r" and k: "k < length (enc r)"
    and f: "ef_state f = FilterText" "ef_pending f = take k (enc r)"
  shows "feed_all f (drop k (enc r) @ bs) out = feed_all (f\<lparr>ef_pending := []\<rparr>) bs (out @ enc r)"
  using k f
proof (induction "length (enc r) - k" arbitrary: k f)
  case (Suc m)
  let ?b = "enc r ! k"
  have d: "drop k (enc r) = ?b # drop (Suc k) (enc r)"
    using Suc.prems(1) by (simp add: Cons_nth_drop_Suc)
  have p: "ef_pending f @ [?b] = take (Suc k) (enc r)"
    using Suc.prems by (simp add: take_Suc_conv_app_nth)
  have hd: "128 \<le> unat (hd (enc r))"
    using r(1)
  proof (cases rule: enc_nat_cases)
  qed (use r unat_enc [OF r(1)] in \<open>auto simp: hd_map [symmetric] simp del: list.map_sel\<close>)
  have nb: "\<not> (ef_pending f = [] \<and> ?b < 0x80)"
  proof
    assume h: "ef_pending f = [] \<and> ?b < 0x80"
    with Suc.prems have "k = 0" by (simp add: take_eq_Nil)
    with h hd show False by (simp add: byte_nat hd_conv_nth)
  qed
  have s: "feed_step f ?b out = filter_text f ?b out"
    using Suc.prems(2) by (simp add: feed_step_def)
  show ?case
  proof (cases "Suc k = length (enc r)")
    case True
    then have e: "ef_pending f @ [?b] = enc r" using p by simp
    have ne: "\<not> (r = rune_error \<and> length (enc r) = 1)"
      by (auto simp: enc_def enc_nat_def rune_error_def)
    have "filter_text f ?b out = (f\<lparr>ef_pending := []\<rparr>, out @ enc r, [])"
      using nb r(1,3) decode_encode [OF r(1), of "[]"] full_rune_enc [OF r(1)] ne
      unfolding filter_text_def e Let_def by (auto simp: c1_rune_def)
    with d s True show ?thesis by simp
  next
    case False
    with Suc.prems(1) have lt: "Suc k < length (enc r)" by simp
    have "filter_text f ?b out = (f\<lparr>ef_pending := take (Suc k) (enc r)\<rparr>, out, [])"
      using not_full_prefix [OF r(1) zero_less_Suc lt]
      by (simp only: filter_text_def p nb Let_def if_False if_True simp_thms)
    moreover have "feed_all (f\<lparr>ef_pending := take (Suc k) (enc r)\<rparr>) (drop (Suc k) (enc r) @ bs) out =
        feed_all (f\<lparr>ef_pending := []\<rparr>) bs (out @ enc r)"
      using Suc.hyps(1) [of "Suc k" "f\<lparr>ef_pending := take (Suc k) (enc r)\<rparr>"] Suc.hyps(2) lt Suc.prems
      by simp
    ultimately show ?thesis using d s by simp
  qed
qed simp

lemma feed_token:
  assumes "tok_ok t" "f = new_filter"
  shows "feed_all f (encs (tok_runes t) @ bs) out = feed_all f bs (out @ encs (tok_runes t))"
proof (cases t)
  case (TEsc b)
  with assms have b: "32 \<le> b" "b < 127" "\<not> opens_string b" "b \<le> 47 \<longrightarrow> designates b" by auto
  then have "unat (of_nat b :: byte) = b" by (simp add: unat_of_nat)
  then have s: "feed_step (f\<lparr>ef_state := FilterEscape\<rparr>) (of_nat b) out =
      (f\<lparr>ef_state := FilterText\<rparr>, out @ [0x1b, of_nat b], [])"
    using b unfolding feed_step_def by (auto simp: byte_nat)
  have e: "feed_step f 0x1b out = (f\<lparr>ef_state := FilterEscape\<rparr>, out, [])"
    using assms(2) by (simp add: feed_step_def filter_text_def new_filter_def)
  have "f\<lparr>ef_state := FilterText\<rparr> = f" using assms(2) by (simp add: new_filter_def)
  with TEsc b e s show ?thesis by (simp add: enc_ascii)
next
  case (TRune r)
  with assms have r: "valid_rune r" "r \<noteq> 27" "\<not> c1_rune r" by auto
  show ?thesis
  proof (cases "r < 128")
    case True
    then have "unat (of_nat r :: byte) = r" by (simp add: unat_of_nat)
    then have "feed_step f (of_nat r) out = (f, out @ [of_nat r], [])"
      using True r(2) assms(2)
      by (simp add: feed_step_def filter_text_def new_filter_def byte_nat)
    with TRune True show ?thesis by (simp add: enc_ascii)
  next
    case False
    have "f\<lparr>ef_pending := []\<rparr> = f" using assms(2) by (simp add: new_filter_def)
    with False TRune feed_rune_bytes [OF r(1) _ r(3), of 0 f bs out] assms(2) show ?thesis
      by (simp add: new_filter_def)
  qed
qed

lemma feed_tokens:
  "list_all tok_ok ts \<Longrightarrow> feed_all new_filter (tok_bytes ts) out = (new_filter, out @ tok_bytes ts)"
  by (induction ts arbitrary: out) (simp_all add: feed_token)

lemma safe_passes: "safe_out p \<Longrightarrow> filter_write new_filter p = (new_filter, p)"
  by (auto simp: safe_out_def filter_write_def feed_tokens)

text \<open>A control string is consumed up to its terminator.\<close>

lemma feed_in_string:
  assumes "list_all (\<lambda>b. b \<noteq> 0x07 \<and> b \<noteq> 0x9c \<and> b \<noteq> 0x1b) p" "ef_state f = FilterString"
  shows "feed_all f (p @ bs) out = feed_all f bs out"
proof -
  have f: "f\<lparr>ef_state := FilterString\<rparr> = f" using assms(2) by (cases f) simp
  show ?thesis
    using assms(1) by (induction p) (simp_all add: feed_step_def assms(2) f)
qed


subsection \<open>Properties\<close>

text \<open>
  C1 Whatever bytes the guest writes to its console, and however the reads cut them up, the
  bytes that the filter lets through to the operator's terminal are valid UTF-8, contain no C1
  control, never open a control string (OSC, DCS, SOS, PM, APC, ESC k), and never begin an
  escape sequence with an intermediate byte other than a character set designation.
\<close>

theorem filter_terminal_safe:
  "terminal_safe (snd (run_chunks filter_write new_filter cs))"
  by (rule safe_out_terminal [OF console.chunks_good [OF new_filter_inv]])

text \<open>
  C34 Filtering is the same for any split of the stream into writes, since a sequence can span
  reads: the filter ends in the same state and has passed on the same bytes.
\<close>

theorem filter_chunk_independent:
  "run_chunks filter_write f cs = filter_write f (concat cs)"
  by (rule console.chunks_concat)

text \<open>
  What the filter let through passes a second filter unchanged: filtering is idempotent, so
  the filter removes what is dangerous and nothing that it would let through elsewhere.
\<close>

theorem filter_idempotent:
  "filter_write new_filter (snd (filter_write new_filter p)) =
     (new_filter, snd (filter_write new_filter p))"
  by (rule safe_passes [OF console.step_good [OF new_filter_inv]])

text \<open>
  Ordinary output is not changed: a stream of valid UTF-8 in which every ESC is followed by a
  byte that neither opens a string nor is a refused intermediate, and which has no C1 control,
  goes through as it is.
\<close>

theorem filter_passes_text:
  assumes "list_all tok_ok ts"
  shows "filter_write new_filter (tok_bytes ts) = (new_filter, tok_bytes ts)"
  using assms by (simp add: filter_write_def feed_tokens)

theorem filter_passes_text_witness:
  "filter_write new_filter (tok_bytes [TRune 0x41, TEsc 0x5b, TRune 0x31, TRune 0x6d, TRune 0x20ac]) =
     (new_filter, [0x41, 0x1b, 0x5b, 0x31, 0x6d, 0xe2, 0x82, 0xac])"
proof -
  have "list_all tok_ok [TRune 0x41, TEsc 0x5b, TRune 0x31, TRune 0x6d, TRune 0x20ac]"
    by (simp add: valid_rune_def c1_rune_def opens_string_def)
  from filter_passes_text [OF this] show ?thesis
    by (simp add: enc_def enc_nat_def)
qed

text \<open>
  Nothing of a control string reaches the terminal: after ESC and a byte that opens a string,
  every byte up to the terminator, BEL or ESC backslash, is dropped, and text is passed again
  after it.
\<close>

theorem filter_drops_string:
  assumes "opens_string (unat c)" "c < 0x80"
    and "list_all (\<lambda>b. b \<noteq> 0x07 \<and> b \<noteq> 0x9c \<and> b \<noteq> 0x1b) p"
    and "st = [0x07] \<or> st = [0x1b, 0x5c]"
  shows "filter_write new_filter (0x1b # c # p @ st @ rest) = filter_write new_filter rest"
proof -
  let ?S = "new_filter\<lparr>ef_state := FilterString\<rparr>"
  have e: "feed_step new_filter 0x1b [] = (new_filter\<lparr>ef_state := FilterEscape\<rparr>, [], [])"
    by (simp add: feed_step_def filter_text_def new_filter_def)
  have c: "feed_step (new_filter\<lparr>ef_state := FilterEscape\<rparr>) c [] = (?S, [], [])"
    using assms(1,2) by (auto simp: feed_step_def opens_string_def byte_nat)
  have "feed_all ?S (p @ st @ rest) [] = feed_all ?S (st @ rest) []"
    using feed_in_string [OF assms(3)] by simp
  also have "\<dots> = feed_all new_filter rest []"
    using assms(4) by (auto simp: feed_step_def new_filter_def)
  finally show ?thesis
    using e c by (simp add: filter_write_def)
qed

theorem filter_drops_string_witness:
  "filter_write new_filter ([0x1b, 0x5d, 0x30, 0x3b, 0x68, 0x69, 0x07] @ [0x62]) = (new_filter, [0x62])"
proof -
  have "filter_write new_filter (0x1b # 0x5d # [0x30, 0x3b, 0x68, 0x69] @ [0x07] @ [0x62]) =
      filter_write new_filter [0x62]"
    by (rule filter_drops_string) (simp_all add: opens_string_def)
  moreover have "filter_write new_filter [0x62] = (new_filter, [0x62])"
    by (simp add: filter_write_def feed_step_def filter_text_def new_filter_def)
  ultimately show ?thesis by simp
qed

end
