(* ===== verification/LineLogger.thy ===== *)
theory LineLogger
  imports Streams
begin

text \<open>
  \<open>lineLogger\<close> of cmd/invirtio/run.go, which writes the guest's console and stderr to the journal
  a line at a time. The record holds the Go struct's fields and the global \<open>journalStdout\<close>; the
  output is the list of the writes that \<open>flush\<close> makes, one per line. As in the console filter,
  the bytes that \<open>feed\<close> feeds again are put in front of those still to feed.
\<close>

record line_logger =
  ll_journal :: bool
  ll_prefix :: "byte list"
  ll_line :: "byte list"
  ll_pending :: "byte list"
  ll_escape :: bool
  ll_csi :: bool

definition max_log_line :: nat where
  "max_log_line = 1024"

definition new_line_logger :: "bool \<Rightarrow> string \<Rightarrow> line_logger" where
  "new_line_logger journal name =
     \<lparr>ll_journal = journal, ll_prefix = bytes_of (name @ '': ''), ll_line = [], ll_pending = [],
      ll_escape = False, ll_csi = False\<rparr>"

definition flush_line :: "line_logger \<Rightarrow> byte list" where
  "flush_line l =
     (if ll_journal l then bytes_of ''<7>'' else []) @ ll_prefix l @ ll_line l @ [0x0a]"

definition flush :: "line_logger \<Rightarrow> line_logger \<times> byte list list" where
  "flush l = (l\<lparr>ll_line := []\<rparr>, [flush_line l])"

text \<open>Adds bytes to the line, after a flush when they do not fit.\<close>

definition add_bytes :: "line_logger \<Rightarrow> bool \<Rightarrow> byte list \<Rightarrow> line_logger \<times> byte list list" where
  "add_bytes l full bs =
     (let (l', w) = (if full then flush l else (l, []))
      in (l'\<lparr>ll_line := ll_line l' @ bs\<rparr>, w))"

definition log_step :: "line_logger \<Rightarrow> byte \<Rightarrow> line_logger \<times> byte list list \<times> byte list" where
  "log_step l b =
     (if ll_pending l \<noteq> [] \<or> (0x80 \<le> b \<and> \<not> ll_escape l \<and> \<not> ll_csi l) then
        let p = ll_pending l @ [b] in
        if \<not> full_rune p then (l\<lparr>ll_pending := p\<rparr>, [], [])
        else
          let (r, size) = decode_rune p;
              rest = drop size p;
              (l1, w) = (if (r \<noteq> rune_error \<or> size > 1) \<and> r > 0x9f
                         then add_bytes l (length (ll_line l) + size > max_log_line) (take size p)
                         else (l, []))
          in (l1\<lparr>ll_pending := []\<rparr>, w, rest)
      else if ll_csi l then (l\<lparr>ll_csi := b < 0x40 \<or> b > 0x7e\<rparr>, [], [])
      else if ll_escape l then (l\<lparr>ll_escape := False, ll_csi := (b = 0x5b)\<rparr>, [], [])
      else if b = 0x1b then (l\<lparr>ll_escape := True\<rparr>, [], [])
      else if b = 0x0a then (let (l1, w) = flush l in (l1, w, []))
      else if b = 0x09 \<or> (0x20 \<le> b \<and> b < 0x7f)
        then (let (l1, w) = add_bytes l (length (ll_line l) = max_log_line) [b] in (l1, w, []))
      else (l, [], []))"

lemma flush_fields [simp]:
  "ll_pending (fst (flush l)) = ll_pending l" "ll_line (fst (flush l)) = []"
  by (simp_all add: flush_def)

lemma add_bytes_pending [simp]: "ll_pending (fst (add_bytes l full bs)) = ll_pending l"
  by (simp add: add_bytes_def flush_def)

text \<open>What one byte does: one case per path through the code.\<close>

lemma log_step_cases:
  obtains (wait) "\<not> full_rune (ll_pending l @ [b])"
      "log_step l b = (l\<lparr>ll_pending := ll_pending l @ [b]\<rparr>, [], [])"
  | (rune) r n l1 w where "decode_rune (ll_pending l @ [b]) = (r, n)" "\<not> (r = rune_error \<and> n = 1)"
      "r > 0x9f"
      "add_bytes l (length (ll_line l) + n > max_log_line) (take n (ll_pending l @ [b])) = (l1, w)"
      "log_step l b = (l1\<lparr>ll_pending := []\<rparr>, w, drop n (ll_pending l @ [b]))"
  | (skip) r n where "decode_rune (ll_pending l @ [b]) = (r, n)"
      "log_step l b = (l\<lparr>ll_pending := []\<rparr>, [], drop n (ll_pending l @ [b]))"
  | (mode) e c where "ll_pending l = []" "log_step l b = (l\<lparr>ll_escape := e, ll_csi := c\<rparr>, [], [])"
  | (line) l1 w where "ll_pending l = []" "b = 0x0a" "flush l = (l1, w)" "log_step l b = (l1, w, [])"
  | (char) l1 w where "ll_pending l = []" "b = 0x09 \<or> (0x20 \<le> b \<and> b < 0x7f)"
      "add_bytes l (length (ll_line l) = max_log_line) [b] = (l1, w)" "log_step l b = (l1, w, [])"
proof (cases "ll_pending l \<noteq> [] \<or> (0x80 \<le> b \<and> \<not> ll_escape l \<and> \<not> ll_csi l)")
  case multi: True
  obtain r n where d: "decode_rune (ll_pending l @ [b]) = (r, n)"
    by (cases "decode_rune (ll_pending l @ [b])") auto
  have n: "1 \<le> n" using decode_size [OF _ d] by simp
  obtain l1 w where a: "add_bytes l (length (ll_line l) + n > max_log_line)
      (take n (ll_pending l @ [b])) = (l1, w)"
    by fastforce
  show thesis
  proof (cases "full_rune (ll_pending l @ [b])")
    case False
    then show ?thesis
      using multi by (intro wait) (simp_all only: log_step_def Let_def if_True simp_thms)
  next
    case full: True
    show ?thesis
    proof (cases "(r \<noteq> rune_error \<or> n > 1) \<and> r > 0x9f")
      case True
      then show ?thesis
        using n by (intro rune [OF d _ _ a])
          (auto simp only: log_step_def Let_def multi full d a if_True if_False simp_thms prod.case)
    next
      case False
      show ?thesis
        by (rule skip [OF d])
          (simp only: log_step_def Let_def multi full d if_True if_False simp_thms prod.case False)
    qed
  qed
next
  case False
  then have p: "ll_pending l = []" by simp
  have same: "l = l\<lparr>ll_escape := ll_escape l, ll_csi := ll_csi l\<rparr>" by simp
  obtain l1 w where f: "flush l = (l1, w)" by fastforce
  obtain l2 v where a: "add_bytes l (length (ll_line l) = max_log_line) [b] = (l2, v)" by fastforce
  have step: "log_step l b =
     (if ll_csi l then (l\<lparr>ll_csi := b < 0x40 \<or> b > 0x7e\<rparr>, [], [])
      else if ll_escape l then (l\<lparr>ll_escape := False, ll_csi := (b = 0x5b)\<rparr>, [], [])
      else if b = 0x1b then (l\<lparr>ll_escape := True\<rparr>, [], [])
      else if b = 0x0a then (l1, w, [])
      else if b = 0x09 \<or> (0x20 \<le> b \<and> b < 0x7f) then (l2, v, [])
      else (l, [], []))"
    using f a by (simp only: log_step_def Let_def False if_False prod.case)
  consider "ll_csi l" | "\<not> ll_csi l" "ll_escape l" | "\<not> ll_csi l" "\<not> ll_escape l" "b = 0x1b"
    | "\<not> ll_csi l" "\<not> ll_escape l" "b = 0x0a"
    | "\<not> ll_csi l" "\<not> ll_escape l" "b \<noteq> 0x1b" "b \<noteq> 0x0a" "b = 0x09 \<or> (0x20 \<le> b \<and> b < 0x7f)"
    | "\<not> ll_csi l" "\<not> ll_escape l" "b \<noteq> 0x1b" "b \<noteq> 0x0a" "\<not> (b = 0x09 \<or> (0x20 \<le> b \<and> b < 0x7f))"
    by blast
  then show ?thesis
  proof cases
    case 1
    then show ?thesis
      by (intro mode [OF p, where e = "ll_escape l" and c = "b < 0x40 \<or> b > 0x7e"]) (simp add: step)
  next
    case 2
    then show ?thesis by (intro mode [OF p, where e = False and c = "b = 0x5b"]) (simp add: step)
  next
    case 3
    have "l\<lparr>ll_escape := True\<rparr> = l\<lparr>ll_escape := True, ll_csi := ll_csi l\<rparr>" by simp
    moreover have "log_step l b = (l\<lparr>ll_escape := True\<rparr>, [], [])"
      unfolding step using 3 by simp
    ultimately have "log_step l b = (l\<lparr>ll_escape := True, ll_csi := ll_csi l\<rparr>, [], [])"
      by (simp only:)
    then show ?thesis by (rule mode [OF p])
  next
    case 4
    then have "log_step l b = (l1, w, [])" unfolding step by simp
    with 4 show ?thesis by (intro line [OF p _ f])
  next
    case 5
    then show ?thesis by (intro char [OF p _ a]) (simp_all only: step if_True if_False simp_thms)
  next
    case 6
    then have "log_step l b = (l, [], [])" by (simp only: step if_True if_False)
    then show ?thesis by (intro mode [OF p, where e = "ll_escape l" and c = "ll_csi l"]) simp
  qed
qed

lemma log_step_sizes:
  assumes "log_step l b = (l', w, rest)"
  shows "length rest + length (ll_pending l') \<le> length (ll_pending l) + 1 \<and>
    (rest \<noteq> [] \<longrightarrow> length rest + length (ll_pending l') < length (ll_pending l) + 1)"
proof -
  have n: "1 \<le> n \<and> n \<le> length (ll_pending l) + 1" if "decode_rune (ll_pending l @ [b]) = (r, n)" for r n
    using decode_size [OF _ that] by simp
  have a: "ll_pending l1 = ll_pending l" if "add_bytes l f bs = (l1, v)" for f bs l1 v
    using add_bytes_pending [of l f bs] that by simp
  have f: "ll_pending l1 = ll_pending l" if "flush l = (l1, v)" for l1 v
    using flush_fields(1) [of l] that by simp
  show ?thesis
  proof (cases rule: log_step_cases [of l b])
    case (rune r n l1 w)
    then show ?thesis using assms n [OF rune(1)] by auto
  next
    case (skip r n)
    then show ?thesis using assms n [OF skip(1)] by auto
  next
    case (line l1 w)
    then show ?thesis using assms f [OF line(3)] by simp
  next
    case (char l1 w)
    then show ?thesis using assms a [OF char(3)] by simp
  qed (use assms in auto)
qed

function log_all :: "line_logger \<Rightarrow> byte list \<Rightarrow> line_logger \<times> byte list list" where
  "log_all l [] = (l, [])"
| "log_all l (b # bs) =
     (case log_step l b of (l', w, rest) \<Rightarrow>
        (case log_all l' (rest @ bs) of (l'', v) \<Rightarrow> (l'', w @ v)))"
  by pat_completeness auto
termination
proof (relation "measures [\<lambda>(l, bs). length bs + length (ll_pending l), \<lambda>(l, bs). length bs]",
    goal_cases)
  case (2 l b bs l' y w rest)
  then have "log_step l b = (l', w, rest)" by simp
  from log_step_sizes [OF this] show ?case
    by (cases "rest = []") auto
qed simp

text \<open>\<open>feed\<close>, \<open>Write\<close> and \<open>close\<close>.\<close>

definition log_feed :: "line_logger \<Rightarrow> byte \<Rightarrow> line_logger \<times> byte list list" where
  "log_feed l b = log_all l [b]"

definition log_write :: "line_logger \<Rightarrow> byte list \<Rightarrow> line_logger \<times> byte list list" where
  "log_write l p = log_all l p"

definition log_close :: "line_logger \<Rightarrow> line_logger \<times> byte list list" where
  "log_close l = (if ll_line l \<noteq> [] then flush l else (l, []))"

lemma log_all_append:
  "log_all l (xs @ ys) = (let (l', w) = log_all l xs; (l'', v) = log_all l' ys in (l'', w @ v))"
proof (induction l xs rule: log_all.induct)
  case (2 l b bs)
  obtain l' w rest where s: "log_step l b = (l', w, rest)" by (cases "log_step l b") auto
  have "log_all l' ((rest @ bs) @ ys) =
      (let (l', w) = log_all l' (rest @ bs); (l'', v) = log_all l' ys in (l'', w @ v))"
    using s by (intro "2.IH" [of l' "(w, rest)"]) simp_all
  with s show ?case by (simp split: prod.splits)
qed (simp split: prod.split)

lemma log_refeeds:
  "log_step l b = (l', w, rest) \<Longrightarrow> log_feed l b = (let (l'', v) = log_write l' rest in (l'', w @ v))"
  by (simp add: log_feed_def log_write_def split: prod.split)


subsection \<open>What reaches the journal\<close>

definition log_rune :: "nat \<Rightarrow> bool" where
  "log_rune r \<longleftrightarrow> valid_rune r \<and> (r = 9 \<or> (32 \<le> r \<and> r < 127) \<or> 159 < r)"

definition log_head :: "bool \<Rightarrow> byte list \<Rightarrow> byte list" where
  "log_head journal prefix = (if journal then bytes_of ''<7>'' else []) @ prefix"

text \<open>
  A line of the journal: the priority and the prefix, a body of at most 1024 bytes of valid UTF-8
  with no control character but the tab, and the newline.
\<close>

definition clean_body :: "byte list \<Rightarrow> bool" where
  "clean_body p \<longleftrightarrow> length p \<le> max_log_line \<and>
     list_all (\<lambda>(r, sq). log_rune r \<and> \<not> (r = rune_error \<and> length sq = 1)) (runes_of p)"

definition log_line_ok :: "bool \<Rightarrow> byte list \<Rightarrow> byte list \<Rightarrow> bool" where
  "log_line_ok journal prefix w =
     (let h = log_head journal prefix
      in has_prefix w h \<and> length h < length w \<and> last w = 0x0a \<and>
         clean_body (butlast (drop (length h) w)))"

definition log_inv :: "line_logger \<Rightarrow> bool" where
  "log_inv l \<longleftrightarrow> (ll_pending l \<noteq> [] \<longrightarrow> \<not> full_rune (ll_pending l)) \<and>
     length (ll_line l) \<le> max_log_line \<and> (\<exists>rs. list_all log_rune rs \<and> ll_line l = encs rs)"

abbreviation same_head :: "line_logger \<Rightarrow> line_logger \<Rightarrow> bool" where
  "same_head l l' \<equiv> ll_journal l' = ll_journal l \<and> ll_prefix l' = ll_prefix l"

lemma clean_encs: "list_all log_rune rs \<Longrightarrow> length (encs rs) \<le> max_log_line \<Longrightarrow> clean_body (encs rs)"
proof -
  assume rs: "list_all log_rune rs" "length (encs rs) \<le> max_log_line"
  have "length (enc rune_error) = 3" by (simp add: enc_def enc_nat_def rune_error_def)
  moreover have "\<forall>r\<in>set rs. valid_rune r" using rs(1) by (auto simp: list_all_iff log_rune_def)
  ultimately show ?thesis
    using rs by (auto simp: clean_body_def runes_of_encs list_all_iff)
qed

lemma flush_line_ok:
  assumes "log_inv l"
  shows "log_line_ok (ll_journal l) (ll_prefix l) (flush_line l)"
proof -
  have "flush_line l = log_head (ll_journal l) (ll_prefix l) @ ll_line l @ [0x0a]"
    by (simp add: flush_line_def log_head_def)
  moreover have "clean_body (ll_line l)" using assms by (auto simp: log_inv_def intro: clean_encs)
  ultimately show ?thesis by (simp add: log_line_ok_def butlast_append)
qed

lemma add_bytes_inv:
  assumes "log_inv l" "list_all log_rune rs" "bs = encs rs"
    and "add_bytes l full bs = (l', w)" "full \<or> length (ll_line l) + length bs \<le> max_log_line"
    and "length bs \<le> max_log_line"
  shows "log_inv l' \<and> same_head l l' \<and> list_all (log_line_ok (ll_journal l) (ll_prefix l)) w"
proof (cases full)
  case True
  with assms have "l' = l\<lparr>ll_line := bs\<rparr>" "w = [flush_line l]"
    by (auto simp: add_bytes_def flush_def)
  with assms flush_line_ok [OF assms(1)] show ?thesis
    by (auto simp: log_inv_def)
next
  case False
  obtain qs where qs: "list_all log_rune qs" "ll_line l = encs qs"
    using assms(1) by (auto simp: log_inv_def)
  from False assms have l': "l' = l\<lparr>ll_line := ll_line l @ bs\<rparr>" "w = []"
    by (auto simp: add_bytes_def)
  have "\<exists>us. list_all log_rune us \<and> ll_line l @ bs = encs us"
    using qs assms(2,3) by (intro exI [of _ "qs @ rs"]) simp
  moreover have "length (ll_line l @ bs) \<le> max_log_line" using False assms(5) by simp
  ultimately show ?thesis using l' assms(1) by (simp add: log_inv_def)
qed

lemma log_step_inv:
  assumes "log_step l b = (l', w, rest)" "log_inv l"
  shows "log_inv l' \<and> same_head l l' \<and> list_all (log_line_ok (ll_journal l) (ll_prefix l)) w"
proof (cases rule: log_step_cases [of l b])
  case (rune r n l1 v)
  have v: "valid_rune r" "take n (ll_pending l @ [b]) = enc r"
    using decode_sound [OF _ rune(1,2)] by auto
  have len: "length (take n (ll_pending l @ [b])) = n"
    using decode_size [OF _ rune(1)] by (auto simp: min_def)
  have "n \<le> 4" using v(2) len by (simp add: enc_def enc_nat_def split: if_splits)
  then have "log_inv l1 \<and> same_head l l1 \<and> list_all (log_line_ok (ll_journal l) (ll_prefix l)) v"
    using rune(3) v len
    by (intro add_bytes_inv [OF assms(2) _ _ rune(4), of "[r]"])
      (auto simp: log_rune_def max_log_line_def)
  with rune assms show ?thesis by (auto simp: log_inv_def)
next
  case (line l1 v)
  then show ?thesis
    using assms flush_line_ok [OF assms(2)]
    by (auto simp: flush_def log_inv_def intro!: exI [of _ "[]"])
next
  case (char l1 v)
  have "unat b < 128" using char(2) by (auto simp: byte_nat)
  then have e: "enc (unat b) = [b]" by (simp add: enc_ascii)
  have "log_rune (unat b)" using char(2) by (auto simp: log_rune_def valid_rune_def byte_nat)
  moreover have "length (ll_line l) = max_log_line \<or> length (ll_line l) + length [b] \<le> max_log_line"
    using assms(2) by (auto simp: log_inv_def)
  ultimately have "log_inv l1 \<and> same_head l l1 \<and>
      list_all (log_line_ok (ll_journal l) (ll_prefix l)) v"
    using e by (intro add_bytes_inv [OF assms(2) _ _ char(3), of "[unat b]"])
      (auto simp: max_log_line_def)
  with char assms show ?thesis by simp
qed (use assms in \<open>auto simp: log_inv_def\<close>)

lemma log_all_inv:
  "log_inv l \<Longrightarrow> log_inv (fst (log_all l bs)) \<and> same_head l (fst (log_all l bs)) \<and>
   list_all (log_line_ok (ll_journal l) (ll_prefix l)) (snd (log_all l bs))"
proof (induction l bs rule: log_all.induct)
  case (2 l b bs)
  obtain l' w rest where s: "log_step l b = (l', w, rest)" by (cases "log_step l b") auto
  from log_step_inv [OF this "2.prems"]
  have l': "log_inv l'" "same_head l l'" "list_all (log_line_ok (ll_journal l) (ll_prefix l)) w" by auto
  have "log_inv (fst (log_all l' (rest @ bs))) \<and> same_head l' (fst (log_all l' (rest @ bs))) \<and>
      list_all (log_line_ok (ll_journal l') (ll_prefix l')) (snd (log_all l' (rest @ bs)))"
    using s l' by (intro "2.IH" [of l' "(w, rest)"]) simp_all
  with s l' show ?case by (cases "log_all l' (rest @ bs)") simp
qed simp

text \<open>The journal writer provides the interface of a stream of bytes.\<close>

definition log_inv_for :: "bool \<Rightarrow> byte list \<Rightarrow> line_logger \<Rightarrow> bool" where
  "log_inv_for journal prefix l \<longleftrightarrow> log_inv l \<and> ll_journal l = journal \<and> ll_prefix l = prefix"

interpretation journal: byte_stage log_write "log_inv_for j h" "list_all (log_line_ok j h)" for j h
proof
  fix s :: line_logger and xs ys :: "byte list"
  show "log_write s [] = (s, [])"
    by (simp add: log_write_def)
  show "log_write s (xs @ ys) =
      (let (s', o1) = log_write s xs; (s'', o2) = log_write s' ys in (s'', o1 @ o2))"
    by (simp add: log_write_def log_all_append)
  assume "log_inv_for j h s"
  then show "log_inv_for j h (fst (log_write s xs))" and "list_all (log_line_ok j h) (snd (log_write s xs))"
    using log_all_inv [of s xs] by (auto simp: log_inv_for_def log_write_def)
qed

lemma new_line_logger_inv: "log_inv_for j (bytes_of (name @ '': '')) (new_line_logger j name)"
  by (auto simp: log_inv_for_def log_inv_def new_line_logger_def intro!: exI [of _ "[]"])


subsection \<open>What is logged as it is\<close>

text \<open>
  The line that is kept when a rune arrives, and the lines that are written for the runes of a
  text: a new line when the rune does not fit.
\<close>

fun wrap_runes :: "byte list \<Rightarrow> nat list \<Rightarrow> byte list \<times> byte list list" where
  "wrap_runes cur [] = (cur, [])"
| "wrap_runes cur (r # rs) =
     (if length cur + length (enc r) > max_log_line
      then (let (c, ws) = wrap_runes (enc r) rs in (c, cur # ws))
      else wrap_runes (cur @ enc r) rs)"

lemma wrap_runes_concat: "wrap_runes cur rs = (c, ws) \<Longrightarrow> concat ws @ c = cur @ encs rs"
  by (induction cur rs arbitrary: c ws rule: wrap_runes.induct)
    (fastforce split: if_splits prod.splits)+

lemma wrap_runes_short: "length cur + length (encs rs) \<le> max_log_line \<Longrightarrow> wrap_runes cur rs = (cur @ encs rs, [])"
  by (induction cur rs rule: wrap_runes.induct) auto

definition idle :: "line_logger \<Rightarrow> bool" where
  "idle l \<longleftrightarrow> ll_pending l = [] \<and> \<not> ll_escape l \<and> \<not> ll_csi l"

lemma log_rune_bytes:
  assumes r: "valid_rune r" "159 < r" and k: "k < length (enc r)"
    and l: "ll_pending l = take k (enc r)" "\<not> ll_escape l" "\<not> ll_csi l"
  shows "log_all l (drop k (enc r) @ bs) =
    (let (l1, w) = add_bytes l (length (ll_line l) + length (enc r) > max_log_line) (enc r);
         (l2, v) = log_all (l1\<lparr>ll_pending := []\<rparr>) bs
     in (l2, w @ v))"
  using k l
proof (induction "length (enc r) - k" arbitrary: k l)
  case (Suc m)
  let ?b = "enc r ! k"
  have d: "drop k (enc r) = ?b # drop (Suc k) (enc r)"
    using Suc.prems(1) by (simp add: Cons_nth_drop_Suc)
  have p: "ll_pending l @ [?b] = take (Suc k) (enc r)"
    using Suc.prems by (simp add: take_Suc_conv_app_nth)
  have hd: "128 \<le> unat (hd (enc r))"
    using r(1)
  proof (cases rule: enc_nat_cases)
  qed (use r unat_enc [OF r(1)] in \<open>auto simp: hd_map [symmetric] simp del: list.map_sel\<close>)
  have nb: "ll_pending l \<noteq> [] \<or> (0x80 \<le> ?b \<and> \<not> ll_escape l \<and> \<not> ll_csi l)"
    using hd Suc.prems by (cases "k = 0") (auto simp: byte_nat hd_conv_nth)
  show ?case
  proof (cases "Suc k = length (enc r)")
    case True
    then have e: "ll_pending l @ [?b] = enc r" using p by simp
    have ne: "r \<noteq> rune_error \<or> length (enc r) > 1"
      by (auto simp: enc_def enc_nat_def rune_error_def)
    obtain l1 w where a: "add_bytes l (length (ll_line l) + length (enc r) > max_log_line) (enc r) = (l1, w)"
      by fastforce
    have dr: "decode_rune (enc r) = (r, length (enc r))"
      using decode_encode [OF r(1), of "[]"] by simp
    have "log_step l ?b = (l1\<lparr>ll_pending := []\<rparr>, w, [])"
      using nb r(2) ne full_rune_enc [OF r(1)] a
      unfolding log_step_def e Let_def dr by (simp del: not_less)
    with d True a show ?thesis by (simp split: prod.split)
  next
    case False
    with Suc.prems(1) have lt: "Suc k < length (enc r)" by simp
    have "log_step l ?b = (l\<lparr>ll_pending := take (Suc k) (enc r)\<rparr>, [], [])"
      using not_full_prefix [OF r(1) zero_less_Suc lt]
      by (simp only: log_step_def p nb Let_def if_False if_True simp_thms)
    moreover have "add_bytes (l\<lparr>ll_pending := q\<rparr>) f bs =
        (let (l1, w) = add_bytes l f bs in (l1\<lparr>ll_pending := q\<rparr>, w))" for q f bs
      by (simp add: add_bytes_def flush_def flush_line_def)
    moreover note Suc.hyps(1) [of "Suc k" "l\<lparr>ll_pending := take (Suc k) (enc r)\<rparr>"]
    ultimately show ?thesis using d Suc.hyps(2) lt Suc.prems
      by (simp split: prod.splits)
  qed
qed simp

text \<open>A text of runes that the logger keeps is written as \<open>wrap_runes\<close> lays it out.\<close>

definition head_line :: "line_logger \<Rightarrow> byte list \<Rightarrow> byte list" where
  "head_line l body = log_head (ll_journal l) (ll_prefix l) @ body @ [0x0a]"

definition wrap_lines :: "nat list \<Rightarrow> byte list list" where
  "wrap_lines rs = (let (c, ws) = wrap_runes [] rs in ws @ [c])"

lemma add_bytes_line:
  "add_bytes l full bs =
     (if full then (l\<lparr>ll_line := bs\<rparr>, [head_line l (ll_line l)]) else (l\<lparr>ll_line := ll_line l @ bs\<rparr>, []))"
  by (simp add: add_bytes_def flush_def flush_line_def head_line_def log_head_def)

lemma head_line_cong [simp]: "head_line (l\<lparr>ll_line := x\<rparr>) = head_line l"
  by (rule ext) (simp add: head_line_def)

lemma length_enc: "valid_rune r \<Longrightarrow> 1 \<le> length (enc r) \<and> length (enc r) \<le> 4"
  by (simp add: enc_def enc_nat_def)

lemma log_one_rune:
  assumes "idle l" "length (ll_line l) \<le> max_log_line" "log_rune r"
  shows "log_all l (enc r @ bs) =
    (let (l1, w) = add_bytes l (length (ll_line l) + length (enc r) > max_log_line) (enc r);
         (l2, v) = log_all l1 bs
     in (l2, w @ v))"
proof (cases "r < 128")
  case True
  then have e: "enc r = [of_nat r]" and u: "unat (of_nat r :: byte) = r"
    using assms(3) enc_ascii [of r] by (simp_all add: unat_of_nat)
  have c: "of_nat r = (9 :: byte) \<or> ((32 :: byte) \<le> of_nat r \<and> of_nat r < (127 :: byte))"
    and n: "of_nat r \<noteq> (0x1b :: byte)" "of_nat r \<noteq> (0x0a :: byte)" "\<not> (128 :: byte) \<le> of_nat r"
    using assms(3) True by (auto simp: log_rune_def byte_nat u)
  have "(length (ll_line l) + length (enc r) > max_log_line) = (length (ll_line l) = max_log_line)"
    using assms(2) e by auto
  moreover have "log_step l (of_nat r) =
      (let (l1, w) = add_bytes l (length (ll_line l) = max_log_line) [of_nat r] in (l1, w, []))"
    unfolding log_step_def using assms(1) c n by (simp add: idle_def)
  ultimately show ?thesis by (simp add: e split: prod.split)
next
  case False
  then have r: "valid_rune r" "159 < r" using assms(3) by (auto simp: log_rune_def)
  have "add_bytes l f p = (l1, w) \<Longrightarrow> l1\<lparr>ll_pending := []\<rparr> = l1" for f p l1 w
    using assms(1) by (cases l) (auto simp: add_bytes_line idle_def split: if_splits)
  moreover obtain l1 w where "add_bytes l (length (ll_line l) + length (enc r) > max_log_line) (enc r) = (l1, w)"
    by fastforce
  ultimately show ?thesis
    using log_rune_bytes [OF r, of 0 l bs] length_enc [OF r(1)] assms(1) by (simp add: idle_def)
qed

lemma log_text:
  assumes "idle l" "length (ll_line l) \<le> max_log_line" "list_all log_rune rs"
  shows "log_all l (encs rs @ bs) =
    (let (c, ws) = wrap_runes (ll_line l) rs;
         (l2, v) = log_all (l\<lparr>ll_line := c\<rparr>) bs
     in (l2, map (head_line l) ws @ v))"
  using assms
proof (induction rs arbitrary: l)
  case (Cons r rs)
  then have r: "log_rune r" "length (enc r) \<le> max_log_line"
    using length_enc [of r] by (auto simp: log_rune_def max_log_line_def)
  let ?f = "max_log_line < length (ll_line l) + length (enc r)"
  let ?c = "if ?f then enc r else ll_line l @ enc r"
  have "log_all (l\<lparr>ll_line := ?c\<rparr>) (encs rs @ bs) =
    (let (c, ws) = wrap_runes ?c rs; (l2, v) = log_all (l\<lparr>ll_line := c\<rparr>) bs
     in (l2, map (head_line l) ws @ v))"
    using Cons.IH [of "l\<lparr>ll_line := ?c\<rparr>"] Cons.prems r by (simp add: idle_def)
  then show ?case
    using log_one_rune [OF Cons.prems(1,2) r(1), of "encs rs @ bs"]
    by (simp add: add_bytes_line split: prod.splits if_splits)
qed simp

lemma wrap_runes_bound:
  "wrap_runes cur rs = (c, ws) \<Longrightarrow> length cur \<le> max_log_line \<Longrightarrow> list_all valid_rune rs \<Longrightarrow>
   list_all (\<lambda>w. length w \<le> max_log_line) (c # ws)"
proof (induction cur rs arbitrary: c ws rule: wrap_runes.induct)
  case (2 cur r rs)
  have "length (enc r) \<le> max_log_line"
    using length_enc [of r] "2.prems" by (simp add: max_log_line_def)
  then show ?case
    using 2 by (auto split: if_splits prod.splits)
qed simp


subsection \<open>Properties\<close>


text \<open>
  No text is lost: a line of runes that are kept is written in full, as one line or, when it is
  too long, as consecutive lines of at most 1024 bytes that are cut between runes and concatenate
  to it, and the logger is ready for the next line.
\<close>

theorem log_text_lines:
  assumes "list_all log_rune rs"
  shows "log_write (new_line_logger j name) (encs rs @ [0x0a]) =
      (new_line_logger j name, map (head_line (new_line_logger j name)) (wrap_lines rs)) \<and>
    concat (wrap_lines rs) = encs rs \<and> list_all (\<lambda>w. length w \<le> max_log_line) (wrap_lines rs)"
proof -
  let ?l = "new_line_logger j name"
  obtain c ws where w: "wrap_runes [] rs = (c, ws)" by fastforce
  have i: "idle ?l" "ll_line ?l = []" by (simp_all add: idle_def new_line_logger_def)
  have v: "list_all valid_rune rs" using assms by (auto simp: list_all_iff log_rune_def)
  have "log_all (?l\<lparr>ll_line := c\<rparr>) [0x0a] = (?l, [head_line ?l c])"
    by (simp add: log_step_def new_line_logger_def flush_def flush_line_def head_line_def log_head_def)
  then have "log_write ?l (encs rs @ [0x0a]) = (?l, map (head_line ?l) (wrap_lines rs))"
    using log_text [OF i(1) _ assms, of "[0x0a]"] i(2) w by (simp add: log_write_def wrap_lines_def)
  moreover have "concat (wrap_lines rs) = encs rs"
    using wrap_runes_concat [OF w] w by (simp add: wrap_lines_def)
  moreover have "list_all (\<lambda>w. length w \<le> max_log_line) (wrap_lines rs)"
    using wrap_runes_bound [OF w _ v] w by (auto simp: wrap_lines_def)
  ultimately show ?thesis by blast
qed

theorem log_text_lines_witness:
  "log_write (new_line_logger True ''g'') ([0x68, 0xc3, 0xa9] @ [0x0a]) =
     (new_line_logger True ''g'', [[0x3c, 0x37, 0x3e, 0x67, 0x3a, 0x20, 0x68, 0xc3, 0xa9, 0x0a]])"
proof -
  have "list_all log_rune [0x68, 0xe9]" by (simp add: log_rune_def valid_rune_def)
  note log_text_lines [OF this, of True "''g''"]
  moreover have "encs [0x68, 0xe9] = [0x68, 0xc3, 0xa9]" by (simp add: enc_def enc_nat_def)
  moreover have "wrap_lines [0x68, 0xe9] = [[0x68, 0xc3, 0xa9]]"
    by (simp add: wrap_lines_def enc_def enc_nat_def max_log_line_def)
  ultimately show ?thesis
    by (simp add: head_line_def log_head_def new_line_logger_def bytes_of_def)
qed

text \<open>
  Colours and other control sequences of the guest leave no trace in the journal: a CSI
  sequence, whatever its parameters, changes neither the line nor what follows it.
\<close>

theorem log_drops_csi:
  assumes "idle l" "list_all (\<lambda>b. b < 0x40 \<or> 0x7e < b) ps" "0x40 \<le> f" "f \<le> 0x7e"
  shows "log_write l ([0x1b, 0x5b] @ ps @ f # bs) = log_write l bs"
proof -
  let ?c = "l\<lparr>ll_csi := True\<rparr>"
  have a: "log_step l 0x1b = (l\<lparr>ll_escape := True\<rparr>, [], [])"
    using assms(1) unfolding log_step_def idle_def by simp
  have e: "log_step (l\<lparr>ll_escape := True\<rparr>) 0x5b = (?c, [], [])"
    using assms(1) unfolding log_step_def idle_def by (cases l) simp
  have p: "log_step ?c b = (?c\<lparr>ll_csi := b < 0x40 \<or> 0x7e < b\<rparr>, [], [])" for b
    using assms(1) unfolding log_step_def idle_def by simp
  have "log_all ?c (ps @ f # bs) = log_all ?c (f # bs)"
    using assms(2) by (induction ps) (simp_all add: p)
  moreover have "l\<lparr>ll_csi := False\<rparr> = l" using assms(1) by (cases l) (simp add: idle_def)
  then have "log_all ?c (f # bs) = log_all l bs"
    using assms(3,4) by (simp add: p not_less [symmetric])
  ultimately show ?thesis by (simp add: log_write_def a e)
qed

theorem log_drops_csi_witness:
  "log_write (new_line_logger False ''g'') ([0x1b, 0x5b] @ [0x33, 0x31] @ 0x6d # [0x61]) =
   log_write (new_line_logger False ''g'') [0x61]"
  by (rule log_drops_csi) (simp_all add: idle_def new_line_logger_def)

end
