(* ===== verification/Systems.thy ===== *)
theory Systems
  imports Main
begin

text \<open>
  Concurrent components as labelled step relations: a run is a list of labels, which are what the
  component does to its surroundings. A specification is a deterministic acceptor of labels; the
  locale \<open>refines\<close> states what makes every run of a component one that the specification accepts.
\<close>

inductive steps :: "('s \<Rightarrow> 'l \<Rightarrow> 's \<Rightarrow> bool) \<Rightarrow> 's \<Rightarrow> 'l list \<Rightarrow> 's \<Rightarrow> bool" for step and start where
  no_step: "steps step start [] start"
| one_more: "steps step start ls s \<Longrightarrow> step s l s' \<Longrightarrow> steps step start (ls @ [l]) s'"

fun accept :: "('a \<Rightarrow> 'l \<Rightarrow> 'a option) \<Rightarrow> 'a \<Rightarrow> 'l list \<Rightarrow> 'a option" where
  "accept nxt a [] = Some a"
| "accept nxt a (l # ls) = (case nxt a l of None \<Rightarrow> None | Some b \<Rightarrow> accept nxt b ls)"

lemma accept_append:
  "accept nxt a (ls @ ks) = (case accept nxt a ls of None \<Rightarrow> None | Some b \<Rightarrow> accept nxt b ks)"
  by (induction ls arbitrary: a) (auto split: option.split)

text \<open>Runs step by step, from the front.\<close>

lemma steps_Cons:
  assumes "step s l t" "steps step t ls u"
  shows "steps step s (l # ls) u"
  using assms(2)
proof (induction rule: steps.induct)
  case no_step
  show ?case using steps.one_more [OF steps.no_step, of step s l t] assms(1) by simp
next
  case (one_more ls v k v')
  then show ?case using steps.one_more [of step s "l # ls" v k v'] by simp
qed

locale refines =
  fixes step :: "'s \<Rightarrow> 'l \<Rightarrow> 's \<Rightarrow> bool" and start :: 's
    and nxt :: "'a \<Rightarrow> 'l \<Rightarrow> 'a option" and first :: 'a
    and rel :: "'s \<Rightarrow> 'a \<Rightarrow> bool"
  assumes rel_start: "rel start first"
    and rel_step: "rel s a \<Longrightarrow> step s l s' \<Longrightarrow> \<exists>a'. nxt a l = Some a' \<and> rel s' a'"
begin

lemma run_accepted: "steps step start ls s \<Longrightarrow> \<exists>a. accept nxt first ls = Some a \<and> rel s a"
proof (induction rule: steps.induct)
  case no_step
  then show ?case by (simp add: rel_start)
next
  case (one_more ls s l s')
  then obtain a where a: "accept nxt first ls = Some a" "rel s a" by blast
  from rel_step [OF a(2) one_more.hyps(2)] obtain a' where "nxt a l = Some a'" "rel s' a'" by blast
  with a(1) show ?case by (auto simp: accept_append)
qed

end

end
