(* ===== verification/ConsoleServer.thy ===== *)
theory ConsoleServer
  imports Systems Prelude
begin

text \<open>
  cmd/invirtio/console.go: the relay of a guest's console to the clients of a Unix socket. A client
  is known by a number, and its state is what its connection and its channel hold. The goroutines
  are the rules of a step relation: \<open>output\<close>, the start and the end of \<open>attach\<close>, the writer of each
  client, and \<open>close\<close>. The mutex makes each rule one step. The specification is a log of all the
  output, in which every client has a position.
\<close>

definition scrollback :: nat where "scrollback = 65536"
definition queue_limit :: nat where "queue_limit = 256"

record client =
  cl_open :: bool
  cl_registered :: bool
  cl_queue :: "byte list list"

record console_server =
  cs_recent :: "byte list"
  cs_size :: "nat \<times> nat"
  cs_signals :: nat
  cs_clients :: "nat \<Rightarrow> client option"

definition new_console_server :: console_server where
  "new_console_server = \<lparr>cs_recent = [], cs_size = (24, 80), cs_signals = 0, cs_clients = (\<lambda>_. None)\<rparr>"

definition last_bytes :: "byte list \<Rightarrow> byte list" where
  "last_bytes p = (if length p > scrollback then drop (length p - scrollback) p else p)"

text \<open>A client whose channel is full is dropped: its channel and its connection are closed.\<close>

definition deliver :: "byte list \<Rightarrow> client \<Rightarrow> client" where
  "deliver p c =
     (if \<not> cl_registered c then c
      else if length (cl_queue c) < queue_limit then c\<lparr>cl_queue := cl_queue c @ [p]\<rparr>
      else c\<lparr>cl_registered := False, cl_open := False\<rparr>)"

definition output_chunk :: "byte list \<Rightarrow> console_server \<Rightarrow> console_server" where
  "output_chunk p s = s\<lparr>cs_recent := last_bytes (cs_recent s @ p),
     cs_clients := (\<lambda>i. map_option (deliver p) (cs_clients s i))\<rparr>"

text \<open>The header of a connection: two big-endian 16-bit numbers.\<close>

fun header_size :: "byte list \<Rightarrow> (nat \<times> nat) option" where
  "header_size [a, b, c, d] = Some (256 * unat a + unat b, 256 * unat c + unat d)"
| "header_size _ = None"

definition resize :: "nat \<times> nat \<Rightarrow> bool \<Rightarrow> console_server \<Rightarrow> console_server" where
  "resize sz ok s =
     (if fst sz = 0 \<or> snd sz = 0 \<or> \<not> ok then s else s\<lparr>cs_size := sz, cs_signals := Suc (cs_signals s)\<rparr>)"

definition attach_client :: "nat \<Rightarrow> console_server \<Rightarrow> console_server" where
  "attach_client i s = s\<lparr>cs_clients := (cs_clients s)(i \<mapsto>
     \<lparr>cl_open = True, cl_registered = True, cl_queue = [cs_recent s]\<rparr>)\<rparr>"

definition drop_client :: "client \<Rightarrow> client" where
  "drop_client c = (if cl_registered c then c\<lparr>cl_registered := False, cl_open := False\<rparr> else c)"

definition close_server :: "console_server \<Rightarrow> console_server" where
  "close_server s = s\<lparr>cs_clients := (\<lambda>i. map_option drop_client (cs_clients s i))\<rparr>"

text \<open>
  \<open>Wrote i p\<close> and \<open>Failed i p\<close> write \<open>p\<close> to the connection of a client; a write that fails can have
  written a part of its chunk, and nothing once the connection is closed.
\<close>

datatype console_label =
    Output "byte list" | Resize nat nat | Attach nat | Wrote nat "byte list" | Failed nat "byte list"
  | Unregister nat | CloseConn nat | CloseServer

inductive console_step :: "console_server \<Rightarrow> console_label \<Rightarrow> console_server \<Rightarrow> bool" where
  outputs: "console_step s (Output p) (output_chunk p s)"
| resizes: "header_size hdr = Some (r, c) \<Longrightarrow> console_step s (Resize r c) (resize (r, c) ok s)"
| attaches: "cs_clients s i = None \<Longrightarrow> console_step s (Attach i) (attach_client i s)"
| wrote: "cs_clients s i = Some c \<Longrightarrow> cl_open c \<Longrightarrow> cl_queue c = p # ps \<Longrightarrow>
     console_step s (Wrote i p) (s\<lparr>cs_clients := (cs_clients s)(i \<mapsto> c\<lparr>cl_queue := ps\<rparr>)\<rparr>)"
| failed: "cs_clients s i = Some c \<Longrightarrow> cl_queue c = p # ps \<Longrightarrow> (if cl_open c then q = take n p else q = []) \<Longrightarrow>
     console_step s (Failed i q) (s\<lparr>cs_clients := (cs_clients s)(i \<mapsto> c\<lparr>cl_queue := ps, cl_open := False\<rparr>)\<rparr>)"
| unregisters: "cs_clients s i = Some c \<Longrightarrow>
     console_step s (Unregister i) (s\<lparr>cs_clients := (cs_clients s)(i \<mapsto> c\<lparr>cl_registered := False\<rparr>)\<rparr>)"
| close_conn: "cs_clients s i = Some c \<Longrightarrow> \<not> cl_registered c \<Longrightarrow>
     console_step s (CloseConn i) (s\<lparr>cs_clients := (cs_clients s)(i \<mapsto> c\<lparr>cl_open := False\<rparr>)\<rparr>)"
| closes: "console_step s CloseServer (close_server s)"

inductive_cases output_stepE: "console_step s (Output p) t"
inductive_cases resize_stepE: "console_step s (Resize r c) t"
inductive_cases attach_stepE: "console_step s (Attach i) t"
inductive_cases wrote_stepE: "console_step s (Wrote i p) t"
inductive_cases failed_stepE: "console_step s (Failed i p) t"
inductive_cases unregister_stepE: "console_step s (Unregister i) t"
inductive_cases close_conn_stepE: "console_step s (CloseConn i) t"
inductive_cases close_stepE: "console_step s CloseServer t"


subsection \<open>The specification\<close>

text \<open>
  The log of all the output, and how far into it each client was written. A client starts at most
  64 KiB before the end of the log, and what is written to it is what comes next in the log.
\<close>

record relay =
  rl_log :: "byte list"
  rl_pos :: "nat \<Rightarrow> nat option"

definition new_relay :: relay where
  "new_relay = \<lparr>rl_log = [], rl_pos = (\<lambda>_. None)\<rparr>"

definition advance :: "relay \<Rightarrow> nat \<Rightarrow> byte list \<Rightarrow> relay option" where
  "advance a i p =
     (case rl_pos a i of
        None \<Rightarrow> None
      | Some n \<Rightarrow>
          if take (length p) (drop n (rl_log a)) = p then Some (a\<lparr>rl_pos := (rl_pos a)(i \<mapsto> n + length p)\<rparr>) else None)"

fun relay_next :: "relay \<Rightarrow> console_label \<Rightarrow> relay option" where
  "relay_next a (Output p) = Some (a\<lparr>rl_log := rl_log a @ p\<rparr>)"
| "relay_next a (Attach i) =
     (if rl_pos a i = None then Some (a\<lparr>rl_pos := (rl_pos a)(i \<mapsto> length (rl_log a) - scrollback)\<rparr>) else None)"
| "relay_next a (Wrote i p) = advance a i p"
| "relay_next a (Failed i p) = advance a i p"
| "relay_next a _ = Some a"

text \<open>
  What a client's channel holds is what comes next for it, up to the end of the log while it is
  registered; and no more than 256 chunks.
\<close>

definition client_rel :: "byte list \<Rightarrow> nat \<Rightarrow> client \<Rightarrow> bool" where
  "client_rel log n c \<longleftrightarrow> n \<le> length log \<and> length (cl_queue c) \<le> queue_limit \<and>
     (cl_open c \<longrightarrow> (\<exists>rest. drop n log = concat (cl_queue c) @ rest \<and> (cl_registered c \<longrightarrow> rest = [])))"

fun known_rel :: "byte list \<Rightarrow> client option \<Rightarrow> nat option \<Rightarrow> bool" where
  "known_rel log None None = True"
| "known_rel log (Some c) (Some n) = client_rel log n c"
| "known_rel log _ _ = False"

definition console_rel :: "console_server \<Rightarrow> relay \<Rightarrow> bool" where
  "console_rel s a \<longleftrightarrow> cs_recent s = drop (length (rl_log a) - scrollback) (rl_log a) \<and>
     (\<forall>i. known_rel (rl_log a) (cs_clients s i) (rl_pos a i))"

lemma last_bytes_append:
  "last_bytes (drop (length log - scrollback) log @ p) = drop (length (log @ p) - scrollback) (log @ p)"
proof (cases "length log \<le> scrollback")
  case True
  then show ?thesis by (auto simp: last_bytes_def)
next
  case False
  then have l: "length (drop (length log - scrollback) log) = scrollback" by simp
  have "length (log @ p) - scrollback = (length log - scrollback) + length p" using False by simp
  then have "drop (length (log @ p) - scrollback) (log @ p) =
      drop (length p) (drop (length log - scrollback) (log @ p))" by (simp add: add.commute)
  also have "drop (length log - scrollback) (log @ p) = drop (length log - scrollback) log @ p"
    using False by simp
  finally show ?thesis using l by (simp add: last_bytes_def)
qed

lemma deliver_rel: "client_rel log n c \<Longrightarrow> client_rel (log @ p) n (deliver p c)"
  by (auto simp: client_rel_def deliver_def)

lemma drop_client_rel: "client_rel log n c \<Longrightarrow> client_rel log n (drop_client c)"
  by (auto simp: client_rel_def drop_client_def)

lemma new_client_rel:
  "client_rel log (length log - scrollback)
     \<lparr>cl_open = True, cl_registered = True, cl_queue = [drop (length log - scrollback) log]\<rparr>"
  by (simp add: client_rel_def queue_limit_def)

lemma write_rel:
  assumes "client_rel log n c" "cl_queue c = p # ps"
  shows "cl_open c \<Longrightarrow> take (length p) (drop n log) = p \<and> client_rel log (n + length p) (c\<lparr>cl_queue := ps\<rparr>)"
    and "(if cl_open c then q = take k p else q = []) \<Longrightarrow>
      take (length q) (drop n log) = q \<and> client_rel log (n + length q) (c\<lparr>cl_queue := ps, cl_open := False\<rparr>)"
proof -
  have next_bytes: "\<exists>rest. drop n log = p @ rest" if "cl_open c" using assms that by (auto simp: client_rel_def)
  have le: "n + length p \<le> length log" if "cl_open c"
  proof -
    from next_bytes [OF that] obtain rest where "drop n log = p @ rest" by blast
    then have "length log - n = length p + length rest" by (metis length_append length_drop)
    moreover have "n \<le> length log" using assms(1) by (simp add: client_rel_def)
    ultimately show ?thesis by linarith
  qed
  show "take (length p) (drop n log) = p \<and> client_rel log (n + length p) (c\<lparr>cl_queue := ps\<rparr>)" if "cl_open c"
  proof -
    from assms that obtain rest where r: "drop n log = p @ concat ps @ rest" "cl_registered c \<longrightarrow> rest = []"
      by (auto simp: client_rel_def)
    have "drop (n + length p) log = concat ps @ rest"
      using r(1) by (metis add.commute append_eq_conv_conj drop_drop)
    with r le [OF that] assms that show ?thesis by (auto simp: client_rel_def)
  qed
  show "take (length q) (drop n log) = q \<and> client_rel log (n + length q) (c\<lparr>cl_queue := ps, cl_open := False\<rparr>)"
    if q: "if cl_open c then q = take k p else q = []"
  proof (cases "cl_open c")
    case True
    with next_bytes obtain rest where "drop n log = p @ rest" by blast
    moreover have "q = take k p" using q True by simp
    ultimately have "take (length q) (drop n log) = q" by (simp add: min_def)
    moreover have "n + length q \<le> length log" using le [OF True] \<open>q = take k p\<close> by simp
    ultimately show ?thesis using assms by (simp add: client_rel_def)
  next
    case False
    then show ?thesis using assms q by (simp add: client_rel_def)
  qed
qed


subsection \<open>Refinement\<close>

lemma known_rel_iff [simp]:
  "known_rel log None no \<longleftrightarrow> no = None" "known_rel log (Some c) no \<longleftrightarrow> (\<exists>n. no = Some n \<and> client_rel log n c)"
  by (cases no; simp)+

lemma known_rel_maps:
  "known_rel log co no \<Longrightarrow> known_rel (log @ p) (map_option (deliver p) co) no"
  "known_rel log co no \<Longrightarrow> known_rel log (map_option drop_client co) no"
  by (cases co; auto intro: deliver_rel drop_client_rel)+

lemma console_rel_client:
  "console_rel s a \<Longrightarrow> cs_clients s i = Some c \<Longrightarrow> \<exists>n. rl_pos a i = Some n \<and> client_rel (rl_log a) n c"
  unfolding console_rel_def by (elim conjE allE [of _ i]) simp

lemma console_rel_write:
  "console_rel s a \<Longrightarrow> client_rel (rl_log a) m c \<Longrightarrow>
   console_rel (s\<lparr>cs_clients := (cs_clients s)(i \<mapsto> c)\<rparr>) (a\<lparr>rl_pos := (rl_pos a)(i \<mapsto> m)\<rparr>)"
  by (simp add: console_rel_def)

lemma console_rel_update:
  assumes "console_rel s a" "cs_clients s i = Some c" "\<And>n. client_rel (rl_log a) n c \<Longrightarrow> client_rel (rl_log a) n c'"
  shows "console_rel (s\<lparr>cs_clients := (cs_clients s)(i \<mapsto> c')\<rparr>) a"
  using assms console_rel_client [OF assms(1,2)] by (auto simp: console_rel_def)

lemma console_rel_step:
  assumes rel: "console_rel s a" and step: "console_step s l s'"
  shows "\<exists>a'. relay_next a l = Some a' \<and> console_rel s' a'"
  using step
proof (cases rule: console_step.cases)
  case (outputs p)
  have "console_rel (output_chunk p s) (a\<lparr>rl_log := rl_log a @ p\<rparr>)"
    using rel last_bytes_append [of "rl_log a" p] known_rel_maps(1)
    by (simp add: console_rel_def output_chunk_def del: known_rel_iff)
  with outputs show ?thesis by simp
next
  case (resizes hdr r c ok)
  with rel show ?thesis by (simp add: resize_def console_rel_def)
next
  case (attaches i)
  then have i: "rl_pos a i = None" using rel unfolding console_rel_def by (elim conjE allE [of _ i]) simp
  have "console_rel s' (a\<lparr>rl_pos := (rl_pos a)(i \<mapsto> length (rl_log a) - scrollback)\<rparr>)"
    using rel new_client_rel by (simp add: attaches console_rel_def attach_client_def)
  with i attaches show ?thesis by simp
next
  case (wrote i c p ps)
  from console_rel_client [OF rel wrote(3)] obtain n where n: "rl_pos a i = Some n" "client_rel (rl_log a) n c" by blast
  note w = write_rel(1) [OF n(2) wrote(5,4)]
  with n console_rel_write [OF rel] wrote show ?thesis by (simp add: advance_def)
next
  case (failed i c p ps q n)
  from console_rel_client [OF rel failed(3)] obtain m where m: "rl_pos a i = Some m" "client_rel (rl_log a) m c" by blast
  note w = write_rel(2) [OF m(2) failed(4,5)]
  with m console_rel_write [OF rel] failed show ?thesis by (simp add: advance_def)
next
  case (unregisters i c)
  have "console_rel s' a"
    unfolding unregisters(2) by (rule console_rel_update [OF rel unregisters(3)]) (auto simp: client_rel_def)
  with unregisters show ?thesis by simp
next
  case (close_conn i c)
  have "console_rel s' a"
    unfolding close_conn(2) by (rule console_rel_update [OF rel close_conn(3)]) (auto simp: client_rel_def)
  with close_conn show ?thesis by simp
next
  case closes
  have "console_rel s' a"
    using rel known_rel_maps(2)
    by (simp add: closes console_rel_def close_server_def del: known_rel_iff)
  with closes show ?thesis by simp
qed

interpretation relayed: refines console_step new_console_server relay_next new_relay console_rel
  by unfold_locales (simp add: console_rel_def new_console_server_def new_relay_def, rule console_rel_step)


subsection \<open>Properties\<close>

text \<open>
  C3 Every client sees the guest's console without gaps: in every interleaving of output, clients,
  writes that fail and the end of the server, what is written to a client is the log of all the
  output from at most 64 KiB before the client came, in order and without a byte left out, up to
  where it was dropped; and the server holds no more than 64 KiB of the log and 256 chunks a client.
\<close>

theorem console_refines_relay:
  assumes "steps console_step new_console_server ls s"
  shows "(\<exists>a. accept relay_next new_relay ls = Some a \<and> console_rel s a) \<and> length (cs_recent s) \<le> scrollback \<and>
    (\<forall>i. case cs_clients s i of None \<Rightarrow> True | Some c \<Rightarrow> length (cl_queue c) \<le> queue_limit)"
proof -
  from relayed.run_accepted [OF assms] obtain a where a: "accept relay_next new_relay ls = Some a" "console_rel s a" by blast
  moreover have "length (cs_recent s) \<le> scrollback" using a(2) by (simp add: console_rel_def)
  moreover have "length (cl_queue c) \<le> queue_limit" if "cs_clients s i = Some c" for i c
    using console_rel_client [OF a(2) that] by (auto simp: client_rel_def)
  ultimately show ?thesis by (auto split: option.split)
qed

theorem console_refines_relay_witness:
  "accept relay_next new_relay [Output [104, 105], Attach 0, Output [33], Wrote 0 [104, 105], Wrote 0 [33]] \<noteq> None"
proof -
  let ?s1 = "output_chunk [104, 105] new_console_server"
  let ?s2 = "attach_client 0 ?s1"
  let ?s3 = "output_chunk [33] ?s2"
  let ?c = "\<lparr>cl_open = True, cl_registered = True, cl_queue = [[104, 105], [33]]\<rparr>"
  let ?s4 = "?s3\<lparr>cs_clients := (cs_clients ?s3)(0 \<mapsto> ?c\<lparr>cl_queue := [[33]]\<rparr>)\<rparr>"
  let ?s5 = "?s4\<lparr>cs_clients := (cs_clients ?s4)(0 \<mapsto> ?c\<lparr>cl_queue := []\<rparr>)\<rparr>"
  have c: "cs_clients ?s3 0 = Some ?c"
    by (simp add: output_chunk_def attach_client_def deliver_def queue_limit_def new_console_server_def
        last_bytes_def scrollback_def)
  have n: "cs_clients ?s1 0 = None" by (simp add: output_chunk_def new_console_server_def)
  have w1: "console_step ?s3 (Wrote 0 [104, 105]) ?s4"
    using console_step.wrote [OF c, of "[104, 105]" "[[33]]"] by simp
  have w2: "console_step ?s4 (Wrote 0 [33]) ?s5"
    using console_step.wrote [of ?s4 0 "?c\<lparr>cl_queue := [[33]]\<rparr>" "[33]" "[]"] by simp
  have "steps console_step new_console_server
      [Output [104, 105], Attach 0, Output [33], Wrote 0 [104, 105], Wrote 0 [33]] ?s5"
    by (rule steps_Cons, rule console_step.outputs, rule steps_Cons, rule console_step.attaches [OF n],
        rule steps_Cons, rule console_step.outputs, rule steps_Cons, rule w1, rule steps_Cons, rule w2, rule steps.no_step)
  from console_refines_relay [OF this] show ?thesis by blast
qed

end
