(* ===== verification/Supervisor.thy ===== *)
theory Supervisor
  imports Systems
begin

text \<open>
  cmd/invirtio/run.go: the supervisor of a running guest, from the start of the attacher to the end
  of \<open>supervise\<close>. Three goroutines share the state: the main one, whose program counter is \<open>main_pc\<close>,
  the attacher, whose counter is \<open>att_pc\<close>, and the one that waits for the launcher. Signals, the
  launcher's end, and the state of the device on the host change at any time. The labels of the step
  relation are the calls that change the host, what the attacher learns, and the end.

  The mutex of the attacher is held in the counters \<open>A_locked\<close>, \<open>A_bind\<close>, \<open>A_bound\<close> and \<open>A_add\<close>.
  The waits for the end of the output, and the attacher's messages and its wait for interfaces, are
  steps without effect.
\<close>

datatype main_pc =
    M_select | M_signal | M_stop | M_join | M_remove | M_term
  | M_after | M_lower | M_unattached | M_end_stop | M_end_join | M_live | M_final | M_keep | M_return | M_done

datatype att_pc = A_top | A_locked | A_unattached | A_bind | A_bound bool | A_add | A_post | A_done

record supervisor =
  sv_main :: main_pc
  sv_att :: att_pc
  sv_signals :: nat
  sv_running :: bool
  sv_gone :: bool
  sv_sent :: bool
  sv_exited :: bool
  sv_stopping :: bool
  sv_stopped :: bool
  sv_live :: bool
  sv_saw_live :: bool
  sv_exists :: bool
  sv_attached :: bool

definition start_supervisor :: supervisor where
  "start_supervisor = \<lparr>sv_main = M_select, sv_att = A_top, sv_signals = 0, sv_running = True, sv_gone = False,
     sv_sent = False, sv_exited = False, sv_stopping = False, sv_stopped = False, sv_live = False, sv_saw_live = False,
     sv_exists = False, sv_attached = False\<rparr>"

definition att_holds_lock :: "att_pc \<Rightarrow> bool" where
  "att_holds_lock p \<longleftrightarrow> (case p of A_locked \<Rightarrow> True | A_unattached \<Rightarrow> True | A_bind \<Rightarrow> True | A_bound _ \<Rightarrow> True | A_add \<Rightarrow> True | _ \<Rightarrow> False)"

datatype sup_label =
    Quiet | SigArrives | LauncherEnds | SeenGone | Expired
  | Added | Binds | Bound bool | BindFailed | Stopped | Removed bool | Terminated | Lowered | Cleaned | Stays | Returned_ok bool

text \<open>The surroundings: the host's devices, signals (at most two wait in the channel), the launcher.\<close>

inductive env_step :: "supervisor \<Rightarrow> sup_label \<Rightarrow> supervisor \<Rightarrow> bool" where
  devices: "env_step s Quiet (s\<lparr>sv_exists := x, sv_attached := a\<rparr>)"
| signals: "env_step s SigArrives (s\<lparr>sv_signals := min 2 (Suc (sv_signals s))\<rparr>)"
| launcher_ends: "sv_running s \<Longrightarrow> env_step s LauncherEnds (s\<lparr>sv_running := False\<rparr>)"

text \<open>The goroutine that waits for the launcher, stores \<open>launcherGone\<close> and then sends the error.\<close>

inductive wait_step :: "supervisor \<Rightarrow> sup_label \<Rightarrow> supervisor \<Rightarrow> bool" where
  seen_gone: "\<not> sv_running s \<Longrightarrow> \<not> sv_gone s \<Longrightarrow> wait_step s SeenGone (s\<lparr>sv_gone := True\<rparr>)"
| sends_exit: "sv_gone s \<Longrightarrow> \<not> sv_sent s \<Longrightarrow> wait_step s Quiet (s\<lparr>sv_sent := True, sv_exited := True\<rparr>)"

text \<open>
  The attacher: \<open>startAttacher\<close>. It reads \<open>launcherGone\<close> after the bind, still under the lock. Its
  loop can end whenever it is at the top, since time is not modelled.
\<close>

inductive att_step :: "supervisor \<Rightarrow> sup_label \<Rightarrow> supervisor \<Rightarrow> bool" where
  expires: "sv_att s = A_top \<Longrightarrow> att_step s Expired (s\<lparr>sv_att := A_done\<rparr>)"
| locks: "sv_att s = A_top \<Longrightarrow> att_step s Quiet (s\<lparr>sv_att := A_locked\<rparr>)"
| was_stopped: "sv_att s = A_locked \<Longrightarrow> sv_stopped s \<Longrightarrow> att_step s Quiet (s\<lparr>sv_att := A_done\<rparr>)"
| is_attached: "sv_att s = A_locked \<Longrightarrow> \<not> sv_stopped s \<Longrightarrow> sv_attached s \<Longrightarrow> att_step s Quiet (s\<lparr>sv_att := A_bind\<rparr>)"
| not_attached: "sv_att s = A_locked \<Longrightarrow> \<not> sv_stopped s \<Longrightarrow> \<not> sv_attached s \<Longrightarrow>
     att_step s Quiet (s\<lparr>sv_att := A_unattached\<rparr>)"
| may_add: "sv_att s = A_unattached \<Longrightarrow> sv_exists s \<Longrightarrow> att_step s Quiet (s\<lparr>sv_att := A_add\<rparr>)"
| waits: "sv_att s = A_unattached \<Longrightarrow> \<not> sv_exists s \<Longrightarrow> att_step s Quiet (s\<lparr>sv_att := A_top\<rparr>)"
| adds: "sv_att s = A_add \<Longrightarrow> att_step s Added (s\<lparr>sv_att := A_top, sv_attached := a\<rparr>)"
| binds: "sv_att s = A_bind \<Longrightarrow> att_step s Binds (s\<lparr>sv_att := A_bound ok\<rparr>)"
| bound: "sv_att s = A_bound True \<Longrightarrow>
     att_step s (Bound (\<not> sv_gone s)) (s\<lparr>sv_att := A_post, sv_live := \<not> sv_gone s\<rparr>)"
| not_bound: "sv_att s = A_bound False \<Longrightarrow> att_step s BindFailed (s\<lparr>sv_att := A_done, sv_live := False\<rparr>)"
| reports: "sv_att s = A_post \<Longrightarrow> att_step s Quiet (s\<lparr>sv_att := A_done\<rparr>)"

text \<open>
  The main goroutine: the select loop, a stop with \<open>att.stop\<close>, \<open>vdpa.Remove\<close> and SIGTERM, and what
  follows the launcher's end. \<open>wlan\<close> is whether the device is one.
\<close>

inductive main_step :: "bool \<Rightarrow> supervisor \<Rightarrow> sup_label \<Rightarrow> supervisor \<Rightarrow> bool" for wlan where
  takes_signal: "sv_main s = M_select \<Longrightarrow> sv_signals s > 0 \<Longrightarrow>
     main_step wlan s Quiet (s\<lparr>sv_main := M_signal, sv_signals := sv_signals s - 1\<rparr>)"
| takes_exit: "sv_main s = M_select \<Longrightarrow> sv_exited s \<Longrightarrow>
     main_step wlan s Quiet (s\<lparr>sv_main := M_after, sv_exited := False\<rparr>)"
| exit_with_signal: "sv_main s = M_signal \<Longrightarrow> sv_exited s \<Longrightarrow>
     main_step wlan s Quiet (s\<lparr>sv_main := M_after, sv_exited := False, sv_stopping := True\<rparr>)"
| first_signal: "sv_main s = M_signal \<Longrightarrow> \<not> sv_exited s \<Longrightarrow> \<not> sv_stopping s \<Longrightarrow>
     main_step wlan s Quiet (s\<lparr>sv_main := M_stop, sv_stopping := True\<rparr>)"
| next_signal: "sv_main s = M_signal \<Longrightarrow> \<not> sv_exited s \<Longrightarrow> sv_stopping s \<Longrightarrow>
     main_step wlan s Quiet (s\<lparr>sv_main := M_term\<rparr>)"
| stops: "sv_main s = M_stop \<Longrightarrow> \<not> att_holds_lock (sv_att s) \<Longrightarrow>
     main_step wlan s Stopped (s\<lparr>sv_main := M_join, sv_stopped := True\<rparr>)"
| joins: "sv_main s = M_join \<Longrightarrow> sv_att s = A_done \<Longrightarrow> main_step wlan s Quiet (s\<lparr>sv_main := M_remove\<rparr>)"
| removes: "sv_main s = M_remove \<Longrightarrow>
     main_step wlan s (Removed (sv_gone s)) (s\<lparr>sv_main := M_term, sv_attached := a\<rparr>)"
| terminates: "sv_main s = M_term \<Longrightarrow> main_step wlan s Terminated (s\<lparr>sv_main := M_select\<rparr>)"
| late_signal: "sv_main s = M_after \<Longrightarrow> sv_signals s > 0 \<Longrightarrow>
     main_step wlan s Quiet (s\<lparr>sv_main := M_lower, sv_signals := sv_signals s - 1, sv_stopping := True\<rparr>)"
| no_signal: "sv_main s = M_after \<Longrightarrow> sv_signals s = 0 \<Longrightarrow> main_step wlan s Quiet (s\<lparr>sv_main := M_lower\<rparr>)"
| on_bus: "sv_main s = M_lower \<Longrightarrow> sv_attached s \<Longrightarrow> main_step wlan s Quiet (s\<lparr>sv_main := M_end_stop\<rparr>)"
| off_bus: "sv_main s = M_lower \<Longrightarrow> \<not> sv_attached s \<Longrightarrow> main_step wlan s Quiet (s\<lparr>sv_main := M_unattached\<rparr>)"
| lowers: "sv_main s = M_unattached \<Longrightarrow> sv_exists s \<Longrightarrow> main_step wlan s Lowered (s\<lparr>sv_main := M_end_stop\<rparr>)"
| need_not_lower: "sv_main s = M_unattached \<Longrightarrow> \<not> sv_exists s \<Longrightarrow>
     main_step wlan s Quiet (s\<lparr>sv_main := M_end_stop\<rparr>)"
| end_stops: "sv_main s = M_end_stop \<Longrightarrow> \<not> att_holds_lock (sv_att s) \<Longrightarrow>
     main_step wlan s Stopped (s\<lparr>sv_main := M_end_join, sv_stopped := True\<rparr>)"
| end_joins: "sv_main s = M_end_join \<Longrightarrow> sv_att s = A_done \<Longrightarrow> main_step wlan s Quiet (s\<lparr>sv_main := M_live\<rparr>)"
| reads_live: "sv_main s = M_live \<Longrightarrow> \<not> att_holds_lock (sv_att s) \<Longrightarrow>
     main_step wlan s Quiet (s\<lparr>sv_main := M_final, sv_saw_live := sv_live s\<rparr>)"
| cleans: "sv_main s = M_final \<Longrightarrow> sv_stopping s \<or> wlan \<or> \<not> sv_saw_live s \<or> \<not> sv_attached s \<Longrightarrow>
     main_step wlan s Cleaned (s\<lparr>sv_main := M_return, sv_attached := a, sv_exists := x\<rparr>)"
| keeps: "sv_main s = M_final \<Longrightarrow> \<not> (sv_stopping s \<or> wlan \<or> \<not> sv_saw_live s \<or> \<not> sv_attached s) \<Longrightarrow>
     main_step wlan s Stays (s\<lparr>sv_main := M_keep\<rparr>)"
| says_so: "sv_main s = M_keep \<Longrightarrow> main_step wlan s Quiet (s\<lparr>sv_main := M_return\<rparr>)"
| returns: "sv_main s = M_return \<Longrightarrow> main_step wlan s (Returned_ok (sv_stopping s)) (s\<lparr>sv_main := M_done\<rparr>)"

inductive sup_step :: "bool \<Rightarrow> supervisor \<Rightarrow> sup_label \<Rightarrow> supervisor \<Rightarrow> bool" for wlan where
  by_env: "env_step s l t \<Longrightarrow> sv_main s \<noteq> M_done \<Longrightarrow> sup_step wlan s l t"
| by_waiter: "wait_step s l t \<Longrightarrow> sv_main s \<noteq> M_done \<Longrightarrow> sup_step wlan s l t"
| by_attacher: "att_step s l t \<Longrightarrow> sv_main s \<noteq> M_done \<Longrightarrow> sup_step wlan s l t"
| by_main: "main_step wlan s l t \<Longrightarrow> sup_step wlan s l t"


subsection \<open>What the supervisor promises\<close>

text \<open>
  The promises, as what each label may follow: the attacher acts only while it is not stopped, and
  counts the guest as live only before its launcher was seen gone; the device is removed with no
  attach in progress, and with the true state of the guest; the guest is ended only after that; the
  timeout is lowered and the device cleaned up only when the guest is gone; the device stays on the
  bus only for a net device that a live guest had there, and not after a stop; and a stop returns no
  error only when a signal came and the device was cleaned up.
\<close>

record promise =
  pr_open :: bool
  pr_signal :: bool
  pr_gone :: bool
  pr_live :: bool
  pr_removed :: bool
  pr_cleaned :: bool
  pr_kept :: bool

definition first_promise :: promise where
  "first_promise = \<lparr>pr_open = True, pr_signal = False, pr_gone = False, pr_live = False, pr_removed = False,
     pr_cleaned = False, pr_kept = False\<rparr>"

definition need :: "bool \<Rightarrow> 'a \<Rightarrow> 'a option" where
  "need b x = (if b then Some x else None)"

fun promise_next :: "bool \<Rightarrow> promise \<Rightarrow> sup_label \<Rightarrow> promise option" where
  "promise_next wlan p SigArrives = Some (p\<lparr>pr_signal := True\<rparr>)"
| "promise_next wlan p SeenGone = Some (p\<lparr>pr_gone := True\<rparr>)"
| "promise_next wlan p Added = need (pr_open p) p"
| "promise_next wlan p Binds = need (pr_open p) p"
| "promise_next wlan p (Bound b) = need (pr_open p \<and> b = (\<not> pr_gone p)) (p\<lparr>pr_live := b\<rparr>)"
| "promise_next wlan p BindFailed = need (pr_open p) (p\<lparr>pr_live := False\<rparr>)"
| "promise_next wlan p Stopped = Some (p\<lparr>pr_open := False\<rparr>)"
| "promise_next wlan p (Removed g) = need (\<not> pr_open p \<and> pr_signal p \<and> g = pr_gone p) (p\<lparr>pr_removed := True\<rparr>)"
| "promise_next wlan p Terminated = need (pr_removed p) p"
| "promise_next wlan p Lowered = need (pr_gone p) p"
| "promise_next wlan p Cleaned = need (pr_gone p \<and> \<not> pr_open p) (p\<lparr>pr_cleaned := True\<rparr>)"
| "promise_next wlan p Stays =
     need (pr_gone p \<and> \<not> pr_open p \<and> pr_live p \<and> \<not> wlan \<and> \<not> pr_removed p) (p\<lparr>pr_kept := True\<rparr>)"
| "promise_next wlan p (Returned_ok b) =
     need (if b then pr_signal p \<and> pr_cleaned p else pr_cleaned p = (\<not> pr_kept p)) p"
| "promise_next wlan p _ = Some p"

lemma need_simps [simp]:
  "(\<exists>q. need b x = Some q \<and> P q) \<longleftrightarrow> b \<and> P x" "(\<exists>q. x = q \<and> P q) \<longleftrightarrow> P x"
  by (simp_all add: need_def)

text \<open>Where the main goroutine is, as far as the invariant depends on it.\<close>

fun after_exit :: "main_pc \<Rightarrow> bool" where
  "after_exit M_select = False" | "after_exit M_signal = False" | "after_exit M_stop = False"
| "after_exit M_join = False" | "after_exit M_remove = False" | "after_exit M_term = False"
| "after_exit _ = True"

fun in_stop :: "main_pc \<Rightarrow> bool" where
  "in_stop M_stop = True" | "in_stop M_join = True" | "in_stop M_remove = True" | "in_stop M_term = True"
| "in_stop _ = False"

fun in_loop :: "main_pc \<Rightarrow> bool" where
  "in_loop M_select = True" | "in_loop M_signal = True" | "in_loop _ = False"

fun joined :: "main_pc \<Rightarrow> bool" where
  "joined M_remove = True" | "joined M_live = True" | "joined M_final = True" | "joined M_keep = True"
| "joined M_return = True" | "joined M_done = True" | "joined _ = False"

fun set_stopped :: "main_pc \<Rightarrow> bool" where
  "set_stopped M_join = True" | "set_stopped M_end_join = True" | "set_stopped m = joined m"

fun deciding :: "main_pc \<Rightarrow> bool" where
  "deciding M_final = True" | "deciding M_keep = True" | "deciding _ = False"

fun decided :: "main_pc \<Rightarrow> bool" where
  "decided M_keep = True" | "decided M_return = True" | "decided M_done = True" | "decided _ = False"

fun harmless :: "att_pc \<Rightarrow> bool" where
  "harmless A_top = True" | "harmless A_locked = True" | "harmless A_post = True" | "harmless A_done = True"
| "harmless _ = False"

definition att_inv :: "main_pc \<Rightarrow> att_pc \<Rightarrow> bool \<Rightarrow> bool" where
  "att_inv m a stopped \<longleftrightarrow> (stopped \<longrightarrow> harmless a) \<and> (set_stopped m \<longrightarrow> stopped) \<and> (joined m \<longrightarrow> a = A_done)"

definition exit_inv :: "main_pc \<Rightarrow> bool \<Rightarrow> bool \<Rightarrow> bool \<Rightarrow> bool \<Rightarrow> bool" where
  "exit_inv m running gone sent exited \<longleftrightarrow> (sent \<longrightarrow> gone) \<and> (exited \<longrightarrow> sent) \<and> (gone \<longrightarrow> \<not> running) \<and>
     (after_exit m \<longrightarrow> sent) \<and> (sent \<and> \<not> exited \<longrightarrow> after_exit m)"

definition live_inv :: "main_pc \<Rightarrow> bool \<Rightarrow> bool \<Rightarrow> bool" where
  "live_inv m saw live \<longleftrightarrow> (deciding m \<and> saw \<longrightarrow> live)"

definition signal_inv :: "main_pc \<Rightarrow> bool \<Rightarrow> nat \<Rightarrow> bool \<Rightarrow> bool" where
  "signal_inv m stopping n came \<longleftrightarrow> (stopping \<or> n > 0 \<or> m = M_signal \<longrightarrow> came)"

definition stop_inv :: "main_pc \<Rightarrow> bool \<Rightarrow> bool \<Rightarrow> bool" where
  "stop_inv m stopping removed \<longleftrightarrow> (m = M_term \<or> (stopping \<and> in_loop m) \<longrightarrow> removed) \<and>
     (in_stop m \<or> removed \<longrightarrow> stopping)"

definition end_inv :: "main_pc \<Rightarrow> bool \<Rightarrow> bool \<Rightarrow> bool \<Rightarrow> bool" where
  "end_inv m stopping cleaned kept \<longleftrightarrow> (\<not> decided m \<longrightarrow> \<not> cleaned \<and> \<not> kept) \<and>
     (m = M_keep \<longrightarrow> kept \<and> \<not> cleaned \<and> \<not> stopping) \<and>
     (m = M_return \<longrightarrow> cleaned = (\<not> kept) \<and> (stopping \<longrightarrow> cleaned))"

definition sup_rel :: "supervisor \<Rightarrow> promise \<Rightarrow> bool" where
  "sup_rel s p \<longleftrightarrow> (pr_open p \<longleftrightarrow> \<not> sv_stopped s) \<and> (pr_gone p \<longleftrightarrow> sv_gone s) \<and> (pr_live p \<longleftrightarrow> sv_live s) \<and>
     att_inv (sv_main s) (sv_att s) (sv_stopped s) \<and>
     exit_inv (sv_main s) (sv_running s) (sv_gone s) (sv_sent s) (sv_exited s) \<and>
     live_inv (sv_main s) (sv_saw_live s) (sv_live s) \<and>
     signal_inv (sv_main s) (sv_stopping s) (sv_signals s) (pr_signal p) \<and>
     stop_inv (sv_main s) (sv_stopping s) (pr_removed p) \<and>
     end_inv (sv_main s) (sv_stopping s) (pr_cleaned p) (pr_kept p)"

lemmas inv_defs = att_inv_def exit_inv_def live_inv_def signal_inv_def stop_inv_def end_inv_def

lemma free_lock: "\<not> att_holds_lock a \<Longrightarrow> harmless a"
  by (cases a) (simp_all add: att_holds_lock_def)

text \<open>The parts of the invariant at one place of the attacher or of the surroundings.\<close>

lemma exit_inv_steps:
  "exit_inv m r g t x \<Longrightarrow> exit_inv m False g t x"
  "exit_inv m False False t x \<Longrightarrow> exit_inv m False True t x"
  "exit_inv m r True False x \<Longrightarrow> exit_inv m r True True True"
  by (auto simp: exit_inv_def)

lemma signal_inv_steps:
  "signal_inv m st n True" "signal_inv m st n c \<Longrightarrow> n > 0 \<Longrightarrow> c"
  by (auto simp: signal_inv_def)

lemma att_inv_steps:
  "att_inv m a st \<Longrightarrow> a \<noteq> A_done \<Longrightarrow> harmless b \<Longrightarrow> att_inv m b st"
  "att_inv m a st \<Longrightarrow> a \<noteq> A_done \<Longrightarrow> \<not> st \<Longrightarrow> att_inv m b st"
  "att_inv m a st \<Longrightarrow> \<not> harmless a \<Longrightarrow> \<not> st"
  by (auto simp: att_inv_def)

lemma live_inv_steps: "att_inv m a st \<Longrightarrow> a \<noteq> A_done \<Longrightarrow> live_inv m saw live"
  by (cases m) (auto simp: att_inv_def live_inv_def)

lemma env_rel:
  assumes "sup_rel s p" "env_step s l t"
  shows "\<exists>q. promise_next wlan p l = Some q \<and> sup_rel t q"
  using assms(2,1)
  by cases (auto simp: sup_rel_def signal_inv_steps(1) intro: exit_inv_steps)

lemma wait_rel:
  assumes "sup_rel s p" "wait_step s l t"
  shows "\<exists>q. promise_next wlan p l = Some q \<and> sup_rel t q"
  using assms(2,1)
  by cases (auto simp: sup_rel_def intro: exit_inv_steps)

lemma att_rel:
  assumes "sup_rel s p" "att_step s l t"
  shows "\<exists>q. promise_next wlan p l = Some q \<and> sup_rel t q"
  using assms(2,1)
  by cases (auto simp: sup_rel_def intro: att_inv_steps live_inv_steps dest: att_inv_steps(3))

lemma main_rel:
  assumes "sup_rel s p" "main_step wlan s l t"
  shows "\<exists>q. promise_next wlan p l = Some q \<and> sup_rel t q"
  using assms(2,1) by cases (simp_all add: sup_rel_def inv_defs free_lock, blast+)

interpretation sup: refines "sup_step wlan" start_supervisor "promise_next wlan" first_promise sup_rel for wlan
proof
  show "sup_rel start_supervisor first_promise"
    by (simp add: sup_rel_def inv_defs start_supervisor_def first_promise_def)
  show "\<exists>q. promise_next wlan p l = Some q \<and> sup_rel t q" if "sup_rel s p" "sup_step wlan s l t" for s p l t
    using that(2,1) by cases (auto intro: env_rel wait_rel att_rel main_rel)
qed


subsection \<open>Progress\<close>

lemma att_progress: "sv_att s \<noteq> A_done \<Longrightarrow> \<exists>l t. att_step s l t"
proof (cases "sv_att s")
  case A_locked
  then show ?thesis using att_step.was_stopped att_step.is_attached att_step.not_attached by blast
next
  case A_unattached
  then show ?thesis using att_step.may_add att_step.waits by blast
next
  case (A_bound ok)
  show ?thesis
  proof (cases ok)
    case True
    with A_bound have "sv_att s = A_bound True" by simp
    from att_step.bound [OF this] show ?thesis by blast
  next
    case False
    with A_bound have "sv_att s = A_bound False" by simp
    from att_step.not_bound [OF this] show ?thesis by blast
  qed
qed (blast intro: att_step.intros)+

lemma main_progress:
  assumes "sv_att s = A_done" "sv_main s \<notin> {M_select, M_done}"
  shows "\<exists>l t. main_step wlan s l t"
proof -
  have f: "\<not> att_holds_lock (sv_att s)" using assms(1) by (simp add: att_holds_lock_def)
  show ?thesis
  proof (cases "sv_main s")
    case M_signal
    then show ?thesis using main_step.exit_with_signal main_step.first_signal main_step.next_signal by blast
  next
    case M_after
    then show ?thesis using main_step.late_signal main_step.no_signal by blast
  next
    case M_lower
    then show ?thesis using main_step.on_bus main_step.off_bus by blast
  next
    case M_unattached
    then show ?thesis using main_step.lowers main_step.need_not_lower by blast
  next
    case M_final
    then show ?thesis using main_step.cleans main_step.keeps by blast
  qed (use assms f in \<open>blast intro: main_step.intros\<close>)+
qed


text \<open>A run with a stop: the attacher timed out, a signal came, and the device was never on the bus.\<close>

lemma labelled: "sup_step wlan s k t \<Longrightarrow> k = l \<Longrightarrow> sup_step wlan s l t"
  by simp

definition stop_run :: "sup_label list" where
  "stop_run = [SigArrives, Expired, Quiet, Quiet, Stopped, Quiet, Removed False, Terminated, LauncherEnds,
     SeenGone, Quiet, Quiet, Quiet, Quiet, Quiet, Stopped, Quiet, Quiet, Cleaned, Returned_ok True]"

lemma stop_run_steps: "\<exists>s. steps (sup_step wlan) start_supervisor stop_run s"
  unfolding stop_run_def start_supervisor_def
  apply (rule exI)
    apply (rule steps_Cons, rule labelled, rule by_env, rule env_step.signals; (simp add: att_holds_lock_def)?)
    apply (rule steps_Cons, rule labelled, rule by_attacher, rule att_step.expires; (simp add: att_holds_lock_def)?)
    apply (rule steps_Cons, rule labelled, rule by_main, rule main_step.takes_signal; (simp add: att_holds_lock_def)?)
    apply (rule steps_Cons, rule labelled, rule by_main, rule main_step.first_signal; (simp add: att_holds_lock_def)?)
    apply (rule steps_Cons, rule labelled, rule by_main, rule main_step.stops; (simp add: att_holds_lock_def)?)
    apply (rule steps_Cons, rule labelled, rule by_main, rule main_step.joins; (simp add: att_holds_lock_def)?)
    apply (rule steps_Cons, rule labelled, rule by_main, rule main_step.removes [where a = False]; (simp add: att_holds_lock_def)?)
    apply (rule steps_Cons, rule labelled, rule by_main, rule main_step.terminates; (simp add: att_holds_lock_def)?)
    apply (rule steps_Cons, rule labelled, rule by_env, rule env_step.launcher_ends; (simp add: att_holds_lock_def)?)
    apply (rule steps_Cons, rule labelled, rule by_waiter, rule wait_step.seen_gone; (simp add: att_holds_lock_def)?)
    apply (rule steps_Cons, rule labelled, rule by_waiter, rule wait_step.sends_exit; (simp add: att_holds_lock_def)?)
    apply (rule steps_Cons, rule labelled, rule by_main, rule main_step.takes_exit; (simp add: att_holds_lock_def)?)
    apply (rule steps_Cons, rule labelled, rule by_main, rule main_step.no_signal; (simp add: att_holds_lock_def)?)
    apply (rule steps_Cons, rule labelled, rule by_main, rule main_step.off_bus; (simp add: att_holds_lock_def)?)
    apply (rule steps_Cons, rule labelled, rule by_main, rule main_step.need_not_lower; (simp add: att_holds_lock_def)?)
    apply (rule steps_Cons, rule labelled, rule by_main, rule main_step.end_stops; (simp add: att_holds_lock_def)?)
    apply (rule steps_Cons, rule labelled, rule by_main, rule main_step.end_joins; (simp add: att_holds_lock_def)?)
    apply (rule steps_Cons, rule labelled, rule by_main, rule main_step.reads_live; (simp add: att_holds_lock_def)?)
    apply (rule steps_Cons, rule labelled, rule by_main, rule main_step.cleans [where a = False and x = False]; (simp add: att_holds_lock_def)?)
    apply (rule steps_Cons, rule labelled, rule by_main, rule main_step.returns; (simp add: att_holds_lock_def)?)
    apply (rule steps.no_step)
  done

subsection \<open>Properties\<close>

text \<open>
  C2 The supervisor keeps its promises in every interleaving of the signals, the launcher's end, the
  attacher and the host: no attach is begun after a stop, the device is removed with no attach in
  progress and with the true state of the guest, and the guest is ended only after that; the message
  timeout is lowered, and the device cleaned up, only when the guest is gone; the device is left on
  the bus only for a net device that a live guest had there, and never after a stop; and a run ends
  in exactly one of the two ways.
\<close>

theorem supervisor_keeps_promises:
  assumes "steps (sup_step wlan) start_supervisor ls s"
  shows "\<exists>p. accept (promise_next wlan) first_promise ls = Some p \<and> sup_rel s p"
  by (rule sup.run_accepted [OF assms])

theorem supervisor_keeps_promises_witness:
  "\<exists>p. accept (promise_next True) first_promise stop_run = Some p \<and> pr_removed p \<and> pr_cleaned p \<and> \<not> pr_kept p"
proof -
  obtain s where "steps (sup_step True) start_supervisor stop_run s" using stop_run_steps by blast
  from supervisor_keeps_promises [OF this] obtain p where
    p: "accept (promise_next True) first_promise stop_run = Some p" by blast
  have "p = \<lparr>pr_open = False, pr_signal = True, pr_gone = True, pr_live = False, pr_removed = True,
      pr_cleaned = True, pr_kept = False\<rparr>"
    using p by (simp add: stop_run_def first_promise_def need_def)
  with p show ?thesis by simp
qed

text \<open>
  C20 The supervisor never deadlocks: in every state that it reaches before it returned, one of its
  goroutines can take a step, unless the attacher is done, the launcher runs and the main goroutine
  waits for a signal or the launcher's end.
\<close>

theorem supervisor_progress:
  assumes "steps (sup_step wlan) start_supervisor ls s" "sv_main s \<noteq> M_done"
  shows "if sv_att s = A_done \<and> sv_main s = M_select \<and> sv_running s then True
    else \<exists>l t. att_step s l t \<or> main_step wlan s l t \<or> wait_step s l t"
proof -
  obtain p where p: "sup_rel s p" using sup.run_accepted [OF assms(1)] by blast
  consider "sv_att s \<noteq> A_done" | "sv_att s = A_done" "sv_main s \<noteq> M_select" |
    "sv_exited s" "sv_main s = M_select" | "\<not> sv_exited s" "sv_main s = M_select" by blast
  then show ?thesis
  proof cases
    case 4
    then have "\<not> sv_sent s" using p by (auto simp: sup_rel_def exit_inv_def)
    then have "sv_running s \<or> (\<exists>l t. wait_step s l t)" by (metis wait_step.intros)
    with 4 att_progress [of s] show ?thesis by (cases "sv_att s = A_done") (simp_all, blast+)
  qed (use att_progress main_progress assms(2) main_step.takes_exit in \<open>auto, blast+\<close>)
qed

theorem supervisor_progress_witness:
  "\<exists>l t. att_step start_supervisor l t \<or> main_step True start_supervisor l t \<or> wait_step start_supervisor l t"
  using supervisor_progress [of True "[]" start_supervisor] steps.no_step [of "sup_step True" start_supervisor] by (simp add: start_supervisor_def)

end
