(* ===== verification/Host.thy ===== *)
theory Host
  imports Prelude
begin

text \<open>
  The boundary between the program and the host. Each call that the program makes of the
  kernel, of a command or of a terminal is a value of \<open>call\<close>, and the host answers it with an
  error, if any, and data. The host is not modelled: an environment is any function from the
  history and a call to an answer, and what is proved of an operation holds in every
  environment. An operation is a computation of the state monad whose state holds the
  environment and the history; \<open>emits\<close> says what it returns and which calls it makes.
\<close>

named_theorems go_run \<open>evaluation of an operation in a concrete environment\<close>

subsection \<open>Errors\<close>

text \<open>
  Go's \<open>error\<close> values. \<open>Sys\<close> is an error of the operating system with its text, which
  \<open>errors.Is\<close> can recognize; \<open>Msg\<close> is made with \<open>fmt.Errorf\<close> or \<open>errors.New\<close>;
  \<open>NotService\<close> is the sentinel \<open>errNotService\<close>; \<open>Panic\<close> is a run-time panic, which no caller
  recovers. A nil error is \<open>None\<close>.
\<close>

datatype errno = ENOENT | EEXIST | EBUSY | EOTHER

type_synonym fault = "errno \<times> string"

datatype err = Sys errno string | NotService | Msg string | Panic string

type_synonym 'a res = "err + 'a"

fun err_text :: "err \<Rightarrow> string" where
  "err_text (Sys e s) = s"
| "err_text NotService = ''invirtio run is not running as the service''"
| "err_text (Msg s) = s"
| "err_text (Panic s) = s"

definition is_not_exist :: "err \<Rightarrow> bool" where
  "is_not_exist e = (case e of Sys n s \<Rightarrow> n = ENOENT | _ \<Rightarrow> False)"

definition is_busy :: "err \<Rightarrow> bool" where
  "is_busy e = (case e of Sys n s \<Rightarrow> n = EBUSY | _ \<Rightarrow> False)"

definition is_exist :: "err \<Rightarrow> bool" where
  "is_exist e = (case e of Sys n s \<Rightarrow> n = EEXIST | _ \<Rightarrow> False)"


subsection \<open>Calls, answers and histories\<close>

text \<open>What is taken of a command: both its outputs, its standard output, or neither.\<close>

datatype exec_mode = Combined | Stdout | NoOutput

datatype call =
    Stat string | Readlink string | EvalSymlinks string | ReadDir string | Glob string
  | ReadFile string | OpenRead string | OpenWrite string | OpenCreate string nat | OpenLock string
  | WriteTo string string | CopyTo string string | CloseFile string | Flock string
  | MkdirAll string nat | Mkdir string nat | WriteFile string string nat | Chmod string nat
  | Rename string string | Remove string
  | OpenControl | DestroyDev string | CloseControl
  | MountTmpfs string string | Unmount string
  | Exec exec_mode string "string list" | LookPath string | LookupUser string
  | Executable | Getenv string | Geteuid | FstatDev nat
  | Sleep nat | Print string | Eprint string | ReadLine | IsTerminal
  | OpenPty | MakePipe | StartLauncher "string list" | PendingSignal | ClosePipe
  | DialUnix string | SetDeadline nat | SockWrite string | SockRead | SockClose
  | Getwd | Now | MkdirTemp string | OpenAppend string | WalkDir string | WriteLog string
  | RunCmd string nat string "string list" | StartProc "string list" | GuestSend string string
  | GuestRunning string | GuestWait string nat | GuestSignal string string | GuestClose string
  | TermSize | MakeRaw | RestoreTerm
  | Truncate string nat | RemoveAll string | RandomBytes nat | UnlimitMemlock | WriteAt string string
  | ProcOutput string | CloseTee

type_synonym reply = "fault option \<times> string list"
type_synonym history = "(call \<times> reply) list"
type_synonym environment = "history \<Rightarrow> call \<Rightarrow> reply"

record world =
  env :: environment
  hist :: history

type_synonym 'a io = "(world, 'a) state"

abbreviation ret :: "'a \<Rightarrow> 'a io" where
  "ret \<equiv> State_Monad.return"

definition sys :: "call \<Rightarrow> reply io" where
  "sys c = State (\<lambda>w. let r = env w (hist w) c in (r, w\<lparr>hist := hist w @ [(c, r)]\<rparr>))"

definition run :: "environment \<Rightarrow> 'a io \<Rightarrow> 'a \<times> history" where
  "run e m = (case run_state m \<lparr>env = e, hist = []\<rparr> of (x, w) \<Rightarrow> (x, hist w))"

text \<open>The parts of an answer: the error, if any, and the first datum.\<close>

definition fault_err :: "reply \<Rightarrow> err option" where
  "fault_err r = map_option (\<lambda>(n, s). Sys n s) (fst r)"

definition datum :: "reply \<Rightarrow> string" where
  "datum r = (case snd r of [] \<Rightarrow> [] | s # ss \<Rightarrow> s)"

definition succeeded :: "reply \<Rightarrow> bool" where
  "succeeded r \<longleftrightarrow> fst r = None"

text \<open>An answer as a Go result of one value and an error.\<close>

definition result :: "reply \<Rightarrow> string res" where
  "result r = (case fault_err r of Some e \<Rightarrow> Inl e | None \<Rightarrow> Inr (datum r))"

lemma fault_err_iff [simp]: "fault_err r = None \<longleftrightarrow> succeeded r"
  by (simp add: fault_err_def succeeded_def)

lemma succeeded_pair [simp]: "succeeded (None, ss)" "\<not> succeeded (Some f, ss)"
  by (simp_all add: succeeded_def)

lemma fault_err_SomeD [dest]: "fault_err r = Some e \<Longrightarrow> \<not> succeeded r"
  by (simp flip: fault_err_iff)

lemma result_succeeded: "result r = (if succeeded r then Inr (datum r) else Inl (the (fault_err r)))"
  by (auto simp: result_def simp flip: fault_err_iff split: option.splits)

text \<open>Simple computations: a call of which only the error counts, and messages.\<close>

definition do_sys :: "call \<Rightarrow> err option io" where
  "do_sys c = do {r \<leftarrow> sys c; ret (fault_err r)}"

definition ask :: "call \<Rightarrow> string res io" where
  "ask c = do {r \<leftarrow> sys c; ret (result r)}"

definition stat_ok :: "string \<Rightarrow> bool io" where
  "stat_ok p = do {r \<leftarrow> sys (Stat p); ret (succeeded r)}"

definition println :: "string \<Rightarrow> unit io" where
  "println s = do {_ \<leftarrow> sys (Print (s @ [newline])); ret ()}"

definition print :: "string \<Rightarrow> unit io" where
  "print s = do {_ \<leftarrow> sys (Print s); ret ()}"

fun for_each :: "('a \<Rightarrow> unit io) \<Rightarrow> 'a list \<Rightarrow> unit io" where
  "for_each f [] = ret ()"
| "for_each f (x # xs) = do {_ \<leftarrow> f x; for_each f xs}"

text \<open>The statements of a list, one after the other until one fails.\<close>

fun first_error :: "('a \<Rightarrow> err option io) \<Rightarrow> 'a list \<Rightarrow> err option io" where
  "first_error f [] = ret None"
| "first_error f (x # xs) = do {
     e \<leftarrow> f x;
     (case e of Some _ \<Rightarrow> ret e | None \<Rightarrow> first_error f xs)}"


subsection \<open>What an operation does\<close>

definition emits :: "'a io \<Rightarrow> ('a \<Rightarrow> history \<Rightarrow> bool) \<Rightarrow> bool" where
  "emits m P \<longleftrightarrow> (\<forall>w. case run_state m w of (x, w') \<Rightarrow>
     \<exists>t. env w' = env w \<and> hist w' = hist w @ t \<and> P x t)"

lemma emitsD:
  assumes "emits m P" "run_state m w = (x, w')"
  shows "\<exists>t. env w' = env w \<and> hist w' = hist w @ t \<and> P x t"
  using assms(1) [unfolded emits_def, THEN spec, of w] assms(2) by simp

lemma emitsI:
  assumes "\<And>w x w'. run_state m w = (x, w') \<Longrightarrow> \<exists>t. env w' = env w \<and> hist w' = hist w @ t \<and> P x t"
  shows "emits m P"
  unfolding emits_def
proof
  fix w
  from assms [of w "fst (run_state m w)" "snd (run_state m w)"]
  show "case run_state m w of (x, w') \<Rightarrow> \<exists>t. env w' = env w \<and> hist w' = hist w @ t \<and> P x t"
    by (simp add: case_prod_unfold)
qed

lemma emits_run: "emits m P \<Longrightarrow> run e m = (x, t) \<Longrightarrow> P x t"
  using emitsD [of m P "\<lparr>env = e, hist = []\<rparr>"]
  by (cases "run_state m \<lparr>env = e, hist = []\<rparr>") (auto simp: run_def)

text \<open>Rules that run an operation in a concrete environment.\<close>

lemma run_sys [go_run]:
  "run_state (sys c) w = (env w (hist w) c, w\<lparr>hist := hist w @ [(c, env w (hist w) c)]\<rparr>)"
  by (simp add: sys_def Let_def)

lemma run_bind [go_run]:
  "run_state (m \<bind> f) w = (case run_state m w of (x, w') \<Rightarrow> run_state (f x) w')"
  by (simp add: State_Monad.bind_def)

lemma run_ret [go_run]: "run_state (ret x) w = (x, w)"
  by (simp add: State_Monad.return_def)

lemmas [go_run] = run_def do_sys_def ask_def stat_ok_def println_def print_def fault_err_def
  result_def datum_def

lemma emits_ret [intro!]: "P x [] \<Longrightarrow> emits (ret x) P"
  by (simp add: emits_def State_Monad.return_def)

lemma emits_sys: "(\<And>r. P r [(c, r)]) \<Longrightarrow> emits (sys c) P"
  by (simp add: emits_def sys_def Let_def)

lemma emits_bind:
  assumes "emits m P" "\<And>x t. P x t \<Longrightarrow> emits (f x) (\<lambda>y u. Q y (t @ u))"
  shows "emits (m \<bind> f) Q"
proof (rule emitsI)
  fix w y w2
  assume run: "run_state (m \<bind> f) w = (y, w2)"
  obtain x w1 where m: "run_state m w = (x, w1)" by (cases "run_state m w")
  from emitsD [OF assms(1) m] obtain t where t: "env w1 = env w" "hist w1 = hist w @ t" "P x t"
    by auto
  from run m have f: "run_state (f x) w1 = (y, w2)" by (simp add: State_Monad.bind_def)
  from emitsD [OF assms(2) [OF t(3)] f]
  obtain u where "env w2 = env w1" "hist w2 = hist w1 @ u" "Q y (t @ u)" by auto
  with t show "\<exists>t. env w2 = env w \<and> hist w2 = hist w @ t \<and> Q y t" by simp
qed

lemma emits_sys_bind: "(\<And>r. emits (f r) (\<lambda>x t. Q x ((c, r) # t))) \<Longrightarrow> emits (sys c \<bind> f) Q"
  by (rule emits_bind [OF emits_sys [where P = "\<lambda>r t. t = [(c, r)]"]]) auto

lemma emits_mono: "emits m P \<Longrightarrow> (\<And>x t. P x t \<Longrightarrow> Q x t) \<Longrightarrow> emits m Q"
  by (rule emitsI) (drule (1) emitsD, auto)

lemma emits_conj: "emits m P \<Longrightarrow> emits m Q \<Longrightarrow> emits m (\<lambda>x t. P x t \<and> Q x t)"
  by (rule emitsI) (frule (1) emitsD, drule (1) emitsD [of m Q], auto)

lemma emits_if: "(b \<Longrightarrow> emits m P) \<Longrightarrow> (\<not> b \<Longrightarrow> emits n P) \<Longrightarrow> emits (if b then m else n) P"
  by simp

lemma emits_option:
  "(x = None \<Longrightarrow> emits m P) \<Longrightarrow> (\<And>y. x = Some y \<Longrightarrow> emits (f y) P) \<Longrightarrow>
   emits (case x of None \<Rightarrow> m | Some y \<Rightarrow> f y) P"
  by (cases x) simp_all

lemma emits_sum:
  "(\<And>y. x = Inl y \<Longrightarrow> emits (f y) P) \<Longrightarrow> (\<And>y. x = Inr y \<Longrightarrow> emits (g y) P) \<Longrightarrow>
   emits (case x of Inl y \<Rightarrow> f y | Inr y \<Rightarrow> g y) P"
  by (cases x) simp_all

lemma emits_prod: "(\<And>a b. x = (a, b) \<Longrightarrow> emits (f a b) P) \<Longrightarrow> emits (case x of (a, b) \<Rightarrow> f a b) P"
  by (cases x) simp

lemma emits_do_sys_bind:
  "(\<And>r. emits (f (fault_err r)) (\<lambda>x t. Q x ((c, r) # t))) \<Longrightarrow> emits (do_sys c \<bind> f) Q"
  unfolding do_sys_def by (simp add: emits_sys_bind)

lemma emits_ask_bind:
  "(\<And>r. emits (f (result r)) (\<lambda>x t. Q x ((c, r) # t))) \<Longrightarrow> emits (ask c \<bind> f) Q"
  unfolding ask_def by (simp add: emits_sys_bind)

lemma emits_stat_bind:
  "(\<And>r. emits (f (succeeded r)) (\<lambda>x t. Q x ((Stat p, r) # t))) \<Longrightarrow> emits (stat_ok p \<bind> f) Q"
  unfolding stat_ok_def by (simp add: emits_sys_bind)

lemmas emits_steps =
  emits_ret emits_sys_bind emits_do_sys_bind emits_ask_bind emits_stat_bind
  emits_if emits_option emits_sum emits_prod

text \<open>
  What an operation returns on a host that does not change while it looks: one whose answers
  depend on the call only.
\<close>

definition yields :: "(call \<Rightarrow> reply) \<Rightarrow> 'a io \<Rightarrow> 'a \<Rightarrow> bool" where
  "yields f m x \<longleftrightarrow> (\<forall>w. env w = (\<lambda>_. f) \<longrightarrow> fst (run_state m w) = x \<and> env (snd (run_state m w)) = env w)"

lemma yields_ret [intro!]: "x = y \<Longrightarrow> yields f (ret x) y"
  by (simp add: yields_def State_Monad.return_def)

lemma yields_sys: "yields f (sys c) (f c)"
  by (simp add: yields_def run_sys)

lemma yields_bind: "yields f m x \<Longrightarrow> yields f (g x) y \<Longrightarrow> yields f (m \<bind> g) y"
  by (simp add: yields_def run_bind case_prod_unfold)

lemma yields_do_sys: "yields f (do_sys c) (fault_err (f c))"
  unfolding do_sys_def by (rule yields_bind [OF yields_sys]) auto

lemma yields_ask: "yields f (ask c) (result (f c))"
  unfolding ask_def by (rule yields_bind [OF yields_sys]) auto

lemma yields_stat: "yields f (stat_ok p) (succeeded (f (Stat p)))"
  unfolding stat_ok_def by (rule yields_bind [OF yields_sys]) auto

lemma yields_run: "yields f m x \<Longrightarrow> fst (run (\<lambda>_. f) m) = x"
  by (simp add: yields_def run_def case_prod_unfold)

text \<open>An operation that makes only calls of some kind.\<close>

definition only :: "(call \<Rightarrow> bool) \<Rightarrow> history \<Rightarrow> bool" where
  "only p t \<longleftrightarrow> list_all (\<lambda>(c, r). p c) t"

lemma only_simps [simp]:
  "only p []" "only p (x # t) \<longleftrightarrow> p (fst x) \<and> only p t" "only p (t @ u) \<longleftrightarrow> only p t \<and> only p u"
  by (auto simp: only_def split: prod.splits)

lemma only_mono: "only p t \<Longrightarrow> (\<And>c. p c \<Longrightarrow> q c) \<Longrightarrow> only q t"
  by (auto simp: only_def list_all_iff)

lemma only_emits_bind:
  "emits m (\<lambda>x. only p) \<Longrightarrow> (\<And>x. emits (f x) (\<lambda>y. only p)) \<Longrightarrow> emits (m \<bind> f) (\<lambda>y. only p)"
  by (rule emits_bind [where P = "\<lambda>x. only p"]) (auto intro: emits_mono)

text \<open>The calls that change the host, and those among them that succeeded.\<close>

fun changes :: "call \<Rightarrow> bool" where
  "changes (WriteTo p v) = True"
| "changes (CopyTo p q) = True"
| "changes (OpenCreate p m) = True"
| "changes (OpenLock p) = True"
| "changes (MkdirAll p m) = True"
| "changes (Mkdir p m) = True"
| "changes (WriteFile p v m) = True"
| "changes (Chmod p m) = True"
| "changes (Rename p q) = True"
| "changes (Remove p) = True"
| "changes (DestroyDev n) = True"
| "changes (MountTmpfs p q) = True"
| "changes (Unmount p) = True"
| "changes (Exec m c xs) = True"
| "changes (StartLauncher xs) = True"
| "changes (SockWrite v) = True"
| "changes (MkdirTemp p) = True"
| "changes (OpenAppend p) = True"
| "changes (StartProc xs) = True"
| "changes (RunCmd d n c xs) = True"
| "changes (GuestSend g v) = True"
| "changes (GuestSignal g v) = True"
| "changes (WriteLog v) = True"
| "changes (Truncate p n) = True"
| "changes (RemoveAll p) = True"
| "changes (WriteAt p v) = True"
| "changes c = False"

definition effects :: "history \<Rightarrow> call list" where
  "effects t = filter changes (map fst t)"

lemma effects_simps [simp]:
  "effects [] = []"
  "effects ((c, r) # t) = (if changes c then c # effects t else effects t)"
  "effects (t @ u) = effects t @ effects u"
  by (simp_all add: effects_def)

end
