(* ===== verification/Sysfs.thy ===== *)
theory Sysfs
  imports Host
begin

text \<open>
  Packages internal/sysfs and internal/command, the two ways in which the program changes the
  host, and the loop that tries a step again, which several operations share.
\<close>

definition sysfs_read :: "string \<Rightarrow> string res io" where
  "sysfs_read p = do {
     r \<leftarrow> ask (ReadFile p);
     ret (case r of Inl e \<Rightarrow> Inl e | Inr s \<Rightarrow> Inr (trim_space s))}"

definition sysfs_write :: "string \<Rightarrow> string \<Rightarrow> err option io" where
  "sysfs_write p v = do {
     e \<leftarrow> do_sys (OpenWrite p);
     if e \<noteq> None then ret e
     else do {
       e \<leftarrow> do_sys (WriteTo p v);
       cerr \<leftarrow> do_sys (CloseFile p);
       ret (if e = None then cerr else e)}}"

definition command_error :: "string \<Rightarrow> string list \<Rightarrow> reply \<Rightarrow> err option" where
  "command_error name args r =
     (case fault_err r of
        None \<Rightarrow> None
      | Some e \<Rightarrow>
          (let out = trim_space (datum r);
               msg = (if out = [] then err_text e else out)
           in Some (Msg (name @ '' '' @ join_with '' '' args @ '': '' @ msg))))"

definition command_run :: "string \<Rightarrow> string list \<Rightarrow> err option io" where
  "command_run name args = do {
     r \<leftarrow> sys (Exec Combined name args);
     ret (command_error name args r)}"

text \<open>What they do to the host, and when they report success.\<close>

lemma command_error_None [simp]: "command_error name args r = None \<longleftrightarrow> succeeded r"
  by (simp add: command_error_def Let_def split: option.split flip: fault_err_iff)

lemma sysfs_read_emits: "emits (sysfs_read p) (\<lambda>x t. \<exists>r. t = [(ReadFile p, r)] \<and>
    x = (case result r of Inl e \<Rightarrow> Inl e | Inr s \<Rightarrow> Inr (trim_space s)))"
  unfolding sysfs_read_def by (intro emits_steps) blast

definition wrote :: "string \<Rightarrow> string \<Rightarrow> history \<Rightarrow> bool" where
  "wrote p v t \<longleftrightarrow> (\<exists>x\<in>set t. fst x = WriteTo p v \<and> succeeded (snd x))"

lemma wrote_simps [simp]:
  "\<not> wrote p v []"
  "wrote p v ((c, r) # t) \<longleftrightarrow> (c = WriteTo p v \<and> succeeded r) \<or> wrote p v t"
  "wrote p v (t @ u) \<longleftrightarrow> wrote p v t \<or> wrote p v u"
  by (auto simp: wrote_def)

lemma sysfs_write_emits [emits_rules]:
  "emits (sysfs_write p v) (\<lambda>e t.
     (e = None \<longrightarrow> wrote p v t) \<and> (effects t = [WriteTo p v] \<or> (effects t = [] \<and> e \<noteq> None)) \<and>
     only (\<lambda>c. c \<in> {OpenWrite p, WriteTo p v, CloseFile p}) t)"
  unfolding sysfs_write_def by (intro emits_steps) auto

lemma command_run_emits [emits_rules]:
  "emits (command_run name args) (\<lambda>e t. \<exists>r. t = [(Exec Combined name args, r)] \<and>
     e = command_error name args r)"
  unfolding command_run_def by (intro emits_steps) auto


lemma yields_sysfs_read:
  "yields f (sysfs_read p) (case result (f (ReadFile p)) of Inl e \<Rightarrow> Inl e | Inr s \<Rightarrow> Inr (trim_space s))"
  unfolding sysfs_read_def by (rule yields_bind [OF yields_ask]) auto


subsection \<open>Loops that try again\<close>

text \<open>
  \<open>loop k body n\<close> is \<open>for ; ; n++ {body}\<close> for at most \<open>k\<close> rounds. The body returns \<open>None\<close> to go on;
  the loop returns \<open>None\<close> when the rounds run out.
\<close>

primrec loop :: "nat \<Rightarrow> (nat \<Rightarrow> 'a option io) \<Rightarrow> nat \<Rightarrow> 'a option io" where
  "loop 0 body n = ret None"
| "loop (Suc k) body n = do {
     x \<leftarrow> body n;
     (case x of Some y \<Rightarrow> ret (Some y) | None \<Rightarrow> loop k body (Suc n))}"

lemma loop_numeral [go_run]: "loop (numeral v) body n = do {
     x \<leftarrow> body n;
     (case x of Some y \<Rightarrow> ret (Some y) | None \<Rightarrow> loop (pred_numeral v) body (Suc n))}"
  by (simp add: numeral_eq_Suc)

lemmas [go_run] = sysfs_read_def sysfs_write_def command_run_def command_error_def

text \<open>
  The rule for loops: \<open>I n\<close> holds of what was done before round \<open>n\<close>, and \<open>Q y\<close> of all that was done
  when the loop returns \<open>y\<close>.
\<close>

lemma emits_loop:
  assumes body: "\<And>n s. n < k \<Longrightarrow> I n s \<Longrightarrow> emits (body n) (\<lambda>x t.
      case x of None \<Rightarrow> I (Suc n) (s @ t) | Some y \<Rightarrow> Q (Some y) (s @ t))"
    and stop: "\<And>s. I k s \<Longrightarrow> Q None s" and start: "I m s" and m: "m \<le> k"
  shows "emits (loop (k - m) body m) (\<lambda>x t. Q x (s @ t))"
  using m start
proof (induction "k - m" arbitrary: m s)
  case 0
  then have "m = k" by simp
  with 0 stop show ?case by (auto simp only: loop.simps diff_self_eq_0 append_Nil2 intro!: emits_ret)
next
  case (Suc j)
  then have m: "m < k" "k - m = Suc (k - Suc m)" by simp_all
  have rest: "emits (loop (k - Suc m) body (Suc m)) (\<lambda>x u. Q x ((s @ t) @ u))" if "I (Suc m) (s @ t)" for t
    using Suc.hyps(1) [of "Suc m" "s @ t"] that Suc.hyps(2) m(1) by simp
  show ?case
    unfolding m(2) loop.simps
  proof (rule emits_bind [OF body [OF m(1) Suc.prems(2)]])
    fix x t
    assume x: "case x of None \<Rightarrow> I (Suc m) (s @ t) | Some y \<Rightarrow> Q (Some y) (s @ t)"
    show "emits (case x of None \<Rightarrow> loop (k - Suc m) body (Suc m) | Some y \<Rightarrow> ret (Some y))
        (\<lambda>y u. Q y (s @ t @ u))"
      using x rest [of t] by (cases x) auto
  qed
qed

lemma emits_loop_0:
  assumes "\<And>n s. n < k \<Longrightarrow> I n s \<Longrightarrow> emits (body n) (\<lambda>x t.
      case x of None \<Rightarrow> I (Suc n) (s @ t) | Some y \<Rightarrow> Q (Some y) (s @ t))"
    and "\<And>s. I k s \<Longrightarrow> Q None s" and "I 0 []"
  shows "emits (loop k body 0) Q"
  using emits_loop [of k I body Q 0 "[]", OF assms] by simp

end
