(* ===== verification/Plan.thy ===== *)
theory Plan
  imports Sysfs
begin

text \<open>
  cmd/invirtio/plan.go: the stages of a command, which show the shell commands that do the same and
  run them once they are confirmed. An action is the Go struct: the text that is shown and the
  computation that runs. \<open>shell_words\<close> is how a POSIX shell splits a command into words.
\<close>

record action =
  act_show :: string
  act_run :: "err option io"

record stage =
  st_title :: string
  st_notes :: string
  st_actions :: "action list"

definition show_note :: "string \<Rightarrow> unit io" where
  "show_note line = println (''  '' @ line)"

fun show_lines :: "string list \<Rightarrow> unit io" where
  "show_lines [] = ret ()"
| "show_lines (line # ls) = do {
     _ \<leftarrow> println (''  $ '' @ line);
     for_each (\<lambda>l. println (''    '' @ l)) ls}"

definition show_action :: "action \<Rightarrow> unit io" where
  "show_action a = show_lines (split_on newline (act_show a))"

definition stage_header :: "nat \<Rightarrow> nat \<Rightarrow> stage \<Rightarrow> unit io" where
  "stage_header i n s = do {
     _ \<leftarrow> (if i > 0 then println [] else ret ());
     _ \<leftarrow> println (''Stage '' @ show_nat (i + 1) @ '' of '' @ show_nat n @ '': '' @ st_title s);
     if st_notes s \<noteq> [] then for_each show_note (split_on newline (st_notes s)) else ret ()}"

fun stages_from :: "nat \<Rightarrow> nat \<Rightarrow> bool \<Rightarrow> bool \<Rightarrow> stage list \<Rightarrow> err option io" where
  "stages_from i n dry yes [] = ret None"
| "stages_from i n dry yes (s # ss) = do {
     _ \<leftarrow> stage_header i n s;
     if st_actions s = [] then do {
       _ \<leftarrow> println ''  Nothing to do.'';
       stages_from (Suc i) n dry yes ss}
     else do {
       _ \<leftarrow> for_each show_action (st_actions s);
       if dry then stages_from (Suc i) n dry yes ss
       else do {
         ok \<leftarrow> (if yes then ret True
              else do {
                _ \<leftarrow> print ''Press Enter to run these, or Ctrl-C to stop. '';
                r \<leftarrow> sys ReadLine;
                ret (succeeded r)});
         if \<not> ok then ret (Some (Msg ''stopped before the stage ran''))
         else do {
           e \<leftarrow> first_error act_run (st_actions s);
           if e \<noteq> None then ret e
           else stages_from (Suc i) n dry yes ss}}}}"

definition run_stages :: "stage list \<Rightarrow> bool \<Rightarrow> bool \<Rightarrow> err option io" where
  "run_stages stages dry yes = do {
     tty \<leftarrow> (if \<not> dry \<and> \<not> yes then do {r \<leftarrow> sys IsTerminal; ret (succeeded r)} else ret True);
     if \<not> tty
     then ret (Some (Msg ''each stage waits for Enter, so stdin must be a terminal, or use -y''))
     else do {
       e \<leftarrow> stages_from 0 (length stages) dry yes stages;
       if e \<noteq> None then ret e
       else do {
         _ \<leftarrow> (if dry then println (newline # ''This was a dry run, and nothing was changed.'') else ret ());
         ret None}}}"


subsection \<open>The actions\<close>

definition safe_char :: "char \<Rightarrow> bool" where
  "safe_char c \<longleftrightarrow> (97 \<le> code c \<and> code c \<le> 122) \<or> (65 \<le> code c \<and> code c \<le> 90) \<or> is_digit c \<or>
     c \<in> set ''-_./:=@%+,''"

definition quote_mark :: char where
  "quote_mark = CHR 0x27"

definition shell_quote :: "string \<Rightarrow> string" where
  "shell_quote s =
     (if s \<noteq> [] \<and> trim_of safe_char s = [] then s
      else [quote_mark] @ replace_char quote_mark [quote_mark, CHR 0x5C, quote_mark, quote_mark] s @ [quote_mark])"

definition show_cmd :: "string \<Rightarrow> string list \<Rightarrow> string" where
  "show_cmd name args = join_with '' '' (shell_quote name # map shell_quote args)"

definition cmd_action :: "string \<Rightarrow> string list \<Rightarrow> action" where
  "cmd_action name args = \<lparr>act_show = show_cmd name args, act_run = command_run name args\<rparr>"

text \<open>A file mode as \<open>%04o\<close>.\<close>

fun show_octal :: "nat \<Rightarrow> nat \<Rightarrow> string" where
  "show_octal 0 m = []"
| "show_octal (Suc k) m = show_octal k (m div 8) @ [digit_char (m mod 8)]"

definition mode_text :: "nat \<Rightarrow> string" where
  "mode_text m = show_octal 4 m"

definition mkdir_action :: "string \<Rightarrow> nat \<Rightarrow> action" where
  "mkdir_action dir mode =
     \<lparr>act_show = show_cmd ''mkdir'' [''-p'', ''-m'', mode_text mode, dir],
      act_run = do_sys (MkdirAll dir mode)\<rparr>"

text \<open>\<open>needed\<close> decides when the stage runs whether the write is needed; \<open>None\<close> is a nil function.\<close>

definition sysfs_action :: "string \<Rightarrow> string \<Rightarrow> bool io option \<Rightarrow> action" where
  "sysfs_action path value needed =
     \<lparr>act_show = (if value = [] then ''echo > '' @ shell_quote path
        else ''echo '' @ shell_quote value @ '' > '' @ shell_quote path),
      act_run = do {
        go \<leftarrow> (case needed of None \<Rightarrow> ret True | Some f \<Rightarrow> f);
        if \<not> go then ret None else sysfs_write path (value @ [newline])}\<rparr>"

definition write_file :: "string \<Rightarrow> string \<Rightarrow> nat \<Rightarrow> err option io" where
  "write_file path content mode = do {
     let tmp = path @ ''.tmp'';
     e \<leftarrow> do_sys (WriteFile tmp content mode);
     if e \<noteq> None then ret e
     else do {
       e \<leftarrow> do_sys (Chmod tmp mode);
       if e \<noteq> None then do {_ \<leftarrow> sys (Remove tmp); ret e}
       else do_sys (Rename tmp path)}}"

definition heredoc :: "string \<Rightarrow> string" where
  "heredoc content = '' <<'' @ [quote_mark] @ ''EOF'' @ [quote_mark, newline] @
     trim_suffix content [newline] @ newline # ''EOF''"

definition write_action :: "string \<Rightarrow> string \<Rightarrow> nat \<Rightarrow> action" where
  "write_action path content mode =
     \<lparr>act_show = show_cmd ''install'' [''-m'', mode_text mode, ''/dev/stdin'', path] @ heredoc content,
      act_run = write_file path content mode\<rparr>"


subsection \<open>Dry runs and confirmation\<close>

definition is_print :: "call \<Rightarrow> bool" where
  "is_print c \<longleftrightarrow> (case c of Print s \<Rightarrow> True | _ \<Rightarrow> False)"

definition quiet :: "'a io \<Rightarrow> bool" where
  "quiet m \<longleftrightarrow> emits m (\<lambda>x. only is_print)"

lemma quiet_ret [intro!]: "quiet (ret x)"
  by (auto simp: quiet_def)

lemma quiet_bind [intro!]: "quiet m \<Longrightarrow> (\<And>x. quiet (f x)) \<Longrightarrow> quiet (m \<bind> f)"
  unfolding quiet_def by (rule only_emits_bind)

lemma quiet_print [intro!]: "quiet (print s)" "quiet (println s)"
  by (auto simp: quiet_def print_def println_def is_print_def intro!: emits_sys_bind)

lemma quiet_for_each [intro!]: "(\<And>x. quiet (f x)) \<Longrightarrow> quiet (for_each f xs)"
  by (induction xs) auto

lemma quiet_show [intro!]: "quiet (show_action a)" "quiet (stage_header i n s)"
proof -
  have "quiet (show_lines ls)" for ls by (cases ls) auto
  then show "quiet (show_action a)" by (simp add: show_action_def)
  show "quiet (stage_header i n s)"
    unfolding stage_header_def show_note_def by (auto split: if_split)
qed

lemma quiet_dry: "quiet (stages_from i n True yes ss)"
  by (induction ss arbitrary: i) auto

lemma quiet_effects: "quiet m \<Longrightarrow> emits m (\<lambda>x t. effects t = [] \<and> only is_print t)"
proof -
  have "only is_print t \<Longrightarrow> effects t = []" for t
    by (induction t) (auto simp: is_print_def split: call.splits)
  then show "quiet m \<Longrightarrow> ?thesis" unfolding quiet_def by (auto elim: emits_mono)
qed


lemma quiet_any: "quiet m \<Longrightarrow> emits m (\<lambda>x t. True)"
  unfolding quiet_def by (erule emits_mono) simp

lemma dry_emits: "emits (stages_from i n True yes ss) (\<lambda>x t. x = None \<and> only is_print t)"
proof (induction ss arbitrary: i)
  case (Cons s ss)
  have h: "emits (stage_header i n s) (\<lambda>x. only is_print)" "emits (println l) (\<lambda>x. only is_print)"
    "emits (for_each show_action acts) (\<lambda>x. only is_print)" for l acts
    using quiet_show quiet_print quiet_for_each [of show_action acts] by (auto simp: quiet_def)
  have rest: "emits (stages_from (Suc i) n True yes ss) (\<lambda>x u. x = None \<and> only is_print (t @ u))"
    if "only is_print t" for t
    using Cons.IH [of "Suc i"] that by (auto elim: emits_mono)
  show ?case
    unfolding stages_from.simps if_True
    by (intro emits_bind [OF h(1)] emits_if) (auto intro!: emits_bind [OF h(2)] emits_bind [OF h(3)]
        intro: emits_mono [OF Cons.IH [of "Suc i"]])
qed auto

text \<open>Actions of which nothing is known but that they only make calls.\<close>

definition calls_only :: "stage list \<Rightarrow> bool" where
  "calls_only ss \<longleftrightarrow> list_all (\<lambda>s. list_all (\<lambda>a. emits (act_run a) (\<lambda>e t. True)) (st_actions s)) ss"

lemma first_error_emits_True:
  "list_all (\<lambda>x. emits (f x) (\<lambda>e t. True)) xs \<Longrightarrow> emits (first_error f xs) (\<lambda>e t. True)"
  by (induction xs) (auto intro!: emits_bind [where P = "\<lambda>e t. True"] split: option.split)

lemma stages_emits_True: "calls_only ss \<Longrightarrow> emits (stages_from i n dry yes ss) (\<lambda>e t. True)"
proof (induction ss arbitrary: i)
  case (Cons s ss)
  have h: "emits (stage_header i n s) (\<lambda>x t. True)" "emits (println l) (\<lambda>x t. True)" "emits (print l) (\<lambda>x t. True)"
    "emits (for_each show_action acts) (\<lambda>x t. True)" for l acts
    by (rule quiet_any, blast)+
  have a: "emits (first_error act_run (st_actions s)) (\<lambda>e t. True)"
    using Cons.prems by (auto simp: calls_only_def intro: first_error_emits_True)
  note IH = Cons.IH [of "Suc i"]
  have c: "calls_only ss" using Cons.prems by (simp add: calls_only_def)
  show ?case
    unfolding stages_from.simps
    by (intro emits_bind [OF h(1)] emits_if emits_bind [OF h(2)] emits_bind [OF h(3)] emits_bind [OF h(4)]
        emits_bind [OF a] emits_sys_bind emits_ret IH [OF c] emits_bind [where P = "\<lambda>ok t. True"] TrueI)
qed auto

definition confirmed :: "history \<Rightarrow> bool" where
  "confirmed t \<longleftrightarrow> effects t = [] \<or> (\<exists>u r v. t = u @ (ReadLine, r) # v \<and> effects u = [] \<and> succeeded r)"

lemma confirmed_prefix: "effects u = [] \<Longrightarrow> confirmed t \<Longrightarrow> confirmed (u @ t)"
  unfolding confirmed_def
proof (elim disjE exE conjE)
  fix u' r v
  assume "effects u = []" "t = u' @ (ReadLine, r) # v" "effects u' = []" "succeeded r"
  then have "u @ t = (u @ u') @ (ReadLine, r) # v \<and> effects (u @ u') = [] \<and> succeeded r" by simp
  then show "effects (u @ t) = [] \<or> (\<exists>w r v. u @ t = w @ (ReadLine, r) # v \<and> effects w = [] \<and> succeeded r)"
    by blast
qed simp

lemma confirmed_emits: "calls_only ss \<Longrightarrow> emits (stages_from i n False False ss) (\<lambda>e. confirmed)"
proof (induction ss arbitrary: i)
  case Nil
  then show ?case by (auto simp: confirmed_def)
next
  case (Cons s ss)
  have c: "calls_only ss" using Cons.prems by (simp add: calls_only_def)
  have q: "emits m (\<lambda>x t. effects t = [])" if "quiet m" for m :: "unit io"
    using quiet_effects [OF that] by (auto elim: emits_mono)
  have any: "emits (do {
        e \<leftarrow> first_error act_run (st_actions s);
        if e \<noteq> None then ret e else stages_from (Suc i) n False False ss}) (\<lambda>e t. True)"
    using Cons.prems stages_emits_True [OF c]
    by (auto intro!: emits_bind [OF first_error_emits_True] simp: calls_only_def)
  show ?case
    unfolding stages_from.simps if_False
  proof (rule emits_bind [OF q], blast, rule emits_if)
    fix x t
    assume t: "effects t = []"
    show "emits (do {_ \<leftarrow> println ''  Nothing to do.''; stages_from (Suc i) n False False ss})
        (\<lambda>e u. confirmed (t @ u))"
      by (rule emits_bind [OF q], blast, rule emits_mono [OF Cons.IH [OF c]])
        (auto intro!: confirmed_prefix t)
    show "emits (do {
        _ \<leftarrow> for_each show_action (st_actions s);
        ok \<leftarrow> do {_ \<leftarrow> print ''Press Enter to run these, or Ctrl-C to stop. ''; r \<leftarrow> sys ReadLine; ret (succeeded r)};
        if \<not> ok then ret (Some (Msg ''stopped before the stage ran''))
        else do {
          e \<leftarrow> first_error act_run (st_actions s);
          if e \<noteq> None then ret e else stages_from (Suc i) n False False ss}}) (\<lambda>e u. confirmed (t @ u))"
    proof (rule emits_bind [OF q], blast)
      fix y u
      assume u: "effects u = []"
      have ask: "emits (do {_ \<leftarrow> print ''Press Enter to run these, or Ctrl-C to stop. ''; r \<leftarrow> sys ReadLine; ret (succeeded r)})
          (\<lambda>ok v. \<exists>w r. v = w @ [(ReadLine, r)] \<and> effects w = [] \<and> ok = succeeded r)"
        by (rule emits_bind [OF q], blast, rule emits_sys_bind, rule emits_ret) auto
      show "emits (do {
          ok \<leftarrow> do {_ \<leftarrow> print ''Press Enter to run these, or Ctrl-C to stop. ''; r \<leftarrow> sys ReadLine; ret (succeeded r)};
          if \<not> ok then ret (Some (Msg ''stopped before the stage ran''))
          else do {
            e \<leftarrow> first_error act_run (st_actions s);
            if e \<noteq> None then ret e else stages_from (Suc i) n False False ss}}) (\<lambda>e v. confirmed (t @ u @ v))"
      proof (rule emits_bind [OF ask], elim exE conjE, rule emits_if)
        fix ok v w r
        assume v: "v = w @ [(ReadLine, r)]" "effects w = []" "ok = succeeded r"
        show "emits (ret (Some (Msg ''stopped before the stage ran''))) (\<lambda>e z. confirmed (t @ u @ v @ z))"
          by (rule emits_ret) (simp add: confirmed_def t u v)
        assume ok: "\<not> \<not> ok"
        have "confirmed (t @ u @ v @ z)" for z
          unfolding confirmed_def using t u v ok
          by (intro disjI2 exI [of _ "t @ u @ w"] exI [of _ r] exI [of _ z]) simp
        then show "emits (do {
            e \<leftarrow> first_error act_run (st_actions s);
            if e \<noteq> None then ret e else stages_from (Suc i) n False False ss}) (\<lambda>e z. confirmed (t @ u @ v @ z))"
          by (intro emits_mono [OF any])
      qed
    qed
  qed
qed



subsection \<open>The shell's view of a shown command\<close>

text \<open>
  How a POSIX shell splits a simple command into words: blanks separate words, a single quote runs
  to the next one, a backslash takes the next character as it is, and a word that needs expansion
  or is an operator makes the command one that is not simple (\<open>None\<close>).
\<close>

definition shell_special :: "char \<Rightarrow> bool" where
  "shell_special c \<longleftrightarrow> c \<in> set ''|&;<>()$`*?[]#~!{}'' \<or> c = CHR 0x22 \<or> c = newline"

fun lex_words :: "string option \<Rightarrow> string \<Rightarrow> string list option"
  and lex_quoted :: "string \<Rightarrow> string \<Rightarrow> string list option"
  and lex_escaped :: "string \<Rightarrow> string \<Rightarrow> string list option" where
  "lex_words None [] = Some []"
| "lex_words (Some w) [] = Some [w]"
| "lex_words cur (c # s) =
     (if c = CHR '' '' \<or> c = CHR 0x09 then
        (case cur of None \<Rightarrow> lex_words None s | Some w \<Rightarrow> map_option ((#) w) (lex_words None s))
      else if c = quote_mark then lex_quoted (case cur of None \<Rightarrow> [] | Some w \<Rightarrow> w) s
      else if c = CHR 0x5C then lex_escaped (case cur of None \<Rightarrow> [] | Some w \<Rightarrow> w) s
      else if shell_special c then None
      else lex_words (Some ((case cur of None \<Rightarrow> [] | Some w \<Rightarrow> w) @ [c])) s)"
| "lex_quoted w [] = None"
| "lex_quoted w (c # s) = (if c = quote_mark then lex_words (Some w) s else lex_quoted (w @ [c]) s)"
| "lex_escaped w [] = None"
| "lex_escaped w (c # s) = lex_words (Some (w @ [c])) s"

definition shell_words :: "string \<Rightarrow> string list option" where
  "shell_words s = lex_words None s"

lemma safe_not_special: "safe_char c \<Longrightarrow> \<not> shell_special c \<and> c \<noteq> CHR '' '' \<and> c \<noteq> CHR 0x09 \<and> c \<noteq> quote_mark \<and> c \<noteq> CHR 0x5C"
  unfolding safe_char_def shell_special_def quote_mark_def newline_def is_digit_def by auto

lemma lex_safe:
  "list_all safe_char p \<Longrightarrow> lex_words (Some w) (p @ s) = lex_words (Some (w @ p)) s"
  by (induction p arbitrary: w) (simp_all add: safe_not_special)

lemma lex_quoted_text:
  "lex_quoted w (replace_char quote_mark [quote_mark, CHR 0x5C, quote_mark, quote_mark] p @ quote_mark # s) =
   lex_words (Some (w @ p)) s"
proof (induction p arbitrary: w)
  case (Cons c p)
  then show ?case
    by (cases "c = quote_mark") (simp_all add: replace_char_def quote_mark_def)
qed (simp add: replace_char_def)

lemma trim_of_all: "trim_of p s = [] \<longleftrightarrow> list_all p s"
proof -
  have "dropWhile p (rev (dropWhile p s)) = [] \<longleftrightarrow> (\<forall>x\<in>set (dropWhile p s). p x)"
    by (simp add: dropWhile_eq_Nil_conv)
  also have "\<dots> \<longleftrightarrow> list_all p s"
    by (induction s) (auto simp: list_all_iff)
  finally show ?thesis by (simp add: trim_of_def trim_right_of_def trim_left_of_def)
qed

lemma lex_shell_quote:
  "lex_words None (shell_quote x @ s) = lex_words (Some x) s"
proof (cases "x \<noteq> [] \<and> trim_of safe_char x = []")
  case True
  then obtain c cs where x: "x = c # cs" by (cases x) auto
  from True have "list_all safe_char (c # cs)" by (simp add: trim_of_all x)
  then have c: "safe_char c" "list_all safe_char cs" by auto
  have "shell_quote x = c # cs" using True x by (simp add: shell_quote_def)
  then show ?thesis using lex_safe [OF c(2), of "[c]" s] safe_not_special [OF c(1)] x by simp
next
  case False
  have "lex_words None (quote_mark # t) = lex_quoted [] t" for t by (simp add: quote_mark_def)
  then have "lex_words None (quote_mark # replace_char quote_mark [quote_mark, CHR 0x5C, quote_mark, quote_mark] x @
      quote_mark # s) = lex_words (Some x) s"
    using lex_quoted_text [of "[]" x s] by (simp only: append_Nil)
  moreover have "shell_quote x @ s = quote_mark # replace_char quote_mark [quote_mark, CHR 0x5C, quote_mark, quote_mark] x @
      quote_mark # s"
    using False by (auto simp: shell_quote_def)
  ultimately show ?thesis by (simp only:)
qed

lemma lex_space: "lex_words (Some w) (CHR '' '' # s) = map_option ((#) w) (lex_words None s)"
  by simp

lemma lex_args:
  "lex_words (Some x) (concat (map (\<lambda>a. CHR '' '' # shell_quote a) args)) = Some (x # args)"
  by (induction args arbitrary: x) (simp_all add: lex_shell_quote)

lemma join_spaces: "join_with '' '' (w # ws) = w @ concat (map (\<lambda>a. CHR '' '' # a) ws)"
  by (induction ws arbitrary: w) simp_all


subsection \<open>Properties\<close>

text \<open>
  C21 The command that a stage shows is the command that it runs: a shell splits the shown text
  into exactly the program and the arguments that are run, whatever characters they hold.
\<close>

theorem show_cmd_words:
  "shell_words (show_cmd name args) = Some (name # args)"
  unfolding show_cmd_def shell_words_def join_spaces map_map comp_def lex_shell_quote
  using lex_args [of name args] by simp

text \<open>
  A dry run of any stages changes nothing: it makes no call but to print, and it succeeds.
\<close>

theorem run_stages_dry:
  "case run e (run_stages stages True yes) of (r, t) \<Rightarrow> r = None \<and> only is_print t"
proof -
  have "emits (run_stages stages True yes) (\<lambda>r t. r = None \<and> only is_print t)"
    unfolding run_stages_def
    by (auto intro!: emits_bind [where P = "\<lambda>x t. x \<and> t = []"] emits_bind [OF dry_emits]
        emits_bind [OF quiet_print(2) [unfolded quiet_def]])
  from emits_run [OF this] show ?thesis by (auto split: prod.split)
qed

text \<open>
  C9 Without -y nothing is changed before it is confirmed: whatever the actions do and whatever the
  host answers, every call that can change the host comes after Enter was read from a terminal.
\<close>

theorem run_stages_confirmed:
  assumes "calls_only stages"
  shows "case run e (run_stages stages False False) of (r, t) \<Rightarrow> confirmed t"
proof -
  have "emits (run_stages stages False False) (\<lambda>r. confirmed)"
    unfolding run_stages_def
    by (auto intro!: emits_sys_bind emits_bind [OF confirmed_emits [OF assms]] emits_ret
        simp: confirmed_prefix [of "[(IsTerminal, x)]" for x, simplified] confirmed_def [of "[]"])
  from emits_run [OF this] show ?thesis by (auto split: prod.split)
qed


theorem run_stages_confirmed_witness:
  "case run (\<lambda>h c. (None, [])) (run_stages [\<lparr>st_title = ''t'', st_notes = [], st_actions =
      [cmd_action ''true'' [], mkdir_action ''/x'' 493]\<rparr>] False False) of (r, t) \<Rightarrow> confirmed t"
proof (rule run_stages_confirmed)
  have "emits (command_run ''true'' []) (\<lambda>e t. True)" "emits (do_sys (MkdirAll ''/x'' 493)) (\<lambda>e t. True)"
    by (auto simp: command_run_def do_sys_def intro!: emits_sys_bind)
  then show "calls_only [\<lparr>st_title = ''t'', st_notes = [], st_actions = [cmd_action ''true'' [], mkdir_action ''/x'' 493]\<rparr>]"
    by (simp add: calls_only_def cmd_action_def mkdir_action_def)
qed


lemma write_file_emits:
  "emits (write_file path content mode) (\<lambda>e t.
     (\<exists>r. t = [(WriteFile (path @ ''.tmp'') content mode, r)] \<and> \<not> succeeded r \<and> e \<noteq> None) \<or>
     (\<exists>r r' r''. t = [(WriteFile (path @ ''.tmp'') content mode, r), (Chmod (path @ ''.tmp'') mode, r'),
        (Remove (path @ ''.tmp''), r'')] \<and> succeeded r \<and> \<not> succeeded r' \<and> e \<noteq> None) \<or>
     (\<exists>r r' r''. t = [(WriteFile (path @ ''.tmp'') content mode, r), (Chmod (path @ ''.tmp'') mode, r'),
        (Rename (path @ ''.tmp'') path, r'')] \<and> succeeded r \<and> succeeded r' \<and> (e = None \<longleftrightarrow> succeeded r'')))"
  unfolding write_file_def Let_def
  apply (intro emits_do_sys_bind emits_if emits_ret emits_sys_bind)
    apply simp
   apply simp
  apply (unfold do_sys_def, intro emits_sys_bind emits_ret)
  apply (auto simp flip: fault_err_iff)
  done

text \<open>
  C11 A file is replaced as a whole: \<open>writeAction\<close> renames its temporary file over the path only
  after all of the content and the mode were written to it, touches the path in no other call, and
  reports success exactly when the rename succeeded.
\<close>

theorem write_file_atomic:
  "case run e (write_file path content mode) of (r, t) \<Rightarrow>
     \<exists>a u. t = (WriteFile (path @ ''.tmp'') content mode, a) # u \<and>
     (if succeeded a then \<exists>b c. (if succeeded b
        then u = [(Chmod (path @ ''.tmp'') mode, b), (Rename (path @ ''.tmp'') path, c)] \<and> (r = None \<longleftrightarrow> succeeded c)
        else u = [(Chmod (path @ ''.tmp'') mode, b), (Remove (path @ ''.tmp''), c)] \<and> r \<noteq> None)
      else u = [] \<and> r \<noteq> None)"
proof -
  obtain r t where rt: "run e (write_file path content mode) = (r, t)" by fastforce
  from emits_run [OF write_file_emits this] show ?thesis
    unfolding rt by (auto simp del: split_paired_Ex split_paired_All) metis+
qed

end
