(* ===== verification/Flags.thy ===== *)
theory Flags
  imports Plan
begin

text \<open>
  What the commands share: Go's flag package as they use it (flag sets with boolean, string and
  integer flags that exit on an error), the messages and the root check of cmd/invirtio/main.go, and the
  sequencing of steps of which the first error ends the command. The table of defaults that a usage
  message ends with is not modelled.
\<close>

datatype flag_kind = BoolFlag | StringFlag | IntFlag

type_synonym flag_set = "(string \<times> flag_kind) list"
type_synonym flag_values = "string \<rightharpoonup> string"

text \<open>\<open>strconv.ParseBool\<close>.\<close>

definition parse_bool :: "string \<Rightarrow> bool option" where
  "parse_bool s =
     (if s \<in> {''1'', ''t'', ''T'', ''true'', ''TRUE'', ''True''} then Some True
      else if s \<in> {''0'', ''f'', ''F'', ''false'', ''FALSE'', ''False''} then Some False
      else None)"

definition show_bool :: "bool \<Rightarrow> string" where
  "show_bool b = (if b then ''true'' else ''false'')"

text \<open>
  \<open>strconv.ParseInt(s, 0, 64)\<close>: a sign, a prefix that gives the base, and digits, between which there
  may be underscores. The digit of a character is 36 where it has none.
\<close>

definition any_digit :: "char \<Rightarrow> nat" where
  "any_digit c = (let n = code (lower_char c) in
     if 48 \<le> n \<and> n \<le> 57 then n - 48 else if 97 \<le> n \<and> n \<le> 122 then n - 87 else 36)"

fun underscores_ok :: "char \<Rightarrow> string \<Rightarrow> bool" where
  "underscores_ok saw [] = (saw \<noteq> CHR ''_'')"
| "underscores_ok saw (c # cs) =
     (if c = CHR ''_'' then saw = CHR ''0'' \<and> underscores_ok (CHR ''_'') cs else underscores_ok (CHR ''0'') cs)"

text \<open>The base, the digits that are read in it, and whether the underscores of a number are where they may be.\<close>

definition int_base :: "string \<Rightarrow> nat \<times> string \<times> bool" where
  "int_base s =
     (let prefix = (if 3 \<le> length s \<and> hd s = CHR ''0'' then lower_char (s ! 1) else CHR ''-'')
      in if prefix = CHR ''b'' then (2, drop 2 s, underscores_ok (CHR ''0'') (drop 2 s))
         else if prefix = CHR ''o'' then (8, drop 2 s, underscores_ok (CHR ''0'') (drop 2 s))
         else if prefix = CHR ''x'' then (16, drop 2 s, underscores_ok (CHR ''0'') (drop 2 s))
         else if hd s = CHR ''0'' then (8, tl s, underscores_ok (CHR ''^'') s)
         else (10, s, underscores_ok (CHR ''^'') s))"

definition parse_int0 :: "string \<Rightarrow> int option" where
  "parse_int0 s =
     (let neg = has_prefix s ''-''; t = (if neg \<or> has_prefix s ''+'' then tl s else s)
      in if t = [] then None
         else case int_base t of (base, ds, ok) \<Rightarrow>
           let ds' = filter (\<lambda>c. c \<noteq> CHR ''_'') ds; n = foldl (\<lambda>n c. n * base + any_digit c) 0 ds'
           in if \<not> ok \<or> \<not> list_all (\<lambda>c. any_digit c < base) ds' then None
              else let v = (if neg then - int n else int n) in if in_int64 v then Some v else None)"

text \<open>The name and the value of a flag that starts with one or two dashes.\<close>

definition flag_parts :: "string \<Rightarrow> (string \<times> string option) option" where
  "flag_parts s =
     (let body = (if has_prefix s ''--'' then drop 2 s else drop 1 s)
      in if body = [] \<or> hd body = CHR ''-'' \<or> hd body = CHR ''='' then None
         else case cut body ''='' of (name, v, found) \<Rightarrow> Some (name, if found then Some v else None))"

text \<open>The values and the remaining arguments, or the status with which the program exits.\<close>

fun parse_flags :: "flag_set \<Rightarrow> flag_values \<Rightarrow> string list \<Rightarrow> nat + (flag_values \<times> string list)" where
  "parse_flags fs v [] = Inr (v, [])"
| "parse_flags fs v (s # args) =
     (if length s < 2 \<or> hd s \<noteq> CHR ''-'' then Inr (v, s # args)
      else if s = ''--'' then Inr (v, args)
      else case flag_parts s of
          None \<Rightarrow> Inl 2
        | Some (name, value) \<Rightarrow>
            (case map_of fs name of
               None \<Rightarrow> Inl (if name = ''help'' \<or> name = ''h'' then 0 else 2)
             | Some BoolFlag \<Rightarrow>
                 (case value of
                    None \<Rightarrow> parse_flags fs (v(name \<mapsto> ''true'')) args
                  | Some x \<Rightarrow>
                      (case parse_bool x of
                         None \<Rightarrow> Inl 2
                       | Some b \<Rightarrow> parse_flags fs (v(name \<mapsto> show_bool b)) args))
             | Some kind \<Rightarrow>
                 (case value of
                    Some x \<Rightarrow>
                      if kind = IntFlag \<and> parse_int0 x = None then Inl 2 else parse_flags fs (v(name \<mapsto> x)) args
                  | None \<Rightarrow>
                      (case args of
                         [] \<Rightarrow> Inl 2
                       | x # rest \<Rightarrow>
                           if kind = IntFlag \<and> parse_int0 x = None then Inl 2 else parse_flags fs (v(name \<mapsto> x)) rest))))"

definition flag_bool :: "flag_values \<Rightarrow> string \<Rightarrow> bool" where
  "flag_bool v name = (v name = Some ''true'')"

definition flag_string :: "flag_values \<Rightarrow> string \<Rightarrow> string" where
  "flag_string v name = (case v name of None \<Rightarrow> [] | Some s \<Rightarrow> s)"

definition flag_int :: "flag_values \<Rightarrow> string \<Rightarrow> int" where
  "flag_int v name = (case parse_int0 (flag_string v name) of None \<Rightarrow> 0 | Some n \<Rightarrow> n)"

text \<open>How a command ends: it returns to \<open>main\<close>, or it exits.\<close>

datatype outcome = Returned "err option" | Exited nat


subsection \<open>Messages\<close>

definition one_line :: "string \<Rightarrow> string" where
  "one_line s = replace_char newline '' '' (trim_right_of (\<lambda>c. c = newline) s)"

definition warn_text :: "bool \<Rightarrow> string \<Rightarrow> string" where
  "warn_text journal msg = (if journal then ''<4>'' else []) @ ''invirtio: '' @ one_line msg @ [newline]"

definition warn :: "bool \<Rightarrow> string \<Rightarrow> unit io" where
  "warn journal msg = do {_ \<leftarrow> sys (Eprint (warn_text journal msg)); ret ()}"

definition fatal_text :: "bool \<Rightarrow> string \<Rightarrow> string" where
  "fatal_text journal msg = (if journal then ''<3>'' else []) @ ''invirtio: '' @ one_line msg @ [newline]"

definition log_text :: "bool \<Rightarrow> string \<Rightarrow> string" where
  "log_text journal msg = (if journal then ''<5>'' else []) @ one_line msg @ [newline]"

definition logf :: "bool \<Rightarrow> string \<Rightarrow> unit io" where
  "logf journal msg = do {_ \<leftarrow> sys (Print (log_text journal msg)); ret ()}"

text \<open>\<open>fatal\<close> prints and exits with status 1; \<open>requireRoot\<close> is false when it did.\<close>

definition fatal :: "bool \<Rightarrow> string \<Rightarrow> nat io" where
  "fatal journal msg = do {_ \<leftarrow> sys (Eprint (fatal_text journal msg)); ret 1}"

definition require_root :: "bool io" where
  "require_root = do {
     r \<leftarrow> sys Geteuid;
     if datum r \<noteq> ''0'' then do {_ \<leftarrow> fatal False ''must run as root''; ret False}
     else ret True}"

definition usage_exit :: "string \<Rightarrow> nat \<Rightarrow> outcome io" where
  "usage_exit text n = do {_ \<leftarrow> sys (Eprint text); ret (Exited n)}"


subsection \<open>Steps that can fail\<close>

definition try_res :: "'a res io \<Rightarrow> ('a \<Rightarrow> 'b res io) \<Rightarrow> 'b res io" where
  "try_res m f = do {
     r \<leftarrow> m;
     (case r of Inl e \<Rightarrow> ret (Inl e) | Inr x \<Rightarrow> f x)}"

definition try_err :: "err option io \<Rightarrow> 'b res io \<Rightarrow> 'b res io" where
  "try_err m f = do {
     e \<leftarrow> m;
     (case e of Some e \<Rightarrow> ret (Inl e) | None \<Rightarrow> f)}"

definition and_then :: "err option io \<Rightarrow> err option io \<Rightarrow> err option io" where
  "and_then m f = do {
     e \<leftarrow> m;
     if e \<noteq> None then ret e else f}"

text \<open>A command that only looks at the host.\<close>

definition looks :: "'a io \<Rightarrow> bool" where
  "looks m \<longleftrightarrow> emits m (\<lambda>x t. effects t = [])"

lemma looks_ret [intro!]: "looks (ret x)"
  by (auto simp: looks_def)

lemma looks_bind [intro!]: "looks m \<Longrightarrow> (\<And>x. looks (f x)) \<Longrightarrow> looks (m \<bind> f)"
  unfolding looks_def
  by (rule emits_bind [where P = "\<lambda>x t. effects t = []"]) (auto elim: emits_mono)

lemma looks_sys: "\<not> changes c \<Longrightarrow> looks (sys c)"
  unfolding looks_def by (rule emits_sys) simp

lemma looks_ask: "\<not> changes c \<Longrightarrow> looks (ask c)"
  unfolding ask_def by (intro looks_bind looks_sys looks_ret)

lemma looks_do_sys: "\<not> changes c \<Longrightarrow> looks (do_sys c)"
  unfolding do_sys_def by (intro looks_bind looks_sys looks_ret)

lemma looks_small [intro!]: "looks (stat_ok p)" "looks (sysfs_read p)" "looks (print s)" "looks (println s)"
  unfolding stat_ok_def sysfs_read_def print_def println_def
  by (intro looks_bind looks_sys looks_ask looks_ret; simp)+

lemma looks_try [intro!]: "looks m \<Longrightarrow> (\<And>x. looks (f x)) \<Longrightarrow> looks (try_res m f)"
  unfolding try_res_def by (rule looks_bind) (auto split: sum.split)

lemma looks_try_err [intro!]: "looks m \<Longrightarrow> looks f \<Longrightarrow> looks (try_err m f)"
  unfolding try_err_def by (rule looks_bind) (auto split: option.split)

lemma looks_if [intro!]: "looks m \<Longrightarrow> looks n \<Longrightarrow> looks (if b then m else n)"
  by simp

lemma looks_first_error [intro!]: "(\<And>x. looks (f x)) \<Longrightarrow> looks (first_error f xs)"
  by (induction xs) (auto split: option.split)

text \<open>A message is one line of the journal, whatever it holds.\<close>

lemma one_line_newline: "newline \<notin> set (one_line s)"
  by (auto simp: one_line_def replace_char_def newline_def split: if_splits)

end
