(* ===== verification/Glob.thy ===== *)
theory Glob
  imports Prelude
begin

text \<open>
  Go's \<open>path.Match\<close>, as pci.MatchDriver uses it, and \<open>strconv.Quote\<close> for the messages. A pattern
  is read into elements and matched; a malformed pattern is an error, for which \<open>Match\<close> reports no
  match. Patterns and names are compared byte by byte, which is what \<open>Match\<close> does for ASCII.
\<close>

datatype glob = Star | AnyChar | Lit char | Class bool "(char \<times> char) list"

text \<open>One bound of a range: \<open>None\<close> when the pattern is malformed.\<close>

fun get_esc :: "string \<Rightarrow> (char \<times> string) option" where
  "get_esc [] = None"
| "get_esc (c # cs) =
     (if c = CHR ''-'' \<or> c = CHR '']'' then None
      else if c = CHR 0x5C then (case cs of [] \<Rightarrow> None | d # ds \<Rightarrow> if ds = [] then None else Some (d, ds))
      else if cs = [] then None
      else Some (c, cs))"

lemma get_esc_length: "get_esc s = Some (c, t) \<Longrightarrow> length t < length s"
  by (cases s) (auto split: if_splits list.splits)

text \<open>The ranges of a bracket expression, up to its closing bracket.\<close>

function class_ranges :: "bool \<Rightarrow> string \<Rightarrow> ((char \<times> char) list \<times> string) option" where
  "class_ranges first s =
     (if \<not> first \<and> s \<noteq> [] \<and> hd s = CHR '']'' then Some ([], tl s)
      else case get_esc s of
          None \<Rightarrow> None
        | Some (lo, t) \<Rightarrow>
            (if hd t = CHR ''-'' then
               (case get_esc (tl t) of
                  None \<Rightarrow> None
                | Some (hi, u) \<Rightarrow> map_option (\<lambda>(rs, v). ((lo, hi) # rs, v)) (class_ranges False u))
             else map_option (\<lambda>(rs, v). ((lo, lo) # rs, v)) (class_ranges False t)))"
  by pat_completeness auto
termination
proof (relation "measure (\<lambda>(f, s). length s)", goal_cases)
  case (2 first s x lo t y hi u)
  from 2(2,3) get_esc_length [of s lo t] have "length t < length s" by simp
  moreover from 2(5,6) get_esc_length [of "tl t" hi u] have "length u < length (tl t)" by simp
  ultimately show ?case by simp
next
  case (3 first s x lo t)
  then show ?case using get_esc_length [of s lo t] by simp
qed simp

declare class_ranges.simps [simp del]

lemma class_ranges_length: "class_ranges f s = Some (rs, v) \<Longrightarrow> length v < length s"
proof (induction f s arbitrary: rs v rule: class_ranges.induct)
  case (1 first s)
  show ?case
  proof (cases "\<not> first \<and> s \<noteq> [] \<and> hd s = CHR '']''")
    case True
    then have "class_ranges first s = Some ([], tl s)" by (subst class_ranges.simps) simp
    with "1.prems" True show ?thesis by simp
  next
    case False
    with "1.prems" obtain lo t where t: "get_esc s = Some (lo, t)"
      by (auto simp: class_ranges.simps [of first s] simp del: not_not split: option.splits)
    note lt = get_esc_length [OF t]
    show ?thesis
    proof (cases "hd t = CHR ''-''")
      case True
      with "1.prems" False t obtain hi u rs' where u: "get_esc (tl t) = Some (hi, u)"
          "class_ranges False u = Some (rs', v)"
        by (auto simp: class_ranges.simps [of first s] simp del: not_not split: option.splits)
      from "1.IH"(1) [OF False t refl True u(1) refl u(2)] get_esc_length [OF u(1)] lt
      show ?thesis by simp
    next
      case dash: False
      with "1.prems" False t obtain rs' where u: "class_ranges False t = Some (rs', v)"
        by (auto simp: class_ranges.simps [of first s] simp del: not_not split: option.splits)
      from "1.IH"(2) [OF False t refl dash u] lt show ?thesis by simp
    qed
  qed
qed

function parse_glob :: "string \<Rightarrow> glob list option" where
  "parse_glob [] = Some []"
| "parse_glob (c # cs) =
     (if c = CHR ''*'' then map_option ((#) Star) (parse_glob cs)
      else if c = CHR ''?'' then map_option ((#) AnyChar) (parse_glob cs)
      else if c = CHR 0x5C then
        (case cs of [] \<Rightarrow> None | d # ds \<Rightarrow> map_option ((#) (Lit d)) (parse_glob ds))
      else if c = CHR ''['' then
        (let neg = (cs \<noteq> [] \<and> hd cs = CHR ''^'');
             body = (if neg then tl cs else cs)
         in case class_ranges True body of
              None \<Rightarrow> None
            | Some (rs, v) \<Rightarrow> map_option ((#) (Class neg rs)) (parse_glob v))
      else map_option ((#) (Lit c)) (parse_glob cs))"
  by pat_completeness auto
termination
proof (relation "measure length", goal_cases)
  case (5 c cs neg body x rs v)
  then have "class_ranges True body = Some (rs, v)" by (simp only:)
  from class_ranges_length [OF this] have "length v < length body" .
  moreover have "length body \<le> length cs" using 5 by auto
  ultimately show ?case by simp
qed auto

definition in_ranges :: "char \<Rightarrow> (char \<times> char) list \<Rightarrow> bool" where
  "in_ranges c rs \<longleftrightarrow> list_ex (\<lambda>(lo, hi). code lo \<le> code c \<and> code c \<le> code hi) rs"

fun match_one :: "glob \<Rightarrow> char \<Rightarrow> bool" where
  "match_one Star c = False"
| "match_one AnyChar c = (c \<noteq> CHR ''/'')"
| "match_one (Lit d) c = (c = d)"
| "match_one (Class neg rs) c = (in_ranges c rs \<noteq> neg)"

fun match_glob :: "glob list \<Rightarrow> string \<Rightarrow> bool" where
  "match_glob [] s = (s = [])"
| "match_glob (Star # gs) [] = match_glob gs []"
| "match_glob (Star # gs) (c # s) =
     (match_glob gs (c # s) \<or> (c \<noteq> CHR ''/'' \<and> match_glob (Star # gs) s))"
| "match_glob (g # gs) [] = False"
| "match_glob (g # gs) (c # s) = (match_one g c \<and> match_glob gs s)"

definition path_match :: "string \<Rightarrow> string \<Rightarrow> bool" where
  "path_match pat s = (case parse_glob pat of None \<Rightarrow> False | Some gs \<Rightarrow> match_glob gs s)"

text \<open>What a list of elements matches: the concatenation of what its elements match.\<close>

fun elem_lang :: "glob \<Rightarrow> string \<Rightarrow> bool" where
  "elem_lang Star s = (CHR ''/'' \<notin> set s)"
| "elem_lang g s = (\<exists>c. s = [c] \<and> match_one g c)"

lemma match_star:
  "match_glob (Star # gs) s \<longleftrightarrow> (\<exists>u v. s = u @ v \<and> CHR ''/'' \<notin> set u \<and> match_glob gs v)"
proof (induction s)
  case Nil
  then show ?case by simp
next
  case (Cons c s)
  show ?case (is "?L \<longleftrightarrow> ?R")
  proof
    assume ?L
    then consider "match_glob gs (c # s)" | "c \<noteq> CHR ''/''" "match_glob (Star # gs) s" by auto
    then show ?R
    proof cases
      case 1
      then show ?thesis by (intro exI [of _ "[]"] exI [of _ "c # s"]) simp
    next
      case 2
      with Cons obtain u v where "s = u @ v" "CHR ''/'' \<notin> set u" "match_glob gs v" by blast
      with 2 show ?thesis by (intro exI [of _ "c # u"] exI [of _ v]) simp
    qed
  next
    assume ?R
    then obtain u v where u: "c # s = u @ v" "CHR ''/'' \<notin> set u" "match_glob gs v" by blast
    show ?L
    proof (cases u)
      case Nil
      with u(1) have "v = c # s" by simp
      with u(3) show ?thesis by simp
    next
      case (Cons d u')
      with u Cons.IH show ?thesis by auto
    qed
  qed
qed

theorem match_glob_lang:
  "match_glob gs s \<longleftrightarrow> (\<exists>ss. s = concat ss \<and> list_all2 elem_lang gs ss)"
proof (induction gs arbitrary: s)
  case Nil
  then show ?case by simp
next
  case (Cons g gs)
  have split: "(\<exists>ss. s = concat ss \<and> list_all2 elem_lang (g # gs) ss) \<longleftrightarrow>
      (\<exists>u v. s = u @ v \<and> elem_lang g u \<and> match_glob gs v)" (is "?L \<longleftrightarrow> ?R")
  proof
    assume ?L
    then obtain u us where "s = u @ concat us" "elem_lang g u" "list_all2 elem_lang gs us"
      by (auto simp: list_all2_Cons1)
    with Cons show ?R by blast
  next
    assume ?R
    then obtain u us where "s = u @ concat us" "elem_lang g u" "list_all2 elem_lang gs us"
      using Cons by blast
    then show ?L by (intro exI [of _ "u # us"]) simp
  qed
  have one: "match_glob (g # gs) s \<longleftrightarrow> (\<exists>u v. s = u @ v \<and> elem_lang g u \<and> match_glob gs v)"
  proof (cases "g = Star")
    case True
    then show ?thesis by (simp add: match_star)
  next
    case False
    then have "match_glob (g # gs) s \<longleftrightarrow> (\<exists>c v. s = c # v \<and> match_one g c \<and> match_glob gs v)"
      by (cases g; cases s) simp_all
    moreover from False have "elem_lang g u \<longleftrightarrow> (\<exists>c. u = [c] \<and> match_one g c)" for u
      by (cases g) simp_all
    moreover have "(\<exists>u v. s = u @ v \<and> (\<exists>c. u = [c] \<and> match_one g c) \<and> match_glob gs v) \<longleftrightarrow>
        (\<exists>c v. s = c # v \<and> match_one g c \<and> match_glob gs v)"
      by (metis append_Cons append_Nil)
    ultimately show ?thesis by (simp only:)
  qed
  show ?case unfolding one split ..
qed

text \<open>A pattern without special characters matches only itself.\<close>

lemma parse_literal:
  "\<forall>c\<in>set p. c \<notin> {CHR ''*'', CHR ''?'', CHR ''['', CHR 0x5C} \<Longrightarrow> parse_glob p = Some (map Lit p)"
  by (induction p) auto

lemma match_lits: "match_glob (map Lit p) s \<longleftrightarrow> s = p"
proof (induction p arbitrary: s)
  case (Cons c p)
  then show ?case by (cases s) auto
qed simp



subsection \<open>Quoting\<close>

text \<open>The verb \<open>%q\<close>: exact for ASCII; a byte above it is kept, as of a printable rune.\<close>

definition hex_digit :: "nat \<Rightarrow> char" where
  "hex_digit d = (if d < 10 then char_of (48 + d) else char_of (87 + d))"

definition quote_char :: "char \<Rightarrow> string" where
  "quote_char c = (let n = code c in
     if n = 34 \<or> n = 92 then [CHR 0x5C, c]
     else if n = 7 then [CHR 0x5C, CHR ''a'']
     else if n = 8 then [CHR 0x5C, CHR ''b'']
     else if n = 9 then [CHR 0x5C, CHR ''t'']
     else if n = 10 then [CHR 0x5C, CHR ''n'']
     else if n = 11 then [CHR 0x5C, CHR ''v'']
     else if n = 12 then [CHR 0x5C, CHR ''f'']
     else if n = 13 then [CHR 0x5C, CHR ''r'']
     else if n < 32 \<or> n = 127 then [CHR 0x5C, CHR ''x'', hex_digit (n div 16), hex_digit (n mod 16)]
     else [c])"

definition go_quote :: "string \<Rightarrow> string" where
  "go_quote s = [CHR 0x22] @ concat (map quote_char s) @ [CHR 0x22]"

end
