(* ===== verification/Pci.thy ===== *)
theory Pci
  imports Glob Sysfs
begin

text \<open>
  Package internal/pci: addresses, classes and drivers of PCI devices, and the moves of a device
  between its host driver and vfio-pci through sysfs.
\<close>

subsection \<open>Addresses and classes\<close>

definition is_hex :: "char \<Rightarrow> bool" where
  "is_hex c \<longleftrightarrow> is_digit c \<or> (97 \<le> code c \<and> code c \<le> 102)"

definition valid_address :: "string \<Rightarrow> bool" where
  "valid_address s \<longleftrightarrow> length s = 12 \<and> list_all is_hex (take 4 s) \<and> s ! 4 = CHR '':'' \<and>
     list_all is_hex (take 2 (drop 5 s)) \<and> s ! 7 = CHR '':'' \<and>
     list_all is_hex (take 2 (drop 8 s)) \<and> s ! 10 = CHR ''.'' \<and>
     48 \<le> code (s ! 11) \<and> code (s ! 11) \<le> 55"

definition normalize_address :: "string \<Rightarrow> string res" where
  "normalize_address s =
     (let addr = to_lower s;
          addr = (if count_char (CHR '':'') addr = 1 then ''0000:'' @ addr else addr)
      in if \<not> valid_address addr
         then Inl (Msg (go_quote s @ '' is not a PCI address like 0000:06:00.0''))
         else Inr addr)"

definition pci_path :: "string \<Rightarrow> string \<Rightarrow> string" where
  "pci_path addr file = path_join [''/sys/bus/pci/devices'', addr, file]"

definition class_type :: "string \<Rightarrow> string" where
  "class_type class =
     (if has_prefix class ''0x0280'' then ''wlan''
      else if has_prefix class ''0x0200'' then ''net''
      else [])"

definition pci_type :: "string \<Rightarrow> string res io" where
  "pci_type addr = do {
     r \<leftarrow> sysfs_read (pci_path addr ''class'');
     ret (case r of
            Inl _ \<Rightarrow> Inl (Msg (''no PCI device '' @ addr))
          | Inr class \<Rightarrow>
              (if class_type class \<noteq> [] then Inr (class_type class)
               else Inl (Msg (addr @ '' has PCI class '' @ class @
                 '', which is neither a WiFi nor an Ethernet controller''))))}"

definition pci_driver :: "string \<Rightarrow> string io" where
  "pci_driver addr = do {
     r \<leftarrow> ask (Readlink (pci_path addr ''driver''));
     ret (case r of Inl _ \<Rightarrow> [] | Inr link \<Rightarrow> path_base link)}"

definition iommu_group :: "string \<Rightarrow> string res io" where
  "iommu_group addr = do {
     r \<leftarrow> ask (Readlink (pci_path addr ''iommu_group''));
     ret (case r of
            Inl _ \<Rightarrow> Inl (Msg (addr @ '' has no IOMMU group, is the IOMMU enabled?''))
          | Inr link \<Rightarrow> Inr (path_base link))}"


subsection \<open>IOMMU groups\<close>

definition dma_driver :: "string \<Rightarrow> bool" where
  "dma_driver drv \<longleftrightarrow> drv = [] \<or> drv = ''pci-stub'' \<or> drv = ''pcieport'' \<or> str_contains drv ''vfio''"

definition group_dir :: "string \<Rightarrow> string" where
  "group_dir grp = path_join [''/sys/kernel/iommu_groups'', grp, ''devices'']"

definition peer_link :: "string \<Rightarrow> string \<Rightarrow> string" where
  "peer_link grp peer = path_join [''/sys/kernel/iommu_groups'', grp, ''devices'', peer, ''driver'']"

definition peer_error :: "string \<Rightarrow> string \<Rightarrow> string \<Rightarrow> string \<Rightarrow> err" where
  "peer_error addr grp peer drv = Msg (addr @ '' shares IOMMU group '' @ grp @ '' with '' @ peer @
     '', which '' @ drv @ '' drives, so VFIO cannot use the group'')"

definition check_peer :: "string \<Rightarrow> string \<Rightarrow> string \<Rightarrow> err option io" where
  "check_peer addr grp peer =
     (if peer = addr then ret None
      else do {
        r \<leftarrow> ask (Readlink (peer_link grp peer));
        let drv = (case r of Inl _ \<Rightarrow> [] | Inr link \<Rightarrow> path_base link);
        ret (if dma_driver drv then None else Some (peer_error addr grp peer drv))})"

definition check_group :: "string \<Rightarrow> err option io" where
  "check_group addr = do {
     g \<leftarrow> iommu_group addr;
     (case g of
        Inl e \<Rightarrow> ret (Some e)
      | Inr grp \<Rightarrow> do {
          r \<leftarrow> sys (ReadDir (group_dir grp));
          (case fault_err r of
             Some e \<Rightarrow> ret (Some e)
           | None \<Rightarrow> first_error (check_peer addr grp) (snd r))})}"


subsection \<open>Drivers of the guest\<close>

definition alias_entry :: "string \<Rightarrow> string \<Rightarrow> string option" where
  "alias_entry alias entry =
     (let (md, pattern, ok) = cut entry ''.alias=''
      in if \<not> ok \<or> \<not> has_prefix pattern ''pci:'' then None
         else if path_match pattern alias then Some md else None)"

fun first_alias :: "string \<Rightarrow> string list \<Rightarrow> string" where
  "first_alias alias [] = []"
| "first_alias alias (entry # es) =
     (case alias_entry alias entry of Some md \<Rightarrow> md | None \<Rightarrow> first_alias alias es)"

definition match_driver :: "string \<Rightarrow> string \<Rightarrow> string" where
  "match_driver alias modinfo = first_alias alias (split_on (CHR 0x00) modinfo)"

definition guest_driver :: "string \<Rightarrow> string \<Rightarrow> string res io" where
  "guest_driver addr modinfo = do {
     a \<leftarrow> sysfs_read (pci_path addr ''modalias'');
     (case a of
        Inl _ \<Rightarrow> ret (Inl (Msg (''no PCI device '' @ addr)))
      | Inr alias \<Rightarrow> do {
          d \<leftarrow> ask (ReadFile modinfo);
          ret (case d of
                 Inl e \<Rightarrow> Inl e
               | Inr info \<Rightarrow>
                   (let md = match_driver alias info
                    in if md \<noteq> [] then Inr md
                       else Inl (Msg (''the guest has no driver for '' @ addr @ '' ('' @ alias @ '')''))))})}"


subsection \<open>What uses a disk\<close>

definition mount_use :: "string \<Rightarrow> string list" where
  "mount_use line = (case str_fields line of
      [f0, f1] \<Rightarrow> [''/dev/'' @ f0 @ '' is mounted at '' @ f1]
    | _ \<Rightarrow> [])"

text \<open>The expression \<open>^/dev/NAME(p?[0-9]+)?$\<close>, the disk itself or one of its partitions.\<close>

definition is_part :: "string \<Rightarrow> string \<Rightarrow> bool" where
  "is_part name s = (case cut_prefix s (''/dev/'' @ name) of
      None \<Rightarrow> False
    | Some [] \<Rightarrow> True
    | Some (c # cs) \<Rightarrow>
        (let ds = (if c = CHR ''p'' then cs else c # cs) in ds \<noteq> [] \<and> list_all is_digit ds))"

definition block_uses :: "string \<Rightarrow> string \<Rightarrow> string list io" where
  "block_uses addr b = do {
     d \<leftarrow> ask (EvalSymlinks (path_join [b, ''device'']));
     (case d of
        Inl _ \<Rightarrow> ret []
      | Inr dev \<Rightarrow>
          if \<not> str_contains (dev @ ''/'') (''/'' @ addr @ ''/'') then ret []
          else do {
            let name = path_base b;
            out \<leftarrow> sys (Exec Stdout ''lsblk'' [''-nro'', ''NAME,MOUNTPOINT'', ''/dev/'' @ name]);
            swaps \<leftarrow> sys (Exec Stdout ''swapon'' [''--show=NAME'', ''--noheadings'']);
            ret (concat (map mount_use (split_on newline (datum out))) @
                 map (\<lambda>s. s @ '' is active swap'') (filter (is_part name) (str_fields (datum swaps))))})}"

fun uses_of :: "string \<Rightarrow> string list \<Rightarrow> string list io" where
  "uses_of addr [] = ret []"
| "uses_of addr (b # bs) = do {
     u \<leftarrow> block_uses addr b;
     us \<leftarrow> uses_of addr bs;
     ret (u @ us)}"

definition in_use :: "string \<Rightarrow> string list io" where
  "in_use addr = do {
     r \<leftarrow> sys (Glob ''/sys/block/*'');
     uses_of addr (if succeeded r then snd r else [])}"


subsection \<open>Moving a device\<close>

definition bind_vfio :: "string \<Rightarrow> err option io" where
  "bind_vfio addr = do {
     d \<leftarrow> pci_driver addr;
     if d = ''vfio-pci'' then ret None
     else do {
       e \<leftarrow> do_sys (Exec NoOutput ''modprobe'' [''vfio-pci'']);
       (case e of
          Some e \<Rightarrow> ret (Some (Msg (''cannot load vfio-pci: '' @ err_text e)))
        | None \<Rightarrow> do {
            e \<leftarrow> sysfs_write (pci_path addr ''driver_override'') ''vfio-pci'';
            if e \<noteq> None then ret e
            else do {
              d \<leftarrow> pci_driver addr;
              e \<leftarrow> (if d \<noteq> [] then sysfs_write (pci_path addr ''driver/unbind'') addr else ret None);
              if e \<noteq> None then ret e
              else do {
                _ \<leftarrow> sysfs_write ''/sys/bus/pci/drivers_probe'' addr;
                drv \<leftarrow> pci_driver addr;
                ret (if drv \<noteq> ''vfio-pci''
                     then Some (Msg (''binding '' @ addr @ '' to vfio-pci failed, its driver is '' @ go_quote drv))
                     else None)}}})}}"

definition bind_native :: "string \<Rightarrow> err option io" where
  "bind_native addr = do {
     e \<leftarrow> sysfs_write (pci_path addr ''driver_override'') [newline];
     if e \<noteq> None then ret e
     else do {
       d \<leftarrow> pci_driver addr;
       e \<leftarrow> (if d \<noteq> [] then sysfs_write (pci_path addr ''driver/unbind'') addr else ret None);
       if e \<noteq> None then ret e
       else sysfs_write ''/sys/bus/pci/drivers_probe'' addr}}"



subsection \<open>Lemmas on addresses\<close>

lemma valid_address_iff:
  "valid_address s \<longleftrightarrow> (\<exists>a b c d e f g h i. s = [a, b, c, d, CHR '':'', e, f, CHR '':'', g, h, CHR ''.'', i] \<and>
     list_all is_hex [a, b, c, d, e, f, g, h] \<and> 48 \<le> code i \<and> code i \<le> 55)"
proof
  assume v: "valid_address s"
  then have "length s = Suc (Suc (Suc (Suc (Suc (Suc (Suc (Suc (Suc (Suc (Suc (Suc 0)))))))))))"
    by (simp add: valid_address_def)
  then obtain a b c d c1 e f c2 g h c3 i where s: "s = [a, b, c, d, c1, e, f, c2, g, h, c3, i]"
    by (auto simp only: length_Suc_conv length_0_conv)
  from v show "\<exists>a b c d e f g h i. s = [a, b, c, d, CHR '':'', e, f, CHR '':'', g, h, CHR ''.'', i] \<and>
     list_all is_hex [a, b, c, d, e, f, g, h] \<and> 48 \<le> code i \<and> code i \<le> 55"
    by (simp add: valid_address_def s eval_nat_numeral)
next
  assume "\<exists>a b c d e f g h i. s = [a, b, c, d, CHR '':'', e, f, CHR '':'', g, h, CHR ''.'', i] \<and>
     list_all is_hex [a, b, c, d, e, f, g, h] \<and> 48 \<le> code i \<and> code i \<le> 55"
  then show "valid_address s" by (auto simp: valid_address_def eval_nat_numeral)
qed

text \<open>The characters of an address.\<close>

definition addr_char :: "char \<Rightarrow> bool" where
  "addr_char c \<longleftrightarrow> is_hex c \<or> c = CHR '':'' \<or> c = CHR ''.''"

lemma digit_hex: "48 \<le> code i \<Longrightarrow> code i \<le> 55 \<Longrightarrow> is_hex i"
  by (simp add: is_hex_def is_digit_def)

lemma valid_address_chars: "valid_address s \<Longrightarrow> list_all addr_char s"
  by (auto simp: valid_address_iff addr_char_def digit_hex)

lemma addr_char_lower: "addr_char c \<Longrightarrow> lower_char c = c"
  by (auto simp: addr_char_def is_hex_def is_digit_def lower_char_def)

lemma hex_not_colon: "is_hex c \<Longrightarrow> c \<noteq> CHR '':''"
  by (auto simp: is_hex_def is_digit_def)

lemma valid_address_lower: "valid_address s \<Longrightarrow> to_lower s = s"
  unfolding to_lower_def
  by (rule map_idI) (use valid_address_chars in \<open>auto simp: list_all_iff intro: addr_char_lower\<close>)

lemma valid_address_colons: "valid_address s \<Longrightarrow> count_char (CHR '':'') s = 2"
  by (auto simp: valid_address_iff count_char_def dest!: digit_hex hex_not_colon)

lemma valid_address_plain: "valid_address s \<Longrightarrow> plain_elem s"
proof -
  assume v: "valid_address s"
  then have n: "length s = 12" by (simp add: valid_address_def)
  have "\<not> addr_char (CHR ''/'')" by (simp add: addr_char_def is_hex_def is_digit_def)
  with valid_address_chars [OF v] have "CHR ''/'' \<notin> set s" by (auto simp: list_all_iff)
  with n show ?thesis by (auto simp: plain_elem_def)
qed

lemma pci_path_eq:
  assumes "valid_address addr" "\<forall>e\<in>set es. plain_elem e" "es \<noteq> []"
  shows "pci_path addr (join_with ''/'' es) = ''/sys/bus/pci/devices/'' @ addr @ ''/'' @ join_with ''/'' es"
proof -
  let ?es = "[''sys'', ''bus'', ''pci'', ''devices'', addr] @ es"
  have "\<forall>e\<in>set ?es. plain_elem e"
    using assms valid_address_plain by (auto simp: plain_elem_def)
  moreover have "join_with ''/'' ([''/sys/bus/pci/devices'', addr, join_with ''/'' es]) =
      CHR ''/'' # join_with ''/'' ?es"
    using assms(3) by (simp add: join_with_Cons)
  ultimately show ?thesis
    using path_clean_plain [of ?es] assms(3) by (simp add: pci_path_def path_join_def join_with_Cons)
qed

lemma pci_paths:
  assumes "valid_address addr"
  shows "pci_path addr ''driver'' = ''/sys/bus/pci/devices/'' @ addr @ ''/driver''"
    and "pci_path addr ''driver_override'' = ''/sys/bus/pci/devices/'' @ addr @ ''/driver_override''"
    and "pci_path addr ''driver/unbind'' = ''/sys/bus/pci/devices/'' @ addr @ ''/driver/unbind''"
  using pci_path_eq [OF assms, of "[''driver'']"] pci_path_eq [OF assms, of "[''driver_override'']"]
    pci_path_eq [OF assms, of "[''driver'', ''unbind'']"]
  by (simp_all add: plain_elem_def)


subsection \<open>Properties\<close>

text \<open>
  An address is accepted with or without its domain and in either case, and nothing else is: a
  normalized address is valid and is its own normal form, and an address is refused only when
  neither it nor it with the domain 0000 is valid in lower case.
\<close>

theorem normalize_address_correct:
  "case normalize_address s of
     Inr a \<Rightarrow> valid_address a \<and> normalize_address a = Inr a \<and> a \<in> {to_lower s, ''0000:'' @ to_lower s}
   | Inl _ \<Rightarrow> \<not> valid_address (to_lower s) \<and> \<not> valid_address (''0000:'' @ to_lower s)"
proof -
  have normal: "normalize_address a = Inr a" if "valid_address a" for a
    using that by (simp add: normalize_address_def valid_address_lower valid_address_colons)
  have colons: "count_char (CHR '':'') (''0000:'' @ t) = Suc (count_char (CHR '':'') t)" for t
    by (simp add: count_char_def)
  let ?l = "to_lower s"
  have l: "count_char (CHR '':'') ?l = 1 \<Longrightarrow> \<not> valid_address ?l"
    and d: "count_char (CHR '':'') ?l \<noteq> 1 \<Longrightarrow> \<not> valid_address (''0000:'' @ ?l)"
    using valid_address_colons [of ?l] valid_address_colons [of "''0000:'' @ ?l"] colons [of ?l] by auto
  let ?a = "if count_char (CHR '':'') ?l = 1 then ''0000:'' @ ?l else ?l"
  have "normalize_address s = (if valid_address ?a then Inr ?a
      else Inl (Msg (go_quote s @ '' is not a PCI address like 0000:06:00.0'')))"
    by (simp only: normalize_address_def Let_def if_not_P if_P simp_thms split: if_split) simp
  with l d normal [of ?a] show ?thesis
    by (auto simp del: append.simps split: if_splits)
qed

definition driver_of_link :: "reply \<Rightarrow> string" where
  "driver_of_link r = (if succeeded r then path_base (datum r) else [])"

lemma yields_check_peer:
  "yields f (check_peer addr grp peer)
     (if peer = addr \<or> dma_driver (driver_of_link (f (Readlink (peer_link grp peer)))) then None
      else Some (peer_error addr grp peer (driver_of_link (f (Readlink (peer_link grp peer))))))"
  unfolding check_peer_def
  by (auto intro!: yields_bind [OF yields_ask] yields_ret
      simp: result_succeeded driver_of_link_def Let_def split: if_splits)

lemma yields_first_error:
  assumes "\<And>x. yields f (g x) (h x)"
  shows "yields f (first_error g xs) (case filter (\<lambda>x. h x \<noteq> None) xs of [] \<Rightarrow> None | x # _ \<Rightarrow> h x)"
proof (induction xs)
  case (Cons x xs)
  then show ?case
    unfolding first_error.simps
    by (intro yields_bind [OF assms]) (auto split: option.splits list.splits)
qed (simp add: yields_ret)

lemma yields_iommu_group:
  "yields f (iommu_group addr)
     (if succeeded (f (Readlink (pci_path addr ''iommu_group'')))
      then Inr (driver_of_link (f (Readlink (pci_path addr ''iommu_group''))))
      else Inl (Msg (addr @ '' has no IOMMU group, is the IOMMU enabled?'')))"
  unfolding iommu_group_def
  by (rule yields_bind [OF yields_ask]) (auto simp: result_succeeded driver_of_link_def)

lemma yields_check_group:
  fixes f addr
  defines "l \<equiv> f (Readlink (pci_path addr ''iommu_group''))"
  defines "d \<equiv> f (ReadDir (group_dir (driver_of_link l)))"
  shows "\<exists>y. yields f (check_group addr) y \<and> (y = None \<longleftrightarrow> succeeded l \<and> succeeded d \<and>
    list_all (\<lambda>p. p = addr \<or> dma_driver (driver_of_link (f (Readlink (peer_link (driver_of_link l) p)))))
      (snd d))"
proof (cases "succeeded l")
  case False
  then show ?thesis
    unfolding check_group_def l_def
    by (intro exI conjI) (rule yields_bind [OF yields_iommu_group], simp, rule yields_ret, rule refl, simp)
next
  case l: True
  let ?h = "\<lambda>p. if p = addr \<or> dma_driver (driver_of_link (f (Readlink (peer_link (driver_of_link l) p)))) then None
      else Some (peer_error addr (driver_of_link l) p (driver_of_link (f (Readlink (peer_link (driver_of_link l) p)))))"
  show ?thesis
  proof (cases "fault_err d")
    case (Some e)
    then have "\<not> succeeded d" by auto
    with l Some show ?thesis
      unfolding check_group_def l_def d_def
      by (intro exI conjI) (rule yields_bind [OF yields_iommu_group], simp, rule yields_bind [OF yields_sys],
        simp, rule yields_ret, rule refl, simp)
  next
    case None
    have "yields f (first_error (check_peer addr (driver_of_link l)) (snd d))
        (case filter (\<lambda>p. ?h p \<noteq> None) (snd d) of [] \<Rightarrow> None | p # _ \<Rightarrow> ?h p)" (is "yields _ _ ?y")
      by (rule yields_first_error [OF yields_check_peer])
    with l None have "yields f (check_group addr) ?y"
      unfolding check_group_def l_def d_def
      by (intro yields_bind [OF yields_iommu_group]) (simp add: yields_bind [OF yields_sys] del: fault_err_iff)
    moreover have "?y = None \<longleftrightarrow> filter (\<lambda>p. ?h p \<noteq> None) (snd d) = []"
      by (auto split: list.splits if_splits dest: filter_eq_ConsD)
    ultimately show ?thesis
      using l None by (intro exI [of _ ?y]) (auto simp: filter_empty_conv list_all_iff split: if_splits)
  qed
qed




subsection \<open>The order of the moves\<close>

abbreviation set_override :: "string \<Rightarrow> string \<Rightarrow> call" where
  "set_override addr v \<equiv> WriteTo (pci_path addr ''driver_override'') v"

abbreviation pci_unbind :: "string \<Rightarrow> call" where
  "pci_unbind addr \<equiv> WriteTo (pci_path addr ''driver/unbind'') addr"

abbreviation pci_probe :: "string \<Rightarrow> call" where
  "pci_probe addr \<equiv> WriteTo ''/sys/bus/pci/drivers_probe'' addr"

abbreviation load_vfio :: call where
  "load_vfio \<equiv> Exec NoOutput ''modprobe'' [''vfio-pci'']"

lemma pci_driver_emits:
  "emits (pci_driver addr) (\<lambda>d t. \<exists>r. t = [(Readlink (pci_path addr ''driver''), r)] \<and> d = driver_of_link r)"
  unfolding pci_driver_def
  by (intro emits_steps) (auto simp: result_succeeded driver_of_link_def)

text \<open>
  The writes of a move are a prefix of the whole move, in which the unbind can be missing: after the
  first calls \<open>pre\<close>, the unbind and the probe.
\<close>

definition move_prefix :: "call list \<Rightarrow> string \<Rightarrow> call list \<Rightarrow> bool" where
  "move_prefix pre addr cs \<longleftrightarrow> cs \<in> set (map (\<lambda>n. take n pre) [0..<length pre]) \<or>
     cs \<in> {pre, pre @ [pci_unbind addr], pre @ [pci_probe addr], pre @ [pci_unbind addr, pci_probe addr]}"

lemma probe_emits:
  "emits (do {
       _ \<leftarrow> sysfs_write ''/sys/bus/pci/drivers_probe'' addr;
       drv \<leftarrow> pci_driver addr;
       ret (if drv \<noteq> ''vfio-pci'' then Some (f drv) else None)})
     (\<lambda>e t. effects t \<in> {[], [pci_probe addr]} \<and>
       (e = None \<longrightarrow> (\<exists>u r. t = u @ [(Readlink (pci_path addr ''driver''), r)] \<and> driver_of_link r = ''vfio-pci'')))"
  by (rule emits_bind [OF sysfs_write_emits], rule emits_bind [OF pci_driver_emits], rule emits_ret)
    (auto simp del: split_paired_Ex)

lemma unbind_emits:
  "emits (if d \<noteq> [] then sysfs_write (pci_path addr ''driver/unbind'') addr else ret None)
     (\<lambda>e t. effects t \<in> {[], [pci_unbind addr]})"
  by (auto intro: emits_mono [OF sysfs_write_emits])

definition vfio_done :: "string \<Rightarrow> err option \<Rightarrow> history \<Rightarrow> bool" where
  "vfio_done addr e t \<longleftrightarrow> move_prefix [load_vfio, set_override addr ''vfio-pci''] addr (effects t) \<and>
     (pci_unbind addr \<in> set (effects t) \<longrightarrow> wrote (pci_path addr ''driver_override'') ''vfio-pci'' t) \<and>
     (e = None \<longrightarrow> (\<exists>u r. t = u @ [(Readlink (pci_path addr ''driver''), r)] \<and> driver_of_link r = ''vfio-pci''))"

lemma vfio_doneI:
  assumes "effects s = [load_vfio, set_override addr ''vfio-pci'']"
    and "wrote (pci_path addr ''driver_override'') ''vfio-pci'' s"
    and "effects u \<in> {[], [pci_unbind addr]}" "effects v \<in> {[], [pci_probe addr]}"
    and "e = None \<Longrightarrow> \<exists>u r. v = u @ [(Readlink (pci_path addr ''driver''), r)] \<and> driver_of_link r = ''vfio-pci''"
  shows "vfio_done addr e (s @ u @ v)"
  unfolding vfio_done_def
  using assms by (auto simp: move_prefix_def simp del: split_paired_Ex)

lemma bind_vfio_emits: "emits (bind_vfio addr) (vfio_done addr)"
  unfolding bind_vfio_def
proof (rule emits_bind [OF pci_driver_emits], elim exE conjE, rule emits_if)
  fix d t r
  assume t: "t = [(Readlink (pci_path addr ''driver''), r)]" and d: "d = driver_of_link r"
  have stop: "vfio_done addr (Some x) u" if "effects u \<in> {[], [load_vfio], [load_vfio, set_override addr ''vfio-pci'']}"
    for x u
  proof -
    have "pci_path ''vfio-pci'' ''driver/unbind'' \<noteq> pci_path ''vfio-pci'' ''driver_override''"
      by (simp add: pci_path_def go_defs)
    with that show ?thesis by (auto simp: vfio_done_def move_prefix_def)
  qed
  {
    assume "d = ''vfio-pci''"
    with t d have "vfio_done addr None (t @ [])"
      by (auto simp: vfio_done_def move_prefix_def simp del: split_paired_Ex)
    then show "emits (ret None) (\<lambda>e u. vfio_done addr e (t @ u))" by (rule emits_ret)
  next
    show "emits (do {
       e \<leftarrow> do_sys (Exec NoOutput ''modprobe'' [''vfio-pci'']);
       (case e of
          Some e \<Rightarrow> ret (Some (Msg (''cannot load vfio-pci: '' @ err_text e)))
        | None \<Rightarrow> do {
            e \<leftarrow> sysfs_write (pci_path addr ''driver_override'') ''vfio-pci'';
            if e \<noteq> None then ret e
            else do {
              d \<leftarrow> pci_driver addr;
              e \<leftarrow> (if d \<noteq> [] then sysfs_write (pci_path addr ''driver/unbind'') addr else ret None);
              if e \<noteq> None then ret e
              else do {
                _ \<leftarrow> sysfs_write ''/sys/bus/pci/drivers_probe'' addr;
                drv \<leftarrow> pci_driver addr;
                ret (if drv \<noteq> ''vfio-pci''
                     then Some (Msg (''binding '' @ addr @ '' to vfio-pci failed, its driver is '' @ go_quote drv))
                     else None)}}})}) (\<lambda>e u. vfio_done addr e (t @ u))"
    proof (rule emits_do_sys_bind, rule emits_option)
      fix r' x
      show "emits (ret (Some (Msg (''cannot load vfio-pci: '' @ err_text x))))
          (\<lambda>e u. vfio_done addr e (t @ (load_vfio, r') # u))"
        by (rule emits_ret, rule stop) (simp add: t)
    next
      fix r'
      let ?s = "t @ [(load_vfio, r')]"
      show "emits (do {
            e \<leftarrow> sysfs_write (pci_path addr ''driver_override'') ''vfio-pci'';
            if e \<noteq> None then ret e
            else do {
              d \<leftarrow> pci_driver addr;
              e \<leftarrow> (if d \<noteq> [] then sysfs_write (pci_path addr ''driver/unbind'') addr else ret None);
              if e \<noteq> None then ret e
              else do {
                _ \<leftarrow> sysfs_write ''/sys/bus/pci/drivers_probe'' addr;
                drv \<leftarrow> pci_driver addr;
                ret (if drv \<noteq> ''vfio-pci''
                     then Some (Msg (''binding '' @ addr @ '' to vfio-pci failed, its driver is '' @ go_quote drv))
                     else None)}}}) (\<lambda>e u. vfio_done addr e (t @ (load_vfio, r') # u))"
        apply (rule emits_bind [OF sysfs_write_emits])
        apply (rule emits_if)
        subgoal for e u by (rule emits_ret, cases e) (auto simp: t intro!: stop)
        apply (rule emits_bind [OF pci_driver_emits], rule emits_bind [OF unbind_emits])
        apply (rule emits_if)
        subgoal for e u dd v e' u'
          by (rule emits_ret, cases e') (auto simp: vfio_done_def move_prefix_def t)
        apply (rule emits_mono [OF probe_emits])
        subgoal for e u dd v e' u' e'' w
          using vfio_doneI [of "?s @ u @ v" addr u' w e''] by (auto simp: t simp del: split_paired_Ex)
        done
    qed
  }
qed



subsection \<open>The PCI bus as the kernel documents it\<close>

text \<open>
  What the documentation of sysfs says of the three files that the moves write, for one device
  whose matching driver is \<open>native\<close>: \<open>driver_override\<close> takes a driver's name, which is a path
  element, or nothing; \<open>driver/unbind\<close> releases the device; \<open>drivers_probe\<close> binds a device without a driver to the
  override, or to the matching driver. A final newline is ignored. An environment follows this
  kernel when its calls succeed and \<open>driver\<close> links to the device's driver.
\<close>

record pci_dev =
  pd_override :: string
  pd_driver :: string

definition chomp :: "string \<Rightarrow> string" where
  "chomp v = trim_right_of (\<lambda>c. c = newline) v"

fun dev_step :: "string \<Rightarrow> string \<Rightarrow> pci_dev \<Rightarrow> call \<Rightarrow> pci_dev" where
  "dev_step native addr d (WriteTo p v) =
     (if p = pci_path addr ''driver_override''
        then (if chomp v = [] \<or> plain_elem (chomp v) then d\<lparr>pd_override := chomp v\<rparr> else d)
      else if p = pci_path addr ''driver/unbind'' \<and> chomp v = addr then d\<lparr>pd_driver := []\<rparr>
      else if p = ''/sys/bus/pci/drivers_probe'' \<and> chomp v = addr \<and> pd_driver d = []
        then d\<lparr>pd_driver := (if pd_override d \<noteq> [] then pd_override d else native)\<rparr>
      else d)"
| "dev_step native addr d c = d"

definition dev_after :: "string \<Rightarrow> string \<Rightarrow> pci_dev \<Rightarrow> history \<Rightarrow> pci_dev" where
  "dev_after native addr d h = foldl (\<lambda>d (c, r). dev_step native addr d c) d h"

definition pci_kernel :: "string \<Rightarrow> string \<Rightarrow> pci_dev \<Rightarrow> environment \<Rightarrow> bool" where
  "pci_kernel native addr d e \<longleftrightarrow> (\<forall>h c.
     if c = Readlink (pci_path addr ''driver'')
     then driver_of_link (e h c) = pd_driver (dev_after native addr d h)
     else succeeded (e h c))"

text \<open>What an operation returns under such a kernel, and where it leaves the device.\<close>

definition moves :: "string \<Rightarrow> string \<Rightarrow> pci_dev \<Rightarrow> environment \<Rightarrow> pci_dev \<Rightarrow> 'a io \<Rightarrow> 'a \<Rightarrow> pci_dev \<Rightarrow> bool" where
  "moves native addr d0 e d m x d' \<longleftrightarrow> (\<forall>w. env w = e \<and> dev_after native addr d0 (hist w) = d \<longrightarrow>
     fst (run_state m w) = x \<and> env (snd (run_state m w)) = e \<and>
     dev_after native addr d0 (hist (snd (run_state m w))) = d')"

lemma dev_after_simps [simp]:
  "dev_after native addr d [] = d"
  "dev_after native addr d (h @ [(c, r)]) = dev_step native addr (dev_after native addr d h) c"
  by (simp_all add: dev_after_def)

lemma moves_ret: "moves n a d0 e d (ret x) x d"
  by (simp add: moves_def run_ret)

lemma moves_bind:
  "moves n a d0 e d m x d' \<Longrightarrow> moves n a d0 e d' (f x) y d'' \<Longrightarrow> moves n a d0 e d (m \<bind> f) y d''"
  by (simp add: moves_def run_bind case_prod_unfold)

lemma moves_do_sys:
  "pci_kernel n a d0 e \<Longrightarrow> c \<noteq> Readlink (pci_path a ''driver'') \<Longrightarrow>
   moves n a d0 e d (do_sys c) None (dev_step n a d c)"
  by (simp add: moves_def do_sys_def run_bind run_sys run_ret pci_kernel_def)

lemma moves_write:
  assumes "pci_kernel n a d0 e"
  shows "moves n a d0 e d (sysfs_write p v) None (dev_step n a d (WriteTo p v))"
proof -
  note s = moves_do_sys [OF assms]
  have 1: "moves n a d0 e d (do_sys (OpenWrite p)) None d" using s [of "OpenWrite p" d] by simp
  have 2: "moves n a d0 e d (do_sys (WriteTo p v)) None (dev_step n a d (WriteTo p v))"
    using s [of "WriteTo p v" d] by simp
  have 3: "moves n a d0 e d' (do_sys (CloseFile p)) None d'" for d'
    using s [of "CloseFile p" d'] by simp
  show ?thesis
    unfolding sysfs_write_def
    by (rule moves_bind [OF 1], simp only: simp_thms if_False, rule moves_bind [OF 2],
        rule moves_bind [OF 3]) (simp add: moves_ret)
qed

lemma moves_driver:
  assumes "pci_kernel n a d0 e"
  shows "moves n a d0 e d (pci_driver a) (pd_driver d) d"
proof -
  have r: "driver_of_link (e h (Readlink (pci_path a ''driver''))) = pd_driver (dev_after n a d0 h)" for h
    using assms by (simp add: pci_kernel_def)
  show ?thesis
    unfolding moves_def
  proof (intro allI impI, elim conjE)
    fix w :: world
    assume "env w = e" "dev_after n a d0 (hist w) = d"
    with r [of "hist w"] show "fst (run_state (pci_driver a) w) = pd_driver d \<and>
        env (snd (run_state (pci_driver a) w)) = e \<and>
        dev_after n a d0 (hist (snd (run_state (pci_driver a) w))) = d"
      by (simp add: pci_driver_def ask_def run_bind run_sys run_ret result_succeeded driver_of_link_def
          split: if_splits)
  qed
qed

lemma chomp_simps [simp]: "chomp [newline] = []" "chomp ''vfio-pci'' = ''vfio-pci''"
  by (simp_all add: chomp_def trim_right_of_def newline_def)

lemma plain_vfio [simp]: "plain_elem ''vfio-pci''"
  by (simp add: plain_elem_def)

lemma chomp_addr: "valid_address addr \<Longrightarrow> chomp addr = addr \<and> chomp (addr @ [newline]) = addr"
  by (auto simp: valid_address_iff chomp_def trim_right_of_def newline_def)

lemma pci_paths_differ:
  assumes "valid_address addr"
  shows "pci_path addr ''driver/unbind'' \<noteq> pci_path addr ''driver_override''"
    and "''/sys/bus/pci/drivers_probe'' \<noteq> pci_path addr ''driver_override''"
    and "''/sys/bus/pci/drivers_probe'' \<noteq> pci_path addr ''driver/unbind''"
  by (simp_all add: pci_paths [OF assms])

lemma moves_unbind:
  assumes k: "pci_kernel native addr d0 e" and v: "valid_address addr"
  shows "moves native addr d0 e d
    (if pd_driver d \<noteq> [] then sysfs_write (pci_path addr ''driver/unbind'') addr else ret None) None
    (d\<lparr>pd_driver := []\<rparr>)"
  using moves_write [OF k, of d "pci_path addr ''driver/unbind''" addr] moves_ret [of native addr d0 e d None]
  by (cases d) (auto simp: pci_paths_differ [OF v] chomp_addr [OF v])

lemma bind_vfio_moves:
  assumes k: "pci_kernel native addr d0 e" and v: "valid_address addr"
  shows "moves native addr d0 e d (bind_vfio addr) None
    (if pd_driver d = ''vfio-pci'' then d else \<lparr>pd_override = ''vfio-pci'', pd_driver = ''vfio-pci''\<rparr>)"
proof (cases "pd_driver d = ''vfio-pci''")
  case True
  then show ?thesis
    unfolding bind_vfio_def by (intro moves_bind [OF moves_driver [OF k]]) (simp add: moves_ret)
next
  case False
  let ?d1 = "d\<lparr>pd_override := ''vfio-pci''\<rparr>"
  let ?d2 = "\<lparr>pd_override = ''vfio-pci'', pd_driver = ''vfio-pci''\<rparr>"
  have 1: "moves native addr d0 e d (do_sys load_vfio) None d"
    using moves_do_sys [OF k, of load_vfio d] by simp
  have 2: "moves native addr d0 e d (sysfs_write (pci_path addr ''driver_override'') ''vfio-pci'') None ?d1"
    using moves_write [OF k, of d "pci_path addr ''driver_override''" "''vfio-pci''"] by simp
  have 3: "moves native addr d0 e (?d1\<lparr>pd_driver := []\<rparr>) (sysfs_write ''/sys/bus/pci/drivers_probe'' addr) None ?d2"
    using moves_write [OF k, of "?d1\<lparr>pd_driver := []\<rparr>" "''/sys/bus/pci/drivers_probe''" addr]
    by (cases d) (simp add: pci_paths_differ [OF v] chomp_addr [OF v])
  show ?thesis
    unfolding bind_vfio_def
    apply (rule moves_bind [OF moves_driver [OF k]])
    apply (simp only: False if_False)
    apply (rule moves_bind [OF 1], simp only: option.case)
    apply (rule moves_bind [OF 2], simp only: simp_thms if_False)
    apply (rule moves_bind [OF moves_driver [OF k]], rule moves_bind [OF moves_unbind [OF k v]])
    apply (simp only: simp_thms if_False)
    apply (rule moves_bind [OF 3], rule moves_bind [OF moves_driver [OF k]])
    using moves_ret [of native addr d0 e ?d2 None] by simp
qed

lemma bind_native_moves:
  assumes k: "pci_kernel native addr d0 e" and v: "valid_address addr"
  shows "moves native addr d0 e d (bind_native addr) None \<lparr>pd_override = [], pd_driver = native\<rparr>"
proof -
  note steps = moves_bind [OF moves_write [OF k]] moves_bind [OF moves_driver [OF k]] moves_write [OF k]
  let ?d1 = "d\<lparr>pd_override := []\<rparr>"
  have 1: "dev_step native addr d (WriteTo (pci_path addr ''driver_override'') [newline]) = ?d1"
    by simp
  have 2: "?d1\<lparr>pd_driver := []\<rparr> = \<lparr>pd_override = [], pd_driver = []\<rparr>" by (cases d) simp
  have 3: "dev_step native addr \<lparr>pd_override = [], pd_driver = []\<rparr> (WriteTo ''/sys/bus/pci/drivers_probe'' addr) =
      \<lparr>pd_override = [], pd_driver = native\<rparr>"
    by (simp add: pci_paths_differ [OF v] chomp_addr [OF v])
  show ?thesis
    unfolding bind_native_def
    apply (rule steps(1), unfold 1, simp only: simp_thms if_False)
    apply (rule steps(2), rule moves_bind [OF moves_unbind [OF k v]], simp only: simp_thms if_False 2)
    using steps(3) [of "\<lparr>pd_override = [], pd_driver = []\<rparr>" "''/sys/bus/pci/drivers_probe''" addr]
    unfolding 3 .
qed


text \<open>
  C6 Moving a device to vfio-pci and back is safe under the kernel's documented rules: \<open>BindVFIO\<close>
  succeeds and leaves the device on vfio-pci with the override set, and \<open>BindNative\<close> then succeeds
  and returns the device to its own driver, with the override cleared, so that nothing of the
  guest's use remains.
\<close>

theorem bind_round_trip:
  assumes "pci_kernel native addr d e" "valid_address addr" "pd_driver d \<noteq> ''vfio-pci''"
  shows "(case run e (bind_vfio addr) of (r, t) \<Rightarrow>
      r = None \<and> dev_after native addr d t = \<lparr>pd_override = ''vfio-pci'', pd_driver = ''vfio-pci''\<rparr>) \<and>
    (case run e (do {a \<leftarrow> bind_vfio addr; b \<leftarrow> bind_native addr; ret (a, b)}) of (r, t) \<Rightarrow>
      r = (None, None) \<and> dev_after native addr d t = \<lparr>pd_override = [], pd_driver = native\<rparr>)"
proof -
  note v = bind_vfio_moves [OF assms(1,2), of d]
  have "moves native addr d e d (do {a \<leftarrow> bind_vfio addr; b \<leftarrow> bind_native addr; ret (a, b)}) (None, None)
      \<lparr>pd_override = [], pd_driver = native\<rparr>"
    by (rule moves_bind [OF v], rule moves_bind [OF bind_native_moves [OF assms(1,2)]], rule moves_ret)
  with v assms(3) show ?thesis by (simp add: moves_def run_def case_prod_unfold)
qed

text \<open>A kernel that follows the documentation, for a network card.\<close>

definition sample_kernel :: environment where
  "sample_kernel h c =
     (if c = Readlink (pci_path ''0000:06:00.0'' ''driver'')
      then (case pd_driver (dev_after ''ath'' ''0000:06:00.0'' \<lparr>pd_override = [], pd_driver = ''ath''\<rparr> h) of
          [] \<Rightarrow> (Some (ENOENT, ''no such file''), [])
        | d \<Rightarrow> (None, [''../drivers/'' @ d]))
      else (None, []))"

lemma path_base_plain: "plain_elem d \<Longrightarrow> path_base (''../drivers/'' @ d) = d"
proof -
  assume d: "plain_elem d"
  then have n: "d \<noteq> []" "CHR ''/'' \<notin> set d" by (auto simp: plain_elem_def)
  then have t: "trim_right_of (\<lambda>c. c = CHR ''/'') (''../drivers/'' @ d) = ''../drivers/'' @ d"
    by (cases d rule: rev_cases) (auto simp: trim_right_of_def)
  have "split_on (CHR ''/'') (''../drivers/'' @ d) = [''..'', ''drivers'', d]"
    using split_on_no_sep [OF n(2)] by simp
  with t show ?thesis by (simp add: path_base_def)
qed

definition names_ok :: "pci_dev \<Rightarrow> bool" where
  "names_ok d \<longleftrightarrow> (pd_override d = [] \<or> plain_elem (pd_override d)) \<and> (pd_driver d = [] \<or> plain_elem (pd_driver d))"

lemma dev_step_names: "names_ok d \<Longrightarrow> plain_elem native \<Longrightarrow> names_ok (dev_step native addr d c)"
proof (cases c)
  case (WriteTo p v)
  assume "names_ok d" "plain_elem native"
  with WriteTo show ?thesis by (auto simp: names_ok_def)
qed simp_all

lemma dev_after_names: "names_ok d \<Longrightarrow> plain_elem native \<Longrightarrow> names_ok (dev_after native addr d h)"
  unfolding dev_after_def by (induction h arbitrary: d) (auto intro: dev_step_names)

lemma sample_kernel_follows:
  "pci_kernel ''ath'' ''0000:06:00.0'' \<lparr>pd_override = [], pd_driver = ''ath''\<rparr> sample_kernel"
proof -
  let ?d = "\<lparr>pd_override = [], pd_driver = ''ath''\<rparr>"
  have n: "plain_elem ''ath''" "names_ok ?d" by (simp_all add: plain_elem_def names_ok_def)
  note p = dev_after_names [OF n(2,1), of "''0000:06:00.0''"]
  have base: "path_base (''../drivers/'' @ y # ys) = y # ys"
    if "pd_driver (dev_after ''ath'' ''0000:06:00.0'' \<lparr>pd_override = [], pd_driver = ''ath''\<rparr> h) = y # ys" for h y ys
    using p [of h] that path_base_plain [of "y # ys"] by (simp add: names_ok_def)
  show ?thesis
    unfolding pci_kernel_def
    by (intro allI) (use base in \<open>auto simp: sample_kernel_def driver_of_link_def datum_def
        path_base_plain simp del: append.simps split: list.splits\<close>)
qed

theorem bind_round_trip_witness:
  "fst (run sample_kernel (bind_vfio ''0000:06:00.0'')) = None \<and>
   fst (run sample_kernel (do {a \<leftarrow> bind_vfio ''0000:06:00.0''; b \<leftarrow> bind_native ''0000:06:00.0''; ret (a, b)}))
     = (None, None)"
proof -
  have "valid_address ''0000:06:00.0''"
    by (simp add: valid_address_iff is_hex_def is_digit_def)
  from bind_round_trip [OF sample_kernel_follows this] show ?thesis
    by (auto simp: case_prod_unfold)
qed



subsection \<open>The guest's drivers\<close>

text \<open>An entry \<open>module.key=value\<close> of modules.builtin.modinfo, and the file with its entries.\<close>

type_synonym entry = "string \<times> string \<times> string"

fun entry_text :: "entry \<Rightarrow> string" where
  "entry_text (m, k, v) = m @ ''.'' @ k @ ''='' @ v"

definition modinfo_text :: "entry list \<Rightarrow> string" where
  "modinfo_text es = concat (map (\<lambda>e. entry_text e @ [CHR 0x00]) es)"

fun entry_ok :: "entry \<Rightarrow> bool" where
  "entry_ok (m, k, v) = (CHR ''.'' \<notin> set m \<and> CHR ''.'' \<notin> set k \<and> CHR ''='' \<notin> set k \<and>
     CHR 0x00 \<notin> set (m @ k @ v) \<and> (k = ''alias'' \<or> \<not> str_contains v ''.alias=''))"

fun entry_matches :: "string \<Rightarrow> entry \<Rightarrow> bool" where
  "entry_matches alias (m, k, v) = (k = ''alias'' \<and> has_prefix v ''pci:'' \<and> path_match v alias)"

lemma index_of_skip:
  "c \<notin> set u \<Longrightarrow> index_of (u @ s) (c # p) = map_option ((+) (length u)) (index_of s (c # p))"
  by (induction u; cases "index_of s (c # p)") auto

lemma has_prefix_key:
  "c \<notin> set k \<Longrightarrow> c \<notin> set p \<Longrightarrow> has_prefix (k @ c # v) (p @ [c]) \<longleftrightarrow> k = p"
proof (induction k arbitrary: p)
  case Nil
  then show ?case by (cases p) auto
next
  case (Cons d k)
  then show ?case by (cases p) auto
qed

lemma alias_entry_text:
  "entry_ok e \<Longrightarrow> alias_entry alias (entry_text e) = (if entry_matches alias e then Some (fst e) else None)"
proof (cases e)
  case (fields m k v)
  assume ok: "entry_ok e"
  show ?thesis
  proof (cases "k = ''alias''")
    case True
    have "index_of (entry_text e) ''.alias='' = Some (length m)"
      using ok index_of_skip [of "CHR ''.''" m "''.alias='' @ v" "''alias=''"] by (simp add: fields True)
    then show ?thesis by (simp add: alias_entry_def cut_def fields True)
  next
    case False
    with ok have "str_contains v ''.alias='' = False" and k: "CHR ''.'' \<notin> set (k @ ''='')" and m: "CHR ''.'' \<notin> set m"
      by (auto simp: fields)
    then have v: "index_of v ''.alias='' = None" by (simp add: str_contains_def)
    have n: "\<not> has_prefix (k @ CHR ''='' # v) (''alias='')"
      using has_prefix_key [of "CHR ''=''" k "''alias''" v] ok False by (simp add: fields)
    have "index_of (CHR ''.'' # k @ CHR ''='' # v) ''.alias='' = None"
      using n index_of_skip [OF k, of v "''alias=''"] v by simp
    then have "index_of (entry_text e) ''.alias='' = None"
      using index_of_skip [OF m, of "CHR ''.'' # k @ CHR ''='' # v" "''alias=''"] by (simp add: fields)
    then show ?thesis using False by (simp add: alias_entry_def cut_def fields)
  qed
qed

lemma split_modinfo:
  "list_all entry_ok es \<Longrightarrow> split_on (CHR 0x00) (modinfo_text es) = map entry_text es @ [[]]"
proof (induction es)
  case (Cons e es)
  obtain m k v where e: "e = (m, k, v)" by (cases e) auto
  have "CHR 0x00 \<notin> set (entry_text e)" using Cons.prems by (auto simp: e)
  from split_on_append [OF this, of "modinfo_text es"] Cons show ?case
    by (simp add: modinfo_text_def)
qed (simp add: modinfo_text_def)

lemma first_alias_entries:
  "list_all entry_ok es \<Longrightarrow> first_alias alias (map entry_text es @ [[]]) =
   (case find (entry_matches alias) es of None \<Rightarrow> [] | Some e \<Rightarrow> fst e)"
  by (induction es) (simp_all add: alias_entry_text, simp add: alias_entry_def cut_def)

text \<open>
  \<open>MatchDriver\<close> reads modules.builtin.modinfo as the kernel writes it: it returns the module of
  the first entry with the key alias and a PCI pattern that matches the device, whatever other
  keys, modules and patterns come before, and no module when none matches.
\<close>

theorem match_driver_first:
  assumes "list_all entry_ok es"
  shows "match_driver alias (modinfo_text es) =
    (case find (entry_matches alias) es of None \<Rightarrow> [] | Some e \<Rightarrow> fst e)"
  by (simp add: match_driver_def split_modinfo [OF assms] first_alias_entries [OF assms])

theorem match_driver_first_witness:
  "match_driver ''pci:v000014C3'' (modinfo_text [(''e1000'', ''license'', ''GPL''), (''e1000'', ''alias'', ''pci:v00008086*''),
     (''mt76'', ''alias'', ''pci:v000014C3*'')]) = ''mt76''"
proof -
  let ?es = "[(''e1000'', ''license'', ''GPL''), (''e1000'', ''alias'', ''pci:v00008086*''),
     (''mt76'', ''alias'', ''pci:v000014C3*'')]"
  have "list_all entry_ok ?es" by (simp add: str_contains_def)
  from match_driver_first [OF this, of "''pci:v000014C3''"] show ?thesis
    by (simp add: path_match_def)
qed

end
