(* ===== verification/Vdpa.thy ===== *)
theory Vdpa
  imports Sysfs
begin

text \<open>
  Package internal/vdpa: VDUSE devices and the vDPA bus. \<open>DestroyDev\<close> is the ioctl
  \<open>VDUSE_DESTROY_DEV\<close> with the 256 bytes of its argument; \<open>vdpa dev\<close> is the iproute2 command.
\<close>

definition vduse_name_max :: nat where
  "vduse_name_max = 256"

definition vduse_exists :: "string \<Rightarrow> bool io" where
  "vduse_exists name = stat_ok (path_join [''/sys/class/vduse'', name])"

definition vdpa_attached :: "string \<Rightarrow> bool io" where
  "vdpa_attached name = stat_ok (path_join [''/sys/bus/vdpa/devices'', name])"

definition vdpa_add :: "string \<Rightarrow> err option io" where
  "vdpa_add name = command_run ''vdpa'' [''dev'', ''add'', ''name'', name, ''mgmtdev'', ''vduse'']"

definition bind_virtio :: "string \<Rightarrow> err option io" where
  "bind_virtio name = (let dev = path_join [''/sys/bus/vdpa/devices'', name] in do {
     r \<leftarrow> ask (Readlink (path_join [dev, ''driver'']));
     let link = (case r of Inl _ \<Rightarrow> [] | Inr s \<Rightarrow> s);
     if path_base link = ''virtio_vdpa'' then ret None
     else do {
       e \<leftarrow> (if link \<noteq> [] then sysfs_write (path_join [dev, ''driver/unbind'']) name else ret None);
       if e \<noteq> None then ret e
       else sysfs_write ''/sys/bus/vdpa/drivers/virtio_vdpa/bind'' name}})"

definition vdpa_remove :: "string \<Rightarrow> bool \<Rightarrow> err option io" where
  "vdpa_remove name guest_gone = do {
     a \<leftarrow> vdpa_attached name;
     if \<not> a then ret None
     else do {
       _ \<leftarrow> (if guest_gone
            then sysfs_write (path_join [''/sys/class/vduse'', name, ''msg_timeout'']) ''1''
            else ret None);
       command_run ''vdpa'' [''dev'', ''del'', name]}}"

definition destroy_buf :: "string \<Rightarrow> string" where
  "destroy_buf name = take vduse_name_max (name @ replicate vduse_name_max (CHR 0x00))"

definition destroy_error :: "string \<Rightarrow> err \<Rightarrow> err" where
  "destroy_error name e = Msg (''cannot destroy the VDUSE device '' @ name @ '': '' @ err_text e)"

text \<open>One round of the loop: \<open>Some\<close> with the error to return, or \<open>None\<close> to try again.\<close>

definition destroy_once :: "string \<Rightarrow> nat \<Rightarrow> err option option io" where
  "destroy_once name n = do {
     e \<leftarrow> do_sys (DestroyDev (destroy_buf name));
     (case e of
        None \<Rightarrow> ret (Some None)
      | Some e \<Rightarrow>
          if \<not> is_busy e \<or> n = 100 then ret (Some (Some (destroy_error name e)))
          else do {
            a \<leftarrow> vdpa_attached name;
            if a then ret (Some (Some (destroy_error name e)))
            else do {
              _ \<leftarrow> sys (Sleep 10);
              ret None}})}"

definition vdpa_destroy :: "string \<Rightarrow> err option io" where
  "vdpa_destroy name = do {
     x \<leftarrow> vduse_exists name;
     if \<not> x then ret None
     else do {
       e \<leftarrow> do_sys OpenControl;
       (case e of
          Some e \<Rightarrow> ret (Some (Msg (''cannot open /dev/vduse/control: '' @ err_text e)))
        | None \<Rightarrow> do {
            r \<leftarrow> loop 101 (destroy_once name) 0;
            _ \<leftarrow> sys CloseControl;
            ret (case r of Some e \<Rightarrow> e | None \<Rightarrow> Some (Panic ''the loop did not return''))})}}"

definition host_interfaces :: "string \<Rightarrow> string list io" where
  "host_interfaces name = do {
     r \<leftarrow> sys (Glob (path_join [''/sys/bus/vdpa/devices'', name, ''virtio*/net/*'']));
     ret (if succeeded r then map path_base (snd r) else [])}"


subsection \<open>What they do\<close>

lemma vdpa_attached_emits [emits_rules]:
  "emits (vdpa_attached name) (\<lambda>a t. \<exists>r. t = [(Stat (path_join [''/sys/bus/vdpa/devices'', name]), r)] \<and>
     a = succeeded r)"
  by (auto simp: vdpa_attached_def stat_ok_def intro!: emits_steps)

lemma vduse_exists_emits [emits_rules]:
  "emits (vduse_exists name) (\<lambda>a t. \<exists>r. t = [(Stat (path_join [''/sys/class/vduse'', name]), r)] \<and>
     a = succeeded r)"
  by (auto simp: vduse_exists_def stat_ok_def intro!: emits_steps)

abbreviation vdpa_del :: "string \<Rightarrow> call" where
  "vdpa_del name \<equiv> Exec Combined ''vdpa'' [''dev'', ''del'', name]"

abbreviation lower_timeout :: "string \<Rightarrow> call" where
  "lower_timeout name \<equiv> WriteTo (path_join [''/sys/class/vduse'', name, ''msg_timeout'']) ''1''"

definition remove_done :: "string \<Rightarrow> bool \<Rightarrow> err option \<Rightarrow> history \<Rightarrow> bool" where
  "remove_done name gone e t \<longleftrightarrow> (\<exists>r u. t = (Stat (path_join [''/sys/bus/vdpa/devices'', name]), r) # u \<and>
     (if succeeded r then
        (effects u = [vdpa_del name] \<or> (gone \<and> effects u = [lower_timeout name, vdpa_del name])) \<and>
        (\<exists>r' v. u = v @ [(vdpa_del name, r')] \<and> (e = None \<longleftrightarrow> succeeded r'))
      else e = None \<and> u = []))"

lemma vdpa_remove_emits [emits_rules]: "emits (vdpa_remove name gone) (remove_done name gone)"
  unfolding vdpa_remove_def
proof (rule emits_bind [OF vdpa_attached_emits], elim exE conjE)
  fix a t r
  assume t: "t = [(Stat (path_join [''/sys/bus/vdpa/devices'', name]), r)]" and a: "a = succeeded r"
  have w: "emits (if gone then sysfs_write (path_join [''/sys/class/vduse'', name, ''msg_timeout'']) ''1''
      else ret None) (\<lambda>e t. effects t = [] \<or> (gone \<and> effects t = [lower_timeout name]))"
    by (auto intro!: emits_if emits_mono [OF sysfs_write_emits])
  show "emits (if \<not> a then ret None else do {
       _ \<leftarrow> (if gone then sysfs_write (path_join [''/sys/class/vduse'', name, ''msg_timeout'']) ''1''
            else ret None);
       command_run ''vdpa'' [''dev'', ''del'', name]})
     (\<lambda>e u. remove_done name gone e (t @ u))"
    by (rule emits_if, simp add: emits_ret remove_done_def t a, rule emits_bind [OF w],
        rule emits_mono [OF command_run_emits])
      (simp add: remove_done_def t a, fastforce)
qed

text \<open>The retries of \<open>Destroy\<close>: the rounds of a busy device, and how the loop ends.\<close>

definition busy_rounds :: "string \<Rightarrow> nat \<Rightarrow> call list" where
  "busy_rounds name n = concat (replicate n
     [DestroyDev (destroy_buf name), Stat (path_join [''/sys/bus/vdpa/devices'', name]), Sleep 10])"

lemma busy_rounds_Suc:
  "busy_rounds name n @ [DestroyDev (destroy_buf name),
     Stat (path_join [''/sys/bus/vdpa/devices'', name]), Sleep 10] = busy_rounds name (Suc n)"
proof -
  have "concat (replicate n r) @ r = concat (replicate (Suc n) r)" for r :: "call list"
    by (induction n) simp_all
  then show ?thesis by (simp only: busy_rounds_def)
qed

definition all_busy :: "history \<Rightarrow> bool" where
  "all_busy t \<longleftrightarrow> list_all (\<lambda>(c, r). case c of DestroyDev b \<Rightarrow> (case fault_err r of None \<Rightarrow> False
     | Some e \<Rightarrow> is_busy e) | _ \<Rightarrow> True) t"

lemma all_busy_simps [simp]:
  "all_busy []" "all_busy (t @ u) \<longleftrightarrow> all_busy t \<and> all_busy u"
  "all_busy ((Stat p, r) # t) \<longleftrightarrow> all_busy t" "all_busy ((Sleep n, r) # t) \<longleftrightarrow> all_busy t"
  "all_busy ((DestroyDev b, r) # t) \<longleftrightarrow>
     (case fault_err r of None \<Rightarrow> False | Some e \<Rightarrow> is_busy e) \<and> all_busy t"
  by (auto simp: all_busy_def)

definition destroy_done :: "string \<Rightarrow> err option option \<Rightarrow> history \<Rightarrow> bool" where
  "destroy_done name x t \<longleftrightarrow> (\<exists>n u r v. x \<noteq> None \<and> n \<le> 100 \<and> t = u @ (DestroyDev (destroy_buf name), r) # v \<and>
     map fst u = busy_rounds name n \<and> all_busy u \<and> length v \<le> 1 \<and>
     (\<forall>c\<in>set v. fst c = Stat (path_join [''/sys/bus/vdpa/devices'', name])) \<and>
     (x = Some None \<longleftrightarrow> succeeded r) \<and>
     (\<forall>e. x = Some (Some e) \<longrightarrow> n = 100 \<or> v \<noteq> [] \<or> \<not> all_busy [(DestroyDev (destroy_buf name), r)]))"

lemma destroy_doneI:
  assumes "n \<le> 100" "map fst s = busy_rounds name n" "all_busy s"
    and "v = [] \<or> (\<exists>r'. v = [(Stat (path_join [''/sys/bus/vdpa/devices'', name]), r')])"
    and "y = None \<longleftrightarrow> succeeded r"
    and "y \<noteq> None \<Longrightarrow> n = 100 \<or> v \<noteq> [] \<or> \<not> all_busy [(DestroyDev (destroy_buf name), r)]"
  shows "destroy_done name (Some y) (s @ (DestroyDev (destroy_buf name), r) # v)"
  unfolding destroy_done_def
  using assms by (intro exI [of _ n] exI [of _ s] exI [of _ r] exI [of _ v]) auto

lemma destroy_loop_emits: "emits (loop 101 (destroy_once name) 0) (destroy_done name)"
proof (rule emits_loop_0 [where I = "\<lambda>n s. map fst s = busy_rounds name n \<and> all_busy s \<and> n \<le> 100"])
  fix n s
  assume inv: "map fst s = busy_rounds name n \<and> all_busy s \<and> n \<le> 100"
  note rounds = busy_rounds_Suc [of name n]
  show "emits (destroy_once name n) (\<lambda>x t. case x of
      None \<Rightarrow> map fst (s @ t) = busy_rounds name (Suc n) \<and> all_busy (s @ t) \<and> Suc n \<le> 100
    | Some y \<Rightarrow> destroy_done name (Some y) (s @ t))"
    unfolding destroy_once_def
    apply (intro emits_steps emits_bind [OF vdpa_attached_emits])
    subgoal for r using inv by (auto intro!: destroy_doneI)
    subgoal for r e using inv by (auto intro!: destroy_doneI)
    subgoal for r e a t using inv by (auto intro!: destroy_doneI)
    subgoal for r e a t using inv rounds by auto
    done
qed (auto simp: busy_rounds_def)


lemma destroy_done_returns: "destroy_done name x t \<Longrightarrow> \<exists>y. x = Some y"
  by (auto simp: destroy_done_def)

lemma vdpa_destroy_emits [emits_rules]:
  "emits (vdpa_destroy name) (\<lambda>e t.
     (\<exists>r. t = [(Stat (path_join [''/sys/class/vduse'', name]), r)] \<and> \<not> succeeded r \<and> e = None) \<or>
     (\<exists>r1 r2. t = [(Stat (path_join [''/sys/class/vduse'', name]), r1), (OpenControl, r2)] \<and>
        succeeded r1 \<and> \<not> succeeded r2 \<and> e \<noteq> None) \<or>
     (\<exists>r1 r2 r3 u x. t = (Stat (path_join [''/sys/class/vduse'', name]), r1) # (OpenControl, r2) #
          u @ [(CloseControl, r3)] \<and>
        succeeded r1 \<and> succeeded r2 \<and> destroy_done name (Some x) u \<and> e = x))"
  unfolding vdpa_destroy_def
  apply (intro emits_steps emits_bind [OF vduse_exists_emits] emits_bind [OF destroy_loop_emits])
  subgoal by auto
  subgoal by (frule destroy_done_returns) (auto simp del: split_paired_Ex)
  subgoal by auto
  done


text \<open>The writes of \<open>BindVirtio\<close>.\<close>

abbreviation virtio_link :: "string \<Rightarrow> call" where
  "virtio_link name \<equiv> Readlink (path_join [path_join [''/sys/bus/vdpa/devices'', name], ''driver''])"

abbreviation virtio_unbind :: "string \<Rightarrow> call" where
  "virtio_unbind name \<equiv>
     WriteTo (path_join [path_join [''/sys/bus/vdpa/devices'', name], ''driver/unbind'']) name"

abbreviation virtio_bind :: "string \<Rightarrow> call" where
  "virtio_bind name \<equiv> WriteTo ''/sys/bus/vdpa/drivers/virtio_vdpa/bind'' name"

definition has_virtio :: "reply \<Rightarrow> bool" where
  "has_virtio r \<longleftrightarrow> succeeded r \<and> path_base (datum r) = ''virtio_vdpa''"

lemma bind_virtio_emits [emits_rules]:
  "emits (bind_virtio name) (\<lambda>e t. \<exists>r. hd t = (virtio_link name, r) \<and>
     (has_virtio r \<longrightarrow> e = None \<and> effects t = []) \<and>
     (\<not> has_virtio r \<longrightarrow> e = None \<longrightarrow>
        effects t = (if succeeded r \<and> datum r \<noteq> [] then [virtio_unbind name, virtio_bind name]
                     else [virtio_bind name]) \<and>
        wrote ''/sys/bus/vdpa/drivers/virtio_vdpa/bind'' name t) \<and>
     effects t \<in> {[], [virtio_unbind name], [virtio_bind name], [virtio_unbind name, virtio_bind name]})"
  unfolding bind_virtio_def Let_def
proof (intro emits_ask_bind emits_if)
  fix r
  let ?link = "case result r of Inl _ \<Rightarrow> [] | Inr s \<Rightarrow> s"
  have link: "?link = (if succeeded r then datum r else [])" by (simp add: result_succeeded)
  let ?Q = "\<lambda>e t. \<exists>r'. hd ((virtio_link name, r) # t) = (virtio_link name, r') \<and>
     (has_virtio r' \<longrightarrow> e = None \<and> effects ((virtio_link name, r) # t) = []) \<and>
     (\<not> has_virtio r' \<longrightarrow> e = None \<longrightarrow>
        effects ((virtio_link name, r) # t) =
          (if succeeded r' \<and> datum r' \<noteq> [] then [virtio_unbind name, virtio_bind name]
           else [virtio_bind name]) \<and>
        wrote ''/sys/bus/vdpa/drivers/virtio_vdpa/bind'' name ((virtio_link name, r) # t)) \<and>
     effects ((virtio_link name, r) # t) \<in>
       {[], [virtio_unbind name], [virtio_bind name], [virtio_unbind name, virtio_bind name]}"
  {
    assume "path_base ?link = ''virtio_vdpa''"
    moreover have "path_base [] \<noteq> ''virtio_vdpa''" by (simp add: path_base_def)
    ultimately have "has_virtio r" by (auto simp: link has_virtio_def split: if_splits)
    then show "emits (ret None) ?Q" by auto
  next
    assume "path_base ?link \<noteq> ''virtio_vdpa''"
    then have n: "\<not> has_virtio r" by (auto simp: link has_virtio_def)
    show "emits (do {
         e \<leftarrow> (if ?link \<noteq> [] then sysfs_write (path_join [path_join [''/sys/bus/vdpa/devices'', name],
              ''driver/unbind'']) name else ret None);
         if e \<noteq> None then ret e else sysfs_write ''/sys/bus/vdpa/drivers/virtio_vdpa/bind'' name}) ?Q"
    proof (rule emits_bind [where P = "\<lambda>e t. (e = None \<longrightarrow> effects t =
        (if succeeded r \<and> datum r \<noteq> [] then [virtio_unbind name] else [])) \<and>
        effects t \<in> {[], [virtio_unbind name]}"])
      show "emits (if ?link \<noteq> [] then sysfs_write (path_join [path_join [''/sys/bus/vdpa/devices'', name],
              ''driver/unbind'']) name else ret None)
          (\<lambda>e t. (e = None \<longrightarrow> effects t =
            (if succeeded r \<and> datum r \<noteq> [] then [virtio_unbind name] else [])) \<and>
            effects t \<in> {[], [virtio_unbind name]})"
        by (auto simp: link intro!: emits_mono [OF sysfs_write_emits])
    next
      fix e :: "err option" and t
      assume "(e = None \<longrightarrow> effects t = (if succeeded r \<and> datum r \<noteq> [] then [virtio_unbind name] else [])) \<and>
        effects t \<in> {[], [virtio_unbind name]}"
      with n show "emits (if e \<noteq> None then ret e
          else sysfs_write ''/sys/bus/vdpa/drivers/virtio_vdpa/bind'' name) (\<lambda>y u. ?Q y (t @ u))"
        by (cases r) (auto intro!: emits_mono [OF sysfs_write_emits] split: if_splits)
    qed
  }
qed


subsection \<open>Properties\<close>

definition destroy_replies :: "history \<Rightarrow> reply list" where
  "destroy_replies t = concat (map (\<lambda>(c, r). case c of DestroyDev b \<Rightarrow> [r] | _ \<Rightarrow> []) t)"

definition slept :: "history \<Rightarrow> nat" where
  "slept t = sum_list (map (\<lambda>(c, r). case c of Sleep n \<Rightarrow> n | _ \<Rightarrow> 0) t)"

lemma counts_simps [simp]:
  "destroy_replies [] = []" "slept [] = 0"
  "destroy_replies (t @ u) = destroy_replies t @ destroy_replies u" "slept (t @ u) = slept t + slept u"
  "destroy_replies ((c, r) # t) = (case c of DestroyDev b \<Rightarrow> [r] | _ \<Rightarrow> []) @ destroy_replies t"
  "slept ((c, r) # t) = (case c of Sleep n \<Rightarrow> n | _ \<Rightarrow> 0) + slept t"
  by (simp_all add: destroy_replies_def slept_def)

lemma busy_rounds_counts:
  "map fst u = busy_rounds name n \<Longrightarrow> length (destroy_replies u) = n \<and> slept u = 10 * n"
proof (induction n arbitrary: u)
  case 0
  then show ?case by (simp add: busy_rounds_def)
next
  case (Suc n)
  then obtain r1 r2 r3 u' where u: "u = (DestroyDev (destroy_buf name), r1) #
      (Stat (path_join [''/sys/bus/vdpa/devices'', name]), r2) # (Sleep 10, r3) # u'"
      and "map fst u' = busy_rounds name n"
    by (auto simp: busy_rounds_def Cons_eq_map_conv map_eq_Cons_conv)
  with Suc.IH [of u'] show ?case by simp
qed

lemma destroy_done_counts:
  assumes "destroy_done name (Some x) t"
  shows "length (destroy_replies t) \<le> 101 \<and> slept t \<le> 1000 \<and> destroy_replies t \<noteq> [] \<and>
    (x = None \<longleftrightarrow> succeeded (last (destroy_replies t)))"
proof -
  from assms obtain n u r v where d: "n \<le> 100" "t = u @ (DestroyDev (destroy_buf name), r) # v"
    "map fst u = busy_rounds name n" "\<forall>c\<in>set v. fst c = Stat (path_join [''/sys/bus/vdpa/devices'', name])"
    "Some x = Some None \<longleftrightarrow> succeeded r"
    unfolding destroy_done_def by blast
  from d(4) have "destroy_replies v = [] \<and> slept v = 0"
    by (induction v) auto
  with d busy_rounds_counts [OF d(3)] show ?thesis by simp
qed

text \<open>
  C18 \<open>Destroy\<close> returns in every environment: it issues the ioctl at most 101 times and sleeps at most
  a second in all, and it reports success exactly when there was no device or its last ioctl
  succeeded.
\<close>

theorem vdpa_destroy_retries:
  "case run e (vdpa_destroy name) of (r, t) \<Rightarrow>
     length (destroy_replies t) \<le> 101 \<and> slept t \<le> 1000 \<and>
     (r = None \<longleftrightarrow> (\<exists>a. hd t = (Stat (path_join [''/sys/class/vduse'', name]), a) \<and> \<not> succeeded a) \<or>
        (destroy_replies t \<noteq> [] \<and> succeeded (last (destroy_replies t))))"
proof -
  obtain r t where rt: "run e (vdpa_destroy name) = (r, t)" by fastforce
  from emits_run [OF vdpa_destroy_emits this]
  consider a where "t = [(Stat (path_join [''/sys/class/vduse'', name]), a)]" "\<not> succeeded a" "r = None"
    | a b where "t = [(Stat (path_join [''/sys/class/vduse'', name]), a), (OpenControl, b)]"
        "succeeded a" "r \<noteq> None"
    | a b c u where "t = (Stat (path_join [''/sys/class/vduse'', name]), a) # (OpenControl, b) # u @ [(CloseControl, c)]"
        "succeeded a" "destroy_done name (Some r) u"
    by blast
  then show ?thesis
  proof cases
    case 3
    with destroy_done_counts [OF 3(3)] show ?thesis by (simp add: rt del: split_paired_Ex)
  qed (simp_all add: rt del: split_paired_Ex)
qed

text \<open>
  C19 \<open>Remove\<close> lowers the message timeout only for a guest that is gone, and before the removal,
  which then waits for the lowered timeout; it does nothing to a device that is not on the bus, and
  it reports success exactly when the device was not on the bus or the removal succeeded.
\<close>

theorem vdpa_remove_order:
  "case run e (vdpa_remove name gone) of (r, t) \<Rightarrow> \<exists>a u. t = (Stat (path_join [''/sys/bus/vdpa/devices'', name]), a) # u \<and>
     effects t \<in> (if \<not> succeeded a then {[]}
       else if gone then {[vdpa_del name], [lower_timeout name, vdpa_del name]}
       else {[vdpa_del name]}) \<and>
     (r = None \<longleftrightarrow> (succeeded a = (\<exists>b. last t = (vdpa_del name, b) \<and> succeeded b)))"
proof -
  obtain r t where rt: "run e (vdpa_remove name gone) = (r, t)" by fastforce
  from emits_run [OF vdpa_remove_emits this] show ?thesis
    by (auto simp: rt remove_done_def simp del: split_paired_Ex split: if_splits)
qed

end
