(* ===== verification/Json.thy ===== *)
theory Json
  imports Utf8 Glob
begin

text \<open>
  What the program uses of Go's encoding/json: the values, \<open>Unmarshal\<close>'s reading of a text and
  \<open>MarshalIndent\<close> with no prefix and an indent of two spaces, and that what was written is read back
  as it was. The reader takes fuel for the nesting; a text of \<open>n\<close> bytes needs at most \<open>n + 1\<close>.
\<close>

datatype json =
    JNull | JBool bool | JNum string | JStr string | JArr "json list" | JObj "(string \<times> json) list"

subsection \<open>Strings\<close>

definition chars_of :: "byte list \<Rightarrow> string" where
  "chars_of bs = map (\<lambda>b. char_of (unat b)) bs"

definition u_escape :: "nat \<Rightarrow> string" where
  "u_escape r = [CHR 0x5C, CHR ''u'', hex_digit (r div 4096 mod 16), hex_digit (r div 256 mod 16),
     hex_digit (r div 16 mod 16), hex_digit (r mod 16)]"

definition esc_rune :: "nat \<times> byte list \<Rightarrow> string" where
  "esc_rune p = (case p of (r, bs) \<Rightarrow>
     if r < 128 then
       (if r = 34 \<or> r = 92 then [CHR 0x5C, char_of r]
        else if r = 8 then [CHR 0x5C, CHR ''b'']
        else if r = 12 then [CHR 0x5C, CHR ''f'']
        else if r = 10 then [CHR 0x5C, CHR ''n'']
        else if r = 13 then [CHR 0x5C, CHR ''r'']
        else if r = 9 then [CHR 0x5C, CHR ''t'']
        else if r < 32 \<or> r = 60 \<or> r = 62 \<or> r = 38 then u_escape r
        else [char_of r])
     else if r = rune_error \<and> length bs = 1 then u_escape rune_error
     else if r = 8232 \<or> r = 8233 then u_escape r
     else chars_of bs)"

definition json_escape :: "string \<Rightarrow> string" where
  "json_escape s = concat (map esc_rune (runes_of (bytes_of s)))"

definition json_quote :: "string \<Rightarrow> string" where
  "json_quote s = CHR 0x22 # json_escape s @ [CHR 0x22]"

definition hex_val :: "char \<Rightarrow> nat option" where
  "hex_val c = (let n = code c in
     if 48 \<le> n \<and> n \<le> 57 then Some (n - 48)
     else if 97 \<le> n \<and> n \<le> 102 then Some (n - 87)
     else if 65 \<le> n \<and> n \<le> 70 then Some (n - 55)
     else None)"

fun read_u4 :: "string \<Rightarrow> (nat \<times> string) option" where
  "read_u4 (a # b # c # d # s) = (case (hex_val a, hex_val b, hex_val c, hex_val d) of
      (Some a, Some b, Some c, Some d) \<Rightarrow> Some (4096 * a + 256 * b + 16 * c + d, s)
    | _ \<Rightarrow> None)"
| "read_u4 _ = None"

definition is_surrogate :: "nat \<Rightarrow> bool" where
  "is_surrogate r \<longleftrightarrow> 55296 \<le> r \<and> r < 57344"

text \<open>The low half of a surrogate pair, when one follows.\<close>

definition read_low :: "nat \<Rightarrow> string \<Rightarrow> (nat \<times> string) option" where
  "read_low hi s = (case s of
      c # d # t \<Rightarrow>
        (if c = CHR 0x5C \<and> d = CHR ''u'' then
           (case read_u4 t of
              Some (lo, u) \<Rightarrow>
                if hi < 56320 \<and> 56320 \<le> lo \<and> lo < 57344
                then Some (65536 + (hi - 55296) * 1024 + (lo - 56320), u) else None
            | None \<Rightarrow> None)
         else None)
    | _ \<Rightarrow> None)"

text \<open>The character that an escape stands for, after the backslash.\<close>

definition read_escape :: "string \<Rightarrow> (string \<times> string) option" where
  "read_escape s = (case s of
      [] \<Rightarrow> None
    | c # t \<Rightarrow>
        if c = CHR 0x22 \<or> c = CHR 0x5C \<or> c = CHR ''/'' then Some ([c], t)
        else if c = CHR ''b'' then Some ([CHR 0x08], t)
        else if c = CHR ''f'' then Some ([CHR 0x0C], t)
        else if c = CHR ''n'' then Some ([CHR 0x0A], t)
        else if c = CHR ''r'' then Some ([CHR 0x0D], t)
        else if c = CHR ''t'' then Some ([CHR 0x09], t)
        else if c = CHR ''u'' then
          (case read_u4 t of
             None \<Rightarrow> None
           | Some (r, u) \<Rightarrow>
               if is_surrogate r then
                 (case read_low r u of
                    Some (x, v) \<Rightarrow> Some (chars_of (enc x), v)
                  | None \<Rightarrow> Some (chars_of (enc rune_error), u))
               else Some (chars_of (enc r), u))
        else None)"

lemma read_u4_length: "read_u4 s = Some (r, t) \<Longrightarrow> length t < length s"
  by (cases s rule: read_u4.cases) (auto split: option.splits)

lemma read_low_length: "read_low h s = Some (r, t) \<Longrightarrow> length t < length s"
  by (auto simp: read_low_def dest!: read_u4_length split: list.splits option.splits if_splits)

lemma read_escape_length: "read_escape s = Some (x, t) \<Longrightarrow> length t < length s"
  unfolding read_escape_def
  by (auto dest!: read_u4_length read_low_length split: list.splits option.splits if_splits)

text \<open>A string literal after its opening quote.\<close>

function read_str :: "string \<Rightarrow> (string \<times> string) option" where
  "read_str [] = None"
| "read_str (c # s) =
     (if c = CHR 0x22 then Some ([], s)
      else if c = CHR 0x5C then
        (case read_escape s of
           None \<Rightarrow> None
         | Some (x, t) \<Rightarrow> map_option (\<lambda>(y, u). (x @ y, u)) (read_str t))
      else if code c < 32 then None
      else if code c < 128 then map_option (\<lambda>(y, u). (c # y, u)) (read_str s)
      else (case decode_rune (bytes_of (c # s)) of
              (r, n) \<Rightarrow> map_option (\<lambda>(y, u). (chars_of (enc r) @ y, u)) (read_str (drop n (c # s)))))"
  by pat_completeness auto
termination
proof (relation "measure length", goal_cases)
  case (2 c s p x t)
  then show ?case using read_escape_length [of s x t] by simp
next
  case (4 c s r n)
  then have "1 \<le> n" using decode_size [of "bytes_of (c # s)" r n] by (simp add: bytes_of_def)
  then show ?case by simp
qed auto


subsection \<open>Values\<close>

definition skip_ws :: "string \<Rightarrow> string" where
  "skip_ws s = dropWhile (\<lambda>c. c = CHR '' '' \<or> c = CHR 0x09 \<or> c = CHR 0x0A \<or> c = CHR 0x0D) s"

text \<open>A number: a sign, an integer without leading zeros, a fraction and an exponent.\<close>

definition take_digits :: "string \<Rightarrow> (string \<times> string) option" where
  "take_digits s = (let ds = takeWhile is_digit s in
     if ds = [] then None else Some (ds, dropWhile is_digit s))"

definition read_num :: "string \<Rightarrow> (string \<times> string) option" where
  "read_num s =
     (let (sg, s1) = (case s of c # t \<Rightarrow> if c = CHR ''-'' then ([c], t) else ([], s) | [] \<Rightarrow> ([], s))
      in case take_digits s1 of
           None \<Rightarrow> None
         | Some (ds, s2) \<Rightarrow>
             let (ip, s2) = (if hd ds = CHR ''0'' then (''0'', tl s1) else (ds, s2));
                 frac = (case s2 of
                     c # t \<Rightarrow> if c = CHR ''.'' then map_option (\<lambda>(d, u). (c # d, u)) (take_digits t)
                              else Some ([], s2)
                   | [] \<Rightarrow> Some ([], s2))
             in case frac of
                  None \<Rightarrow> None
                | Some (fr, s3) \<Rightarrow>
                    (case s3 of
                       c # t \<Rightarrow>
                         if c = CHR ''e'' \<or> c = CHR ''E'' then
                           let (es, t2) = (case t of
                               d # u \<Rightarrow> if d = CHR ''+'' \<or> d = CHR ''-'' then ([d], u) else ([], t)
                             | [] \<Rightarrow> ([], t))
                           in map_option (\<lambda>(d, u). (sg @ ip @ fr @ c # es @ d, u)) (take_digits t2)
                         else Some (sg @ ip @ fr, s3)
                     | [] \<Rightarrow> Some (sg @ ip @ fr, s3)))"

definition read_word :: "string \<Rightarrow> json \<Rightarrow> string \<Rightarrow> (json \<times> string) option" where
  "read_word w v s = map_option (\<lambda>t. (v, t)) (cut_prefix s w)"

fun read_value :: "nat \<Rightarrow> string \<Rightarrow> (json \<times> string) option"
  and read_members :: "nat \<Rightarrow> string \<Rightarrow> ((string \<times> json) list \<times> string) option"
  and read_elems :: "nat \<Rightarrow> string \<Rightarrow> (json list \<times> string) option" where
  "read_value 0 s = None"
| "read_value (Suc n) s =
     (case skip_ws s of
        [] \<Rightarrow> None
      | c # cs \<Rightarrow>
          if c = CHR 0x22 then map_option (\<lambda>(t, r). (JStr t, r)) (read_str cs)
          else if c = CHR ''{'' then
            (case skip_ws cs of
               d # ds \<Rightarrow> if d = CHR ''}'' then Some (JObj [], ds)
                         else map_option (\<lambda>(ms, r). (JObj ms, r)) (read_members n (d # ds))
             | [] \<Rightarrow> None)
          else if c = CHR ''['' then
            (case skip_ws cs of
               d # ds \<Rightarrow> if d = CHR '']'' then Some (JArr [], ds)
                         else map_option (\<lambda>(vs, r). (JArr vs, r)) (read_elems n (d # ds))
             | [] \<Rightarrow> None)
          else if c = CHR ''n'' then read_word ''null'' JNull (c # cs)
          else if c = CHR ''t'' then read_word ''true'' (JBool True) (c # cs)
          else if c = CHR ''f'' then read_word ''false'' (JBool False) (c # cs)
          else map_option (\<lambda>(l, r). (JNum l, r)) (read_num (c # cs)))"
| "read_members 0 s = None"
| "read_members (Suc n) s =
     (case skip_ws s of
        [] \<Rightarrow> None
      | c # cs \<Rightarrow>
          if c \<noteq> CHR 0x22 then None
          else case read_str cs of
              None \<Rightarrow> None
            | Some (k, r) \<Rightarrow>
                (case skip_ws r of
                   [] \<Rightarrow> None
                 | c # r \<Rightarrow>
                     if c \<noteq> CHR '':'' then None
                     else case read_value n r of
                         None \<Rightarrow> None
                       | Some (v, r) \<Rightarrow>
                           (case skip_ws r of
                              [] \<Rightarrow> None
                            | c # r \<Rightarrow>
                                if c = CHR ''}'' then Some ([(k, v)], r)
                                else if c = CHR '','' then
                                  map_option (\<lambda>(ms, r). ((k, v) # ms, r)) (read_members n r)
                                else None)))"
| "read_elems 0 s = None"
| "read_elems (Suc n) s =
     (case read_value n s of
        None \<Rightarrow> None
      | Some (v, r) \<Rightarrow>
          (case skip_ws r of
             [] \<Rightarrow> None
           | c # r \<Rightarrow>
               if c = CHR '']'' then Some ([v], r)
               else if c = CHR '','' then map_option (\<lambda>(vs, r). (v # vs, r)) (read_elems n r)
               else None))"

definition read_json :: "string \<Rightarrow> json option" where
  "read_json s = (case read_value (Suc (length s)) s of
      None \<Rightarrow> None
    | Some (v, r) \<Rightarrow> if skip_ws r = [] then Some v else None)"

text \<open>\<open>MarshalIndent\<close>.\<close>

definition indent :: "nat \<Rightarrow> string" where
  "indent d = newline # spaces (2 * d)"

fun show_json :: "nat \<Rightarrow> json \<Rightarrow> string"
  and show_members :: "nat \<Rightarrow> (string \<times> json) list \<Rightarrow> string"
  and show_elems :: "nat \<Rightarrow> json list \<Rightarrow> string" where
  "show_json d JNull = ''null''"
| "show_json d (JBool b) = (if b then ''true'' else ''false'')"
| "show_json d (JNum l) = l"
| "show_json d (JStr s) = json_quote s"
| "show_json d (JArr []) = ''[]''"
| "show_json d (JArr (v # vs)) = ''['' @ show_elems (Suc d) (v # vs) @ indent d @ '']''"
| "show_json d (JObj []) = ''{}''"
| "show_json d (JObj (m # ms)) = ''{'' @ show_members (Suc d) (m # ms) @ indent d @ ''}''"
| "show_members d [] = []"
| "show_members d ((k, v) # ms) = indent d @ json_quote k @ '': '' @ show_json d v @
     (if ms = [] then [] else '','' @ show_members d ms)"
| "show_elems d [] = []"
| "show_elems d (v # vs) = indent d @ show_json d v @
     (if vs = [] then [] else '','' @ show_elems d vs)"



subsection \<open>Reading back what was written\<close>

text \<open>A Go string that is valid UTF-8.\<close>

definition text_ok :: "string \<Rightarrow> bool" where
  "text_ok s \<longleftrightarrow> (\<exists>rs. list_all valid_rune rs \<and> s = chars_of (encs rs))"

lemma chars_of_simps [simp]:
  "chars_of [] = []" "chars_of (b # bs) = char_of (unat b) # chars_of bs"
  "chars_of (bs @ cs) = chars_of bs @ chars_of cs" "length (chars_of bs) = length bs"
  by (simp_all add: chars_of_def)

lemma bytes_of_chars [simp]: "bytes_of (chars_of bs) = bs"
proof -
  have "(of_char (char_of (unat b) :: char) :: byte) = b" for b :: byte
  proof -
    have "(of_char (char_of (unat b) :: char) :: byte) = of_nat (code (char_of (unat b)))"
      by (simp only: of_nat_of_char)
    then show ?thesis using byte_bound [of b] by simp
  qed
  then show ?thesis by (simp add: bytes_of_def chars_of_def comp_def)
qed

lemma hex_val_digit: "d < 16 \<Longrightarrow> hex_val (hex_digit d) = Some d"
  by (simp add: hex_val_def hex_digit_def Let_def)

lemma read_u4_digits:
  "a < 16 \<Longrightarrow> b < 16 \<Longrightarrow> c < 16 \<Longrightarrow> d < 16 \<Longrightarrow>
   read_u4 (hex_digit a # hex_digit b # hex_digit c # hex_digit d # t) = Some (4096 * a + 256 * b + 16 * c + d, t)"
  by (simp add: hex_val_digit)

lemma read_u_escape:
  assumes "r < 65536"
  shows "read_u4 (drop 2 (u_escape r) @ t) = Some (r, t)"
proof -
  have eq: "4096 * (r div 4096 mod 16) + 256 * (r div 256 mod 16) + 16 * (r div 16 mod 16) + r mod 16 = r"
  proof -
    have "r div 4096 mod 16 = r div 4096" using assms by (intro mod_less) (simp add: less_mult_imp_div_less)
    moreover have "r div 256 = 16 * (r div 4096) + r div 256 mod 16"
      using mult_div_mod_eq [of 16 "r div 256"] by (simp add: div_mult2_eq [symmetric])
    moreover have "r div 16 = 16 * (r div 256) + r div 16 mod 16"
      using mult_div_mod_eq [of 16 "r div 16"] by (simp add: div_mult2_eq [symmetric])
    moreover have "r = 16 * (r div 16) + r mod 16" by simp
    ultimately show ?thesis by linarith
  qed
  have "drop 2 (u_escape r) @ t = hex_digit (r div 4096 mod 16) # hex_digit (r div 256 mod 16) #
      hex_digit (r div 16 mod 16) # hex_digit (r mod 16) # t"
    by (simp add: u_escape_def)
  then show ?thesis using read_u4_digits [of "r div 4096 mod 16" "r div 256 mod 16" "r div 16 mod 16" "r mod 16" t]
    unfolding eq by simp
qed

lemma u_escape_split: "u_escape r = CHR 0x5C # CHR ''u'' # drop 2 (u_escape r)"
  by (simp add: u_escape_def)

lemma read_str_u:
  assumes "r < 65536" "\<not> is_surrogate r" "read_str t = Some (x, u)"
  shows "read_str (u_escape r @ t) = Some (chars_of (enc r) @ x, u)"
proof -
  have "read_escape (CHR ''u'' # drop 2 (u_escape r) @ t) = Some (chars_of (enc r), t)"
    using assms(2) by (simp add: read_escape_def read_u_escape [OF assms(1)] del: drop_Suc_Cons)
  then show ?thesis
    using assms(3) by (subst u_escape_split) (simp del: drop_Suc_Cons)
qed

lemma chars_of_ascii: "r < 128 \<Longrightarrow> chars_of (enc r) = [char_of r]"
  by (simp add: enc_ascii unat_of_nat)

lemma enc_high: "valid_rune r \<Longrightarrow> 128 \<le> r \<Longrightarrow> \<exists>b bs. enc r = b # bs \<and> 128 \<le> unat b"
proof -
  assume r: "valid_rune r" "128 \<le> r"
  obtain b bs where e: "enc r = b # bs" by (cases "enc r") auto
  then have "unat b = hd (enc_nat r)" by (simp flip: unat_enc [OF r(1)])
  with r e show ?thesis by (cases rule: enc_nat_cases [OF r(1)]) auto
qed

lemma char_of_neq: "n < 256 \<Longrightarrow> n \<noteq> code c \<Longrightarrow> char_of n \<noteq> c"
  by auto

lemma char_of_special: "char_of (34 :: nat) = CHR 0x22" "char_of (92 :: nat) = CHR 0x5C"
  "char_of (8 :: nat) = CHR 0x08" "char_of (12 :: nat) = CHR 0x0C" "char_of (10 :: nat) = CHR 0x0A"
  "char_of (13 :: nat) = CHR 0x0D" "char_of (9 :: nat) = CHR 0x09"
  by code_simp+

lemma read_str_rune:
  assumes r: "valid_rune r" and t: "read_str t = Some (x, u)"
  shows "read_str (esc_rune (r, enc r) @ t) = Some (chars_of (enc r) @ x, u)"
proof (cases "r < 128")
  case True
  note c = chars_of_ascii [OF True]
  consider "r = 34 \<or> r = 92" | "r = 8" | "r = 12" | "r = 10" | "r = 13" | "r = 9"
    | (u) "r < 32 \<or> r = 60 \<or> r = 62 \<or> r = 38" "r \<notin> {8, 9, 10, 12, 13}"
    | (plain) "32 \<le> r" "r \<notin> {34, 92, 60, 62, 38}"
    by (cases "r < 32") auto
  then show ?thesis
  proof cases
    case u
    then have "esc_rune (r, enc r) = u_escape r" using True by (auto simp: esc_rune_def)
    moreover have "\<not> is_surrogate r" using True by (simp add: is_surrogate_def)
    ultimately show ?thesis using read_str_u [OF _ _ t, of r] True by simp
  next
    case plain
    have "(char_of r :: char) \<noteq> CHR 0x22" "(char_of r :: char) \<noteq> CHR 0x5C"
      using plain True by (intro char_of_neq; simp)+
    with plain t True c show ?thesis by (simp add: esc_rune_def)
  qed (use t True c in \<open>auto simp: esc_rune_def read_escape_def char_of_special\<close>)
next
  case False
  then obtain b bs where e: "enc r = b # bs" "128 \<le> unat b" using enc_high [OF r] by auto
  have n1: "\<not> (r = rune_error \<and> length (enc r) = 1)"
    by (auto simp: enc_def enc_nat_def rune_error_def)
  show ?thesis
  proof (cases "r = 8232 \<or> r = 8233")
    case True
    then have "esc_rune (r, enc r) = u_escape r" using n1 by (auto simp: esc_rune_def)
    moreover have "r < 65536" "\<not> is_surrogate r" using True by (auto simp: is_surrogate_def)
    ultimately show ?thesis using read_str_u [OF _ _ t, of r] by simp
  next
    case plain: False
    with False n1 have esc: "esc_rune (r, enc r) = chars_of (enc r)" by (auto simp: esc_rune_def)
    let ?c = "char_of (unat b) :: char"
    have code: "code ?c = unat b" using byte_bound [of b] by (simp add: of_char_of)
    have neq: "?c \<noteq> CHR 0x22" "?c \<noteq> CHR 0x5C"
      using byte_bound [of b] e(2) by (intro char_of_neq; simp)+
    have d: "decode_rune (bytes_of (?c # chars_of bs @ t)) = (r, length (enc r))"
      using decode_encode [OF r, of "bytes_of t"] bytes_of_chars [of "b # bs"] e(1)
      by (simp add: bytes_of_def)
    have "read_str (?c # chars_of bs @ t) = map_option (\<lambda>(y, u). (chars_of (enc r) @ y, u))
        (read_str (drop (length (enc r)) (?c # chars_of bs @ t)))"
      using neq code e(2) d by (subst read_str.simps(2)) simp
    also have "drop (length (enc r)) (?c # chars_of bs @ t) = t" by (simp add: e(1))
    finally show ?thesis using t by (simp add: esc) (simp add: e(1))
  qed
qed

lemma read_str_escape:
  assumes "list_all valid_rune rs"
  shows "read_str (json_escape (chars_of (encs rs)) @ CHR 0x22 # t) = Some (chars_of (encs rs), t)"
proof -
  have "read_str (concat (map esc_rune (map (\<lambda>r. (r, enc r)) rs)) @ CHR 0x22 # t) = Some (chars_of (encs rs), t)"
    using assms by (induction rs) (simp_all add: read_str_rune)
  moreover have "runes_of (encs rs) = map (\<lambda>r. (r, enc r)) rs"
    using assms by (simp add: runes_of_encs list_all_iff)
  ultimately show ?thesis by (simp add: json_escape_def)
qed

lemma read_str_quote: "text_ok s \<Longrightarrow> read_str (tl (json_quote s) @ t) = Some (s, t)"
  by (auto simp: text_ok_def json_quote_def read_str_escape)



text \<open>What follows a value that was written, and the texts of numbers: those that are read to their end.\<close>

definition delim :: "string \<Rightarrow> bool" where
  "delim r \<longleftrightarrow> r = [] \<or> hd r = CHR '','' \<or> hd r = newline"

definition num_ok :: "string \<Rightarrow> bool" where
  "num_ok l \<longleftrightarrow> (\<exists>c cs. l = c # cs \<and> (is_digit c \<or> c = CHR ''-'')) \<and> (\<forall>r. delim r \<longrightarrow> read_num (l @ r) = Some (l, r))"

text \<open>The values that the program writes, and the fuel that reading them takes.\<close>

fun json_ok :: "json \<Rightarrow> bool"
  and members_ok :: "(string \<times> json) list \<Rightarrow> bool"
  and elems_ok :: "json list \<Rightarrow> bool" where
  "json_ok JNull = True"
| "json_ok (JBool b) = True"
| "json_ok (JNum l) = num_ok l"
| "json_ok (JStr s) = text_ok s"
| "json_ok (JArr vs) = elems_ok vs"
| "json_ok (JObj ms) = members_ok ms"
| "members_ok [] = True"
| "members_ok ((k, v) # ms) = (text_ok k \<and> json_ok v \<and> members_ok ms)"
| "elems_ok [] = True"
| "elems_ok (v # vs) = (json_ok v \<and> elems_ok vs)"

fun json_need :: "json \<Rightarrow> nat"
  and members_need :: "(string \<times> json) list \<Rightarrow> nat"
  and elems_need :: "json list \<Rightarrow> nat" where
  "json_need JNull = 1"
| "json_need (JBool b) = 1"
| "json_need (JNum l) = 1"
| "json_need (JStr s) = 1"
| "json_need (JArr vs) = Suc (elems_need vs)"
| "json_need (JObj ms) = Suc (members_need ms)"
| "members_need [] = 0"
| "members_need ((k, v) # ms) = Suc (max (json_need v) (members_need ms))"
| "elems_need [] = 0"
| "elems_need (v # vs) = Suc (max (json_need v) (elems_need vs))"

lemma show_nat_zero: "hd (show_nat m) = CHR ''0'' \<Longrightarrow> m = 0"
proof (induction m rule: show_nat.induct)
  case (1 n)
  show ?case
  proof (cases "n < 10")
    case True
    with 1 have "digit_char n = CHR ''0''" by (subst (asm) show_nat.simps) simp
    then have "code (digit_char n) = 48" by simp
    with True show ?thesis by (simp add: digit_char_code)
  next
    case False
    with 1 have "hd (show_nat (n div 10)) = CHR ''0''" by (subst (asm) (2) show_nat.simps) simp
    with 1 False have "n div 10 = 0" by simp
    with False show ?thesis by simp
  qed
qed

lemma show_nat_0: "show_nat 0 = ''0''"
proof -
  have "char_of (48 :: nat) = CHR ''0''" by code_simp
  then show ?thesis by (simp add: show_nat.simps digit_char_def)
qed

lemma read_num_show:
  assumes "delim r"
  shows "read_num (show_int n @ r) = Some (show_int n, r)"
proof -
  have dr: "r = [] \<or> \<not> is_digit (hd r)" "r = [] \<or> hd r \<notin> {CHR ''.'', CHR ''e'', CHR ''E''}"
    using assms by (auto simp: delim_def newline_def is_digit_def)
  have td: "take_digits (show_nat m @ r) = Some (show_nat m, r)" for m
  proof -
    have "list_all is_digit (show_nat m)" by (rule show_nat_digits)
    then have "takeWhile is_digit (show_nat m @ r) = show_nat m" "dropWhile is_digit (show_nat m @ r) = r"
      using dr(1) by (auto simp: list_all_iff takeWhile_append2 dropWhile_append2 takeWhile_eq_Nil_iff
          dropWhile_eq_self_iff)
    then show ?thesis by (simp add: take_digits_def)
  qed
  have zero: "(if hd (show_nat m) = CHR ''0'' then (''0'', tl (show_nat m @ r)) else (show_nat m, r)) = (show_nat m, r)" for m
    using show_nat_zero [of m] by (auto simp: show_nat_0)
  have num: "(case s of c # t \<Rightarrow> if c = CHR ''-'' then ([c], t) else ([], s) | [] \<Rightarrow> ([], s)) = (sg, show_nat m @ r) \<Longrightarrow>
      read_num s = Some (sg @ show_nat m, r)" for s sg m
    unfolding read_num_def Let_def
    using td [of m] zero [of m] dr(2) by (cases r) auto
  show ?thesis
  proof (cases "n < 0")
    case True
    then show ?thesis using num [of "show_int n @ r" "''-''" "nat (- n)"] by (simp add: show_int_def)
  next
    case False
    obtain c cs where c: "show_nat (nat n) = c # cs" by (cases "show_nat (nat n)") auto
    then have "c \<noteq> CHR ''-''" using hd_show_nat_digit [of "nat n"] digit_not_sign by auto
    with False c show ?thesis using num [of "show_int n @ r" "[]" "nat n"] by (simp add: show_int_def)
  qed
qed

lemma skip_ws_simps [simp]:
  "skip_ws [] = []" "skip_ws (CHR '' '' # s) = skip_ws s" "skip_ws (newline # s) = skip_ws s"
  "skip_ws (CHR 0x22 # s) = CHR 0x22 # s" "skip_ws (CHR ''{'' # s) = CHR ''{'' # s"
  "skip_ws (CHR ''}'' # s) = CHR ''}'' # s" "skip_ws (CHR ''['' # s) = CHR ''['' # s"
  "skip_ws (CHR '']'' # s) = CHR '']'' # s" "skip_ws (CHR '':'' # s) = CHR '':'' # s"
  "skip_ws (CHR '','' # s) = CHR '','' # s"
  by (simp_all add: skip_ws_def newline_def)

lemma skip_spaces [simp]: "skip_ws (spaces n @ s) = skip_ws s" "skip_ws (indent d @ s) = skip_ws s"
proof -
  show *: "skip_ws (spaces n @ s) = skip_ws s" for n
    by (induction n) (simp_all add: spaces_def)
  then show "skip_ws (indent d @ s) = skip_ws s" by (simp add: indent_def)
qed

lemma read_skip:
  "skip_ws s = skip_ws t \<Longrightarrow> read_value n s = read_value n t"
  "skip_ws s = skip_ws t \<Longrightarrow> read_members n s = read_members n t"
  "skip_ws s = skip_ws t \<Longrightarrow> read_elems n s = read_elems n t"
proof -
  show v: "skip_ws s = skip_ws t \<Longrightarrow> read_value n s = read_value n t" for n s t by (cases n) simp_all
  show "skip_ws s = skip_ws t \<Longrightarrow> read_members n s = read_members n t" by (cases n) simp_all
  assume "skip_ws s = skip_ws t"
  then have "read_value m s = read_value m t" for m by (rule v)
  then show "read_elems n s = read_elems n t" by (cases n) simp_all
qed


text \<open>The first character of a value's text, which tells what follows.\<close>

lemma show_int_head: "\<exists>c cs. show_int n = c # cs \<and> (is_digit c \<or> c = CHR ''-'')"
proof -
  obtain c cs where c: "show_nat (nat \<bar>n\<bar>) = c # cs" by (cases "show_nat (nat \<bar>n\<bar>)") auto
  then have "is_digit c" using hd_show_nat_digit [of "nat \<bar>n\<bar>"] by simp
  with c show ?thesis by (auto simp: show_int_def)
qed

lemma num_ok_int [simp]: "num_ok (show_int n)"
  using show_int_head [of n] by (auto simp: num_ok_def read_num_show)

lemma read_value_num:
  assumes "delim r" "num_ok l"
  shows "read_value (Suc m) (l @ r) = Some (JNum l, r)"
proof -
  obtain c cs where c: "l = c # cs" "is_digit c \<or> c = CHR ''-''" using assms(2) by (auto simp: num_ok_def)
  then have "skip_ws (l @ r) = c # cs @ r"
    "c \<notin> {CHR 0x22, CHR ''{'', CHR ''['', CHR ''n'', CHR ''t'', CHR ''f''}"
    by (auto simp: skip_ws_def is_digit_def)
  moreover have "read_num (l @ r) = Some (l, r)" using assms by (auto simp: num_ok_def)
  ultimately show ?thesis using c by simp
qed

lemma read_value_str:
  "text_ok s \<Longrightarrow> read_value (Suc m) (json_quote s @ r) = Some (JStr s, r)"
  using read_str_quote [of s r] by (simp add: json_quote_def)

lemma delim_simps [simp]: "delim []" "delim (CHR '','' # s)" "delim (newline # s)" "delim (indent d @ s)"
  by (simp_all add: delim_def indent_def)

lemma show_members_Cons: "show_members d (m # ms) = indent d @ json_quote (fst m) @ '': '' @ show_json d (snd m) @
     (if ms = [] then [] else '','' @ show_members d ms)"
  by (cases m) simp

lemma show_json_head:
  assumes "json_ok v"
  shows "\<exists>c cs. show_json d v = c # cs \<and> c \<noteq> CHR '']'' \<and> (\<forall>s. skip_ws (c # s) = c # s)"
proof (cases v)
  case (JNum l)
  with assms obtain c cs where "show_json d v = c # cs" "is_digit c \<or> c = CHR ''-''"
    by (auto simp: num_ok_def)
  then show ?thesis by (auto simp: skip_ws_def is_digit_def)
next
  case (JArr vs)
  then show ?thesis by (cases vs) (auto simp: skip_ws_def)
next
  case (JObj ms)
  then show ?thesis by (cases ms) (auto simp: skip_ws_def)
qed (auto simp: skip_ws_def json_quote_def)

lemma read_show:
  "json_ok v \<Longrightarrow> json_need v \<le> n \<Longrightarrow> delim r \<Longrightarrow> read_value n (show_json d v @ r) = Some (v, r)"
  "members_ok ms \<Longrightarrow> members_need ms \<le> n \<Longrightarrow> ms \<noteq> [] \<Longrightarrow>
   read_members n (show_members d ms @ indent e @ CHR ''}'' # r) = Some (ms, r)"
  "elems_ok vs \<Longrightarrow> elems_need vs \<le> n \<Longrightarrow> vs \<noteq> [] \<Longrightarrow>
   read_elems n (show_elems d vs @ indent e @ CHR '']'' # r) = Some (vs, r)"
proof (induction d v and d ms and d vs arbitrary: n r and n e r and n e r
    rule: show_json_show_members_show_elems.induct)
  case (1 d)
  then show ?case by (cases n) (simp_all add: read_word_def cut_prefix_def skip_ws_def)
next
  case (2 d b)
  then show ?case by (cases n; cases b) (simp_all add: read_word_def cut_prefix_def skip_ws_def)
next
  case (3 d l)
  then show ?case by (cases n) (auto simp: read_value_num simp del: read_value.simps)
next
  case (4 d s)
  then show ?case by (cases n) (simp_all add: read_value_str del: read_value.simps)
next
  case (5 d)
  then show ?case by (cases n) simp_all
next
  case (6 d v vs)
  then obtain m where n: "n = Suc m" by (cases n) auto
  have "read_elems m (show_elems (Suc d) (v # vs) @ indent d @ CHR '']'' # r) = Some (v # vs, r)"
    using 6 n by simp
  moreover obtain c cs where c: "show_json (Suc d) v = c # cs" "c \<noteq> CHR '']''" "\<And>s. skip_ws (c # s) = c # s"
    using show_json_head [of v "Suc d"] "6.prems" by auto
  let ?s = "show_json (Suc d) v @ (if vs = [] then [] else '','' @ show_elems (Suc d) vs) @ indent d @ CHR '']'' # r"
  have s: "skip_ws (show_elems (Suc d) (v # vs) @ indent d @ CHR '']'' # r) = ?s" "skip_ws ?s = ?s"
    using c by simp_all
  ultimately have "read_elems m ?s = Some (v # vs, r)"
    using read_skip(3) [of ?s "show_elems (Suc d) (v # vs) @ indent d @ CHR '']'' # r" m] by simp
  with s n c show ?case by simp
next
  case (7 d)
  then show ?case by (cases n) simp_all
next
  case (8 d x ms)
  then obtain m where n: "n = Suc m" by (cases n) auto
  have r: "read_members m (show_members (Suc d) (x # ms) @ indent d @ CHR ''}'' # r) = Some (x # ms, r)"
    using 8 n by simp
  let ?s = "json_quote (fst x) @ '': '' @ show_json (Suc d) (snd x) @
     (if ms = [] then [] else '','' @ show_members (Suc d) ms) @ indent d @ CHR ''}'' # r"
  have "skip_ws (show_members (Suc d) (x # ms) @ indent d @ CHR ''}'' # r) = ?s"
    unfolding show_members_Cons by (simp add: json_quote_def)
  moreover have "skip_ws ?s = ?s" by (simp add: json_quote_def)
  ultimately have "read_members m ?s = Some (x # ms, r)"
    using r read_skip(2) [of ?s "show_members (Suc d) (x # ms) @ indent d @ CHR ''}'' # r" m] by simp
  then show ?case
    using n unfolding show_json.simps(8) append_assoc show_members_Cons by (simp add: json_quote_def)
next
  case (9 d)
  then show ?case by simp
next
  case (10 d k v ms)
  then obtain m where n: "n = Suc m" by (cases n) auto
  let ?t = "(if ms = [] then [] else '','' @ show_members d ms) @ indent e @ CHR ''}'' # r"
  have v: "read_value m (CHR '' '' # show_json d v @ ?t) = Some (v, ?t)"
    using "10.IH"(1) [of m ?t] "10.prems" n read_skip(1) [of "CHR '' '' # show_json d v @ ?t" "show_json d v @ ?t" m]
    by simp
  have q: "read_str (json_escape k @ CHR 0x22 # t) = Some (k, t)" for t
    using read_str_quote [of k t] "10.prems" by (simp add: json_quote_def)
  have step: "read_members n (show_members d ((k, v) # ms) @ indent e @ CHR ''}'' # r) =
      (case skip_ws ?t of [] \<Rightarrow> None | c # u \<Rightarrow>
         if c = CHR ''}'' then Some ([(k, v)], u)
         else if c = CHR '','' then map_option (\<lambda>(ms, u). ((k, v) # ms, u)) (read_members m u) else None)"
    unfolding n show_members.simps read_members.simps append_assoc json_quote_def
    using v by (simp add: q)
  show ?case
  proof (cases "ms = []")
    case False
    then have "read_members m (show_members d ms @ indent e @ CHR ''}'' # r) = Some (ms, r)"
      using "10.IH"(2) [OF False, of m] "10.prems" n by simp
    with False show ?thesis unfolding step by simp
  next
    case True
    then show ?thesis unfolding step by simp
  qed
next
  case (11 d)
  then show ?case by simp
next
  case (12 d v vs)
  then obtain m where n: "n = Suc m" by (cases n) auto
  let ?t = "(if vs = [] then [] else '','' @ show_elems d vs) @ indent e @ CHR '']'' # r"
  have v: "read_value m (indent d @ show_json d v @ ?t) = Some (v, ?t)"
    using "12.IH"(1) [of m ?t] "12.prems" n read_skip(1) [of "indent d @ show_json d v @ ?t" "show_json d v @ ?t" m]
    by simp
  have step: "read_elems n (show_elems d (v # vs) @ indent e @ CHR '']'' # r) =
      (case skip_ws ?t of [] \<Rightarrow> None | c # u \<Rightarrow>
         if c = CHR '']'' then Some ([v], u)
         else if c = CHR '','' then map_option (\<lambda>(vs, u). (v # vs, u)) (read_elems m u) else None)"
    unfolding n show_elems.simps read_elems.simps append_assoc v by simp
  show ?case
  proof (cases "vs = []")
    case False
    then have "read_elems m (show_elems d vs @ indent e @ CHR '']'' # r) = Some (vs, r)"
      using "12.IH"(2) [OF False, of m] "12.prems" n by simp
    with False show ?thesis unfolding step by simp
  next
    case True
    then show ?thesis unfolding step by simp
  qed
qed

text \<open>The fuel of \<open>read_json\<close> is enough for what was written.\<close>

lemma need_length:
  "json_ok v \<Longrightarrow> json_need v \<le> length (show_json d v)"
  "members_ok ms \<Longrightarrow> members_need ms \<le> length (show_members d ms)"
  "elems_ok vs \<Longrightarrow> elems_need vs \<le> length (show_elems d vs)"
proof (induction d v and d ms and d vs rule: show_json_show_members_show_elems.induct)
  case (3 d l)
  then show ?case by (auto simp: num_ok_def)
qed (auto simp: json_quote_def indent_def)

theorem read_show_json:
  assumes "json_ok v" "w = [] \<or> w = [newline]"
  shows "read_json (show_json 0 v @ w) = Some v"
proof -
  have "read_value (Suc (length (show_json 0 v @ w))) (show_json 0 v @ w) = Some (v, w)"
    using assms need_length(1) [OF assms(1), of 0] by (intro read_show(1)) (auto simp: delim_def)
  with assms(2) show ?thesis by (auto simp: read_json_def)
qed

end
