(* ===== verification/Sizes.thy ===== *)
theory Sizes
  imports Prelude
begin

text \<open>
  Sizes in bytes: \<open>parseSize\<close> of cmd/invirtio/config.go and \<open>formatSize\<close> of memory.go.
  \<open>formatSize\<close> computes in \<open>float64\<close>: the conversion of the size rounds it to 53 bits, and the
  divisions by powers of two are exact. \<open>math.Round\<close> rounds ties away from zero, and \<open>fmt\<close> prints
  the exact value rounded to the nearest decimal, ties to even.
\<close>

subsection \<open>Parsing\<close>

text \<open>\<open>fmt.Sscanf(num, "%d", &n)\<close>: white space, a sign and decimal digits; what follows is not read.\<close>

definition sscanf_int :: "string \<Rightarrow> int option" where
  "sscanf_int s =
     (let t = dropWhile (\<lambda>c. c = CHR '' '') s;
          (neg, u) = (case t of
             [] \<Rightarrow> (False, [])
           | c # cs \<Rightarrow> if c = CHR ''-'' then (True, cs) else if c = CHR ''+'' then (False, cs) else (False, t));
          ds = takeWhile is_digit u
      in if ds = [] then None
         else let v = (if neg then - int (digits_val 0 ds) else int (digits_val 0 ds))
              in if in_int64 v then Some v else None)"

definition size_shift :: "string \<Rightarrow> nat" where
  "size_shift s =
     (if s = [] then 0
      else case upper_char (last s) of c \<Rightarrow>
        if c = CHR ''K'' then 10 else if c = CHR ''M'' then 20 else if c = CHR ''G'' then 30 else 0)"

text \<open>The error of a size that cannot be parsed is \<open>None\<close>; its text is in the callers.\<close>

definition parse_size :: "string \<Rightarrow> int option" where
  "parse_size s =
     (let shift = size_shift s;
          num = (if shift \<noteq> 0 then butlast s else s)
      in case sscanf_int num of
           None \<Rightarrow> None
         | Some n \<Rightarrow>
             if n \<le> 0 \<or> show_int n \<noteq> num \<or> n > max_int64 div 2 ^ shift then None
             else Some (wrap64 (n * 2 ^ shift)))"

text \<open>The units that a size can have, and their shifts.\<close>

fun unit_shift :: "string \<Rightarrow> nat option" where
  "unit_shift [] = Some 0"
| "unit_shift [c] =
     (if c = CHR ''K'' \<or> c = CHR ''k'' then Some 10
      else if c = CHR ''M'' \<or> c = CHR ''m'' then Some 20
      else if c = CHR ''G'' \<or> c = CHR ''g'' then Some 30
      else None)"
| "unit_shift (c # d # cs) = None"

lemma sscanf_show_nat: "in_int64 (int n) \<Longrightarrow> sscanf_int (show_nat n) = Some (int n)"
proof -
  assume n: "in_int64 (int n)"
  obtain c cs where c: "show_nat n = c # cs" by (cases "show_nat n") auto
  with show_nat_digits [of n] have d: "is_digit c" "list_all is_digit (c # cs)" by auto
  from d(1) have "c \<noteq> CHR '' ''" by (auto simp: is_digit_def)
  moreover have "takeWhile is_digit (c # cs) = c # cs" using d(2) by (simp add: list_all_iff takeWhile_eq_all_conv)
  moreover have "digits_val 0 (c # cs) = n" using c by (metis digits_val_show)
  ultimately show ?thesis
    using c digit_not_sign [OF d(1)] n unfolding sscanf_int_def by simp
qed

lemma upper_digit: "is_digit c \<Longrightarrow> upper_char c = c"
  by (auto simp: is_digit_def upper_char_def)

lemma size_shift_digits: "list_all is_digit s \<Longrightarrow> size_shift s = 0"
proof (cases s rule: rev_cases)
  case (snoc ys y)
  assume "list_all is_digit s"
  with snoc have "is_digit y" by simp
  with snoc show ?thesis
    by (auto simp: size_shift_def upper_digit Let_def) (auto simp: is_digit_def)
qed (simp add: size_shift_def)

lemma upper_char_eq:
  assumes "65 \<le> code d" "code d \<le> 90"
  shows "upper_char c = d \<longleftrightarrow> c = d \<or> code c = code d + 32"
proof -
  have iff: "c = e \<longleftrightarrow> code c = code e" for c e :: char by simp
  show ?thesis
  proof (cases "97 \<le> code c \<and> code c \<le> 122")
    case True
    then have "code c - 32 < 256" by linarith
    then have "code (char_of (code c - 32) :: char) = code c - 32" by simp
    then have "upper_char c = d \<longleftrightarrow> code c - 32 = code d"
      using True unfolding upper_char_def by (simp only: if_True simp_thms iff)
    with True assms show ?thesis unfolding iff by linarith
  next
    case False
    with assms show ?thesis unfolding upper_char_def iff by auto
  qed
qed

lemma size_shift_unit: "unit_shift [c] = (if size_shift [c] = 0 then None else Some (size_shift [c]))"
proof -
  have k: "c = CHR ''k'' \<longleftrightarrow> code c = 107" "c = CHR ''m'' \<longleftrightarrow> code c = 109" "c = CHR ''g'' \<longleftrightarrow> code c = 103"
    by (subst of_char_eq_iff [symmetric, where 'a = nat], simp)+
  show ?thesis
    by (simp add: size_shift_def upper_char_eq k)
qed

lemma size_shift_snoc: "size_shift (s @ [c]) = size_shift [c]"
  by (simp add: size_shift_def)

lemma mult_bound: "0 < (p :: int) \<Longrightarrow> n \<le> m div p \<longleftrightarrow> n * p \<le> m"
proof
  assume p: "0 < p" and n: "n \<le> m div p"
  have "(m div p) * p \<le> m"
    using p pos_mod_sign [of p m] by (simp add: minus_mod_eq_div_mult [symmetric])
  moreover have "n * p \<le> (m div p) * p" using n p by (simp add: mult_right_mono)
  ultimately show "n * p \<le> m" by linarith
next
  assume "0 < p" "n * p \<le> m"
  then show "n \<le> m div p" using zdiv_mono1 [of "n * p" m p] by simp
qed

lemma wrap_shift: "0 < (n :: int) \<Longrightarrow> n * 2 ^ k \<le> max_int64 \<Longrightarrow> wrap64 (n * 2 ^ k) = n * 2 ^ k"
  by (rule wrap64_id) (simp add: in_int64_def, smt (verit) mult_pos_pos zero_less_power)

lemma parse_size_unfold:
  "parse_size s = Some v \<longleftrightarrow> (\<exists>n. sscanf_int (if size_shift s \<noteq> 0 then butlast s else s) = Some n \<and> 0 < n \<and>
     show_int n = (if size_shift s \<noteq> 0 then butlast s else s) \<and> n * 2 ^ size_shift s \<le> max_int64 \<and>
     v = n * 2 ^ size_shift s)"
proof -
  define k where "k = size_shift s"
  define num where "num = (if k \<noteq> 0 then butlast s else s)"
  have p: "parse_size s = (case sscanf_int num of None \<Rightarrow> None
      | Some n \<Rightarrow> if n \<le> 0 \<or> show_int n \<noteq> num \<or> n > max_int64 div 2 ^ k then None
                  else Some (wrap64 (n * 2 ^ k)))"
    unfolding parse_size_def Let_def num_def k_def ..
  have "parse_size s = Some v \<longleftrightarrow> (\<exists>n. sscanf_int num = Some n \<and> 0 < n \<and> show_int n = num \<and>
      n * 2 ^ k \<le> max_int64 \<and> v = n * 2 ^ k)"
  proof (cases "sscanf_int num")
    case (Some n)
    have "n > max_int64 div 2 ^ k \<longleftrightarrow> \<not> n * 2 ^ k \<le> max_int64"
      using mult_bound [of "2 ^ k" n max_int64] by (simp add: not_le [symmetric])
    with Some show ?thesis unfolding p using wrap_shift [of n k] by auto
  qed (simp add: p)
  then show ?thesis by (simp only: num_def k_def)
qed

lemma size_shift_number: "unit_shift u = Some k \<Longrightarrow> size_shift (show_nat n @ u) = k \<and> (k = 0 \<longleftrightarrow> u = []) \<and> length u \<le> 1"
proof (cases u rule: unit_shift.cases)
  case (2 c)
  assume "unit_shift u = Some k"
  with 2 show ?thesis by (auto simp: size_shift_unit size_shift_snoc simp del: unit_shift.simps split: if_splits)
qed (auto simp: size_shift_digits show_nat_digits)

text \<open>
  C35 A size is accepted exactly when it is a positive decimal number without leading zeros or
  sign, an optional unit K, M or G in either case, and a value that fits an int64; the value is the
  number times the unit, never wrapped.
\<close>

theorem parse_size_correct:
  "parse_size s = Some v \<longleftrightarrow>
     (\<exists>n u k. s = show_nat n @ u \<and> unit_shift u = Some k \<and> 0 < n \<and> v = int n * 2 ^ k \<and> v \<le> max_int64)"
proof
  assume "parse_size s = Some v"
  then obtain n where n: "0 < n" "show_int n = (if size_shift s \<noteq> 0 then butlast s else s)"
      "n * 2 ^ size_shift s \<le> max_int64" "v = n * 2 ^ size_shift s"
    unfolding parse_size_unfold by blast
  then have num: "show_nat (nat n) = (if size_shift s \<noteq> 0 then butlast s else s)"
    by (simp add: show_int_def)
  show "\<exists>n u k. s = show_nat n @ u \<and> unit_shift u = Some k \<and> 0 < n \<and> v = int n * 2 ^ k \<and> v \<le> max_int64"
  proof (cases "size_shift s = 0")
    case True
    with n num show ?thesis by (intro exI [of _ "nat n"] exI [of _ "[]"] exI [of _ 0]) simp
  next
    case False
    then have "s \<noteq> []" by (auto simp: size_shift_def)
    then have s: "s = show_nat (nat n) @ [last s]" using num False by simp
    then have "size_shift [last s] = size_shift s" by (metis size_shift_snoc)
    with False have "unit_shift [last s] = Some (size_shift s)"
      by (simp add: size_shift_unit del: unit_shift.simps)
    with n s show ?thesis by (intro exI [of _ "nat n"] exI [of _ "[last s]"] exI [of _ "size_shift s"]) simp
  qed
next
  assume "\<exists>n u k. s = show_nat n @ u \<and> unit_shift u = Some k \<and> 0 < n \<and> v = int n * 2 ^ k \<and> v \<le> max_int64"
  then obtain n u k where s: "s = show_nat n @ u" "unit_shift u = Some k" "0 < n" "v = int n * 2 ^ k" "v \<le> max_int64"
    by blast
  note k = size_shift_number [OF s(2), of n]
  then have "(if size_shift s \<noteq> 0 then butlast s else s) = show_nat n"
    using s(1) by (cases u) (auto simp: butlast_append)
  moreover have "int n \<le> int n * 2 ^ k" using mult_left_mono [of 1 "2 ^ k" "int n"] by simp
  then have "in_int64 (int n)" using s(4,5) by (simp add: in_int64_def)
  ultimately show "parse_size s = Some v"
    unfolding parse_size_unfold using sscanf_show_nat k s by (intro exI [of _ "int n"]) (simp add: show_int_def)
qed



subsection \<open>Formatting\<close>

fun bitlen :: "nat \<Rightarrow> nat" where
  "bitlen n = (if n = 0 then 0 else Suc (bitlen (n div 2)))"

declare bitlen.simps [simp del]

definition half_even :: "nat \<Rightarrow> nat \<Rightarrow> nat" where
  "half_even n d =
     (let q = n div d; r = n mod d
      in if 2 * r < d \<or> (2 * r = d \<and> even q) then q else q + 1)"

definition half_up :: "nat \<Rightarrow> nat \<Rightarrow> nat" where
  "half_up n d = (2 * n + d) div (2 * d)"

text \<open>\<open>float64(n)\<close> of an integer, and \<open>math.Round\<close> of a quotient.\<close>

definition float_nat :: "nat \<Rightarrow> nat" where
  "float_nat n = (let e = bitlen n - 53 in half_even n (2 ^ e) * 2 ^ e)"

definition float_int :: "int \<Rightarrow> int" where
  "float_int n = (if n < 0 then - int (float_nat (nat (- n))) else int (float_nat (nat n)))"

definition round_quot :: "int \<Rightarrow> nat \<Rightarrow> int" where
  "round_quot n d = (if n < 0 then - int (half_up (nat (- n)) d) else int (half_up (nat n) d))"

text \<open>The verb \<open>%.<prec>f\<close> of a quotient.\<close>

definition pad_zeros :: "nat \<Rightarrow> string \<Rightarrow> string" where
  "pad_zeros w s = replicate (w - length s) (CHR ''0'') @ s"

definition show_fixed :: "nat \<Rightarrow> int \<Rightarrow> nat \<Rightarrow> string" where
  "show_fixed prec n d =
     (let m = half_even (nat \<bar>n\<bar> * 10 ^ prec) d
      in (if n < 0 then ''-'' else []) @ show_nat (m div 10 ^ prec) @
         (if prec = 0 then [] else CHR ''.'' # pad_zeros prec (show_nat (m mod 10 ^ prec))))"

definition format_size :: "int \<Rightarrow> string" where
  "format_size n =
     (if round_quot (float_int n) (2 ^ 20) \<ge> 1024 then show_fixed 2 (float_int n) (2 ^ 30) @ ''G''
      else if round_quot (float_int n) (2 ^ 10) \<ge> 1024 then show_fixed 0 (float_int n) (2 ^ 20) @ ''M''
      else if n \<ge> 1024 then show_fixed 0 (float_int n) (2 ^ 10) @ ''K''
      else show_int n @ ''B'')"

lemma bitlen_le: "n < 2 ^ k \<Longrightarrow> bitlen n \<le> k"
proof (induction k arbitrary: n)
  case (Suc k)
  show ?case
  proof (cases "n = 0")
    case False
    with Suc.prems have "n div 2 < 2 ^ k" by (simp add: less_mult_imp_div_less mult.commute)
    from Suc.IH [OF this] show ?thesis by (subst bitlen.simps) simp
  qed (simp add: bitlen.simps)
qed (simp add: bitlen.simps)

lemma float_exact: "0 \<le> n \<Longrightarrow> n < 2 ^ 53 \<Longrightarrow> float_int n = n"
proof -
  assume n: "0 \<le> n" "n < 2 ^ 53"
  then have "nat n < 2 ^ 53" by (simp add: nat_less_iff)
  then have "bitlen (nat n) - 53 = 0" using bitlen_le [of "nat n" 53] by simp
  with n show ?thesis by (simp add: float_int_def float_nat_def half_even_def)
qed

text \<open>Rounding to the nearest: an error of at most half, which determines the rest.\<close>

lemma half_even_near: "0 < d \<Longrightarrow> 2 * (half_even n d * d) \<le> 2 * n + d \<and> 2 * n \<le> 2 * (half_even n d * d) + d"
proof -
  assume d: "0 < d"
  define q r where "q = n div d" and "r = n mod d"
  then have n: "n = q * d + r" and r: "r < d" using d by simp_all
  have h: "half_even n d = (if 2 * r < d \<or> (2 * r = d \<and> even q) then q else q + 1)"
    by (simp add: half_even_def q_def r_def Let_def)
  show ?thesis
  proof (cases "2 * r < d \<or> (2 * r = d \<and> even q)")
    case True
    then have "half_even n d = q" "2 * r \<le> d" using h by auto
    then show ?thesis using n by simp
  next
    case False
    then have "half_even n d = q + 1" "d \<le> 2 * r" using h by auto
    then show ?thesis using n r by simp
  qed
qed

lemma half_even_less: "0 < d \<Longrightarrow> 2 * n < (2 * m + 1) * d \<Longrightarrow> half_even n d \<le> m"
proof (rule ccontr)
  assume d: "0 < d" "2 * n < (2 * m + 1) * d" "\<not> half_even n d \<le> m"
  then have "(m + 1) * d \<le> half_even n d * d" by (intro mult_right_mono) simp_all
  with half_even_near [OF d(1), of n] d(2) show False by (simp add: algebra_simps)
qed

lemma half_even_greater: "0 < d \<Longrightarrow> (2 * k + 1) * d < 2 * n \<Longrightarrow> k < half_even n d"
proof (rule ccontr)
  assume d: "0 < d" "(2 * k + 1) * d < 2 * n" "\<not> k < half_even n d"
  then have "half_even n d * d \<le> k * d" by (intro mult_right_mono) simp_all
  moreover have "(2 * k + 1) * d = 2 * (k * d) + d" by (simp add: algebra_simps)
  ultimately show False using half_even_near [OF d(1), of n] d(2) by linarith
qed

lemma half_up_iff: "0 < d \<Longrightarrow> m \<le> half_up n d \<longleftrightarrow> 2 * (m * d) \<le> 2 * n + d"
  by (simp add: half_up_def less_eq_div_iff_mult_less_eq algebra_simps)

lemma show_unit: "show_fixed 0 (int n) d = show_nat (half_even n d)"
  by (simp add: show_fixed_def Let_def)

lemma near_int: "2 * m \<le> 2 * n + d \<Longrightarrow> 2 * n \<le> 2 * m + d \<Longrightarrow> 2 * \<bar>int m - int n\<bar> \<le> int d"
proof -
  assume "2 * m \<le> 2 * n + d" "2 * n \<le> 2 * m + d"
  then have "int (2 * m) \<le> int (2 * n + d)" "int (2 * n) \<le> int (2 * m + d)" by (simp_all only: of_nat_le_iff)
  then show ?thesis by (simp add: abs_if)
qed

lemma format_size_cases:
  assumes "n < 2 ^ 53"
  shows "format_size (int n) =
    (if 2047 * 2 ^ 20 \<le> 2 * n then show_fixed 2 (int n) (2 ^ 30) @ ''G''
     else if 2047 * 2 ^ 10 \<le> 2 * n then show_nat (half_even n (2 ^ 20)) @ ''M''
     else if 1024 \<le> n then show_nat (half_even n (2 ^ 10)) @ ''K''
     else show_nat n @ ''B'')"
proof -
  have f: "float_int (int n) = int n" using assms by (intro float_exact) simp_all
  have r: "round_quot (int n) d \<ge> 1024 \<longleftrightarrow> 2047 * d \<le> 2 * n" if "0 < d" for d
  proof -
    have "1024 \<le> half_up n d \<longleftrightarrow> 2047 * d \<le> 2 * n" using half_up_iff [OF that, of 1024 n] by linarith
    then show ?thesis by (simp add: round_quot_def)
  qed
  show ?thesis
    unfolding format_size_def f using r [of "2 ^ 20"] r [of "2 ^ 10"]
    by (simp add: show_unit show_int_def)
qed



end
