(* ===== verification/Config.thy ===== *)
theory Config
  imports Json Sizes Pci "HOL-Library.AList" "HOL-Library.Char_ord" "HOL-Library.List_Lexorder"
begin

text \<open>
  cmd/invirtio/config.go: the devices that are enabled and the file that records them. A Go map is
  an association list with distinct keys, in the order of the map's iteration; a theorem that does
  not mention the order holds for any. A \<open>*Device\<close> is an option, which is \<open>None\<close> for nil.
\<close>

subsection \<open>Where things are\<close>

definition lib_dir :: string where "lib_dir = ''/usr/lib/invirtio''"
definition bin_path :: string where "bin_path = ''/usr/local/sbin/invirtio''"
definition config_dir :: string where "config_dir = ''/etc/invirtio''"
definition config_path :: string where "config_path = config_dir @ ''/devices.json''"
definition unit_path :: string where "unit_path = ''/etc/systemd/system/invirtio@.service''"
definition udev_rule_path :: string where "udev_rule_path = ''/etc/udev/rules.d/70-invirtio.rules''"
definition guest_user :: string where "guest_user = ''invirtio''"
definition run_dir :: string where "run_dir = ''/run/invirtio''"
definition log_tmpfs_options :: string where "log_tmpfs_options = ''size=33m,nr_inodes=8,mode=0700''"

definition guest_path :: string where "guest_path = path_join [lib_dir, ''linux'']"
definition initrd_path :: string where "initrd_path = path_join [lib_dir, ''initramfs.cpio'']"
definition launcher_path :: string where "launcher_path = path_join [lib_dir, ''invirtio-launch'']"
definition modinfo_path :: string where "modinfo_path = path_join [lib_dir, ''modules.builtin.modinfo'']"

definition log_dir :: "string \<Rightarrow> string" where "log_dir name = path_join [run_dir, name]"
definition log_path :: "string \<Rightarrow> string" where "log_path name = path_join [log_dir name, ''inflight'']"
definition mconsole_path :: "string \<Rightarrow> string" where
  "mconsole_path name = path_join [run_dir, name @ ''.mconsole'']"
definition console_path :: "string \<Rightarrow> string" where
  "console_path name = path_join [run_dir, name @ ''.console'']"

lemmas path_defs [go_defs] =
  lib_dir_def bin_path_def config_dir_def config_path_def unit_path_def udev_rule_path_def
  guest_user_def run_dir_def log_tmpfs_options_def guest_path_def initrd_path_def launcher_path_def
  modinfo_path_def log_dir_def log_path_def mconsole_path_def console_path_def


subsection \<open>Devices\<close>

record device =
  dv_address :: string
  dv_type :: string
  dv_memory :: string
  dv_memory_max :: int
  dv_options :: "string list"
  dv_args :: "string list"
  dv_irq_cpus :: string

definition new_device :: device where
  "new_device = \<lparr>dv_address = [], dv_type = [], dv_memory = [], dv_memory_max = 0, dv_options = [],
     dv_args = [], dv_irq_cpus = []\<rparr>"

type_synonym config = "(string \<times> device) list"

fun default_memory :: "string \<Rightarrow> string option" where
  "default_memory typ = (if typ = ''wlan'' \<or> typ = ''net'' then Some ''256M'' else None)"

definition dev_memory :: "device \<Rightarrow> string" where
  "dev_memory d = (if dv_memory d \<noteq> [] then dv_memory d
     else case default_memory (dv_type d) of None \<Rightarrow> [] | Some m \<Rightarrow> m)"

definition size_error :: "string \<Rightarrow> err" where
  "size_error s = Msg (''cannot parse the size '' @ go_quote s)"

definition memory_max :: "device \<Rightarrow> int res" where
  "memory_max d =
     (if dv_memory_max d > 0 then Inr (dv_memory_max d)
      else case parse_size (dev_memory d) of
          None \<Rightarrow> Inl (size_error (dev_memory d))
        | Some mem \<Rightarrow> Inr (wrap64 (mem + 512 * 2 ^ 20)))"

definition name_start :: "char \<Rightarrow> bool" where
  "name_start c \<longleftrightarrow> (97 \<le> code c \<and> code c \<le> 122) \<or> is_digit c"

definition name_re :: "string \<Rightarrow> bool" where
  "name_re s \<longleftrightarrow> s \<noteq> [] \<and> length s \<le> 32 \<and> name_start (hd s) \<and>
     list_all (\<lambda>c. name_start c \<or> c = CHR ''-'') (tl s)"

definition check_name :: "string \<Rightarrow> err option" where
  "check_name name =
     (if \<not> name_re name \<or> name = ''control'' \<or> name = ''invirtio''
      then Some (Msg (go_quote name @ '' is not a valid device name, which has up to 32 lowercase letters, digits and dashes''))
      else None)"

definition default_name :: "string \<Rightarrow> string \<Rightarrow> string" where
  "default_name typ addr =
     typ @ ''-'' @ map (\<lambda>c. if c = CHR '':'' \<or> c = CHR ''.'' then CHR ''-'' else c) (trim_prefix addr ''0000:'')"


subsection \<open>The configuration file\<close>

text \<open>
  \<open>Unmarshal\<close> into the struct: a key names a field in any case, null leaves a field as it is (and a
  pointer, a slice or a map nil), and a value of another type is an error, of which only that it
  occurred is modelled. An unknown key is ignored.
\<close>

definition set_string :: "string \<Rightarrow> json \<Rightarrow> string option" where
  "set_string old v = (case v of JStr s \<Rightarrow> Some s | JNull \<Rightarrow> Some old | _ \<Rightarrow> None)"

definition set_int64 :: "int \<Rightarrow> json \<Rightarrow> int option" where
  "set_int64 old v = (case v of JNum l \<Rightarrow> parse_int64 l | JNull \<Rightarrow> Some old | _ \<Rightarrow> None)"

fun set_elems :: "string list \<Rightarrow> json list \<Rightarrow> string list option" where
  "set_elems old [] = Some []"
| "set_elems old (v # vs) =
     (case set_string (case old of [] \<Rightarrow> [] | o' # _ \<Rightarrow> o') v of
        None \<Rightarrow> None
      | Some s \<Rightarrow> map_option ((#) s) (set_elems (tl old) vs))"

definition set_strings :: "string list \<Rightarrow> json \<Rightarrow> string list option" where
  "set_strings old v = (case v of JArr vs \<Rightarrow> set_elems old vs | JNull \<Rightarrow> Some [] | _ \<Rightarrow> None)"

definition set_field :: "device \<Rightarrow> string \<times> json \<Rightarrow> device option" where
  "set_field d m = (case m of (k, v) \<Rightarrow>
     (let f = to_lower k
      in if f = ''address'' then map_option (\<lambda>x. d\<lparr>dv_address := x\<rparr>) (set_string (dv_address d) v)
         else if f = ''type'' then map_option (\<lambda>x. d\<lparr>dv_type := x\<rparr>) (set_string (dv_type d) v)
         else if f = ''memory'' then map_option (\<lambda>x. d\<lparr>dv_memory := x\<rparr>) (set_string (dv_memory d) v)
         else if f = ''memory_max''
           then map_option (\<lambda>x. d\<lparr>dv_memory_max := x\<rparr>) (set_int64 (dv_memory_max d) v)
         else if f = ''options'' then map_option (\<lambda>x. d\<lparr>dv_options := x\<rparr>) (set_strings (dv_options d) v)
         else if f = ''args'' then map_option (\<lambda>x. d\<lparr>dv_args := x\<rparr>) (set_strings (dv_args d) v)
         else if f = ''irq_cpus'' then map_option (\<lambda>x. d\<lparr>dv_irq_cpus := x\<rparr>) (set_string (dv_irq_cpus d) v)
         else Some d))"

fun fold_opt :: "('a \<Rightarrow> 'b \<Rightarrow> 'a option) \<Rightarrow> 'a \<Rightarrow> 'b list \<Rightarrow> 'a option" where
  "fold_opt f a [] = Some a"
| "fold_opt f a (x # xs) = (case f a x of None \<Rightarrow> None | Some b \<Rightarrow> fold_opt f b xs)"

definition set_device :: "json \<Rightarrow> device option option" where
  "set_device v = (case v of
      JNull \<Rightarrow> Some None
    | JObj ms \<Rightarrow> map_option Some (fold_opt set_field new_device ms)
    | _ \<Rightarrow> None)"

definition set_entry ::
  "(string \<times> device option) list \<Rightarrow> string \<times> json \<Rightarrow> (string \<times> device option) list option" where
  "set_entry ds m = map_option (\<lambda>d. AList.update (fst m) d ds) (set_device (snd m))"

definition set_config ::
  "(string \<times> device option) list \<Rightarrow> string \<times> json \<Rightarrow> (string \<times> device option) list option" where
  "set_config ds m =
     (if to_lower (fst m) = ''devices'' then
        (case snd m of
           JNull \<Rightarrow> Some []
         | JObj es \<Rightarrow> fold_opt set_entry ds es
         | _ \<Rightarrow> None)
      else Some ds)"

definition unmarshal_config :: "string \<Rightarrow> (string \<times> device option) list option" where
  "unmarshal_config data = (case read_json data of
      Some (JObj ms) \<Rightarrow> fold_opt set_config [] ms
    | Some JNull \<Rightarrow> Some []
    | _ \<Rightarrow> None)"

definition config_error :: "string \<Rightarrow> err" where
  "config_error s = Msg (config_path @ '': '' @ s)"

text \<open>The check of the devices in the order of the map; the type of a nil device panics.\<close>

fun check_devices :: "(string \<times> device option) list \<Rightarrow> config res" where
  "check_devices [] = Inr []"
| "check_devices ((name, d) # ds) =
     (case check_name name of
        Some e \<Rightarrow> Inl (config_error (err_text e))
      | None \<Rightarrow>
          (case d of
             None \<Rightarrow> Inl (Panic ''invalid memory address or nil pointer dereference'')
           | Some d \<Rightarrow>
               if default_memory (dv_type d) = None
               then Inl (config_error (''device '' @ name @ '' has the unknown type '' @ go_quote (dv_type d)))
               else if \<not> valid_address (dv_address d)
               then Inl (config_error (''device '' @ name @ '' has the invalid address '' @ go_quote (dv_address d)))
               else (case check_devices ds of Inl e \<Rightarrow> Inl e | Inr c \<Rightarrow> Inr ((name, d) # c))))"

definition parse_config :: "string \<Rightarrow> config res" where
  "parse_config data = (case unmarshal_config data of
      None \<Rightarrow> Inl (config_error ''invalid configuration'')
    | Some ds \<Rightarrow> check_devices ds)"

definition load_config :: "config res io" where
  "load_config = do {
     r \<leftarrow> ask (ReadFile config_path);
     ret (case r of
            Inl e \<Rightarrow> if is_not_exist e then Inr [] else Inl e
          | Inr data \<Rightarrow> parse_config data)}"

definition names :: "config \<Rightarrow> string list" where
  "names c = sort (map fst c)"

definition device_json :: "device \<Rightarrow> json" where
  "device_json d = JObj (
     [(''address'', JStr (dv_address d)), (''type'', JStr (dv_type d))] @
     (if dv_memory d = [] then [] else [(''memory'', JStr (dv_memory d))]) @
     (if dv_memory_max d = 0 then [] else [(''memory_max'', JNum (show_int (dv_memory_max d)))]) @
     (if dv_options d = [] then [] else [(''options'', JArr (map JStr (dv_options d)))]) @
     (if dv_args d = [] then [] else [(''args'', JArr (map JStr (dv_args d)))]) @
     (if dv_irq_cpus d = [] then [] else [(''irq_cpus'', JStr (dv_irq_cpus d))]))"

definition config_json :: "config \<Rightarrow> json" where
  "config_json c = JObj [(''devices'', JObj (map (\<lambda>n. (n, device_json (the (map_of c n)))) (names c)))]"

definition config_text :: "config \<Rightarrow> string" where
  "config_text c = show_json 0 (config_json c)"

definition save_config :: "config \<Rightarrow> err option io" where
  "save_config c = do {
     e \<leftarrow> do_sys (MkdirAll config_dir 493);
     if e \<noteq> None then ret e
     else do {
       let tmp = config_path @ ''.tmp'';
       e \<leftarrow> do_sys (WriteFile tmp (config_text c @ [newline]) 420);
       if e \<noteq> None then ret e
       else do_sys (Rename tmp config_path)}}"

definition lookup_error :: "string \<Rightarrow> err" where
  "lookup_error key = Msg (''no device '' @ key @ '' is enabled'')"

definition lookup :: "config \<Rightarrow> string \<Rightarrow> (string \<times> device) res" where
  "lookup c key = (case map_of c key of
      Some d \<Rightarrow> Inr (key, d)
    | None \<Rightarrow> (case find (\<lambda>(n, d). dv_address d = key) c of
        Some nd \<Rightarrow> Inr nd
      | None \<Rightarrow> Inl (lookup_error key)))"

definition config_device :: "config \<Rightarrow> string \<Rightarrow> device res" where
  "config_device c name = (case map_of c name of
      Some d \<Rightarrow> Inr d
    | None \<Rightarrow> Inl (lookup_error name))"



subsection \<open>Reading the configuration\<close>

definition device_ok :: "string \<Rightarrow> device \<Rightarrow> bool" where
  "device_ok name d \<longleftrightarrow> check_name name = None \<and> dv_type d \<in> {''wlan'', ''net''} \<and> valid_address (dv_address d)"

lemma check_devices_Inr:
  "check_devices ds = Inr c \<Longrightarrow> map fst c = map fst ds \<and> list_all (\<lambda>(n, d). device_ok n d) c"
  by (induction ds arbitrary: c rule: check_devices.induct)
    (auto simp: device_ok_def split: option.splits if_splits sum.splits)

lemma check_devices_ok:
  "list_all (\<lambda>(n, d). device_ok n d) c \<Longrightarrow> check_devices (map (\<lambda>(n, d). (n, Some d)) c) = Inr c"
  by (induction c) (auto simp: device_ok_def)

lemma set_entry_distinct: "set_entry ds m = Some ds' \<Longrightarrow> distinct (map fst ds) \<Longrightarrow> distinct (map fst ds')"
  by (auto simp: set_entry_def distinct_update)

lemma fold_opt_inv: "fold_opt f a xs = Some b \<Longrightarrow> P a \<Longrightarrow> (\<And>a x b. f a x = Some b \<Longrightarrow> P a \<Longrightarrow> P b) \<Longrightarrow> P b"
  by (induction xs arbitrary: a) (auto split: option.splits)

lemma set_config_distinct: "set_config ds m = Some ds' \<Longrightarrow> distinct (map fst ds) \<Longrightarrow> distinct (map fst ds')"
  by (auto simp: set_config_def split: if_splits json.splits
      elim: fold_opt_inv [where P = "\<lambda>ds. distinct (map fst ds)"] dest: set_entry_distinct)

lemma unmarshal_distinct: "unmarshal_config data = Some ds \<Longrightarrow> distinct (map fst ds)"
  by (auto simp: unmarshal_config_def split: option.splits json.splits
      elim: fold_opt_inv [where P = "\<lambda>ds. distinct (map fst ds)"] dest: set_config_distinct)

lemma parse_config_ok:
  "parse_config data = Inr c \<Longrightarrow> distinct (map fst c) \<and> list_all (\<lambda>(n, d). device_ok n d) c"
  by (auto simp: parse_config_def split: option.splits dest!: unmarshal_distinct check_devices_Inr)


subsection \<open>Writing it and reading it back\<close>

lemma ascii_text_ok: "list_all (\<lambda>c. code c < 128) s \<Longrightarrow> text_ok s"
proof -
  assume a: "list_all (\<lambda>c. code c < 128) s"
  have "chars_of (encs (map code s)) = s"
    using a by (induction s) (simp_all add: chars_of_ascii)
  moreover have "list_all valid_rune (map code s)"
    using a by (auto simp: list_all_iff valid_rune_def)
  ultimately show ?thesis unfolding text_ok_def by metis
qed

definition device_text_ok :: "device \<Rightarrow> bool" where
  "device_text_ok d \<longleftrightarrow> text_ok (dv_address d) \<and> text_ok (dv_type d) \<and> text_ok (dv_memory d) \<and>
     in_int64 (dv_memory_max d) \<and> list_all text_ok (dv_options d) \<and> list_all text_ok (dv_args d) \<and>
     text_ok (dv_irq_cpus d)"

definition config_ok :: "config \<Rightarrow> bool" where
  "config_ok c \<longleftrightarrow> distinct (map fst c) \<and>
     list_all (\<lambda>(n, d). device_ok n d \<and> text_ok n \<and> device_text_ok d) c"

lemma members_ok_append [simp]: "members_ok (xs @ ys) \<longleftrightarrow> members_ok xs \<and> members_ok ys"
  by (induction xs) auto

lemma elems_ok_strings: "elems_ok (map JStr ss) \<longleftrightarrow> list_all text_ok ss"
  by (induction ss) auto

lemma device_json_ok: "device_text_ok d \<Longrightarrow> json_ok (device_json d)"
  unfolding device_json_def device_text_ok_def
  by (auto simp: elems_ok_strings intro!: ascii_text_ok)

lemma set_elems_strings: "set_elems [] (map JStr ss) = Some ss"
  by (induction ss) (simp_all add: set_string_def)

lemma fold_opt_append:
  "fold_opt f a (xs @ ys) = (case fold_opt f a xs of None \<Rightarrow> None | Some b \<Rightarrow> fold_opt f b ys)"
  by (induction xs arbitrary: a) (auto split: option.split)

lemma to_lower_keys [simp]:
  "to_lower ''address'' = ''address''" "to_lower ''type'' = ''type''" "to_lower ''memory'' = ''memory''"
  "to_lower ''memory_max'' = ''memory_max''" "to_lower ''options'' = ''options''" "to_lower ''args'' = ''args''"
  "to_lower ''irq_cpus'' = ''irq_cpus''" "to_lower ''devices'' = ''devices''"
  by (simp_all add: to_lower_def lower_char_def)

lemma set_device_json: "device_text_ok d \<Longrightarrow> set_device (device_json d) = Some (Some d)"
  unfolding set_device_def device_json_def json.case
  by (cases d) (auto simp: fold_opt_append set_field_def set_string_def set_int64_def set_strings_def
      set_elems_strings new_device_def device_text_ok_def parse_show_int)

lemma update_new: "k \<notin> set (map fst ds) \<Longrightarrow> AList.update k v ds = ds @ [(k, v)]"
  by (induction ds) auto

lemma fold_entries:
  "list_all (\<lambda>n. device_text_ok (f n)) ns \<Longrightarrow> distinct (map fst ds @ ns) \<Longrightarrow>
   fold_opt set_entry ds (map (\<lambda>n. (n, device_json (f n))) ns) = Some (ds @ map (\<lambda>n. (n, Some (f n))) ns)"
  by (induction ns arbitrary: ds) (auto simp: set_entry_def set_device_json update_new)

lemma names_of: "set (names c) = fst ` set c" "distinct (map fst c) \<Longrightarrow> distinct (names c)"
  by (simp_all add: names_def)

definition sorted_config :: "config \<Rightarrow> config" where
  "sorted_config c = map (\<lambda>n. (n, the (map_of c n))) (names c)"

lemma map_of_the: "distinct (map fst c) \<Longrightarrow> n \<in> fst ` set c \<Longrightarrow> (n, the (map_of c n)) \<in> set c"
  by auto

lemma parse_config_text:
  assumes "config_ok c"
  shows "parse_config (config_text c @ [newline]) = Inr (sorted_config c)"
proof -
  let ?f = "\<lambda>n. the (map_of c n)"
  have dist: "distinct (map fst c)" using assms by (simp add: config_ok_def)
  have ok: "device_ok n (?f n) \<and> text_ok n \<and> device_text_ok (?f n)" if "n \<in> set (names c)" for n
  proof -
    from map_of_the [OF dist, of n] that have "(n, ?f n) \<in> set c" by (simp add: names_of)
    with assms show ?thesis unfolding config_ok_def list_all_iff by fast
  qed
  have "members_ok (map (\<lambda>n. (n, device_json (?f n))) ns)" if "set ns \<subseteq> set (names c)" for ns
    using that by (induction ns) (auto simp: ok device_json_ok)
  then have "json_ok (config_json c)"
    by (simp add: config_json_def ascii_text_ok)
  then have "read_json (config_text c @ [newline]) = Some (config_json c)"
    unfolding config_text_def by (rule read_show_json) simp
  moreover have "fold_opt set_entry [] (map (\<lambda>n. (n, device_json (?f n))) (names c)) =
      Some ([] @ map (\<lambda>n. (n, Some (?f n))) (names c))"
    by (rule fold_entries) (use ok dist in \<open>auto simp: list_all_iff names_of\<close>)
  ultimately have "unmarshal_config (config_text c @ [newline]) = Some (map (\<lambda>n. (n, Some (?f n))) (names c))"
    by (simp add: unmarshal_config_def config_json_def set_config_def)
  moreover have "check_devices (map (\<lambda>n. (n, Some (?f n))) (names c)) = Inr (sorted_config c)"
    using check_devices_ok [of "sorted_config c"] ok by (simp add: sorted_config_def list_all_iff comp_def)
  ultimately show ?thesis by (simp add: parse_config_def)
qed

lemma map_of_sorted: "map_of (sorted_config c) = map_of c"
proof
  fix n
  show "map_of (sorted_config c) n = map_of c n"
  proof (cases "map_of c n")
    case None
    then have "n \<notin> set (names c)" by (simp add: names_of map_of_eq_None_iff)
    then have "map_of (sorted_config c) n = None"
      unfolding map_of_eq_None_iff by (auto simp: sorted_config_def)
    with None show ?thesis by simp
  next
    case (Some d)
    then have "n \<in> set (names c)" by (metis map_of_eq_None_iff names_of(1) option.distinct(1))
    then show ?thesis using Some by (simp add: sorted_config_def map_of_map_restrict)
  qed
qed



subsection \<open>Names and paths\<close>

lemma checked_name:
  assumes "check_name n = None"
  shows "plain_elem n" and "CHR ''.'' \<notin> set n" and "text_ok n" and "CHR '','' \<notin> set n"
proof -
  have re: "name_re n" using assms by (auto simp: check_name_def split: if_splits)
  then obtain c cs where n: "n = c # cs" by (cases n) (auto simp: name_re_def)
  with re have ch: "x \<in> set n \<Longrightarrow> name_start x \<or> x = CHR ''-''" for x
    by (auto simp: name_re_def list_all_iff)
  have bad: "\<not> name_start (CHR ''/'')" "\<not> name_start (CHR ''.'')" "\<not> name_start (CHR '','')"
    by (simp_all add: name_start_def is_digit_def)
  show d: "CHR ''.'' \<notin> set n" "CHR '','' \<notin> set n" using ch bad by fastforce+
  moreover have "CHR ''/'' \<notin> set n" using ch bad by fastforce
  ultimately show "plain_elem n" using n by (auto simp: plain_elem_def)
  have "code x < 128" if "x \<in> set n" for x
    using ch [OF that] by (auto simp: name_start_def is_digit_def)
  then show "text_ok n" by (simp add: ascii_text_ok list_all_iff)
qed

definition lock_path :: "string \<Rightarrow> string" where
  "lock_path name = path_join [run_dir, name @ ''.lock'']"

lemma run_path:
  assumes "plain_elem e"
  shows "path_join [run_dir, e] = ''/run/invirtio/'' @ e"
  using path_join_plain [of "[''run'', ''invirtio'']" "[e]"] assms
  by (simp add: run_dir_def plain_elem_def)

lemma plain_ext: "plain_elem n \<Longrightarrow> CHR ''.'' \<notin> set n \<Longrightarrow> CHR ''/'' \<notin> set x \<Longrightarrow> plain_elem (n @ CHR ''.'' # x)"
  by (auto simp: plain_elem_def append_eq_Cons_conv)

lemma device_paths:
  assumes "check_name n = None"
  shows "log_dir n = ''/run/invirtio/'' @ n"
    and "mconsole_path n = ''/run/invirtio/'' @ n @ ''.mconsole''"
    and "console_path n = ''/run/invirtio/'' @ n @ ''.console''"
    and "lock_path n = ''/run/invirtio/'' @ n @ ''.lock''"
  unfolding log_dir_def mconsole_path_def console_path_def lock_path_def
  by (simp_all add: run_path plain_ext checked_name [OF assms] del: append.simps)

lemma last_index_None: "c \<notin> set e \<Longrightarrow> last_index e c = None"
  by (induction e) auto

lemma last_index_append: "c \<notin> set e \<Longrightarrow> last_index (u @ c # e) c = Some (length u)"
  by (induction u) (simp_all add: last_index_None)

definition device_files :: "string \<Rightarrow> string list" where
  "device_files n = [log_dir n, mconsole_path n, console_path n, lock_path n]"

lemma dot_split:
  "CHR ''.'' \<notin> set m \<Longrightarrow> CHR ''.'' \<notin> set n \<Longrightarrow> m @ CHR ''.'' # x = n @ CHR ''.'' # y \<longleftrightarrow> m = n \<and> x = y"
proof -
  assume "CHR ''.'' \<notin> set m" "CHR ''.'' \<notin> set n"
  then have "cut (m @ CHR ''.'' # x) [CHR ''.''] = (m, x, True)" "cut (n @ CHR ''.'' # y) [CHR ''.''] = (n, y, True)"
    by (simp_all add: cut_char)
  then show ?thesis by (metis prod.inject)
qed

lemma dot_neq: "CHR ''.'' \<notin> set m \<Longrightarrow> m \<noteq> n @ CHR ''.'' # x" "CHR ''.'' \<notin> set m \<Longrightarrow> n @ CHR ''.'' # x \<noteq> m"
  by auto


subsection \<open>Properties\<close>

text \<open>
  C13 What \<open>loadConfig\<close> accepts is well formed: the devices have distinct names, each a valid device
  name, a type that has a backend and a valid PCI address, so that names and addresses can be used
  in paths and on command lines.
\<close>

theorem parse_config_wf:
  assumes "parse_config data = Inr c"
  shows "distinct (map fst c) \<and> list_all (\<lambda>(n, d). check_name n = None \<and> dv_type d \<in> {''wlan'', ''net''} \<and>
    valid_address (dv_address d) \<and> plain_elem n) c"
  using parse_config_ok [OF assms] by (auto simp: list_all_iff device_ok_def checked_name)

definition sample_config :: config where
  "sample_config = [(''wlan0'', new_device\<lparr>dv_address := ''0000:06:00.0'', dv_type := ''wlan'', dv_memory := ''1G'',
       dv_options := [''a=b'']\<rparr>),
     (''net0'', new_device\<lparr>dv_address := ''0000:05:00.1'', dv_type := ''net'', dv_memory_max := 7\<rparr>)]"

lemma sample_config_ok: "config_ok sample_config"
  by (simp add: config_ok_def sample_config_def device_ok_def device_text_ok_def new_device_def check_name_def
      name_re_def name_start_def is_digit_def valid_address_iff is_hex_def ascii_text_ok in_int64_def max_int64_def)

text \<open>
  C12 What \<open>save\<close> writes, \<open>loadConfig\<close> reads back: every device with all its fields, whatever valid
  UTF-8 its options and arguments hold, and in the sorted order in which it is written.
\<close>

theorem config_round_trip:
  assumes "config_ok c"
  shows "\<exists>c'. parse_config (config_text c @ [newline]) = Inr c' \<and> map_of c' = map_of c \<and> map fst c' = names c"
  using parse_config_text [OF assms] map_of_sorted [of c] by (simp add: sorted_config_def comp_def)

theorem config_round_trip_witness:
  "\<exists>c'. parse_config (config_text sample_config @ [newline]) = Inr c' \<and> map_of c' = map_of sample_config \<and>
     map fst c' = names sample_config"
  by (rule config_round_trip [OF sample_config_ok])

theorem parse_config_wf_witness:
  "distinct (map fst (sorted_config sample_config)) \<and> list_all (\<lambda>(n, d). check_name n = None \<and>
     dv_type d \<in> {''wlan'', ''net''} \<and> valid_address (dv_address d) \<and> plain_elem n) (sorted_config sample_config)"
  by (rule parse_config_wf [OF parse_config_text [OF sample_config_ok]])



text \<open>
  The memory limit of a guest is its memory and 512 MiB, except that for a memory above
  \<open>2^63 - 1 - 2^29\<close>, which \<open>parseSize\<close> accepts, the sum wraps and the limit is negative.
\<close>

theorem memory_max_default:
  assumes "dv_memory_max d \<le> 0" "parse_size (dev_memory d) = Some mem"
  shows "memory_max d = Inr (if mem \<le> max_int64 - 536870912 then mem + 536870912
    else mem + 536870912 - 18446744073709551616)"
proof -
  have m: "0 < mem \<and> mem \<le> max_int64"
  proof -
    from assms(2) obtain n k where "0 < n" "mem = n * 2 ^ k" "mem \<le> max_int64"
      unfolding parse_size_unfold by blast
    then show ?thesis by simp
  qed
  show ?thesis
  proof (cases "mem \<le> max_int64 - 536870912")
    case True
    with m have "wrap64 (mem + 536870912) = mem + 536870912" by (intro wrap64_id) (simp add: in_int64_def)
    with True assms show ?thesis by (simp add: memory_max_def)
  next
    case False
    with m have "wrap64 (mem + 536870912) = mem + 536870912 - 18446744073709551616"
      by (simp add: wrap64_def max_int64_def mod_pos_geq mod_pos_pos_trivial)
    with False assms show ?thesis by (simp add: memory_max_def)
  qed
qed

theorem memory_max_default_witness:
  "memory_max (new_device\<lparr>dv_memory := show_nat 9223372036854775807\<rparr>) = Inr (- 9223372036317904897)"
proof -
  have "unit_shift [] = Some 0" by simp
  then have "parse_size (show_nat 9223372036854775807) = Some 9223372036854775807"
    using parse_size_correct [of "show_nat 9223372036854775807" 9223372036854775807]
    by (auto simp: max_int64_def intro!: exI [of _ 9223372036854775807])
  then show ?thesis
    using memory_max_default [of "new_device\<lparr>dv_memory := show_nat 9223372036854775807\<rparr>" 9223372036854775807]
    by (simp add: new_device_def dev_memory_def max_int64_def)
qed

text \<open>The name part of an address: seven or twelve characters of which the separators are known.\<close>

definition name_part :: "string \<Rightarrow> string" where
  "name_part addr = map (\<lambda>c. if c = CHR '':'' \<or> c = CHR ''.'' then CHR ''-'' else c) (trim_prefix addr ''0000:'')"

lemma hex_plain: "is_hex c \<Longrightarrow> c \<noteq> CHR '':'' \<and> c \<noteq> CHR ''.'' \<and> name_start c"
  by (auto simp: is_hex_def is_digit_def name_start_def)

lemma name_part_cases:
  assumes "valid_address s"
  obtains a b c d e where "s = ''0000:'' @ [a, b, CHR '':'', c, d, CHR ''.'', e]"
      "name_part s = [a, b, CHR ''-'', c, d, CHR ''-'', e]" "list_all name_start [a, b, c, d, e]"
  | w x y z a b c d e where "s = [w, x, y, z, CHR '':'', a, b, CHR '':'', c, d, CHR ''.'', e]"
      "name_part s = [w, x, y, z, CHR ''-'', a, b, CHR ''-'', c, d, CHR ''-'', e]"
      "list_all name_start [w, x, y, z, a, b, c, d, e]"
proof -
  from assms obtain w x y z a b c d e where s: "s = [w, x, y, z, CHR '':'', a, b, CHR '':'', c, d, CHR ''.'', e]"
    and h: "list_all is_hex [w, x, y, z, a, b, c, d]" and e: "48 \<le> code e" "code e \<le> 55"
    unfolding valid_address_iff by blast
  have p: "\<And>v. v \<in> {w, x, y, z, a, b, c, d, e} \<Longrightarrow> v \<noteq> CHR '':'' \<and> v \<noteq> CHR ''.'' \<and> name_start v"
    using h digit_hex [OF e] hex_plain by auto
  show thesis
  proof (cases "[w, x, y, z] = ''0000''")
    case True
    then have "name_part s = [a, b, CHR ''-'', c, d, CHR ''-'', e]"
      using p by (simp add: name_part_def s trim_prefix_def)
    with True p s show thesis by (intro that(1) [of a b c d e]) simp_all
  next
    case False
    then have "trim_prefix s ''0000:'' = s" by (auto simp: s trim_prefix_def)
    then have "name_part s = [w, x, y, z, CHR ''-'', a, b, CHR ''-'', c, d, CHR ''-'', e]"
      using p by (simp add: name_part_def s)
    with p s show thesis by (intro that(2) [of w x y z a b c d e]) simp_all
  qed
qed

lemma name_part_inj:
  assumes "valid_address s" "valid_address t" "name_part s = name_part t"
  shows "s = t"
  by (cases rule: name_part_cases [OF assms(1)]; cases rule: name_part_cases [OF assms(2)])
    (use assms(3) in simp_all)

lemma default_name_part: "default_name typ addr = typ @ CHR ''-'' # name_part addr"
  by (simp add: default_name_def name_part_def)

text \<open>
  The default name of a device is always a valid name, and two devices never get the same
  default name, the ports of one card included.
\<close>

theorem default_names:
  assumes "valid_address a" "valid_address b" "typ \<in> {''wlan'', ''net''}" "typ' \<in> {''wlan'', ''net''}"
  shows "check_name (default_name typ a) = None \<and>
    (default_name typ a = default_name typ' b \<longleftrightarrow> typ = typ' \<and> a = b)"
proof -
  have dash: "name_start (CHR ''w'')" "name_start (CHR ''l'')" "name_start (CHR ''a'')" "name_start (CHR ''n'')"
    "name_start (CHR ''e'')" "name_start (CHR ''t'')"
    by (simp_all add: name_start_def)
  have "name_re (default_name typ a)"
    by (cases rule: name_part_cases [OF assms(1)])
      (use assms(3) dash in \<open>auto simp: default_name_part name_re_def\<close>)
  moreover have "default_name typ a \<notin> {''control'', ''invirtio''}"
    using assms(3) by (auto simp: default_name_part)
  moreover have "default_name typ a = default_name typ' b \<longleftrightarrow> typ = typ' \<and> a = b"
    using assms name_part_inj [of a b] by (auto simp: default_name_part)
  ultimately show ?thesis by (simp add: check_name_def)
qed

theorem default_names_witness:
  "check_name (default_name ''net'' ''0001:05:00.1'') = None \<and>
   default_name ''net'' ''0001:05:00.1'' \<noteq> default_name ''net'' ''0000:05:00.1''"
proof -
  have "valid_address ''0001:05:00.1''" "valid_address ''0000:05:00.1''"
    by (simp_all add: valid_address_iff is_hex_def is_digit_def)
  from default_names [OF this, of "''net''" "''net''"] show ?thesis by simp
qed

text \<open>
  The files of the devices never collide: the directory, the sockets and the lock of a device
  with a valid name are four different paths directly below /run/invirtio, and none of them is a
  path of another device.
\<close>

theorem device_files_distinct:
  assumes "check_name m = None" "check_name n = None"
  shows "distinct (device_files m) \<and> (m \<noteq> n \<longrightarrow> set (device_files m) \<inter> set (device_files n) = {}) \<and>
    list_all (\<lambda>p. path_dir p = run_dir) (device_files m)"
proof -
  note m = checked_name [OF assms(1)] and n = checked_name [OF assms(2)]
  have files: "device_files k = map ((@) ''/run/invirtio/'') [k, k @ ''.mconsole'', k @ ''.console'', k @ ''.lock'']"
    if "check_name k = None" for k
    using device_paths [OF that] by (simp add: device_files_def)
  have inj: "''/run/invirtio/'' @ x = ''/run/invirtio/'' @ y \<longleftrightarrow> x = y" for x y :: string by simp
  have dirs: "path_dir (''/run/invirtio/'' @ e) = run_dir" if "CHR ''/'' \<notin> set e" for e
  proof -
    have "last_index (''/run/invirtio'' @ CHR ''/'' # e) (CHR ''/'') = Some (length ''/run/invirtio'')"
      by (rule last_index_append [OF that])
    moreover have "path_clean ''/run/invirtio/'' = run_dir"
      by (simp add: path_clean_def run_dir_def)
    ultimately show ?thesis by (simp add: path_dir_def)
  qed
  show ?thesis
    unfolding files [OF assms(1)] files [OF assms(2)]
    using m n by (auto simp: dot_split dot_neq plain_elem_def dirs simp del: append.simps)
qed


theorem device_files_distinct_witness:
  "set (device_files ''net0'') \<inter> set (device_files ''net1'') = {}"
proof -
  have "check_name ''net0'' = None" "check_name ''net1'' = None"
    by (simp_all add: check_name_def name_re_def name_start_def is_digit_def)
  from device_files_distinct [OF this] show ?thesis by simp
qed

end
