(* ===== verification/Devices.thy ===== *)
theory Devices
  imports Flags Pci Vdpa Config
begin

text \<open>
  cmd/invirtio/devices.go: the commands enable, disable and uninstall. Each one looks at the host,
  computes the stages and runs them. The devices of a configuration are visited in the order of its
  list, where Go's order is unspecified.
\<close>

definition delete_device :: "config \<Rightarrow> string \<Rightarrow> config" where
  "delete_device cfg name = filter (\<lambda>(n, d). n \<noteq> name) cfg"

definition unit_of :: "string \<Rightarrow> string" where
  "unit_of name = ''invirtio@'' @ name @ ''.service''"

text \<open>\<open>os.Remove\<close>, where a file that does not exist is no error.\<close>

definition remove_file :: "string \<Rightarrow> err option io" where
  "remove_file p = do {
     e \<leftarrow> do_sys (Remove p);
     ret (case e of Some e \<Rightarrow> (if is_not_exist e then None else Some e) | None \<Rightarrow> None)}"

definition is_mount_point :: "string \<Rightarrow> bool io" where
  "is_mount_point dir = do {
     st \<leftarrow> sys (Stat dir);
     if \<not> succeeded st then ret False
     else do {
       parent \<leftarrow> sys (Stat (path_dir dir));
       if \<not> succeeded parent then ret False
       else ret (datum st \<noteq> datum parent)}}"


subsection \<open>Records of the enabled devices\<close>

text \<open>The configuration always marshals, so \<open>configAction\<close> returns no error.\<close>

definition config_action :: "config \<Rightarrow> action" where
  "config_action cfg = (write_action config_path (config_text cfg @ [newline]) 420)
     \<lparr>act_run := save_config cfg\<rparr>"

definition udev_rule :: "string \<Rightarrow> string" where
  "udev_rule addr = ''ACTION==\"add\", SUBSYSTEM==\"pci\", KERNEL==\"'' @ addr @
     ''\", ATTR{driver_override}=\"vfio-pci\"'' @ [newline]"

definition udev_text :: "config \<Rightarrow> string" where
  "udev_text cfg = ''# Written by invirtio enable and disable.'' @ newline #
     concat (map (\<lambda>name. udev_rule (dv_address (the (map_of cfg name)))) (names cfg))"

definition udev_actions :: "config \<Rightarrow> action list" where
  "udev_actions cfg = [
     (if cfg = [] then \<lparr>act_show = show_cmd ''rm'' [''-f'', udev_rule_path], act_run = remove_file udev_rule_path\<rparr>
      else write_action udev_rule_path (udev_text cfg) 420),
     cmd_action ''udevadm'' [''control'', ''--reload'']]"


subsection \<open>enable\<close>

definition check_shared :: "string \<Rightarrow> string \<Rightarrow> string \<times> device \<Rightarrow> err option io" where
  "check_shared addr grp = (\<lambda>(n, d). do {
     g \<leftarrow> iommu_group (dv_address d);
     ret (case g of
         Inl _ \<Rightarrow> None
       | Inr g \<Rightarrow> (if g = grp \<and> dv_address d \<noteq> addr
           then Some (Msg (addr @ '' is in IOMMU group '' @ grp @ '' with '' @ dv_address d @
             '', which is enabled as '' @ n))
           else None))})"

text \<open>The checks, and what they found: the address, the type, the guest's driver, the configuration.\<close>

definition enable_checks :: "string \<Rightarrow> string \<Rightarrow> (string \<times> string \<times> string \<times> config) res io" where
  "enable_checks arg memory =
     (case normalize_address arg of
        Inl e \<Rightarrow> ret (Inl e)
      | Inr addr \<Rightarrow> do {
          installed \<leftarrow> stat_ok guest_path;
          if \<not> installed then ret (Inl (Msg ''InvirtIO is not installed, run invirtio install''))
          else try_res (pci_type addr) (\<lambda>typ.
            try_res (guest_driver addr modinfo_path) (\<lambda>drv.
              try_err (check_group addr)
                (if memory \<noteq> [] \<and> parse_size memory = None then ret (Inl (size_error memory))
                 else try_res load_config (\<lambda>cfg. do {
                   g \<leftarrow> iommu_group addr;
                   let grp = (case g of Inl _ \<Rightarrow> [] | Inr s \<Rightarrow> s);
                   try_err (first_error (check_shared addr grp) cfg) (ret (Inr (addr, typ, drv, cfg)))}))))})"

text \<open>The name, the configuration and the actions that record it.\<close>

definition enable_record ::
    "config \<Rightarrow> string \<Rightarrow> string \<Rightarrow> string \<Rightarrow> string \<Rightarrow> (string \<times> config \<times> action list) res" where
  "enable_record cfg name memory addr typ =
     (case lookup cfg addr of
        Inr (n, d) \<Rightarrow>
          (if (name \<noteq> [] \<and> name \<noteq> n) \<or> (memory \<noteq> [] \<and> memory \<noteq> dv_memory d)
           then Inl (Msg (addr @ '' is already recorded as '' @ n @ '', disable it to change it''))
           else Inr (n, cfg, []))
      | Inl _ \<Rightarrow>
          (let name = (if name = [] then default_name typ addr else name)
           in case check_name name of
                Some e \<Rightarrow> Inl e
              | None \<Rightarrow>
                  (if map_of cfg name \<noteq> None
                   then Inl (Msg (''a device named '' @ name @ '' is already enabled''))
                   else let cfg' = cfg @ [(name, new_device\<lparr>dv_address := addr, dv_type := typ, dv_memory := memory\<rparr>)]
                        in Inr (name, cfg', [config_action cfg']))))"

definition enable_stages :: "string \<Rightarrow> config \<Rightarrow> action list \<Rightarrow> stage list" where
  "enable_stages name cfg record = [
     \<lparr>st_title = ''record the device as '' @ name, st_notes = [], st_actions = record\<rparr>,
     \<lparr>st_title = ''start the guest now and at every boot'',
      st_notes = ''The service then moves the device to vfio-pci, starts the guest as the'' @ newline #
        guest_user @ '' user, and attaches the guest's device with vdpa dev add.'',
      st_actions = [cmd_action ''systemctl'' [''enable'', ''--now'', unit_of name]]\<rparr>,
     \<lparr>st_title = ''keep the host's driver from the device at boot'', st_notes = [],
      st_actions = udev_actions cfg\<rparr>]"

definition plan_flags :: flag_set where
  "plan_flags = [(''n'', BoolFlag), (''y'', BoolFlag)]"

definition enable_flags :: flag_set where
  "enable_flags = [(''name'', StringFlag), (''memory'', StringFlag), (''n'', BoolFlag), (''y'', BoolFlag)]"

definition enable_usage :: string where
  "enable_usage = ''usage: invirtio enable [-n] [-y] [-name <name>] [-memory <size>] <pci address>'' @ [newline, newline] @
     ''Run the device's driver in a guest, now and at every boot, and export the'' @ newline #
     ''device to the host as a virtio device. The host's own driver lets go of it.'' @ newline #
     ''Each stage shows its commands and waits for Enter before it runs them.'' @ newline #
     ''Enabling a device that is already recorded finishes enabling it.'' @ [newline]"

text \<open>\<open>requireRoot\<close>, which a dry run leaves out, and what follows it.\<close>

definition as_root :: "bool \<Rightarrow> outcome io \<Rightarrow> outcome io" where
  "as_root dry m = do {
     ok \<leftarrow> (if dry then ret True else require_root);
     if ok then m else ret (Exited 1)}"

definition or_no_driver :: "string \<Rightarrow> string" where
  "or_no_driver drv = (if drv = [] then ''no driver'' else drv)"

definition enable_device :: "string \<Rightarrow> string \<Rightarrow> bool \<Rightarrow> bool \<Rightarrow> string \<Rightarrow> outcome io" where
  "enable_device name memory dry yes arg = do {
     r \<leftarrow> enable_checks arg memory;
     (case r of
        Inl e \<Rightarrow> ret (Returned (Some e))
      | Inr (addr, typ, drv, cfg) \<Rightarrow>
          (case enable_record cfg name memory addr typ of
             Inl e \<Rightarrow> ret (Returned (Some e))
           | Inr (name, cfg', record) \<Rightarrow> do {
               d \<leftarrow> pci_driver addr;
               _ \<leftarrow> println (addr @ '' is a '' @ typ @ '' device, which the guest drives with '' @ drv @
                 ''. On the host it has '' @ or_no_driver d @ ''.'' @ [newline]);
               e \<leftarrow> run_stages (enable_stages name cfg' record) dry yes;
               if e \<noteq> None then ret (Returned e)
               else do {
                 _ \<leftarrow> (if dry then ret () else println (newline # ''Enabled '' @ name @
                   ''. Check it with: invirtio status '' @ name));
                 ret (Returned None)}}))}"

definition cmd_enable :: "string list \<Rightarrow> outcome io" where
  "cmd_enable args =
     (case parse_flags enable_flags Map.empty args of
        Inl n \<Rightarrow> usage_exit enable_usage n
      | Inr (v, rest) \<Rightarrow>
          if length rest \<noteq> 1 then usage_exit enable_usage 2
          else as_root (flag_bool v ''n'')
            (enable_device (flag_string v ''name'') (flag_string v ''memory'') (flag_bool v ''n'') (flag_bool v ''y'')
              (hd rest)))"


subsection \<open>disable\<close>

definition unmount_once :: "string \<Rightarrow> nat \<Rightarrow> err option option io" where
  "unmount_once name n = do {
     m \<leftarrow> is_mount_point (log_dir name);
     if \<not> m then ret (Some None)
     else do {
       e \<leftarrow> do_sys (Unmount (log_dir name));
       if e = None \<or> \<not> is_busy (the e) \<or> n = 100 then ret (Some e)
       else do {
         _ \<leftarrow> sys (Sleep 10);
         ret None}}}"

definition unmount_log :: "string \<Rightarrow> err option io" where
  "unmount_log name = do {
     r \<leftarrow> loop 101 (unmount_once name) 0;
     ret (case r of Some e \<Rightarrow> e | None \<Rightarrow> Some (Panic ''the loop did not return''))}"

definition stop_unit :: "string \<Rightarrow> err option io" where
  "stop_unit unit = do {
     e \<leftarrow> command_run ''systemctl'' [''disable'', ''--now'', unit];
     if e = None then ret None
     else do {
       s \<leftarrow> do_sys (Stat unit_path);
       if s \<noteq> None \<and> is_not_exist (the s) then do {
         _ \<leftarrow> command_run ''systemctl'' [''stop'', unit];
         ret None}
       else ret e}}"

definition present :: "string \<Rightarrow> bool io" where
  "present addr = stat_ok (pci_path addr [])"

definition on_vfio :: "string \<Rightarrow> bool io" where
  "on_vfio addr = do {d \<leftarrow> pci_driver addr; ret (d = ''vfio-pci'')}"

definition unbound :: "string \<Rightarrow> bool io" where
  "unbound addr = do {
     p \<leftarrow> present addr;
     if p then do {d \<leftarrow> pci_driver addr; ret (d = [])} else ret False}"

definition stop_stage :: "string \<Rightarrow> stage" where
  "stop_stage name =
     \<lparr>st_title = name @ '': stop the guest and keep it from starting at boot'',
      st_notes = ''On stop, the service removes the device from the host before it stops'' @ newline # ''the guest.'',
      st_actions = [\<lparr>act_show = show_cmd ''systemctl'' [''disable'', ''--now'', unit_of name],
        act_run = stop_unit (unit_of name)\<rparr>]\<rparr>"

definition leftovers_stage :: "string \<Rightarrow> stage" where
  "leftovers_stage name =
     \<lparr>st_title = name @ '': remove what a failed guest left on the host'',
      st_notes = ''A step is skipped when there is nothing for it to remove.'',
      st_actions = [
        sysfs_action (''/sys/class/vduse/'' @ name @ ''/msg_timeout'') ''1'' (Some (vdpa_attached name)),
        \<lparr>act_show = show_cmd ''vdpa'' [''dev'', ''del'', name], act_run = vdpa_remove name True\<rparr>,
        \<lparr>act_show = ''# the VDUSE_DESTROY_DEV ioctl for '' @ name @ '' on /dev/vduse/control, which no command makes'',
         act_run = vdpa_destroy name\<rparr>,
        \<lparr>act_show = show_cmd ''rm'' [''-f'', log_path name], act_run = remove_file (log_path name)\<rparr>,
        \<lparr>act_show = show_cmd ''umount'' [log_dir name], act_run = unmount_log name\<rparr>,
        \<lparr>act_show = show_cmd ''rmdir'' [log_dir name], act_run = remove_file (log_dir name)\<rparr>]\<rparr>"

definition return_stage :: "string \<Rightarrow> string \<Rightarrow> stage" where
  "return_stage name addr =
     \<lparr>st_title = name @ '': return '' @ addr @ '' to its host driver'',
      st_notes = ''The unbind is skipped unless vfio-pci has the device, and the probe'' @ newline #
        ''unless no driver has it. All three are skipped for a device that is gone'' @ newline #
        ''from the PCI bus.'',
      st_actions = [
        sysfs_action (pci_path addr ''driver_override'') [] (Some (present addr)),
        sysfs_action (pci_path addr ''driver/unbind'') addr (Some (on_vfio addr)),
        sysfs_action ''/sys/bus/pci/drivers_probe'' addr (Some (unbound addr))]\<rparr>"

definition disable_stages :: "string \<Rightarrow> device \<Rightarrow> stage list" where
  "disable_stages name dev = [stop_stage name, leftovers_stage name, return_stage name (dv_address dev)]"

definition disable_plan :: "config \<Rightarrow> string \<Rightarrow> device \<Rightarrow> stage list" where
  "disable_plan cfg name dev = (let cfg' = delete_device cfg name in
     [\<lparr>st_title = ''let the host's driver take the device at boot'', st_notes = [], st_actions = udev_actions cfg'\<rparr>] @
     disable_stages name dev @
     [\<lparr>st_title = ''forget the device'', st_notes = [], st_actions = [config_action cfg']\<rparr>])"

definition disable_usage :: string where
  "disable_usage = ''usage: invirtio disable [-n] [-y] <name | pci address>'' @ [newline, newline] @
     ''Stop the device's guest and return the device to its host driver. Each'' @ newline #
     ''stage shows its commands and waits for Enter before it runs them.'' @ [newline]"

definition disable_key :: "string \<Rightarrow> string" where
  "disable_key arg = (let key = to_lower arg in
     case normalize_address key of Inr addr \<Rightarrow> addr | Inl _ \<Rightarrow> key)"

definition disable_device :: "bool \<Rightarrow> bool \<Rightarrow> string \<Rightarrow> outcome io" where
  "disable_device dry yes arg = do {
     c \<leftarrow> load_config;
     (case c of
        Inl e \<Rightarrow> ret (Returned (Some e))
      | Inr cfg \<Rightarrow>
          (case lookup cfg (disable_key arg) of
             Inl e \<Rightarrow> ret (Returned (Some e))
           | Inr (name, dev) \<Rightarrow> do {
               e \<leftarrow> run_stages (disable_plan cfg name dev) dry yes;
               if e \<noteq> None then ret (Returned e)
               else if dry then ret (Returned None)
               else do {
                 d \<leftarrow> pci_driver (dv_address dev);
                 _ \<leftarrow> println (newline # ''Disabled '' @ name @ ''. '' @ dv_address dev @ '' now has '' @ or_no_driver d @ ''.'');
                 ret (Returned None)}}))}"

definition cmd_disable :: "string list \<Rightarrow> outcome io" where
  "cmd_disable args =
     (case parse_flags plan_flags Map.empty args of
        Inl n \<Rightarrow> usage_exit disable_usage n
      | Inr (v, rest) \<Rightarrow>
          if length rest \<noteq> 1 then usage_exit disable_usage 2
          else as_root (flag_bool v ''n'') (disable_device (flag_bool v ''n'') (flag_bool v ''y'') (hd rest)))"


subsection \<open>uninstall\<close>

definition uninstall_usage :: string where
  "uninstall_usage = ''usage: invirtio uninstall [-n] [-y]'' @ [newline, newline] @
     ''Disable every device, returning it to its host driver, and remove what'' @ newline #
     ''install added. Each stage shows its commands and waits for Enter before it'' @ newline # ''runs them.'' @ [newline]"

definition remove_actions :: "bool \<Rightarrow> action list" where
  "remove_actions has_user = (if has_user then [cmd_action ''userdel'' [guest_user]] else []) @ [
     cmd_action ''rm'' [''-f'', unit_path],
     cmd_action ''systemctl'' [''daemon-reload''],
     cmd_action ''udevadm'' [''control'', ''--reload''],
     cmd_action ''rm'' [''-rf'', lib_dir, config_dir, run_dir],
     cmd_action ''rm'' [''-f'', bin_path]]"

definition uninstall_stages :: "config \<Rightarrow> bool \<Rightarrow> stage list" where
  "uninstall_stages cfg has_user =
     [\<lparr>st_title = ''let the host's drivers take the devices at boot'', st_notes = [], st_actions = udev_actions []\<rparr>] @
     concat (map (\<lambda>name. disable_stages name (the (map_of cfg name))) (names cfg)) @
     [\<lparr>st_title = ''remove InvirtIO'', st_notes = [], st_actions = remove_actions has_user\<rparr>]"

definition uninstall :: "bool \<Rightarrow> bool \<Rightarrow> outcome io" where
  "uninstall dry yes = do {
     c \<leftarrow> load_config;
     (case c of
        Inl e \<Rightarrow> ret (Returned (Some e))
      | Inr cfg \<Rightarrow> do {
          u \<leftarrow> sys (LookupUser guest_user);
          e \<leftarrow> run_stages (uninstall_stages cfg (succeeded u)) dry yes;
          if e \<noteq> None then ret (Returned e)
          else do {
            _ \<leftarrow> (if dry then ret () else println (newline # ''Uninstalled InvirtIO.''));
            ret (Returned None)}})}"

definition cmd_uninstall :: "string list \<Rightarrow> outcome io" where
  "cmd_uninstall args =
     (case parse_flags plan_flags Map.empty args of
        Inl n \<Rightarrow> usage_exit uninstall_usage n
      | Inr (v, rest) \<Rightarrow>
          if rest \<noteq> [] then usage_exit uninstall_usage 2
          else as_root (flag_bool v ''n'') (uninstall (flag_bool v ''n'') (flag_bool v ''y'')))"


subsection \<open>Where a disabled device is left\<close>

definition still :: "string \<Rightarrow> string \<Rightarrow> call \<Rightarrow> bool" where
  "still native addr c \<longleftrightarrow> (\<forall>d. dev_step native addr d c = d)"

lemma dev_after_still: "only (still n a) t \<Longrightarrow> dev_after n a d (h @ t) = dev_after n a d h"
proof (induction t rule: rev_induct)
  case (snoc x t)
  obtain c r where x: "x = (c, r)" by (cases x)
  show ?case using snoc by (simp add: x still_def dev_after_def)
qed simp

text \<open>An operation that leaves the device alone, with a result that nothing depends on.\<close>

lemma moves_bind_still:
  assumes "emits m (\<lambda>x. only (still n a))" "\<And>x. moves n a d0 e d (f x) y d'"
  shows "moves n a d0 e d (m \<bind> f) y d'"
  unfolding moves_def
proof (intro allI impI, elim conjE)
  fix w :: world
  assume w: "env w = e" "dev_after n a d0 (hist w) = d"
  obtain x w1 where m: "run_state m w = (x, w1)" by fastforce
  from emitsD [OF assms(1) m] obtain t where "env w1 = env w" "hist w1 = hist w @ t" "only (still n a) t" by auto
  then have "env w1 = e" "dev_after n a d0 (hist w1) = d" using w dev_after_still [of n a t d0 "hist w"] by auto
  with assms(2) [of x] m show "fst (run_state (m \<bind> f) w) = y \<and> env (snd (run_state (m \<bind> f) w)) = e \<and>
      dev_after n a d0 (hist (snd (run_state (m \<bind> f) w))) = d'"
    by (simp add: moves_def run_bind)
qed

lemma moves_print: "quiet m \<Longrightarrow> (\<And>x. moves n a d0 e d (f x) y d') \<Longrightarrow> moves n a d0 e d (m \<bind> f) y d'"
proof (rule moves_bind_still)
  assume "quiet m"
  moreover have "still n a c" if "is_print c" for c
    using that by (cases c) (auto simp: is_print_def still_def)
  ultimately show "emits m (\<lambda>x. only (still n a))"
    unfolding quiet_def by (auto elim!: emits_mono only_mono)
qed

lemma moves_stat: "pci_kernel n a d0 e \<Longrightarrow> moves n a d0 e d (stat_ok p) True d"
  by (simp add: moves_def stat_ok_def run_bind run_sys run_ret pci_kernel_def)

lemma moves_exec: "pci_kernel n a d0 e \<Longrightarrow> moves n a d0 e d (command_run p xs) None d"
  by (simp add: moves_def command_run_def run_bind run_sys run_ret pci_kernel_def)

lemma moves_do: "pci_kernel n a d0 e \<Longrightarrow> still n a c \<Longrightarrow> c \<noteq> Readlink (pci_path a ''driver'') \<Longrightarrow>
    moves n a d0 e d (do_sys c) None d"
  using moves_do_sys [of n a d0 e c d] by (simp add: still_def)

lemma moves_remove_file: "pci_kernel n a d0 e \<Longrightarrow> moves n a d0 e d (remove_file p) None d"
  unfolding remove_file_def
  by (rule moves_bind [OF moves_do]) (auto simp: still_def moves_ret)

lemma moves_stop: "pci_kernel n a d0 e \<Longrightarrow> moves n a d0 e d (stop_unit u) None d"
  unfolding stop_unit_def by (rule moves_bind [OF moves_exec]) (auto simp: moves_ret)

lemma moves_vdpa_destroy:
  assumes k: "pci_kernel n a d0 e"
  shows "moves n a d0 e d (vdpa_destroy name) None d"
proof -
  note do = moves_do [OF k]
  have once: "moves n a d0 e d (destroy_once name 0) (Some None) d"
    unfolding destroy_once_def by (rule moves_bind [OF do]) (auto simp: still_def moves_ret)
  have "moves n a d0 e d (loop 101 (destroy_once name) 0) (Some None) d"
    unfolding loop_numeral by (rule moves_bind [OF once]) (simp add: moves_ret)
  then show ?thesis
    unfolding vdpa_destroy_def vduse_exists_def
    apply (intro moves_bind [OF moves_stat [OF k]])
    apply (simp only: simp_thms if_False)
    apply (rule moves_bind [OF do], simp add: still_def, simp, simp only: option.case)
    apply (erule moves_bind, rule moves_bind_still)
     apply (auto simp: still_def moves_ret intro!: emits_sys)
    done
qed

lemma path_under:
  assumes "valid_address a" "c \<noteq> CHR ''b''"
  shows "still n a (WriteTo (''/sys/'' @ c # p) v)"
  using assms(2) by (auto simp: still_def pci_paths [OF assms(1)])

lemma moves_vdpa_remove:
  assumes k: "pci_kernel n a d0 e" and v: "valid_address a" and name: "check_name name = None"
  shows "moves n a d0 e d (vdpa_remove name True) None d"
proof -
  have p: "path_join [''/sys/class/vduse'', name, ''msg_timeout''] = ''/sys/class/vduse/'' @ name @ ''/msg_timeout''"
    using path_join_plain [of "[''sys'', ''class'', ''vduse'']" "[name, ''msg_timeout'']"] checked_name [OF name]
    by (simp add: plain_elem_def)
  have s: "still n a (WriteTo (''/sys/class/vduse/'' @ name @ ''/msg_timeout'') x)" for x
    using path_under [OF v, of "CHR ''c''" n "''lass/vduse/'' @ name @ ''/msg_timeout''" x] by simp
  have w: "moves n a d0 e d (sysfs_write (path_join [''/sys/class/vduse'', name, ''msg_timeout'']) ''1'') None d"
    using moves_write [OF k, of d "path_join [''/sys/class/vduse'', name, ''msg_timeout'']" "''1''"] s
    unfolding p by (simp add: still_def)
  show ?thesis
    unfolding vdpa_remove_def vdpa_attached_def
    by (rule moves_bind [OF moves_stat [OF k]], simp only: simp_thms if_False if_True,
        rule moves_bind [OF w], rule moves_exec [OF k])
qed

lemma still_calls [simp]:
  "still n a (Stat p)" "still n a (Sleep k)" "still n a (Unmount p)" "still n a ReadLine" "still n a IsTerminal"
  by (simp_all add: still_def)

lemma moves_unmount:
  assumes k: "pci_kernel n a d0 e"
  shows "moves n a d0 e d (unmount_log name) None d"
proof -
  have m: "emits (is_mount_point p) (\<lambda>x. only (still n a))" for p
    unfolding is_mount_point_def by (intro emits_steps) auto
  have once: "moves n a d0 e d (unmount_once name 0) (Some None) d"
    unfolding unmount_once_def
    by (rule moves_bind_still [OF m]) (auto simp: moves_ret intro!: moves_bind [OF moves_do [OF k]])
  have "moves n a d0 e d (loop 101 (unmount_once name) 0) (Some None) d"
    unfolding loop_numeral by (rule moves_bind [OF once]) (simp add: moves_ret)
  then show ?thesis
    unfolding unmount_log_def by (rule moves_bind) (simp add: moves_ret)
qed

lemma moves_sysfs_action:
  assumes k: "pci_kernel n a d0 e" and f: "moves n a d0 e d f b d"
  shows "moves n a d0 e d (act_run (sysfs_action p v (Some f))) None
    (if b then dev_step n a d (WriteTo p (v @ [newline])) else d)"
proof -
  have "moves n a d0 e d (if \<not> b then ret None else sysfs_write p (v @ [newline])) None
      (if b then dev_step n a d (WriteTo p (v @ [newline])) else d)"
    by (cases b) (simp_all only: simp_thms if_True if_False moves_write [OF k] moves_ret)
  then show ?thesis
    unfolding sysfs_action_def action.select_convs option.case by (rule moves_bind [OF f])
qed

lemma moves_present: "pci_kernel n a d0 e \<Longrightarrow> moves n a d0 e d (present addr) True d"
  by (simp add: present_def moves_stat)

lemma moves_on_vfio: "pci_kernel n a d0 e \<Longrightarrow> moves n a d0 e d (on_vfio a) (pd_driver d = ''vfio-pci'') d"
  unfolding on_vfio_def by (rule moves_bind [OF moves_driver]) (simp_all add: moves_ret)

lemma moves_unbound: "pci_kernel n a d0 e \<Longrightarrow> moves n a d0 e d (unbound a) (pd_driver d = []) d"
  unfolding unbound_def
  by (rule moves_bind [OF moves_present]) (auto intro!: moves_bind [OF moves_driver] simp: moves_ret)

lemma moves_first_Nil: "moves n a d0 e d (first_error f []) None d"
  by (simp add: moves_ret)

lemma moves_first_Cons:
  "moves n a d0 e d (f x) None d' \<Longrightarrow> moves n a d0 e d' (first_error f xs) None d'' \<Longrightarrow>
   moves n a d0 e d (first_error f (x # xs)) None d''"
  by (auto intro!: moves_bind)

lemma moves_first_all:
  "list_all (\<lambda>x. moves n a d0 e d (f x) None d) xs \<Longrightarrow> moves n a d0 e d (first_error f xs) None d"
  by (induction xs) (auto simp: moves_ret intro!: moves_bind [where x = None and d' = d])

text \<open>Stages that are confirmed, each of which leaves the device where the next one finds it.\<close>

lemma moves_stages_Cons:
  assumes k: "pci_kernel n a d0 e" and s: "moves n a d0 e d (first_error act_run (st_actions s)) None d'"
    and rest: "moves n a d0 e d' (stages_from (Suc i) m False yes ss) None d''"
  shows "moves n a d0 e d (stages_from i m False yes (s # ss)) None d''"
proof -
  have ask: "moves n a d0 e d (do {
      _ \<leftarrow> print ''Press Enter to run these, or Ctrl-C to stop. '';
      r \<leftarrow> sys ReadLine;
      ret (succeeded r)}) True d"
  proof (rule moves_print)
    show "moves n a d0 e d (do {r \<leftarrow> sys ReadLine; ret (succeeded r)}) True d"
      using k by (simp add: moves_def run_bind run_sys run_ret pci_kernel_def)
  qed auto
  have ok: "moves n a d0 e d (if yes then ret True else do {
      _ \<leftarrow> print ''Press Enter to run these, or Ctrl-C to stop. '';
      r \<leftarrow> sys ReadLine;
      ret (succeeded r)}) True d"
    using ask by (simp add: moves_ret)
  have go: "moves n a d0 e d (do {
      ok \<leftarrow> (if yes then ret True else do {
        _ \<leftarrow> print ''Press Enter to run these, or Ctrl-C to stop. '';
        r \<leftarrow> sys ReadLine;
        ret (succeeded r)});
      if \<not> ok then ret (Some (Msg ''stopped before the stage ran''))
      else do {
        e \<leftarrow> first_error act_run (st_actions s);
        if e \<noteq> None then ret e else stages_from (Suc i) m False yes ss}}) None d''"
    by (rule moves_bind [OF ok]) (simp only: simp_thms if_False, rule moves_bind [OF s], simp add: rest)
  have skip: "moves n a d0 e d (stages_from (Suc i) m False yes ss) None d''" if "st_actions s = []"
    using moves_bind [OF s rest] that by (simp add: State_Monad.bind_def State_Monad.return_def)
  show ?thesis
    unfolding stages_from.simps if_False
    apply (rule moves_print [OF quiet_show(2)])
    apply (cases "st_actions s = []")
     apply (simp only: simp_thms if_True, rule moves_print [OF quiet_print(2) skip], assumption)
    apply (simp only: simp_thms if_False, rule moves_print [OF quiet_for_each [OF quiet_show(1)] go])
    done
qed

lemma moves_run_stages:
  assumes k: "pci_kernel n a d0 e" and s: "moves n a d0 e d (stages_from 0 (length ss) False yes ss) None d'"
  shows "moves n a d0 e d (run_stages ss False yes) None d'"
proof -
  have "moves n a d0 e d (do {r \<leftarrow> sys IsTerminal; ret (succeeded r)}) True d"
    using k by (simp add: moves_def run_bind run_sys run_ret pci_kernel_def)
  then have "moves n a d0 e d (if \<not> False \<and> \<not> yes then do {r \<leftarrow> sys IsTerminal; ret (succeeded r)} else ret True) True d"
    by (simp add: moves_ret)
  then show ?thesis
    unfolding run_stages_def
    apply (rule moves_bind)
    apply (simp only: simp_thms if_False, rule moves_bind [OF s], simp only: simp_thms if_False)
    apply (rule moves_bind [OF moves_ret])
    apply (rule moves_ret)
    done
qed

lemma moves_stop_stage:
  "pci_kernel n a d0 e \<Longrightarrow> moves n a d0 e d (first_error act_run (st_actions (stop_stage name))) None d"
  by (rule moves_first_all) (simp add: stop_stage_def moves_stop)

lemma moves_leftovers:
  assumes k: "pci_kernel n a d0 e" and v: "valid_address a" and name: "check_name name = None"
  shows "moves n a d0 e d (first_error act_run (st_actions (leftovers_stage name))) None d"
proof -
  have "still n a (WriteTo (''/sys/class/vduse/'' @ name @ ''/msg_timeout'') x)" for x
    using path_under [OF v, of "CHR ''c''" n "''lass/vduse/'' @ name @ ''/msg_timeout''" x] by simp
  then have "moves n a d0 e d (act_run (sysfs_action (''/sys/class/vduse/'' @ name @ ''/msg_timeout'') ''1''
      (Some (vdpa_attached name)))) None d"
    using moves_sysfs_action [OF k moves_stat [OF k], of d "''/sys/class/vduse/'' @ name @ ''/msg_timeout''" "''1''"]
    unfolding vdpa_attached_def by (simp only: if_True still_def)
  then show ?thesis
    by (intro moves_first_all) (simp add: leftovers_stage_def moves_vdpa_remove [OF k v name]
        moves_vdpa_destroy [OF k] moves_remove_file [OF k] moves_unmount [OF k] del: append.simps)
qed

lemma moves_return:
  assumes k: "pci_kernel native addr d0 e" and v: "valid_address addr"
  shows "moves native addr d0 e d (first_error act_run (st_actions (return_stage name addr))) None
    \<lparr>pd_override = [], pd_driver = (if pd_driver d = [] \<or> pd_driver d = ''vfio-pci'' then native else pd_driver d)\<rparr>"
proof -
  note act = moves_sysfs_action [OF k]
  let ?d1 = "d\<lparr>pd_override := []\<rparr>"
  let ?d2 = "if pd_driver d = ''vfio-pci'' then ?d1\<lparr>pd_driver := []\<rparr> else ?d1"
  have 1: "moves native addr d0 e d
      (act_run (sysfs_action (pci_path addr ''driver_override'') [] (Some (present addr)))) None ?d1"
    using act [OF moves_present [OF k], of d "pci_path addr ''driver_override''" "[]"] by simp
  have 2: "moves native addr d0 e ?d1
      (act_run (sysfs_action (pci_path addr ''driver/unbind'') addr (Some (on_vfio addr)))) None ?d2"
    using act [OF moves_on_vfio [OF k], of ?d1 "pci_path addr ''driver/unbind''" addr]
    by (cases "pd_driver d = ''vfio-pci''") (simp_all add: pci_paths_differ [OF v] chomp_addr [OF v])
  have 3: "moves native addr d0 e ?d2
      (act_run (sysfs_action ''/sys/bus/pci/drivers_probe'' addr (Some (unbound addr)))) None
      \<lparr>pd_override = [], pd_driver = (if pd_driver d = [] \<or> pd_driver d = ''vfio-pci'' then native else pd_driver d)\<rparr>"
    using act [OF moves_unbound [OF k], of ?d2 "''/sys/bus/pci/drivers_probe''" addr]
    by (cases d) (auto simp: pci_paths_differ [OF v] chomp_addr [OF v] split: if_splits)
  show ?thesis
    unfolding return_stage_def stage.select_convs
    by (rule moves_first_Cons, rule 1, rule moves_first_Cons, rule 2, rule moves_first_Cons, rule 3, rule moves_first_Nil)
qed

lemma moves_write_file: "pci_kernel n a d0 e \<Longrightarrow> moves n a d0 e d (write_file p c m) None d"
  unfolding write_file_def Let_def
  by (rule moves_bind [OF moves_do], simp_all add: still_def, rule moves_bind [OF moves_do], simp_all add: still_def,
      rule moves_do, simp_all add: still_def)

lemma moves_udev: "pci_kernel n a d0 e \<Longrightarrow> moves n a d0 e d (first_error act_run (udev_actions cfg)) None d"
  by (rule moves_first_all)
    (simp add: udev_actions_def moves_remove_file write_action_def moves_write_file cmd_action_def moves_exec)

lemma moves_save: "pci_kernel n a d0 e \<Longrightarrow> moves n a d0 e d (save_config cfg) None d"
  unfolding save_config_def Let_def
  by (rule moves_bind [OF moves_do], simp_all add: still_def, rule moves_bind [OF moves_do], simp_all add: still_def,
      rule moves_do, simp_all add: still_def)

lemma moves_config_action: "pci_kernel n a d0 e \<Longrightarrow> moves n a d0 e d (first_error act_run [config_action cfg]) None d"
  by (rule moves_first_all) (simp add: config_action_def moves_save)


subsection \<open>Records\<close>

text \<open>
  What the commands keep of the configuration: distinct names and addresses, and devices that
  \<open>loadConfig\<close> accepts.
\<close>

definition wf_config :: "config \<Rightarrow> bool" where
  "wf_config cfg \<longleftrightarrow> distinct (map fst cfg) \<and> distinct (map (dv_address \<circ> snd) cfg) \<and>
     list_all (\<lambda>(n, d). device_ok n d) cfg"

lemma delete_wf: "wf_config cfg \<Longrightarrow> wf_config (delete_device cfg name)"
  by (auto simp: wf_config_def delete_device_def list_all_iff distinct_map_filter)

lemma lookup_None: "lookup cfg key = Inl e \<Longrightarrow> key \<notin> (dv_address \<circ> snd) ` set cfg"
  by (auto simp: lookup_def find_None_iff split: option.splits) blast

lemma lookup_in: "lookup cfg key = Inr (n, d) \<Longrightarrow> (n, d) \<in> set cfg"
  by (auto simp: lookup_def find_Some_iff split: option.splits dest: map_of_SomeD) (metis nth_mem)

lemma name_not_address: "valid_address a \<Longrightarrow> check_name a \<noteq> None"
proof
  assume "valid_address a" "check_name a = None"
  from checked_name(2) [OF this(2)] this(1) show False by (auto simp: valid_address_iff)
qed

lemma lookup_address:
  assumes "wf_config cfg" "valid_address a" "lookup cfg a = Inr (n, d)"
  shows "dv_address d = a"
proof -
  have "map_of cfg a = None"
    using assms(1) name_not_address [OF assms(2)]
    by (fastforce simp: wf_config_def device_ok_def list_all_iff map_of_eq_None_iff)
  then show ?thesis using assms(3) by (auto simp: lookup_def find_Some_iff split: option.splits)
qed

lemma delete_append: "map_of cfg n = None \<Longrightarrow> delete_device (cfg @ [(n, d)]) n = cfg"
  by (force simp: delete_device_def map_of_eq_None_iff filter_id_conv)


subsection \<open>Properties\<close>



text \<open>
  C10 What enable records is well formed and disable undoes it: with distinct names and addresses in the
  configuration, a device that is already recorded leaves it as it is, and a new one is added with a
  valid name that is not taken; the result has distinct names and addresses again, \<open>lookup\<close> finds
  the device in it by its address, and deleting the name gives the configuration before.
\<close>

theorem enable_record_wf:
  assumes "wf_config cfg" "valid_address addr" "typ \<in> {''wlan'', ''net''}"
    and "enable_record cfg name memory addr typ = Inr (n, cfg', acts)"
  shows "wf_config cfg' \<and> check_name n = None \<and> (\<exists>d. lookup cfg' addr = Inr (n, d) \<and> dv_address d = addr) \<and>
    (if \<exists>m d. lookup cfg addr = Inr (m, d) then cfg' = cfg \<and> acts = []
     else acts = [config_action cfg'] \<and> delete_device cfg' n = cfg)"
proof (cases "lookup cfg addr")
  case (Inl e)
  from assms(4) obtain d where n: "check_name n = None" "map_of cfg n = None"
    "cfg' = cfg @ [(n, d)]" "acts = [config_action cfg']" and d: "dv_address d = addr" "dv_type d = typ"
    by (auto simp: enable_record_def Inl Let_def split: option.splits if_splits)
  have fresh: "addr \<notin> (dv_address \<circ> snd) ` set cfg" by (rule lookup_None [OF Inl])
  have addr: "map_of cfg addr = None" "addr \<noteq> n" using Inl n(1) name_not_address [OF assms(2)]
    by (auto simp: lookup_def split: option.splits)
  have "find (\<lambda>(n, d). dv_address d = addr) cfg = None"
    using fresh by (auto simp: find_None_iff rev_image_eqI)
  then have find: "find (\<lambda>(n, d). dv_address d = addr) cfg' = Some (n, d)"
    unfolding n(3) by (induction cfg) (auto simp: d split: if_splits)
  have "lookup cfg' addr = Inr (n, d)"
    using addr find by (simp add: lookup_def n(3) map_add_def)
  moreover have "wf_config cfg'"
    using assms(1-3) n d fresh by (auto simp: wf_config_def device_ok_def map_of_eq_None_iff)
  ultimately show ?thesis using Inl n d delete_append [OF n(2)] by simp
next
  case (Inr nd)
  then obtain m d where m: "lookup cfg addr = Inr (m, d)" by (cases nd) auto
  then have "n = m" "cfg' = cfg" "acts = []"
    using assms(4) by (auto simp: enable_record_def split: if_splits)
  moreover have "check_name m = None"
    using lookup_in [OF m] assms(1) by (auto simp: wf_config_def device_ok_def list_all_iff)
  ultimately show ?thesis using m assms(1) lookup_address [OF assms(1,2) m] by auto
qed

theorem enable_record_wf_witness:
  "case enable_record [] [] [] ''0000:06:00.0'' ''wlan'' of
     Inl e \<Rightarrow> False
   | Inr (n, cfg, acts) \<Rightarrow> n = ''wlan-06-00-0'' \<and> wf_config cfg \<and> delete_device cfg n = []"
proof -
  have n: "default_name ''wlan'' ''0000:06:00.0'' = ''wlan-06-00-0''" by code_simp
  have c: "check_name ''wlan-06-00-0'' = None" by (simp add: check_name_def name_re_def name_start_def is_digit_def)
  have v: "valid_address ''0000:06:00.0''" by (simp add: valid_address_iff is_hex_def is_digit_def)
  obtain cfg acts where r: "enable_record [] [] [] ''0000:06:00.0'' ''wlan'' = Inr (''wlan-06-00-0'', cfg, acts)"
    by (simp add: enable_record_def lookup_def n c Let_def)
  from enable_record_wf [OF _ v _ r] show ?thesis by (simp add: r wf_config_def lookup_def)
qed

subsection \<open>Dry runs\<close>

lemma looks_pci [intro!]: "looks (pci_driver a)" "looks (iommu_group a)" "looks (pci_type a)" "looks (guest_driver a p)"
  "looks (check_group a)" "looks load_config" "looks (check_shared a g nd)"
proof -
  show 1: "looks (pci_driver a)" for a unfolding pci_driver_def by (auto intro!: looks_ask)
  show 2: "looks (iommu_group a)" for a unfolding iommu_group_def by (auto intro!: looks_ask)
  show "looks (pci_type a)" unfolding pci_type_def by (auto intro!: looks_ask split: sum.split)
  show "looks (guest_driver a p)" unfolding guest_driver_def by (auto intro!: looks_ask split: sum.split)
  have "looks (check_peer a g p)" for g p unfolding check_peer_def Let_def by (auto intro!: looks_ask)
  then show "looks (check_group a)"
    unfolding check_group_def by (auto intro!: looks_sys looks_ask 2 split: sum.split option.split)
  show "looks load_config" unfolding load_config_def by (auto intro!: looks_ask split: sum.split)
  show "looks (check_shared a g nd)" unfolding check_shared_def by (cases nd) (auto intro!: 2)
qed

lemma looks_dry_stages [intro!]: "looks (run_stages ss True yes)"
proof -
  have "emits (stages_from 0 m True yes ss) (\<lambda>x t. effects t = [])" for m
    by (rule emits_mono [OF quiet_effects [OF quiet_dry]]) simp
  then show ?thesis
    unfolding run_stages_def looks_def [symmetric] by (auto intro!: looks_bind)
qed

lemma looks_as_root: "looks m \<Longrightarrow> looks (as_root True m)"
  unfolding as_root_def by auto

lemma looks_usage: "looks (usage_exit t n)"
  unfolding usage_exit_def by (auto intro!: looks_sys)

lemma looks_enable: "looks (enable_checks arg memory)" "looks (enable_device name memory True yes arg)"
proof -
  show 1: "looks (enable_checks arg memory)"
    unfolding enable_checks_def Let_def by (auto split: sum.split)
  show "looks (enable_device name memory True yes arg)"
    unfolding enable_device_def by (intro looks_bind 1) (auto split: sum.split prod.split)
qed

lemma looks_disable: "looks (disable_device True yes arg)"
  unfolding disable_device_def by (auto split: sum.split prod.split)

lemma looks_uninstall: "looks (uninstall True yes)"
  unfolding uninstall_def by (auto split: sum.split intro!: looks_sys)

end
