(* ===== verification/Install.thy ===== *)
theory Install
  imports Devices
begin

text \<open>
  cmd/invirtio/install.go: the command install, its checks of the host, and the copy of a file
  through a temporary file and a rename.
\<close>

definition unit_text :: string where
  "unit_text = concat (map (\<lambda>l. l @ [newline]) [
     ''[Unit]'', ''Description=InvirtIO driver guest for %i'',
     ''After=systemd-udevd.service systemd-modules-load.service'', [],
     ''[Service]'', ''ExecStart='' @ bin_path @ '' run %i'', ''Restart=on-failure'', ''RestartSec=2'',
     ''KillMode=mixed'', ''TimeoutStopSec=120'', ''Delegate=yes'', ''DelegateSubgroup=supervisor'', [],
     ''[Install]'', ''WantedBy=multi-user.target''])"

definition empty_config :: string where
  "empty_config = ''{'' @ newline # ''  \"devices\": {}'' @ newline # ''}'' @ [newline]"


subsection \<open>Copying a file\<close>

text \<open>The answer to \<open>Stat\<close> starts with the device and the inode, which \<open>os.SameFile\<close> compares.\<close>

definition same_file :: "string \<Rightarrow> string \<Rightarrow> bool io" where
  "same_file a b = do {
     sa \<leftarrow> sys (Stat a);
     if \<not> succeeded sa then ret False
     else do {
       sb \<leftarrow> sys (Stat b);
       ret (succeeded sb \<and> take 2 (snd sa) = take 2 (snd sb))}}"

definition copy_opened :: "string \<Rightarrow> string \<Rightarrow> nat \<Rightarrow> err option io" where
  "copy_opened src dst mode = do {
     let tmp = dst @ ''.tmp'';
     e \<leftarrow> do_sys (OpenCreate tmp mode);
     if e \<noteq> None then ret e
     else do {
       e \<leftarrow> do_sys (CopyTo src tmp);
       c \<leftarrow> do_sys (CloseFile tmp);
       if e \<noteq> None then do {_ \<leftarrow> sys (Remove tmp); ret e}
       else if c \<noteq> None then do {_ \<leftarrow> sys (Remove tmp); ret c}
       else do {
         e \<leftarrow> do_sys (Chmod tmp mode);
         if e \<noteq> None then ret e
         else do_sys (Rename tmp dst)}}}"

definition copy_file :: "string \<Rightarrow> string \<Rightarrow> nat \<Rightarrow> err option io" where
  "copy_file src dst mode = do {
     same \<leftarrow> same_file src dst;
     if same then ret None
     else do {
       e \<leftarrow> do_sys (OpenRead src);
       if e \<noteq> None then ret e
       else do {
         e \<leftarrow> copy_opened src dst mode;
         _ \<leftarrow> sys (CloseFile src);
         ret e}}}"

definition copy_action :: "string \<Rightarrow> string \<Rightarrow> nat \<Rightarrow> action" where
  "copy_action src dst mode =
     \<lparr>act_show = show_cmd ''install'' [''-m'', mode_text mode, src, dst], act_run = copy_file src dst mode\<rparr>"


subsection \<open>The checks of the host\<close>

definition guest_modules :: "string list" where
  "guest_modules = [''-n'', ''-a'', ''vfio-pci'', ''vduse'', ''vdpa'', ''virtio_vdpa'']"

definition check_iommu :: "err option io" where
  "check_iommu = do {
     r \<leftarrow> sys (ReadDir ''/sys/kernel/iommu_groups'');
     ret (if snd r = []
       then Some (Msg ''the host has no IOMMU groups, enable the IOMMU on the kernel command line'')
       else None)}"

definition check_modules :: "err option io" where
  "check_modules = do {
     e \<leftarrow> command_run ''modprobe'' guest_modules;
     ret (case e of None \<Rightarrow> None
       | Some e \<Rightarrow> Some (Msg (''the host kernel lacks a module: '' @ err_text e)))}"

definition check_wlan :: "err option io" where
  "check_wlan = do {
     e \<leftarrow> command_run ''modprobe'' [''-n'', ''virtio_wlan''];
     _ \<leftarrow> (if e \<noteq> None
       then warn False ''the host kernel has no virtio_wlan, so WiFi devices cannot be exported'' else ret ());
     ret None}"

definition check_vdpa :: "err option io" where
  "check_vdpa = do {
     r \<leftarrow> sys (LookPath ''vdpa'');
     ret (if succeeded r then None else Some (Msg ''the vdpa command is missing, install iproute2''))}"

definition check_cgroups :: "err option io" where
  "check_cgroups = do {
     ok \<leftarrow> stat_ok ''/sys/fs/cgroup/cgroup.controllers'';
     _ \<leftarrow> (if ok then ret ()
       else warn False ''the host has no cgroup v2 hierarchy, so the guests' memory is not bounded'');
     ret None}"

definition host_checks :: "action list" where
  "host_checks = [
     \<lparr>act_show = ''ls /sys/kernel/iommu_groups'', act_run = check_iommu\<rparr>,
     \<lparr>act_show = show_cmd ''modprobe'' guest_modules, act_run = check_modules\<rparr>,
     \<lparr>act_show = show_cmd ''modprobe'' [''-n'', ''virtio_wlan''], act_run = check_wlan\<rparr>,
     \<lparr>act_show = ''command -v vdpa'', act_run = check_vdpa\<rparr>,
     \<lparr>act_show = ''test -e /sys/fs/cgroup/cgroup.controllers'', act_run = check_cgroups\<rparr>]"


subsection \<open>install\<close>

definition install_flags :: flag_set where
  "install_flags = [(''guest'', StringFlag), (''initramfs'', StringFlag), (''launcher'', StringFlag),
     (''n'', BoolFlag), (''y'', BoolFlag)]"

definition install_usage :: string where
  "install_usage = ''usage: invirtio install [-n] [-y] -guest <build dir> [-initramfs <file>] [-launcher <file>]'' @
     [newline, newline] @
     ''Install the guest, the launcher, this program and the service. Each stage'' @ newline #
     ''shows its commands and waits for Enter before it runs them. Running guests'' @ newline #
     ''keep the old guest until they restart.'' @ [newline]"

text \<open>\<open>filepath.Abs\<close>.\<close>

definition path_abs :: "string \<Rightarrow> string res io" where
  "path_abs p =
     (if has_prefix p ''/'' then ret (Inr (path_clean p))
      else do {
        r \<leftarrow> ask Getwd;
        ret (case r of Inl e \<Rightarrow> Inl e | Inr wd \<Rightarrow> Inr (path_join [wd, p]))})"

text \<open>The files, each with its source, where it goes, and its mode.\<close>

definition install_files :: "string \<Rightarrow> string \<Rightarrow> string \<Rightarrow> string \<Rightarrow> (string \<times> string \<times> nat) list" where
  "install_files guest initrd launcher self = [
     (path_join [guest, ''linux''], guest_path, 493),
     (path_join [guest, ''modules.builtin.modinfo''], modinfo_path, 420),
     (if initrd = [] then path_join [guest, ''initramfs'', ''initramfs.cpio''] else initrd, initrd_path, 420),
     (if launcher = [] then path_join [path_dir self, ''invirtio-launch''] else launcher, launcher_path, 493),
     (self, bin_path, 493)]"

fun copy_actions :: "(string \<times> string \<times> nat) list \<Rightarrow> action list res io" where
  "copy_actions [] = ret (Inr [])"
| "copy_actions ((src, dst, mode) # fs) =
     try_res (path_abs src) (\<lambda>src.
       try_err (do_sys (Stat src)) (do {
         same \<leftarrow> same_file src dst;
         try_res (copy_actions fs) (\<lambda>as.
           ret (Inr (if same then as else copy_action src dst mode # as)))}))"

definition user_actions :: "bool \<Rightarrow> action list" where
  "user_actions has_user = (if has_user then [] else
     [cmd_action ''useradd'' [''--system'', ''--no-create-home'', ''--home-dir'', ''/nonexistent'',
        ''--shell'', ''/usr/sbin/nologin'', ''--user-group'', guest_user]])"

definition config_actions :: "bool \<Rightarrow> action list" where
  "config_actions has_config = (if has_config then [] else
     [mkdir_action config_dir 493, write_action config_path empty_config 420])"

definition install_stages :: "action list \<Rightarrow> bool \<Rightarrow> bool \<Rightarrow> stage list" where
  "install_stages copies has_user has_config = [
     \<lparr>st_title = ''check that the host can run guests'', st_notes = [], st_actions = host_checks\<rparr>,
     \<lparr>st_title = ''copy the guest, the launcher and invirtio'', st_notes = [],
      st_actions = mkdir_action lib_dir 493 # copies\<rparr>,
     \<lparr>st_title = ''add the user '' @ guest_user @ '', which the guests run as'', st_notes = [],
      st_actions = user_actions has_user\<rparr>,
     \<lparr>st_title = ''install the service'', st_notes = [],
      st_actions = [write_action unit_path unit_text 420, cmd_action ''systemctl'' [''daemon-reload'']]\<rparr>,
     \<lparr>st_title = ''create the device list'', st_notes = [], st_actions = config_actions has_config\<rparr>]"

definition systemctl_state :: "string \<Rightarrow> string \<Rightarrow> string io" where
  "systemctl_state verb unit = do {
     r \<leftarrow> sys (Exec Stdout ''systemctl'' [verb, unit]);
     let s = trim_space (datum r);
     ret (if s \<noteq> [] then s else ''unknown'')}"

definition note_old_guest :: "string \<Rightarrow> unit io" where
  "note_old_guest name = do {
     s \<leftarrow> systemctl_state ''is-active'' (unit_of name);
     if s = ''active'' then println (''The guest of '' @ name @ '' runs the old version until: systemctl restart invirtio@'' @ name)
     else ret ()}"

definition install :: "string \<Rightarrow> string \<Rightarrow> string \<Rightarrow> bool \<Rightarrow> bool \<Rightarrow> outcome io" where
  "install guest initrd launcher dry yes = do {
     r \<leftarrow> try_res (ask Executable) (\<lambda>self. copy_actions (install_files guest initrd launcher self));
     (case r of
        Inl e \<Rightarrow> ret (Returned (Some e))
      | Inr copies \<Rightarrow> do {
          u \<leftarrow> sys (LookupUser guest_user);
          c \<leftarrow> stat_ok config_path;
          e \<leftarrow> run_stages (install_stages copies (succeeded u) c) dry yes;
          if e \<noteq> None then ret (Returned e)
          else if dry then ret (Returned None)
          else do {
            _ \<leftarrow> println (newline # ''Installed InvirtIO. Enable a device with: invirtio enable <pci address>'');
            c \<leftarrow> load_config;
            (case c of
               Inl e \<Rightarrow> ret (Returned (Some e))
             | Inr cfg \<Rightarrow> do {
                 _ \<leftarrow> for_each note_old_guest (names cfg);
                 ret (Returned None)})}})}"

definition cmd_install :: "string list \<Rightarrow> outcome io" where
  "cmd_install args =
     (case parse_flags install_flags Map.empty args of
        Inl n \<Rightarrow> usage_exit install_usage n
      | Inr (v, rest) \<Rightarrow>
          if flag_string v ''guest'' = [] \<or> rest \<noteq> [] then usage_exit install_usage 2
          else as_root (flag_bool v ''n'') (install (flag_string v ''guest'') (flag_string v ''initramfs'')
            (flag_string v ''launcher'') (flag_bool v ''n'') (flag_bool v ''y'')))"


subsection \<open>Properties\<close>

lemma looks_same_file [intro!]: "looks (same_file a b)"
  unfolding same_file_def by (auto intro!: looks_sys)

lemma looks_copy_actions [intro!]: "looks (copy_actions fs)"
proof (induction fs rule: copy_actions.induct)
  case (2 src dst mode fs)
  have "looks (path_abs p)" for p unfolding path_abs_def by (auto intro!: looks_ask)
  with 2 show ?case by (auto intro!: looks_do_sys)
qed auto

lemma looks_install: "looks (install guest initrd launcher True yes)"
  unfolding install_def by (auto intro!: looks_ask looks_sys split: sum.split)

lemma looks_emits: "looks m \<Longrightarrow> run e m = (x, t) \<Longrightarrow> effects t = []"
  unfolding looks_def by (rule emits_run)

text \<open>
  C26 A dry run changes nothing: enable, disable, uninstall and install with -n make no call that
  changes the host, whatever their other arguments are and whatever the host answers.
\<close>

theorem dry_runs_look:
  "list_all (\<lambda>(flags, cmd). case parse_flags flags Map.empty args of
       Inl n \<Rightarrow> effects (snd (run e (cmd args))) = []
     | Inr (v, rest) \<Rightarrow> (if flag_bool v ''n'' then effects (snd (run e (cmd args))) = [] else True))
     [(enable_flags, cmd_enable), (plan_flags, cmd_disable), (plan_flags, cmd_uninstall), (install_flags, cmd_install)]"
proof -
  have e: "effects (snd (run e m)) = []" if "looks m" for m :: "outcome io"
    using looks_emits [OF that, of e] by (cases "run e m") auto
  show ?thesis
    by (auto simp: cmd_enable_def cmd_disable_def cmd_uninstall_def cmd_install_def split: sum.split
        intro!: e looks_as_root looks_usage looks_enable looks_disable looks_uninstall looks_install)
qed

end
