(* ===== verification/Mconsole.thy ===== *)
theory Mconsole
  imports Sysfs
begin

text \<open>
  internal/mconsole: one request to a UML guest's management console. The numbers of a packet are
  little-endian, as on the machines that the program runs on. The answer to \<open>SockRead\<close> is what
  arrives on the socket until the deadline: the datagrams in their order, and the error of the read
  after the last one.
\<close>

definition mconsole_magic :: nat where "mconsole_magic = 0xcafebabe"
definition mconsole_version :: nat where "mconsole_version = 2"
definition mconsole_max_data :: nat where "mconsole_max_data = 512"
definition mconsole_header :: nat where "mconsole_header = 12"
definition mconsole_max_reply :: nat where "mconsole_max_reply = 1048576"

definition put_u32 :: "nat \<Rightarrow> string" where
  "put_u32 n = [char_of n, char_of (n div 256), char_of (n div 65536), char_of (n div 16777216)]"

fun get_u32 :: "string \<Rightarrow> nat" where
  "get_u32 (a # b # c # d # s) = code a + 256 * code b + 65536 * code c + 16777216 * code d"
| "get_u32 s = 0"

definition request_packet :: "string \<Rightarrow> string" where
  "request_packet cmd = put_u32 mconsole_magic @ put_u32 mconsole_version @ put_u32 (length cmd) @ cmd"

text \<open>A reply that has at least a header: its error, whether more follow, and its text.\<close>

definition reply_parts :: "string \<Rightarrow> nat \<times> nat \<times> string" where
  "reply_parts p =
     (let n = min (mconsole_header + get_u32 (drop 8 p)) (length p)
      in (get_u32 p, get_u32 (drop 4 p),
          trim_right_of (\<lambda>c. c = CHR 0x00) (drop mconsole_header (take n p))))"

text \<open>\<open>code\<close> is the error of the first reply, once it was read; \<open>failed\<close> ends the reads.\<close>

fun read_replies :: "err \<Rightarrow> nat option \<Rightarrow> string \<Rightarrow> string list \<Rightarrow> string res" where
  "read_replies failed status out [] = Inl failed"
| "read_replies failed status out (d # ds) =
     (let p = take (mconsole_header + mconsole_max_data) d
      in if length p < mconsole_header
         then Inl (Msg (''short reply of '' @ show_nat (length p) @ '' bytes''))
         else case reply_parts p of (e, rest, text) \<Rightarrow>
           (let status = (case status of None \<Rightarrow> e | Some s \<Rightarrow> s);
                out = out @ text
            in if length out > mconsole_max_reply
               then Inl (Msg (''the reply is longer than '' @ show_nat mconsole_max_reply @ '' bytes''))
               else if rest \<noteq> 0 then read_replies failed (Some status) out ds
               else if status \<noteq> 0 then Inl (Msg (trim_space out))
               else Inr out))"

definition read_end :: "reply \<Rightarrow> err" where
  "read_end r = (case fault_err r of Some e \<Rightarrow> e | None \<Rightarrow> Msg ''i/o timeout'')"

definition mconsole_request :: "string \<Rightarrow> string \<Rightarrow> string res io" where
  "mconsole_request path cmd =
     (if length cmd \<ge> mconsole_max_data
      then ret (Inl (Msg (''the command is longer than '' @ show_nat (mconsole_max_data - 1) @ '' bytes'')))
      else do {
        e \<leftarrow> do_sys (DialUnix path);
        (case e of
           Some e \<Rightarrow> ret (Inl e)
         | None \<Rightarrow> do {
             e \<leftarrow> do_sys (SetDeadline 10000);
             x \<leftarrow> (case e of
               Some e \<Rightarrow> ret (Inl e)
             | None \<Rightarrow> do {
                 e \<leftarrow> do_sys (SockWrite (request_packet cmd));
                 (case e of
                    Some e \<Rightarrow> ret (Inl e)
                  | None \<Rightarrow> do {
                      r \<leftarrow> sys SockRead;
                      ret (read_replies (read_end r) None [] (snd r))})});
             _ \<leftarrow> sys SockClose;
             ret x})})"


subsection \<open>What the guest sends\<close>

text \<open>
  The kernel's \<open>mconsole_reply\<close>: the output goes out in chunks of at most 511 bytes, each with a NUL
  that its length counts, in packets of a fixed size; all of them have the error, and all but the
  last say that more follow.
\<close>

definition guest_packet :: "nat \<Rightarrow> nat \<Rightarrow> string \<Rightarrow> string" where
  "guest_packet e rest chunk = put_u32 e @ put_u32 rest @ put_u32 (Suc (length chunk)) @
     chunk @ replicate (mconsole_max_data - length chunk) (CHR 0x00)"

fun guest_replies :: "nat \<Rightarrow> string list \<Rightarrow> string list" where
  "guest_replies e [] = []"
| "guest_replies e [c] = [guest_packet e 0 c]"
| "guest_replies e (c # d # cs) = guest_packet e 1 c # guest_replies e (d # cs)"

definition chunk_ok :: "string \<Rightarrow> bool" where
  "chunk_ok c \<longleftrightarrow> length c < mconsole_max_data \<and> CHR 0x00 \<notin> set c"

lemma code_char_of: "code (char_of n :: char) = n mod 256"
  by simp

lemma get_put_u32: "n < 4294967296 \<Longrightarrow> get_u32 (put_u32 n @ s) = n"
proof -
  assume n: "n < 4294967296"
  have a: "n = n mod 256 + 256 * (n div 256)" by simp
  have b: "n div 256 = n div 256 mod 256 + 256 * (n div 65536)"
    using div_mod_decomp [of "n div 256" 256] by (simp add: div_mult2_eq [symmetric])
  have c: "n div 65536 = n div 65536 mod 256 + 256 * (n div 16777216)"
    using div_mod_decomp [of "n div 65536" 256] by (simp add: div_mult2_eq [symmetric])
  have d: "n div 16777216 mod 256 = n div 16777216" using n by simp
  have "get_u32 (put_u32 n @ s) =
      n mod 256 + 256 * (n div 256 mod 256) + 65536 * (n div 65536 mod 256) + 16777216 * (n div 16777216 mod 256)"
    by (simp add: put_u32_def)
  then show ?thesis using a b c d by linarith
qed

lemma length_put_u32 [simp]: "length (put_u32 n) = 4"
  by (simp add: put_u32_def)

lemma drop_put_u32 [simp]: "drop 4 (put_u32 n @ s) = s" "drop 8 (put_u32 n @ s) = drop 4 s" "drop 12 (put_u32 n @ s) = drop 8 s"
  by (simp_all add: put_u32_def)

lemma trim_nuls: "CHR 0x00 \<notin> set c \<Longrightarrow> trim_right_of (\<lambda>c. c = CHR 0x00) (c @ replicate n (CHR 0x00)) = c"
proof -
  assume c: "CHR 0x00 \<notin> set c"
  have r: "dropWhile (\<lambda>x. x = CHR 0x00) (rev c) = rev c"
    unfolding dropWhile_eq_self_iff using c hd_in_set [of "rev c"] by fastforce
  have "dropWhile (\<lambda>x. x = CHR 0x00) (replicate n (CHR 0x00) @ rev c) = rev c"
    by (induction n) (simp_all add: r)
  then show ?thesis by (simp add: trim_right_of_def)
qed

lemma guest_packet_parts:
  assumes "chunk_ok c" "e < 4294967296" "m < 4294967296"
  shows "length (guest_packet e m c) = mconsole_header + mconsole_max_data" "reply_parts (guest_packet e m c) = (e, m, c)"
proof -
  have l: "length c < 512" and z: "CHR 0x00 \<notin> set c" using assms(1) by (simp_all add: chunk_ok_def mconsole_max_data_def)
  show n: "length (guest_packet e m c) = mconsole_header + mconsole_max_data"
    using l by (simp add: guest_packet_def mconsole_header_def mconsole_max_data_def)
  have len: "get_u32 (drop 8 (guest_packet e m c)) = Suc (length c)"
    unfolding guest_packet_def drop_put_u32 by (rule get_put_u32) (use l in simp)
  have d: "drop 12 (guest_packet e m c) = c @ replicate (512 - length c) (CHR 0x00)"
    unfolding guest_packet_def by (simp add: put_u32_def mconsole_max_data_def)
  have t: "take (Suc (length c)) (c @ replicate (512 - length c) (CHR 0x00)) = c @ replicate 1 (CHR 0x00)"
    using l by (simp add: take_Cons')
  have "drop 12 (take (min (12 + Suc (length c)) (length (guest_packet e m c))) (guest_packet e m c)) =
      c @ replicate 1 (CHR 0x00)"
    using l unfolding n by (simp add: mconsole_header_def mconsole_max_data_def drop_take d t)
  then show "reply_parts (guest_packet e m c) = (e, m, c)"
    using get_put_u32 [OF assms(2)] get_put_u32 [OF assms(3)] len trim_nuls [OF z, of 1]
    unfolding reply_parts_def mconsole_header_def Let_def by (simp add: guest_packet_def)
qed

lemma read_packet:
  assumes "chunk_ok c" "e < 4294967296" "m < 4294967296" "length (out @ c) \<le> mconsole_max_reply"
  shows "read_replies failed st out (guest_packet e m c # ds) =
    (let status = (case st of None \<Rightarrow> e | Some s \<Rightarrow> s)
     in if m \<noteq> 0 then read_replies failed (Some status) (out @ c) ds
        else if status \<noteq> 0 then Inl (Msg (trim_space (out @ c))) else Inr (out @ c))"
proof -
  have "\<not> length (out @ c) > mconsole_max_reply" using assms(4) by simp
  then show ?thesis
    unfolding read_replies.simps Let_def
    by (simp add: guest_packet_parts [OF assms(1-3)] split del: if_split split: option.split)
qed

lemma read_guest_replies:
  assumes "cs \<noteq> []" "list_all chunk_ok cs" "e < 4294967296" "length (out @ concat cs) \<le> mconsole_max_reply"
  shows "read_replies failed st out (guest_replies e cs @ ds) =
    (if (case st of None \<Rightarrow> e | Some s \<Rightarrow> s) \<noteq> 0 then Inl (Msg (trim_space (out @ concat cs))) else Inr (out @ concat cs))"
  using assms
proof (induction e cs arbitrary: st out rule: guest_replies.induct)
  case (2 e c)
  then show ?case by (simp add: read_packet Let_def del: read_replies.simps)
next
  case (3 e c d cs)
  then show ?case
    using "3.IH" [of "out @ c" "Some (case st of None \<Rightarrow> e | Some s \<Rightarrow> s)"]
    by (simp add: read_packet Let_def del: read_replies.simps)
qed simp



end
