(* ===== verification/Memory.thy ===== *)
theory Memory
  imports Sizes Sysfs
begin

text \<open>
  cmd/invirtio/memory.go: what a guest's cgroup, its processes and the guest itself say of its
  memory. A Go map of numbers is a partial function, and a missing key reads as 0.
\<close>

definition guest_cgroup :: "string \<Rightarrow> string io" where
  "guest_cgroup unit = do {
     r \<leftarrow> sys (Exec Stdout ''systemctl'' [''show'', ''-p'', ''ControlGroup'', ''--value'', unit]);
     let rel = trim_space (datum r);
     if \<not> succeeded r \<or> rel = [] then ret []
     else do {
       let dir = path_join [''/sys/fs/cgroup'', rel, ''guest''];
       ok \<leftarrow> stat_ok (path_join [dir, ''memory.current'']);
       ret (if ok then dir else [])}}"

definition read_bytes :: "string \<Rightarrow> int res io" where
  "read_bytes path = do {
     r \<leftarrow> sysfs_read path;
     ret (case r of
            Inl e \<Rightarrow> Inl e
          | Inr s \<Rightarrow>
              (if s = ''max'' then Inr (- 1)
               else case parse_int64 s of
                   Some n \<Rightarrow> Inr n
                 | None \<Rightarrow> Inl (Msg (''strconv.ParseInt: parsing '' @ s))))}"

definition keyed_line :: "(string \<rightharpoonup> int) \<Rightarrow> string \<Rightarrow> (string \<rightharpoonup> int)" where
  "keyed_line m line =
     (let f = str_fields line
      in if length f < 2 then m
         else case parse_int64 (f ! 1) of
             None \<Rightarrow> m
           | Some n \<Rightarrow>
               m(trim_suffix (f ! 0) '':'' \<mapsto>
                 (if length f = 3 \<and> f ! 2 = ''kB'' then wrap64 (n * 2 ^ 10) else n)))"

definition parse_keyed :: "string \<Rightarrow> (string \<rightharpoonup> int)" where
  "parse_keyed text = foldl keyed_line Map.empty (split_on newline text)"

definition at_key :: "(string \<rightharpoonup> int) \<Rightarrow> string \<Rightarrow> int" where
  "at_key m k = (case m k of None \<Rightarrow> 0 | Some n \<Rightarrow> n)"

definition memory_use :: "string \<Rightarrow> string io" where
  "memory_use cg = do {
     cur \<leftarrow> read_bytes (path_join [cg, ''memory.current'']);
     (case cur of
        Inl _ \<Rightarrow> ret ''not available''
      | Inr cur \<Rightarrow> do {
          peak \<leftarrow> read_bytes (path_join [cg, ''memory.peak'']);
          let s = format_size cur @
            (case peak of Inr p \<Rightarrow> '', peak '' @ format_size p | Inl _ \<Rightarrow> []);
          limit \<leftarrow> read_bytes (path_join [cg, ''memory.max'']);
          ret (s @ (case limit of
                      Inr l \<Rightarrow> if l \<ge> 0 then '', limit '' @ format_size l else '', no limit''
                    | Inl _ \<Rightarrow> []))})}"

definition memory_detail :: "string \<Rightarrow> string io" where
  "memory_detail cg = do {
     r \<leftarrow> ask (ReadFile (path_join [cg, ''memory.stat'']));
     ret (case r of
            Inl _ \<Rightarrow> ''not available''
          | Inr data \<Rightarrow>
              (let st = parse_keyed data
               in ''anon '' @ format_size (at_key st ''anon'') @ '', file '' @ format_size (at_key st ''file'') @
                  '' (shmem '' @ format_size (at_key st ''shmem'') @ ''), kernel '' @
                  format_size (at_key st ''kernel'')))}"

fun sum_pinned :: "int \<Rightarrow> string list \<Rightarrow> int io" where
  "sum_pinned acc [] = ret acc"
| "sum_pinned acc (pid # pids) = do {
     r \<leftarrow> ask (ReadFile (path_join [''/proc'', pid, ''status'']));
     (case r of
        Inl _ \<Rightarrow> sum_pinned acc pids
      | Inr status \<Rightarrow>
          (let st = parse_keyed status
           in sum_pinned (wrap64 (acc + wrap64 (at_key st ''VmPin'' + at_key st ''VmLck''))) pids))}"

definition pinned_memory :: "string \<Rightarrow> int res io" where
  "pinned_memory cg = do {
     r \<leftarrow> ask (ReadFile (path_join [cg, ''cgroup.procs'']));
     (case r of
        Inl e \<Rightarrow> ret (Inl e)
      | Inr data \<Rightarrow> do {n \<leftarrow> sum_pinned 0 (str_fields data); ret (Inr n)})}"

definition guest_memory :: "string \<Rightarrow> string" where
  "guest_memory meminfo =
     (let m = parse_keyed meminfo;
          total = at_key m ''MemTotal'';
          avail = at_key m ''MemAvailable''
      in if total = 0 then ''not available''
         else format_size (wrap64 (total - avail)) @ '' used of '' @ format_size total @ '', '' @
              format_size (at_key m ''MemFree'') @ '' free'')"


subsection \<open>Keyed files\<close>

text \<open>The lines of /proc/meminfo: a name, a colon, blanks, a number and kB.\<close>

definition meminfo_line :: "string \<times> nat \<times> nat \<Rightarrow> string" where
  "meminfo_line e = (case e of (k, w, n) \<Rightarrow> k @ '':'' @ spaces w @ '' '' @ show_nat n @ '' kB'')"

definition meminfo_text :: "(string \<times> nat \<times> nat) list \<Rightarrow> string" where
  "meminfo_text es = concat (map (\<lambda>e. meminfo_line e @ [newline]) es)"

definition meminfo_ok :: "string \<times> nat \<times> nat \<Rightarrow> bool" where
  "meminfo_ok e = (case e of (k, w, n) \<Rightarrow> k \<noteq> [] \<and> list_all (\<lambda>c. \<not> is_space c) k \<and> int n * 1024 \<le> max_int64)"

lemma digit_not_space: "is_digit c \<Longrightarrow> \<not> is_space c"
  by (auto simp: is_digit_def is_space_def)

lemma fields_spaces: "fields_aux [] (spaces w @ s) = fields_aux [] s"
  by (induction w) (simp_all add: spaces_def is_space_def)

lemma fields_stop: "acc \<noteq> [] \<Longrightarrow> is_space c \<Longrightarrow> fields_aux acc (c # s) = rev acc # fields_aux [] s"
  by simp

lemma meminfo_fields:
  assumes "meminfo_ok (k, w, n)"
  shows "str_fields (meminfo_line (k, w, n)) = [k @ '':'', show_nat n, ''kB'']"
proof -
  have k: "k \<noteq> []" "list_all (\<lambda>c. \<not> is_space c) (k @ '':'')" using assms
    by (simp_all add: meminfo_ok_def is_space_def)
  have d: "list_all (\<lambda>c. \<not> is_space c) (show_nat n)"
    using show_nat_digits [of n] by (simp add: list_all_iff digit_not_space)
  have sp: "is_space (CHR '' '')" by (simp add: is_space_def)
  have kb: "fields_aux [] ''kB'' = [''kB'']" by (simp add: is_space_def)
  have "fields_aux [] ((k @ '':'') @ CHR '' '' # spaces w @ show_nat n @ CHR '' '' # ''kB'') =
      [k @ '':'', show_nat n, ''kB'']"
    unfolding fields_aux_word [OF k(2)]
    using k(1) by (simp add: fields_stop [OF _ sp] fields_spaces fields_aux_word [OF d] kb del: fields_aux.simps(2))
  moreover have "spaces w @ '' '' = '' '' @ spaces w" by (simp add: spaces_def replicate_append_same)
  ultimately show ?thesis
    by (simp add: str_fields_def meminfo_line_def del: fields_aux.simps(2)) (metis append_Cons append_Nil append_assoc)
qed


lemma trim_colon: "trim_suffix (k @ '':'') '':'' = k"
  by (simp add: trim_suffix_def has_suffix_def)

lemma keyed_meminfo:
  assumes "meminfo_ok (k, w, n)"
  shows "keyed_line m (meminfo_line (k, w, n)) = m(k \<mapsto> int n * 1024)"
proof -
  have n: "int n * 1024 \<le> max_int64" using assms by (simp add: meminfo_ok_def)
  then have "in_int64 (int n)" "in_int64 (int n * 1024)" by (simp_all add: in_int64_def)
  then have p: "parse_int64 (show_nat n) = Some (int n)" and w: "wrap64 (int n * 2 ^ 10) = int n * 1024"
    using parse_show_int [of "int n"] by (simp_all add: show_int_def wrap64_id)
  show ?thesis
    unfolding keyed_line_def Let_def meminfo_fields [OF assms]
    using p w by (simp add: trim_colon)
qed

lemma meminfo_line_newline: "meminfo_ok e \<Longrightarrow> newline \<notin> set (meminfo_line e)"
proof -
  assume ok: "meminfo_ok e"
  obtain k w n where e: "e = (k, w, n)" by (cases e)
  have "is_space newline" "\<not> is_digit newline" by (simp_all add: is_space_def is_digit_def newline_def)
  then have "newline \<notin> set k" "newline \<notin> set (show_nat n)"
    using ok show_nat_digits [of n] by (auto simp: e meminfo_ok_def list_all_iff)
  then show ?thesis by (simp add: e meminfo_line_def spaces_def newline_def)
qed

lemma split_lines:
  "list_all (\<lambda>e. newline \<notin> set (f e)) es \<Longrightarrow>
   split_on newline (concat (map (\<lambda>e. f e @ [newline]) es)) = map f es @ [[]]"
  by (induction es) (simp_all add: split_on_append)

lemma foldl_meminfo:
  "list_all meminfo_ok es \<Longrightarrow> foldl keyed_line m (map meminfo_line es) =
   foldl (\<lambda>m (k, w, n). m(k \<mapsto> int n * 1024)) m es"
  by (induction es arbitrary: m) (auto simp: keyed_meminfo)

lemma foldl_updates:
  "foldl (\<lambda>m (k, w, n). m(k \<mapsto> int n * 1024)) m es = m ++ map_of (rev (map (\<lambda>(k, w, n). (k, int n * 1024)) es))"
  by (induction es arbitrary: m) (auto simp: map_add_def split: option.splits)

text \<open>
  \<open>parseKeyed\<close> reads a file in the form of /proc/meminfo in full: every name has its last number,
  in bytes and never wrapped, and no other name has one, whatever the alignment of the columns.
\<close>

theorem parse_keyed_meminfo:
  assumes "list_all meminfo_ok es"
  shows "parse_keyed (meminfo_text es) = map_of (rev (map (\<lambda>(k, w, n). (k, int n * 1024)) es))"
proof -
  have "list_all (\<lambda>e. newline \<notin> set (meminfo_line e)) es"
    using assms by (auto simp: list_all_iff dest: meminfo_line_newline)
  then have "split_on newline (meminfo_text es) = map meminfo_line es @ [[]]"
    unfolding meminfo_text_def by (rule split_lines)
  moreover have "keyed_line m [] = m" for m by (simp add: keyed_line_def str_fields_def)
  ultimately show ?thesis
    by (simp add: parse_keyed_def foldl_meminfo [OF assms] foldl_updates)
qed

theorem parse_keyed_meminfo_witness:
  "at_key (parse_keyed (meminfo_text [(''MemTotal'', 5, 262144), (''MemFree'', 9, 1000)])) ''MemFree'' = 1024000"
proof -
  have "list_all meminfo_ok [(''MemTotal'', 5, 262144), (''MemFree'', 9, 1000)]"
    by (simp add: meminfo_ok_def is_space_def max_int64_def)
  from parse_keyed_meminfo [OF this] show ?thesis by (simp add: at_key_def)
qed

end
