(* ===== verification/Status.thy ===== *)
theory Status
  imports Install Mconsole Memory
begin

text \<open>
  cmd/invirtio/status.go and list.go: what the program shows of the devices. The names of network
  interfaces and devices come from the host; what the guest writes is shown through \<open>printable\<close>.
\<close>

subsection \<open>Text of the guest\<close>

definition printable_rune :: "nat \<Rightarrow> bool" where
  "printable_rune r \<longleftrightarrow> \<not> (r = rune_error \<or> (r < 0x20 \<and> r \<noteq> 0x09 \<and> r \<noteq> 0x0a) \<or> (0x7f \<le> r \<and> r \<le> 0x9f))"

definition printable :: "string \<Rightarrow> string" where
  "printable s = chars_of (encs (filter printable_rune (map fst (runes_of (bytes_of s)))))"


subsection \<open>status\<close>

definition pad_right :: "nat \<Rightarrow> string \<Rightarrow> string" where
  "pad_right n s = s @ spaces (n - length s)"

definition row :: "string \<Rightarrow> string \<Rightarrow> unit io" where
  "row label value = print (''  '' @ pad_right 16 (label @ '':'') @ '' '' @ value @ [newline])"

definition vduse_state :: "string \<Rightarrow> string \<Rightarrow> string io" where
  "vduse_state name active = do {
     x \<leftarrow> vduse_exists name;
     if \<not> x then ret ''not created''
     else do {
       a \<leftarrow> vdpa_attached name;
       if a \<and> active \<noteq> ''active'' \<and> active \<noteq> ''activating''
       then ret ''created, on the vDPA bus with no guest, invirtio disable removes it''
       else do {
         a \<leftarrow> vdpa_attached name;
         ret (if a then ''created, on the vDPA bus'' else ''created, not on the vDPA bus'')}}}"

definition show_interface :: "string \<Rightarrow> unit io" where
  "show_interface n = do {
     o1 \<leftarrow> sysfs_read (path_join [''/sys/class/net'', n, ''operstate'']);
     row ''host interface'' (n @ '' ('' @ (case o1 of Inl _ \<Rightarrow> ''unknown'' | Inr s \<Rightarrow> s) @ '')'')}"

definition show_state :: "string \<Rightarrow> device \<Rightarrow> string io" where
  "show_state name dev = do {
     _ \<leftarrow> print (name @ '' ('' @ dv_type dev @ '', '' @ dv_address dev @ '')'' @ [newline]);
     active \<leftarrow> systemctl_state ''is-active'' (unit_of name);
     enabled \<leftarrow> systemctl_state ''is-enabled'' (unit_of name);
     _ \<leftarrow> row ''service'' (active @ '', '' @ enabled);
     host \<leftarrow> pci_driver (dv_address dev);
     _ \<leftarrow> row ''host driver'' (if host = [] then ''none'' else host);
     drv \<leftarrow> guest_driver (dv_address dev) modinfo_path;
     _ \<leftarrow> row ''guest driver'' (case drv of Inr d \<Rightarrow> d | Inl _ \<Rightarrow> ''none'');
     state \<leftarrow> vduse_state name active;
     _ \<leftarrow> row ''VDUSE device'' state;
     nets \<leftarrow> host_interfaces name;
     _ \<leftarrow> (if nets = [] then row ''host interface'' ''none'' else ret ());
     _ \<leftarrow> for_each show_interface nets;
     cg \<leftarrow> guest_cgroup (unit_of name);
     m \<leftarrow> (if cg = [] then ret ''no guest runs'' else memory_use cg);
     _ \<leftarrow> row ''memory'' m;
     ret cg}"

definition show_memory :: "string \<Rightarrow> string \<Rightarrow> unit io" where
  "show_memory name cg = do {
     _ \<leftarrow> (if cg = [] then ret () else do {
       d \<leftarrow> memory_detail cg;
       _ \<leftarrow> row ''memory detail'' d;
       p \<leftarrow> pinned_memory cg;
       row ''pinned for DMA'' (case p of Inr n \<Rightarrow> format_size n @ '' of that memory'' | Inl _ \<Rightarrow> ''not available'')});
     m \<leftarrow> mconsole_request (mconsole_path name) ''proc meminfo'';
     (case m of Inl _ \<Rightarrow> ret () | Inr s \<Rightarrow> row ''guest memory'' (printable (guest_memory s)))}"

definition show_counters :: "string \<Rightarrow> unit io" where
  "show_counters name = do {
     c \<leftarrow> mconsole_request (mconsole_path name) ''proc vduse_guest'';
     (case c of
        Inl e \<Rightarrow> row ''guest counters'' (printable (''not available: '' @ err_text e))
      | Inr s \<Rightarrow> do {
          _ \<leftarrow> println ''  guest counters:'';
          for_each (\<lambda>line. println (''    '' @ line))
            (split_on newline (trim_right_of (\<lambda>c. c = newline) (printable s)))})}"

definition show_device :: "string \<Rightarrow> device \<Rightarrow> nat \<Rightarrow> unit io" where
  "show_device name dev level = do {
     cg \<leftarrow> show_state name dev;
     if level < 1 then ret ()
     else do {
       _ \<leftarrow> show_memory name cg;
       if level < 2 then ret () else show_counters name}}"

fun show_devices :: "config \<Rightarrow> nat \<Rightarrow> bool \<Rightarrow> string list \<Rightarrow> unit io" where
  "show_devices cfg level first [] = ret ()"
| "show_devices cfg level first (n # ns) = do {
     _ \<leftarrow> (if first then ret () else println []);
     _ \<leftarrow> show_device n (the (map_of cfg n)) level;
     show_devices cfg level False ns}"

definition status_usage :: string where
  "status_usage = ''usage: invirtio status [-v | -vv] [<name>]'' @ [newline, newline] @
     ''Show the state of the enabled devices, or of one.'' @ [newline]"

definition status_flags :: flag_set where
  "status_flags = [(''v'', BoolFlag), (''vv'', BoolFlag)]"

definition cmd_status :: "string list \<Rightarrow> outcome io" where
  "cmd_status args =
     (case parse_flags status_flags Map.empty args of
        Inl n \<Rightarrow> usage_exit status_usage n
      | Inr (v, rest) \<Rightarrow>
          if length rest > 1 then usage_exit status_usage 2
          else do {
            ok \<leftarrow> stat_ok guest_path;
            _ \<leftarrow> (if ok then ret () else println ''InvirtIO is not installed.'');
            c \<leftarrow> load_config;
            (case c of
               Inl e \<Rightarrow> ret (Returned (Some e))
             | Inr cfg \<Rightarrow>
                 (case (if rest = [] then Inr (names cfg)
                        else case config_device cfg (hd rest) of Inl e \<Rightarrow> Inl e | Inr d \<Rightarrow> Inr [hd rest]) of
                    Inl e \<Rightarrow> ret (Returned (Some e))
                  | Inr ns \<Rightarrow>
                      if ns = [] then do {_ \<leftarrow> println ''No devices are enabled.''; ret (Returned None)}
                      else do {
                        _ \<leftarrow> show_devices cfg (if flag_bool v ''vv'' then 2 else if flag_bool v ''v'' then 1 else 0) True ns;
                        ret (Returned None)}))})"


subsection \<open>list\<close>

definition parse_lspci :: "string \<Rightarrow> (string \<times> string) option" where
  "parse_lspci line =
     (case cut line '' '' of (addr, rest, ok) \<Rightarrow>
        if \<not> ok \<or> \<not> valid_address addr then None
        else case cut rest '': '' of (_, name, found) \<Rightarrow> Some (addr, if found then name else rest))"

definition lspci_names :: "(string \<rightharpoonup> string) io" where
  "lspci_names = do {
     r \<leftarrow> sys (Exec Stdout ''lspci'' [''-D'']);
     ret (if \<not> succeeded r then Map.empty
       else map_of (rev (List.map_filter parse_lspci (split_on newline (datum r)))))}"

definition read_or_empty :: "string \<Rightarrow> string io" where
  "read_or_empty p = do {
     r \<leftarrow> sysfs_read p;
     ret (case r of Inl _ \<Rightarrow> [] | Inr s \<Rightarrow> s)}"

definition pci_ids :: "string \<Rightarrow> string io" where
  "pci_ids dir = do {
     v \<leftarrow> read_or_empty (path_join [dir, ''vendor'']);
     d \<leftarrow> read_or_empty (path_join [dir, ''device'']);
     ret (trim_prefix v ''0x'' @ '':'' @ trim_prefix d ''0x'')}"

definition list_guest :: "string res \<Rightarrow> string \<Rightarrow> string io" where
  "list_guest modinfo p =
     (case modinfo of
        Inl _ \<Rightarrow> ret ''unknown''
      | Inr info \<Rightarrow> do {
          alias \<leftarrow> read_or_empty (path_join [p, ''modalias'']);
          ret (if match_driver alias info = [] then ''not supported'' else match_driver alias info)})"

text \<open>The cells of a device, or \<open>None\<close> for a device of another type.\<close>

definition list_device ::
    "config \<Rightarrow> string res \<Rightarrow> (string \<rightharpoonup> string) \<Rightarrow> string \<Rightarrow> string list option io" where
  "list_device cfg modinfo known p = (let addr = path_base p in do {
     c \<leftarrow> sysfs_read (path_join [p, ''class'']);
     (case c of
        Inl _ \<Rightarrow> ret None
      | Inr cls \<Rightarrow>
          (let typ = class_type cls
           in if typ = [] then ret None
              else do {
                host \<leftarrow> pci_driver addr;
                guest \<leftarrow> list_guest modinfo p;
                name \<leftarrow> (case known addr of
                    Some n \<Rightarrow> (if n = [] then pci_ids p else ret n)
                  | None \<Rightarrow> pci_ids p);
                ret (Some [addr, typ, if host = [] then ''none'' else host, guest,
                  (case lookup cfg addr of Inr (n, _) \<Rightarrow> n | Inl _ \<Rightarrow> ''-''), name])}))})"

fun list_devices :: "config \<Rightarrow> string res \<Rightarrow> (string \<rightharpoonup> string) \<Rightarrow> string list \<Rightarrow> string list list io" where
  "list_devices cfg modinfo known [] = ret []"
| "list_devices cfg modinfo known (p # ps) = do {
     r \<leftarrow> list_device cfg modinfo known p;
     rs \<leftarrow> list_devices cfg modinfo known ps;
     ret (case r of None \<Rightarrow> rs | Some cells \<Rightarrow> cells # rs)}"

text \<open>
  The table as \<open>text/tabwriter\<close> prints it with a padding of two blanks: every cell but the last of
  a line is as wide as the widest of its column and the padding, in runes.
\<close>

definition rune_count :: "string \<Rightarrow> nat" where
  "rune_count s = length (runes_of (bytes_of s))"

definition column_width :: "string list list \<Rightarrow> nat \<Rightarrow> nat" where
  "column_width rows i = foldl max 0 (map (\<lambda>r. rune_count (r ! i)) rows) + 2"

definition table_line :: "string list list \<Rightarrow> string list \<Rightarrow> string" where
  "table_line rows cells =
     concat (map (\<lambda>i. cells ! i @ spaces (column_width rows i - rune_count (cells ! i))) [0..<length cells - 1]) @
     last cells @ [newline]"

definition table_text :: "string list list \<Rightarrow> string" where
  "table_text rows = concat (map (table_line rows) rows)"

definition list_header :: "string list" where
  "list_header = [''ADDRESS'', ''TYPE'', ''HOST DRIVER'', ''GUEST DRIVER'', ''ENABLED AS'', ''DEVICE'']"

definition list_usage :: string where
  "list_usage = ''usage: invirtio list'' @ [newline, newline] @
     ''List the host's WiFi and Ethernet devices, the host driver that has each'' @ newline #
     ''now, the guest driver that would drive it, and the name it is enabled as.'' @ [newline]"

definition cmd_list :: "string list \<Rightarrow> outcome io" where
  "cmd_list args =
     (case parse_flags [] Map.empty args of
        Inl n \<Rightarrow> usage_exit list_usage n
      | Inr (v, rest) \<Rightarrow>
          if rest \<noteq> [] then usage_exit list_usage 2
          else do {
            g \<leftarrow> sys (Glob ''/sys/bus/pci/devices/*'');
            (case fault_err g of
               Some e \<Rightarrow> ret (Returned (Some e))
             | None \<Rightarrow> do {
                 c \<leftarrow> load_config;
                 (case c of
                    Inl e \<Rightarrow> ret (Returned (Some e))
                  | Inr cfg \<Rightarrow> do {
                      modinfo \<leftarrow> ask (ReadFile modinfo_path);
                      known \<leftarrow> lspci_names;
                      rows \<leftarrow> list_devices cfg modinfo known (sort (snd g));
                      _ \<leftarrow> print (table_text (list_header # rows));
                      _ \<leftarrow> (if rows = [] then println ''The host has no WiFi or Ethernet devices on PCI.'' else ret ());
                      _ \<leftarrow> (case modinfo of
                          Inl _ \<Rightarrow> println (newline # ''The guest is not installed, so its drivers are unknown. Run invirtio install.'')
                        | Inr _ \<Rightarrow> ret ());
                      ret (Returned None)})})})"


subsection \<open>Properties\<close>

lemma runes_valid: "list_all valid_rune (map fst (runes_of p))"
proof (induction p rule: runes_of.induct)
  case (1 p)
  show ?case
  proof (cases "p = []")
    case False
    obtain r n where d: "decode_rune p = (r, n)" by fastforce
    have "valid_rune rune_error" by (simp add: valid_rune_def rune_error_def)
    then have "valid_rune r" using decode_sound [OF False d] by blast
    with 1 [OF False] False d show ?thesis by (subst runes_of.simps) simp
  qed simp
qed

lemma printable_encs:
  "list_all valid_rune rs \<Longrightarrow> printable (chars_of (encs rs)) = chars_of (encs (filter printable_rune rs))"
  by (simp add: printable_def runes_of_encs list_all_iff comp_def)


end
