(* ===== verification/RunSetup.thy ===== *)
theory RunSetup
  imports Devices
begin

text \<open>
  cmd/invirtio/run.go: the command run up to the start of the guest, and the operations on the host
  that the supervisor uses afterwards. \<open>jout\<close> and \<open>jerr\<close> are whether stdout and stderr go to the
  journal. What follows the start is theory \<open>Supervisor\<close>.
\<close>

subsection \<open>The guest's command line\<close>

definition modules :: "string \<Rightarrow> string list" where
  "modules typ = [''vfio-pci'', ''vduse'', ''vdpa'', ''virtio_vdpa''] @ (if typ = ''wlan'' then [''virtio_wlan''] else [])"

definition guest_args :: "string \<Rightarrow> device \<Rightarrow> string \<Rightarrow> string list" where
  "guest_args name dev cgroup =
     [''-u'', guest_user, ''-b'', ''-d'', dv_address dev, ''-i'', initrd_path,
      ''-s'', mconsole_path name, ''-t'', ''30'',
      ''-e'', dv_type dev @ '','' @ name @ '',log='' @ log_path name] @
     (if cgroup \<noteq> [] then [''-g'', cgroup] else []) @
     (if dv_irq_cpus dev \<noteq> [] then [''-a'', dv_irq_cpus dev] else []) @
     [guest_path, ''mem='' @ dev_memory dev,
      ''vduse_guest.device='' @ dv_type dev @ '','' @ name @ concat (map (\<lambda>opt. '','' @ opt) (dv_options dev))] @
     dv_args dev"


subsection \<open>What the supervisor prepares\<close>

definition lock_device :: "string \<Rightarrow> err option io" where
  "lock_device name = do {
     e \<leftarrow> do_sys (OpenLock (lock_path name));
     if e \<noteq> None then ret e
     else do {
       e \<leftarrow> do_sys (Flock (lock_path name));
       if e \<noteq> None then do {
         _ \<leftarrow> sys (CloseFile (lock_path name));
         ret (Some (Msg (''another invirtio run has '' @ name @ '', is invirtio@'' @ name @ '' running?'')))}
       else ret None}}"

definition mount_log_dir :: "string \<Rightarrow> err option io" where
  "mount_log_dir name = do {
     e \<leftarrow> do_sys (MkdirAll (log_dir name) 448);
     if e \<noteq> None then ret e
     else do {
       m \<leftarrow> is_mount_point (log_dir name);
       if m then ret None else do_sys (MountTmpfs (log_dir name) log_tmpfs_options)}}"

definition warn_err :: "bool \<Rightarrow> err option \<Rightarrow> unit io" where
  "warn_err jerr e = (case e of None \<Rightarrow> ret () | Some e \<Rightarrow> warn jerr (err_text e))"

definition cleanup :: "bool \<Rightarrow> string \<Rightarrow> unit io" where
  "cleanup jerr name = do {
     e \<leftarrow> vdpa_remove name True;
     _ \<leftarrow> warn_err jerr e;
     e \<leftarrow> vdpa_destroy name;
     warn_err jerr e}"

definition wait_once :: "string \<Rightarrow> nat \<Rightarrow> string list option io" where
  "wait_once name i = do {
     nets \<leftarrow> host_interfaces name;
     if nets \<noteq> [] then ret (Some nets)
     else do {_ \<leftarrow> sys (Sleep 100); ret None}}"

definition wait_interfaces :: "string \<Rightarrow> string list io" where
  "wait_interfaces name = do {
     r \<leftarrow> loop 50 (wait_once name) 0;
     ret (case r of Some nets \<Rightarrow> nets | None \<Rightarrow> [''none''])}"

definition on_journal :: "nat \<Rightarrow> bool io" where
  "on_journal fd = do {
     st \<leftarrow> sys (FstatDev fd);
     if \<not> succeeded st then ret False
     else do {
       v \<leftarrow> sys (Getenv ''JOURNAL_STREAM'');
       ret (datum v = join_with '':'' (take 2 (snd st)))}}"


subsection \<open>The guest's cgroup\<close>

text \<open>The last line for the unified hierarchy.\<close>

definition cgroup_rel :: "string \<Rightarrow> string" where
  "cgroup_rel text = foldl (\<lambda>rel line. case cut_prefix line ''0::'' of Some p \<Rightarrow> p | None \<Rightarrow> rel) [] (split_on newline text)"

definition cgroup_steps :: "string \<Rightarrow> int \<Rightarrow> (string \<times> string \<times> bool) list" where
  "cgroup_steps base limit = (let guest = path_join [base, ''guest''] in [
     (path_join [base, ''cgroup.subtree_control''], ''+memory +pids'', False),
     (path_join [guest, ''memory.max''], show_int limit, False),
     (path_join [guest, ''memory.swap.max''], ''0'', True),
     (path_join [guest, ''pids.max''], ''4096'', False)])"

definition cgroup_step :: "string \<times> string \<times> bool \<Rightarrow> err option io" where
  "cgroup_step = (\<lambda>(file, v, optional). do {
     e \<leftarrow> sysfs_write file v;
     ret (case e of
         None \<Rightarrow> None
       | Some e \<Rightarrow> (if optional \<and> is_not_exist e then None else Some (Msg (file @ '': '' @ err_text e))))})"

definition setup_cgroup :: "string \<Rightarrow> device \<Rightarrow> string res io" where
  "setup_cgroup name dev =
     try_res (ask (ReadFile ''/proc/self/cgroup'')) (\<lambda>data.
       let rel = cgroup_rel data in
       if \<not> has_suffix rel (''/invirtio@'' @ name @ ''.service/supervisor'') then ret (Inl NotService)
       else case memory_max dev of
         Inl e \<Rightarrow> ret (Inl e)
       | Inr limit \<Rightarrow> do {
           let base = path_join [''/sys/fs/cgroup'', path_dir rel];
           let guest = path_join [base, ''guest''];
           e \<leftarrow> do_sys (Mkdir guest 493);
           if e \<noteq> None \<and> \<not> is_exist (the e) then ret (Inl (the e))
           else try_err (first_error cgroup_step (cgroup_steps base limit)) (ret (Inr guest))})"


subsection \<open>The start of the guest\<close>

datatype start_result = Failed err | NotStarted | Started "string list"

definition open_pty :: "err option io" where
  "open_pty = do {
     e \<leftarrow> do_sys (OpenRead ''/dev/ptmx'');
     if e \<noteq> None then ret e
     else do {
       r \<leftarrow> sys OpenPty;
       if \<not> succeeded r then do {_ \<leftarrow> sys (CloseFile ''/dev/ptmx''); ret (fault_err r)}
       else do {
         e \<leftarrow> do_sys (OpenRead (''/dev/pts/'' @ datum r));
         if e \<noteq> None then do {_ \<leftarrow> sys (CloseFile ''/dev/ptmx''); ret e}
         else ret None}}}"

definition start_launcher :: "string \<Rightarrow> device \<Rightarrow> string \<Rightarrow> start_result io" where
  "start_launcher name dev cgroup = do {
     e \<leftarrow> open_pty;
     (case e of
        Some e \<Rightarrow> ret (Failed (Msg (''cannot create the guest's console: '' @ err_text e)))
      | None \<Rightarrow> do {
          e \<leftarrow> do_sys MakePipe;
          r \<leftarrow> (case e of
            Some e \<Rightarrow> ret (Failed e)
          | None \<Rightarrow> do {
              sig \<leftarrow> sys PendingSignal;
              if succeeded sig then do {_ \<leftarrow> sys ClosePipe; ret NotStarted}
              else do {
                e \<leftarrow> do_sys (StartLauncher (guest_args name dev cgroup));
                _ \<leftarrow> sys ClosePipe;
                ret (case e of Some e \<Rightarrow> Failed e | None \<Rightarrow> Started (guest_args name dev cgroup))}});
          (case r of
             Started as \<Rightarrow> ret r
           | _ \<Rightarrow> do {_ \<leftarrow> sys (CloseFile ''/dev/ptmx''); ret r})})}"

definition prepare :: "string \<Rightarrow> device \<Rightarrow> err option io" where
  "prepare name dev = do {
     e \<leftarrow> command_run ''modprobe'' (''-a'' # modules (dv_type dev));
     if e \<noteq> None then ret e
     else and_then (do_sys (MkdirAll run_dir 448)) (and_then (do_sys (Chmod run_dir 448)) (lock_device name))}"

definition start_locked :: "bool \<Rightarrow> string \<Rightarrow> device \<Rightarrow> start_result io" where
  "start_locked jerr name dev = do {
     e \<leftarrow> mount_log_dir name;
     (case e of
        Some e \<Rightarrow> ret (Failed (Msg (''cannot mount the tmpfs for the in-flight log: '' @ err_text e)))
      | None \<Rightarrow> do {
          _ \<leftarrow> (if dv_type dev = ''wlan'' then cleanup jerr name else ret ());
          c \<leftarrow> setup_cgroup name dev;
          (case c of
             Inl NotService \<Rightarrow> do {
               _ \<leftarrow> warn jerr (''the guest runs without a cgroup of its own, since '' @ err_text NotService);
               start_launcher name dev []}
           | Inl e \<Rightarrow> ret (Failed (Msg (''cannot bound the guest's memory: '' @ err_text e)))
           | Inr g \<Rightarrow> start_launcher name dev g)})}"

definition start_guest :: "string \<Rightarrow> device \<Rightarrow> start_result io" where
  "start_guest name dev = do {
     jout \<leftarrow> on_journal 1;
     jerr \<leftarrow> on_journal 2;
     e \<leftarrow> prepare name dev;
     (case e of
        Some e \<Rightarrow> ret (Failed e)
      | None \<Rightarrow> do {
          r \<leftarrow> start_locked jerr name dev;
          (case r of
             Started as \<Rightarrow> ret r
           | _ \<Rightarrow> do {_ \<leftarrow> sys (CloseFile (lock_path name)); ret r})})}"

definition run_usage :: string where
  "run_usage = ''usage: invirtio run <name>'' @ [newline, newline] @
     ''Run the guest of an enabled device in the foreground and attach its device'' @ newline #
     ''to the host. The service invirtio@<name> runs this.'' @ [newline]"

text \<open>\<open>supervise_guest\<close> is what \<open>supervise\<close> does once the launcher runs.\<close>

definition cmd_run :: "(string \<Rightarrow> device \<Rightarrow> err option io) \<Rightarrow> string list \<Rightarrow> outcome io" where
  "cmd_run supervise_guest args =
     (case parse_flags [] Map.empty args of
        Inl n \<Rightarrow> usage_exit run_usage n
      | Inr (v, rest) \<Rightarrow>
          if length rest \<noteq> 1 then usage_exit run_usage 2
          else as_root False (do {
            c \<leftarrow> load_config;
            (case c of
               Inl e \<Rightarrow> ret (Returned (Some e))
             | Inr cfg \<Rightarrow>
                 (case config_device cfg (hd rest) of
                    Inl e \<Rightarrow> ret (Returned (Some e))
                  | Inr dev \<Rightarrow> do {
                      ok \<leftarrow> stat_ok guest_path;
                      if \<not> ok then ret (Returned (Some (Msg ''InvirtIO is not installed, run invirtio install'')))
                      else do {
                        r \<leftarrow> start_guest (hd rest) dev;
                        (case r of
                           Failed e \<Rightarrow> ret (Returned (Some e))
                         | NotStarted \<Rightarrow> ret (Returned None)
                         | Started as \<Rightarrow> do {e \<leftarrow> supervise_guest (hd rest) dev; ret (Returned e)})}}))}))"


subsection \<open>What comes before the start\<close>

definition starts :: "call \<Rightarrow> bool" where
  "starts c \<longleftrightarrow> (case c of StartLauncher xs \<Rightarrow> True | _ \<Rightarrow> False)"

definition holds_back :: "'a io \<Rightarrow> bool" where
  "holds_back m \<longleftrightarrow> emits m (\<lambda>x. only (\<lambda>c. \<not> starts c))"

lemma holds_ret [intro!]: "holds_back (ret x)"
  by (simp add: holds_back_def emits_ret)

lemma holds_bind [intro!]: "holds_back m \<Longrightarrow> (\<And>x. holds_back (f x)) \<Longrightarrow> holds_back (m \<bind> f)"
  unfolding holds_back_def by (rule only_emits_bind)

lemma holds_sys: "\<not> starts c \<Longrightarrow> holds_back (sys c)"
  unfolding holds_back_def by (rule emits_sys) simp

lemma holds_calls [intro!]:
  "\<not> starts c \<Longrightarrow> holds_back (do_sys c)" "\<not> starts c \<Longrightarrow> holds_back (ask c)" "holds_back (stat_ok p)"
  "holds_back (sysfs_write p v)" "holds_back (command_run p xs)" "holds_back (warn j s)"
  unfolding do_sys_def ask_def stat_ok_def sysfs_write_def command_run_def warn_def
  by (auto intro!: holds_sys simp: starts_def)

lemma holds_if [intro!]: "holds_back m \<Longrightarrow> holds_back n \<Longrightarrow> holds_back (if b then m else n)"
  by simp

lemma holds_loop [intro!]: "(\<And>n. holds_back (body n)) \<Longrightarrow> holds_back (loop k body n)"
  by (induction k arbitrary: n) (auto split: option.split)

lemma holds_vdpa [intro!]: "holds_back (vdpa_remove name g)" "holds_back (vdpa_destroy name)"
  unfolding vdpa_remove_def vdpa_destroy_def vdpa_attached_def vduse_exists_def destroy_once_def
  by (auto intro!: holds_sys split: option.split simp: starts_def)

lemma holds_setup [intro!]: "holds_back (mount_log_dir name)" "holds_back (cleanup j name)" "holds_back open_pty"
  "holds_back (on_journal fd)"
  unfolding mount_log_dir_def is_mount_point_def cleanup_def warn_err_def open_pty_def on_journal_def
  by (auto intro!: holds_sys split: option.split simp: starts_def)

lemma holds_back_with:
  "holds_back m \<Longrightarrow> emits m P \<Longrightarrow> emits m (\<lambda>x t. only (\<lambda>c. \<not> starts c) t \<and> P x t)"
  unfolding holds_back_def by (rule emits_conj)

text \<open>Every step of a list succeeded, and what that means is kept by what is done before and after.\<close>

lemma first_error_all:
  assumes "\<And>x. emits (f x) (\<lambda>e t. case e of None \<Rightarrow> Q x t | Some y \<Rightarrow> R y)"
    and "\<And>x s t u. Q x t \<Longrightarrow> Q x (s @ t @ u)"
  shows "emits (first_error f xs) (\<lambda>e t. case e of None \<Rightarrow> \<forall>x\<in>set xs. Q x t | Some y \<Rightarrow> R y)"
proof (induction xs)
  case (Cons x xs)
  have after: "Q y (t @ u)" if "Q y u" for y t u using assms(2) [OF that, of t "[]"] by simp
  have before: "Q y (t @ u)" if "Q y t" for y t u using assms(2) [OF that, of "[]" u] by simp
  show ?case
    unfolding first_error.simps
  proof (rule emits_bind [OF assms(1)], rule emits_option)
    show "emits (first_error f xs) (\<lambda>e u. case e of None \<Rightarrow> \<forall>x\<in>set (x # xs). Q x (t @ u) | Some y \<Rightarrow> R y)"
      if "case e of None \<Rightarrow> Q x t | Some y \<Rightarrow> R y" "e = None" for e t
      by (rule emits_mono [OF Cons.IH]) (use that in \<open>auto intro: after before split: option.splits\<close>)
    show "emits (ret e) (\<lambda>e u. case e of None \<Rightarrow> \<forall>x\<in>set (x # xs). Q x (t @ u) | Some y \<Rightarrow> R y)"
      if "case e of None \<Rightarrow> Q x t | Some y \<Rightarrow> R y" "e = Some z" for e z t
      using that by (auto intro: emits_ret)
  qed
qed (simp add: emits_ret)

definition set_up :: "string \<times> string \<times> bool \<Rightarrow> history \<Rightarrow> bool" where
  "set_up x t \<longleftrightarrow> (case x of (file, v, optional) \<Rightarrow> optional \<or> wrote file v t)"

lemma cgroup_step_emits:
  "emits (cgroup_step x) (\<lambda>e t. case e of None \<Rightarrow> set_up x t | Some y \<Rightarrow> y \<noteq> NotService)"
proof (cases x)
  case (fields p v opt)
  have "emits (cgroup_step (p, v, opt)) (\<lambda>e t. case e of None \<Rightarrow> set_up (p, v, opt) t | Some y \<Rightarrow> y \<noteq> NotService)"
    unfolding cgroup_step_def prod.case
    by (rule emits_bind [OF sysfs_write_emits], rule emits_ret) (auto simp: set_up_def split: option.splits if_splits)
  then show ?thesis unfolding fields .
qed

text \<open>The limits of a guest's cgroup were written.\<close>

definition bounded :: "device \<Rightarrow> string \<Rightarrow> history \<Rightarrow> bool" where
  "bounded dev g t \<longleftrightarrow> (\<exists>limit. memory_max dev = Inr limit \<and>
     wrote (path_join [g, ''memory.max'']) (show_int limit) t \<and> wrote (path_join [g, ''pids.max'']) ''4096'' t)"

text \<open>The supervisor's own cgroup, as it read it, is not the subgroup of the service.\<close>

definition not_service :: "string \<Rightarrow> history \<Rightarrow> bool" where
  "not_service name t \<longleftrightarrow> (\<exists>x\<in>set t. fst x = ReadFile ''/proc/self/cgroup'' \<and> succeeded (snd x) \<and>
     \<not> has_suffix (cgroup_rel (datum (snd x))) (''/invirtio@'' @ name @ ''.service/supervisor''))"

lemma emits_try_res:
  "emits m P \<Longrightarrow> (\<And>e t. P (Inl e) t \<Longrightarrow> Q (Inl e) t) \<Longrightarrow> (\<And>x t. P (Inr x) t \<Longrightarrow> emits (f x) (\<lambda>r u. Q r (t @ u))) \<Longrightarrow>
   emits (try_res m f) Q"
  unfolding try_res_def by (erule emits_bind) (auto intro!: emits_sum emits_ret)

lemma emits_try_err:
  "emits m P \<Longrightarrow> (\<And>e t. P (Some e) t \<Longrightarrow> Q (Inl e) t) \<Longrightarrow> (\<And>t. P None t \<Longrightarrow> emits f (\<lambda>r u. Q r (t @ u))) \<Longrightarrow>
   emits (try_err m f) Q"
  unfolding try_err_def by (erule emits_bind) (auto intro!: emits_option emits_ret)

lemma path_join_guest: "path_join [base, ''guest''] \<noteq> []"
  by (auto simp: path_join_def path_clean_def Let_def)

lemma cgroup_steps_bounded:
  "memory_max dev = Inr limit \<Longrightarrow> \<forall>x\<in>set (cgroup_steps base limit). set_up x t \<Longrightarrow>
   bounded dev (path_join [base, ''guest'']) (s @ t @ u)"
  by (auto simp: bounded_def cgroup_steps_def set_up_def Let_def)

lemma memory_max_error: "memory_max dev = Inl e \<Longrightarrow> e \<noteq> NotService"
  by (auto simp: memory_max_def size_error_def split: if_splits option.splits)

definition set_up_result :: "string \<Rightarrow> device \<Rightarrow> string res \<Rightarrow> history \<Rightarrow> bool" where
  "set_up_result name dev r t \<longleftrightarrow> (case r of Inl e \<Rightarrow> e = NotService \<longrightarrow> not_service name t
     | Inr g \<Rightarrow> g \<noteq> [] \<and> bounded dev g t)"

lemma fault_not_service: "fault_err r \<noteq> Some NotService"
  by (auto simp: fault_err_def)

lemma setup_cgroup_emits: "emits (setup_cgroup name dev) (set_up_result name dev)"
proof -
  have steps: "emits (first_error cgroup_step (cgroup_steps base limit))
      (\<lambda>e t. case e of None \<Rightarrow> \<forall>x\<in>set (cgroup_steps base limit). set_up x t | Some y \<Rightarrow> y \<noteq> NotService)" for base limit
    by (rule first_error_all [OF cgroup_step_emits]) (auto simp: set_up_def)
  have read: "emits (ask c) (\<lambda>x t. case x of Inl e \<Rightarrow> e \<noteq> NotService
      | Inr d \<Rightarrow> \<exists>r. t = [(c, r)] \<and> succeeded r \<and> d = datum r)" for c
    unfolding ask_def
    by (intro emits_steps) (auto simp: result_def fault_not_service simp flip: fault_err_iff split: option.splits)
  have mk: "emits (do_sys c) (\<lambda>x t. x \<noteq> Some NotService)" for c
    unfolding do_sys_def by (intro emits_steps fault_not_service)
  have tail: "emits (try_err (first_error cgroup_step (cgroup_steps base limit)) (ret (Inr (path_join [base, ''guest'']))))
      (\<lambda>r u. set_up_result name dev r (s @ u))" if "memory_max dev = Inr limit" for base limit s
    by (rule emits_try_err [OF steps], simp add: set_up_result_def, rule emits_ret)
      (use cgroup_steps_bounded [OF that, of base _ s "[]"] path_join_guest in \<open>auto simp: set_up_result_def\<close>)
  show ?thesis
    unfolding setup_cgroup_def Let_def
    apply (rule emits_try_res [OF read], simp add: set_up_result_def)
    apply (simp only: sum.case, elim exE conjE, hypsubst)
    apply (rule emits_if, rule emits_ret, simp add: set_up_result_def not_service_def)
    apply (rule emits_sum, rule emits_ret, simp add: set_up_result_def memory_max_error)
    apply (rule emits_bind [OF mk], rule emits_if, rule emits_ret, simp add: set_up_result_def, fastforce)
    apply (subst append_assoc [symmetric], rule tail, assumption)
    done
qed

text \<open>Every start of a launcher comes after a history and with arguments for which \<open>G\<close> holds.\<close>

fun guarded :: "(history \<Rightarrow> string list \<Rightarrow> bool) \<Rightarrow> history \<Rightarrow> history \<Rightarrow> bool" where
  "guarded G s [] = True"
| "guarded G s ((c, r) # t) =
     ((case c of StartLauncher xs \<Rightarrow> G s xs | _ \<Rightarrow> True) \<and> guarded G (s @ [(c, r)]) t)"

fun launched :: "history \<Rightarrow> string list list" where
  "launched [] = []"
| "launched ((c, r) # t) = (case c of StartLauncher xs \<Rightarrow> (if succeeded r then [xs] else []) | _ \<Rightarrow> []) @ launched t"

fun started_args :: "start_result \<Rightarrow> string list list" where
  "started_args (Started xs) = [xs]"
| "started_args _ = []"

lemma guarded_append: "guarded G s (t @ u) \<longleftrightarrow> guarded G s t \<and> guarded G (s @ t) u"
  by (induction G s t rule: guarded.induct) auto

lemma launched_append [simp]: "launched (t @ u) = launched t @ launched u"
  by (induction t rule: launched.induct) auto

lemma only_guarded: "only (\<lambda>c. \<not> starts c) t \<Longrightarrow> guarded G s t \<and> launched t = []"
proof (induction G s t rule: guarded.induct)
  case (2 G s c r t)
  then show ?case by (cases c) (simp_all add: starts_def)
qed simp

definition launches :: "(history \<Rightarrow> string list \<Rightarrow> bool) \<Rightarrow> history \<Rightarrow> start_result \<Rightarrow> history \<Rightarrow> bool" where
  "launches G s r t \<longleftrightarrow> guarded G s t \<and> launched t = started_args r"

lemma launches_before:
  "only (\<lambda>c. \<not> starts c) t \<Longrightarrow> launches G (s @ t) r u \<Longrightarrow> launches G s r (t @ u)"
  using only_guarded [of t G s] by (simp add: launches_def guarded_append)

lemma launches_after: "launches G s r t \<Longrightarrow> \<not> starts c \<Longrightarrow> launches G s r (t @ [(c, x)])"
  using only_guarded [of "[(c, x)]" G "s @ t"] by (simp add: launches_def guarded_append)

lemma launches_none: "only (\<lambda>c. \<not> starts c) t \<Longrightarrow> started_args r = [] \<Longrightarrow> launches G s r t"
  using only_guarded [of t G s] by (simp add: launches_def)

lemma emits_hold_bind:
  assumes "holds_back m" "emits m P"
    and "\<And>x t. P x t \<Longrightarrow> only (\<lambda>c. \<not> starts c) t \<Longrightarrow> emits (f x) (launches G (s @ t))"
  shows "emits (m \<bind> f) (launches G s)"
  by (rule emits_bind [OF holds_back_with [OF assms(1,2)]])
    (use assms(3) in \<open>auto intro: launches_before emits_mono\<close>)

lemma emits_hold:
  assumes "holds_back m" "\<And>x t. emits (f x) (launches G (s @ t))"
  shows "emits (m \<bind> f) (launches G s)"
proof -
  have "emits m (\<lambda>x t. True)" using assms(1) unfolding holds_back_def by (auto elim: emits_mono)
  then show ?thesis by (rule emits_hold_bind [OF assms(1)]) (rule assms(2))
qed

text \<open>Closing something after the attempt.\<close>

lemma emits_close:
  assumes "emits m (launches G s)" "\<not> starts c"
  shows "emits (do {r \<leftarrow> m; (case r of Started as \<Rightarrow> ret r | _ \<Rightarrow> do {_ \<leftarrow> sys c; ret r})}) (launches G s)"
  by (rule emits_bind [OF assms(1)])
    (auto split: start_result.split intro!: emits_ret emits_sys_bind launches_after assms(2))

lemma start_launcher_emits:
  assumes "\<And>x. G (s @ x) (guest_args name dev cg)"
  shows "emits (start_launcher name dev cg) (launches G s)"
proof -
  have none: "launches G (s @ x) r []" if "started_args r = []" for x r by (rule launches_none) (use that in auto)
  show ?thesis
    unfolding start_launcher_def
    apply (rule emits_hold [OF holds_setup(3)], rule emits_option)
     apply (rule emits_hold [OF holds_calls(1)], simp add: starts_def)
     apply (rule emits_close, rule emits_option)
       apply (rule emits_hold [OF holds_sys], simp add: starts_def, rule emits_if)
        apply (rule emits_sys_bind, rule emits_ret, simp add: launches_def)
       apply (intro emits_do_sys_bind emits_sys_bind emits_ret)
       apply (auto simp: launches_def assms starts_def simp flip: fault_err_iff split: option.split intro!: emits_ret)
    done
qed

definition locked :: "string \<Rightarrow> history \<Rightarrow> bool" where
  "locked name t \<longleftrightarrow> (\<exists>x\<in>set t. fst x = Flock (lock_path name) \<and> succeeded (snd x))"

definition may_start :: "string \<Rightarrow> device \<Rightarrow> history \<Rightarrow> string list \<Rightarrow> bool" where
  "may_start name dev t xs \<longleftrightarrow> locked name t \<and>
     (\<exists>g. xs = guest_args name dev g \<and> (if g = [] then not_service name t else bounded dev g t))"

lemma locked_append [simp]: "locked name (t @ u) \<longleftrightarrow> locked name t \<or> locked name u"
  by (auto simp: locked_def)

lemma not_service_append [simp]: "not_service name (t @ u) \<longleftrightarrow> not_service name t \<or> not_service name u"
  by (auto simp: not_service_def)

lemma bounded_more: "bounded dev g t \<Longrightarrow> bounded dev g (s @ t @ u)"
  by (auto simp: bounded_def)


lemma lock_device_emits: "emits (lock_device name) (\<lambda>e t. e = None \<longrightarrow> locked name t)"
  unfolding lock_device_def
  by (intro emits_steps) (auto simp: locked_def simp flip: fault_err_iff)


lemma emits_any: "holds_back m \<Longrightarrow> emits m (\<lambda>x t. True)"
  unfolding holds_back_def by (auto elim: emits_mono)

lemma holds_back_more [intro!]: "holds_back (lock_device name)" "holds_back (setup_cgroup name dev)" "holds_back (prepare name dev)"
proof -
  show 1: "holds_back (lock_device name)"
    unfolding lock_device_def by (auto intro!: holds_sys simp: starts_def)
  have "holds_back (first_error cgroup_step xs)" for xs
    by (induction xs) (auto simp: cgroup_step_def split: option.split prod.split)
  then show "holds_back (setup_cgroup name dev)"
    unfolding setup_cgroup_def try_res_def try_err_def Let_def
    by (auto split: sum.split option.split simp: starts_def)
  show "holds_back (prepare name dev)"
    unfolding prepare_def and_then_def by (auto intro!: 1 simp: starts_def)
qed

lemma prepare_emits: "emits (prepare name dev) (\<lambda>e t. e = None \<longrightarrow> locked name t)"
proof -
  have call: "emits (do_sys c) (\<lambda>e t. True)" for c unfolding do_sys_def by (intro emits_steps TrueI)
  have cmd: "emits (command_run p xs) (\<lambda>e t. True)" for p xs by (rule emits_mono [OF command_run_emits]) simp
  show ?thesis
    unfolding prepare_def and_then_def
    apply (rule emits_bind [OF cmd], rule emits_if, rule emits_ret, fastforce)
    apply (rule emits_bind [OF call], rule emits_if, rule emits_ret, fastforce)
    apply (rule emits_bind [OF call], rule emits_if, rule emits_ret, fastforce)
    apply (rule emits_mono [OF lock_device_emits], simp)
    done
qed

lemma start_locked_emits:
  assumes l: "locked name s"
  shows "emits (start_locked jerr name dev) (launches (may_start name dev) s)"
proof -
  let ?G = "may_start name dev"
  have failed: "emits (ret (Failed e)) (launches ?G u)" for e u by (rule emits_ret) (simp add: launches_def)
  have bare: "emits (start_launcher name dev []) (launches ?G u)" if "not_service name u" "locked name u" for u
    by (rule start_launcher_emits) (use that in \<open>auto simp: may_start_def\<close>)
  have own: "emits (start_launcher name dev g) (launches ?G u)" if "g \<noteq> []" "bounded dev g u" "locked name u" for g u
    by (rule start_launcher_emits)
      (use that bounded_more [of dev g u "[]"] in \<open>auto simp: may_start_def intro!: exI [of _ g]\<close>)
  have clean: "holds_back (if b then cleanup jerr name else ret ())" for b by auto
  show ?thesis
    unfolding start_locked_def
  proof (rule emits_hold [OF holds_setup(1)], rule emits_option)
    fix t
    show "emits (do {
        _ \<leftarrow> (if dv_type dev = ''wlan'' then cleanup jerr name else ret ());
        c \<leftarrow> setup_cgroup name dev;
        (case c of
           Inl NotService \<Rightarrow> do {
             _ \<leftarrow> warn jerr (''the guest runs without a cgroup of its own, since '' @ err_text NotService);
             start_launcher name dev []}
         | Inl e \<Rightarrow> ret (Failed (Msg (''cannot bound the guest's memory: '' @ err_text e)))
         | Inr g \<Rightarrow> start_launcher name dev g)}) (launches ?G (s @ t))"
    proof (rule emits_hold [OF clean], rule emits_hold_bind [OF holds_back_more(2) setup_cgroup_emits])
      fix u r v
      assume r: "set_up_result name dev r v"
      show "emits (case r of
           Inl NotService \<Rightarrow> do {
             _ \<leftarrow> warn jerr (''the guest runs without a cgroup of its own, since '' @ err_text NotService);
             start_launcher name dev []}
         | Inl e \<Rightarrow> ret (Failed (Msg (''cannot bound the guest's memory: '' @ err_text e)))
         | Inr g \<Rightarrow> start_launcher name dev g) (launches ?G (((s @ t) @ u) @ v))"
        using r l bounded_more [of dev _ v "(s @ t) @ u" "[]"]
        by (cases r; (cases "projl r")?)
          (auto simp: set_up_result_def intro!: failed own emits_hold [OF holds_calls(6)] bare)
    qed
  qed (rule failed)
qed


end
