(* ===== verification/ConsoleClient.thy ===== *)
theory ConsoleClient
  imports Systems EscapeFilter Config Flags
begin

text \<open>
  cmd/invirtio/console.go: the command console, which attaches a terminal to the console of a guest.
  Its goroutines are a step relation: the copier reads the connection and writes through the escape
  filter to the terminal, the reader sends what is typed, a signal ends the session, and the main
  goroutine takes the first outcome, closes the connection, waits for the copier and resets the
  terminal. What comes before and after is the operation \<open>cmd_console\<close>.
\<close>

definition detach_key :: byte where "detach_key = 0x1d"

definition esc :: "string \<Rightarrow> string" where
  "esc s = CHR 0x1B # s"

definition terminal_reset :: string where
  "terminal_reset = esc ''<'' @ esc ''%G'' @ [CHR 0x0F] @ esc ''[!p'' @
     esc ''[?1049l'' @ esc ''[?5l'' @ esc ''[?9l'' @ esc ''[?1000l'' @ esc ''[?1002l'' @ esc ''[?1003l'' @ esc ''[?1006l'' @
     esc ''[?1004l'' @ esc ''[?2004l'' @ esc ''[>4m'' @ esc ''[<99u'' @ esc ''[?25h'' @ esc ''(B'' @ esc ''[0m''"

definition utf8_name :: "string \<Rightarrow> bool" where
  "utf8_name l \<longleftrightarrow> str_contains (to_lower l) ''utf-8'' \<or> str_contains (to_lower l) ''utf8''"

fun locale_of :: "string list \<Rightarrow> bool io" where
  "locale_of [] = ret False"
| "locale_of (v # vs) = do {
     r \<leftarrow> sys (Getenv v);
     if datum r \<noteq> [] then ret (utf8_name (datum r)) else locale_of vs}"

definition utf8_locale :: "bool io" where
  "utf8_locale = locale_of [''LC_ALL'', ''LC_CTYPE'', ''LANG'']"


subsection \<open>The command\<close>

definition put_u16 :: "int \<Rightarrow> string" where
  "put_u16 n = [char_of (nat (n mod 65536) div 256), char_of (nat (n mod 65536) mod 256)]"

definition console_header :: "reply \<Rightarrow> string" where
  "console_header r =
     (case (succeeded r, map parse_int64 (snd r)) of
        (True, [Some cols, Some rows]) \<Rightarrow> put_u16 rows @ put_u16 cols
      | _ \<Rightarrow> put_u16 0 @ put_u16 0)"

definition locale_warning :: string where
  "locale_warning = ''the locale is not UTF-8, and a terminal that is not in UTF-8 can take parts of UTF-8 text from the guest as controls''"

definition restore_terminal :: "bool \<Rightarrow> unit io" where
  "restore_terminal raw =
     (if raw then do {
        _ \<leftarrow> print terminal_reset;
        _ \<leftarrow> sys RestoreTerm;
        ret ()} else ret ())"

definition eprint :: "string \<Rightarrow> unit io" where
  "eprint s = do {_ \<leftarrow> sys (Eprint s); ret ()}"

text \<open>
  The session up to its first outcome, which \<open>relay\<close> returns with whether it is \<open>net.ErrClosed\<close>; the
  main goroutine then closes the connection and, once the copier ended, resets the terminal.
\<close>

definition run_session :: "(err option \<times> bool) io \<Rightarrow> string \<Rightarrow> bool \<Rightarrow> err option io" where
  "run_session relay name raw = do {
     _ \<leftarrow> print (esc ''%G'');
     _ \<leftarrow> eprint (''Attached to '' @ name @ ''. Press Ctrl-] to detach.'' @ [CHR 0x0D, newline]);
     r \<leftarrow> relay;
     _ \<leftarrow> sys SockClose;
     _ \<leftarrow> restore_terminal raw;
     _ \<leftarrow> eprint ([CHR 0x0D, newline] @ ''Detached from '' @ name @ ''.'' @ [CHR 0x0D, newline]);
     ret (if snd r then None else fst r)}"

definition open_session :: "(err option \<times> bool) io \<Rightarrow> string \<Rightarrow> err option io" where
  "open_session relay name = do {
     sz \<leftarrow> sys TermSize;
     e \<leftarrow> do_sys (SockWrite (console_header sz));
     if e \<noteq> None then ret e
     else do {
       u \<leftarrow> utf8_locale;
       _ \<leftarrow> (if u then ret () else warn False locale_warning);
       tty \<leftarrow> sys IsTerminal;
       if \<not> succeeded tty then run_session relay name False
       else do {
         e \<leftarrow> do_sys MakeRaw;
         if e \<noteq> None then ret e else run_session relay name True}}}"

definition console_usage :: string where
  "console_usage = ''usage: invirtio console <name>'' @ [newline, newline] @
     ''Attach to the console of a device's guest. Ctrl-] detaches.'' @ [newline]"

definition cmd_console :: "(err option \<times> bool) io \<Rightarrow> string list \<Rightarrow> outcome io" where
  "cmd_console relay args =
     (case parse_flags [] Map.empty args of
        Inl n \<Rightarrow> usage_exit console_usage n
      | Inr (v, rest) \<Rightarrow>
          if length rest \<noteq> 1 then usage_exit console_usage 2
          else (let name = hd rest in do {
            root \<leftarrow> require_root;
            if \<not> root then ret (Exited 1)
            else (case check_name name of
              Some e \<Rightarrow> ret (Returned (Some e))
            | None \<Rightarrow> do {
                e \<leftarrow> do_sys (DialUnix (console_path name));
                (case e of
                   Some e \<Rightarrow> ret (Returned (Some (Msg (''cannot reach the console of '' @ name @
                     '', is invirtio@'' @ name @ '' running? '' @ err_text e))))
                 | None \<Rightarrow> do {
                     e \<leftarrow> open_session relay name;
                     _ \<leftarrow> sys SockClose;
                     ret (Returned e)})})}))"


subsection \<open>The session\<close>

text \<open>
  \<open>cc_done\<close> is the channel of outcomes, which has room for the three that can come. The copier has
  read nothing that it did not filter; \<open>CopyShows out\<close> is before its write to the terminal.
\<close>

datatype copy_pc = CopyReads | CopyShows "byte list" | CopyEnded
datatype reader_pc = ReaderReads | ReaderSends "byte list" bool | ReaderEnded
datatype client_pc = ClientWaits | ClientCloses | ClientJoins | ClientEnded

record console_client =
  cc_filter :: escape_filter
  cc_copy :: copy_pc
  cc_reader :: reader_pc
  cc_signalled :: bool
  cc_done :: nat
  cc_open :: bool
  cc_main :: client_pc

definition start_client :: console_client where
  "start_client = \<lparr>cc_filter = new_filter, cc_copy = CopyReads, cc_reader = ReaderReads,
     cc_signalled = False, cc_done = 0, cc_open = True, cc_main = ClientWaits\<rparr>"

datatype client_label =
    Received "byte list" | Shown "byte list" | Typed "byte list" | Sent "byte list"
  | Silent | CloseSession | ResetTerminal

text \<open>What is sent of a chunk that was typed, and whether it has the key that detaches.\<close>

definition before_key :: "byte list \<Rightarrow> byte list" where
  "before_key p = takeWhile (\<lambda>b. b \<noteq> detach_key) p"

definition outcome_sent :: "console_client \<Rightarrow> console_client" where
  "outcome_sent s = s\<lparr>cc_done := Suc (cc_done s)\<rparr>"

inductive copy_step :: "console_client \<Rightarrow> client_label \<Rightarrow> console_client \<Rightarrow> bool" where
  copy_reads: "cc_copy s = CopyReads \<Longrightarrow> cc_open s \<Longrightarrow> filter_write (cc_filter s) p = (f, out) \<Longrightarrow>
     copy_step s (Received p) (s\<lparr>cc_filter := f, cc_copy := CopyShows out\<rparr>)"
| copy_shows: "cc_copy s = CopyShows out \<Longrightarrow> copy_step s (Shown out) (s\<lparr>cc_copy := CopyReads\<rparr>)"
| copy_fails: "cc_copy s = CopyShows out \<Longrightarrow>
     copy_step s (Shown (take n out)) (outcome_sent (s\<lparr>cc_copy := CopyEnded\<rparr>))"
| copy_ends: "cc_copy s = CopyReads \<Longrightarrow> copy_step s Silent (outcome_sent (s\<lparr>cc_copy := CopyEnded\<rparr>))"

inductive reader_step :: "console_client \<Rightarrow> client_label \<Rightarrow> console_client \<Rightarrow> bool" where
  reader_reads: "cc_reader s = ReaderReads \<Longrightarrow> p \<noteq> [] \<Longrightarrow>
     reader_step s (Typed p) (s\<lparr>cc_reader := ReaderSends (before_key p) (detach_key \<in> set p)\<rparr>)"
| reader_sends: "cc_reader s = ReaderSends q False \<Longrightarrow> cc_open s \<Longrightarrow>
     reader_step s (Sent q) (s\<lparr>cc_reader := ReaderReads\<rparr>)"
| reader_detaches: "cc_reader s = ReaderSends q True \<Longrightarrow> cc_open s \<Longrightarrow>
     reader_step s (Sent q) (outcome_sent (s\<lparr>cc_reader := ReaderEnded\<rparr>))"
| reader_fails: "cc_reader s = ReaderSends q k \<Longrightarrow> (if cc_open s then l = Sent (take n q) else l = Silent) \<Longrightarrow>
     reader_step s l (outcome_sent (s\<lparr>cc_reader := ReaderEnded\<rparr>))"
| reader_ends: "cc_reader s = ReaderReads \<Longrightarrow>
     reader_step s Silent (outcome_sent (s\<lparr>cc_reader := ReaderEnded\<rparr>))"

inductive client_main_step :: "console_client \<Rightarrow> client_label \<Rightarrow> console_client \<Rightarrow> bool" where
  main_takes: "cc_main s = ClientWaits \<Longrightarrow> 0 < cc_done s \<Longrightarrow>
     client_main_step s Silent (s\<lparr>cc_main := ClientCloses\<rparr>)"
| main_closes: "cc_main s = ClientCloses \<Longrightarrow>
     client_main_step s CloseSession (s\<lparr>cc_open := False, cc_main := ClientJoins\<rparr>)"
| main_resets: "cc_main s = ClientJoins \<Longrightarrow> cc_copy s = CopyEnded \<Longrightarrow>
     client_main_step s ResetTerminal (s\<lparr>cc_main := ClientEnded\<rparr>)"

inductive client_step :: "console_client \<Rightarrow> client_label \<Rightarrow> console_client \<Rightarrow> bool" where
  copier: "copy_step s l t \<Longrightarrow> client_step s l t"
| reader: "reader_step s l t \<Longrightarrow> client_step s l t"
| main: "client_main_step s l t \<Longrightarrow> client_step s l t"
| signalled: "\<not> cc_signalled s \<Longrightarrow> client_step s Silent (outcome_sent (s\<lparr>cc_signalled := True\<rparr>))"

inductive_cases copy_stepE: "copy_step s l t"
inductive_cases reader_stepE: "reader_step s l t"
inductive_cases main_stepE: "client_main_step s l t"
inductive_cases client_stepE: "client_step s l t"


subsection \<open>The specification\<close>

text \<open>
  A session is what came and how much of its filtered form was shown, what was typed and how much of
  it was sent, and how far it has ended. What is shown is next in the filtered text, and nothing is
  shown once the terminal is reset. What is sent is next in what was typed before the key, every
  chunk is sent before another is read, and nothing is sent once the connection is closed. The
  terminal is reset once, after the connection was closed.
\<close>

record session =
  ss_received :: "byte list"
  ss_shown :: nat
  ss_typed :: "byte list"
  ss_sent :: nat
  ss_closed :: bool
  ss_reset :: bool

definition new_session :: session where
  "new_session = \<lparr>ss_received = [], ss_shown = 0, ss_typed = [], ss_sent = 0, ss_closed = False, ss_reset = False\<rparr>"

definition comes_next :: "byte list \<Rightarrow> nat \<Rightarrow> byte list \<Rightarrow> bool" where
  "comes_next w n q \<longleftrightarrow> take (length q) (drop n w) = q"

definition filtered :: "byte list \<Rightarrow> byte list" where
  "filtered p = snd (filter_write new_filter p)"

fun session_next :: "session \<Rightarrow> client_label \<Rightarrow> session option" where
  "session_next a (Received p) = (if ss_closed a then None else Some (a\<lparr>ss_received := ss_received a @ p\<rparr>))"
| "session_next a (Shown q) =
     (if ss_reset a \<or> \<not> comes_next (filtered (ss_received a)) (ss_shown a) q then None
      else Some (a\<lparr>ss_shown := ss_shown a + length q\<rparr>))"
| "session_next a (Typed p) =
     (if ss_sent a \<noteq> length (ss_typed a) \<or> detach_key \<in> set (ss_typed a) then None
      else Some (a\<lparr>ss_typed := ss_typed a @ p\<rparr>))"
| "session_next a (Sent q) =
     (if ss_closed a \<or> \<not> comes_next (before_key (ss_typed a)) (ss_sent a) q then None
      else Some (a\<lparr>ss_sent := ss_sent a + length q\<rparr>))"
| "session_next a Silent = Some a"
| "session_next a CloseSession = (if ss_closed a then None else Some (a\<lparr>ss_closed := True\<rparr>))"
| "session_next a ResetTerminal = (if \<not> ss_closed a \<or> ss_reset a then None else Some (a\<lparr>ss_reset := True\<rparr>))"

text \<open>The state of the code and of the specification.\<close>

fun copy_rel :: "copy_pc \<Rightarrow> escape_filter \<Rightarrow> session \<Rightarrow> bool" where
  "copy_rel CopyReads f a = (filter_write new_filter (ss_received a) = (f, filtered (ss_received a)) \<and>
     ss_shown a = length (filtered (ss_received a)) \<and> \<not> ss_reset a)"
| "copy_rel (CopyShows out) f a = (filter_write new_filter (ss_received a) = (f, filtered (ss_received a)) \<and>
     drop (ss_shown a) (filtered (ss_received a)) = out \<and> ss_shown a \<le> length (filtered (ss_received a)) \<and> \<not> ss_reset a)"
| "copy_rel CopyEnded f a = True"

fun reader_rel :: "reader_pc \<Rightarrow> session \<Rightarrow> bool" where
  "reader_rel ReaderReads a = (ss_sent a = length (ss_typed a) \<and> detach_key \<notin> set (ss_typed a))"
| "reader_rel (ReaderSends q k) a = (drop (ss_sent a) (before_key (ss_typed a)) = q \<and> ss_sent a \<le> length (before_key (ss_typed a)) \<and>
     k = (detach_key \<in> set (ss_typed a)))"
| "reader_rel ReaderEnded a = True"

fun main_rel :: "client_pc \<Rightarrow> bool \<Rightarrow> session \<Rightarrow> bool" where
  "main_rel ClientWaits opn a = (opn \<and> \<not> ss_closed a \<and> \<not> ss_reset a)"
| "main_rel ClientCloses opn a = (opn \<and> \<not> ss_closed a \<and> \<not> ss_reset a)"
| "main_rel ClientJoins opn a = (\<not> opn \<and> ss_closed a \<and> \<not> ss_reset a)"
| "main_rel ClientEnded opn a = (\<not> opn \<and> ss_closed a \<and> ss_reset a)"

definition session_rel :: "console_client \<Rightarrow> session \<Rightarrow> bool" where
  "session_rel s a \<longleftrightarrow> copy_rel (cc_copy s) (cc_filter s) a \<and> reader_rel (cc_reader s) a \<and>
     main_rel (cc_main s) (cc_open s) a"

lemma main_rel_open: "main_rel m opn a \<Longrightarrow> opn = (\<not> ss_closed a)"
  by (cases m) auto

lemma before_key_append: "detach_key \<notin> set p \<Longrightarrow> before_key (p @ q) = p @ before_key q"
  by (induction p) (auto simp: before_key_def)

lemma before_key_all: "detach_key \<notin> set p \<Longrightarrow> before_key p = p"
  using before_key_append [of p "[]"] by (simp add: before_key_def)

lemma filtered_append:
  assumes "filter_write new_filter r = (f, filtered r)" "filter_write f p = (g, out)"
  shows "filter_write new_filter (r @ p) = (g, filtered r @ out)"
  by (simp only: console.step_append [of new_filter r p] assms Let_def prod.case)

lemma comes_take: "drop n w = q \<Longrightarrow> comes_next w n (take k q)"
  by (auto simp: comes_next_def min_def)

lemma copy_rel_other [simp]:
  "copy_rel c f (a\<lparr>ss_typed := x\<rparr>) = copy_rel c f a" "copy_rel c f (a\<lparr>ss_sent := n\<rparr>) = copy_rel c f a"
  "copy_rel c f (a\<lparr>ss_closed := b\<rparr>) = copy_rel c f a"
  by (cases c; simp)+

lemma reader_rel_other [simp]:
  "reader_rel c (a\<lparr>ss_received := x\<rparr>) = reader_rel c a" "reader_rel c (a\<lparr>ss_shown := n\<rparr>) = reader_rel c a"
  "reader_rel c (a\<lparr>ss_closed := b\<rparr>) = reader_rel c a" "reader_rel c (a\<lparr>ss_reset := b\<rparr>) = reader_rel c a"
  by (cases c; simp)+

lemma main_rel_other [simp]:
  "main_rel c b (a\<lparr>ss_received := x\<rparr>) = main_rel c b a" "main_rel c b (a\<lparr>ss_shown := n\<rparr>) = main_rel c b a"
  "main_rel c b (a\<lparr>ss_typed := x\<rparr>) = main_rel c b a" "main_rel c b (a\<lparr>ss_sent := n\<rparr>) = main_rel c b a"
  by (cases c; simp)+

lemma outcome_sent_fields [simp]:
  "cc_copy (outcome_sent s) = cc_copy s" "cc_filter (outcome_sent s) = cc_filter s"
  "cc_reader (outcome_sent s) = cc_reader s" "cc_open (outcome_sent s) = cc_open s"
  "cc_main (outcome_sent s) = cc_main s"
  by (simp_all add: outcome_sent_def)

lemma session_rel_start: "session_rel start_client new_session"
  using console.step_Nil [of new_filter]
  by (simp add: session_rel_def start_client_def new_session_def filtered_def)

lemma copy_refines:
  assumes "session_rel s a" "copy_step s l t"
  shows "\<exists>a'. session_next a l = Some a' \<and> session_rel t a'"
  using assms(2)
proof (cases rule: copy_step.cases)
  case (copy_reads p f out)
  with assms(1) have r: "filter_write new_filter (ss_received a) = (cc_filter s, filtered (ss_received a))"
      "ss_shown a = length (filtered (ss_received a))" "\<not> ss_reset a" "\<not> ss_closed a"
    using main_rel_open by (auto simp: session_rel_def)
  note w = filtered_append [OF r(1) copy_reads(5)]
  then have "filtered (ss_received a @ p) = filtered (ss_received a) @ out" by (simp add: filtered_def)
  with w r copy_reads assms(1) show ?thesis by (auto simp: session_rel_def)
next
  case (copy_shows out)
  with assms(1) show ?thesis by (auto simp: session_rel_def comes_next_def)
next
  case (copy_fails out n)
  with assms(1) show ?thesis by (auto simp: session_rel_def comes_take)
next
  case copy_ends
  with assms(1) show ?thesis by (auto simp: session_rel_def)
qed

lemma reader_refines:
  assumes "session_rel s a" "reader_step s l t"
  shows "\<exists>a'. session_next a l = Some a' \<and> session_rel t a'"
  using assms(2)
proof (cases rule: reader_step.cases)
  case (reader_reads p)
  with assms(1) have r: "ss_sent a = length (ss_typed a)" "detach_key \<notin> set (ss_typed a)"
    by (auto simp: session_rel_def)
  with assms(1) reader_reads show ?thesis by (auto simp: session_rel_def before_key_append)
next
  case (reader_sends q)
  then have r: "drop (ss_sent a) (before_key (ss_typed a)) = q" "detach_key \<notin> set (ss_typed a)" "\<not> ss_closed a"
      "ss_sent a \<le> length (before_key (ss_typed a))"
    using assms(1) main_rel_open by (auto simp: session_rel_def)
  then have "ss_sent a + length q = length (ss_typed a)" by (auto simp: before_key_all)
  with assms(1) reader_sends r show ?thesis by (auto simp: session_rel_def comes_next_def)
next
  case (reader_detaches q)
  then have "drop (ss_sent a) (before_key (ss_typed a)) = q" "\<not> ss_closed a"
    using assms(1) main_rel_open by (auto simp: session_rel_def)
  with assms(1) reader_detaches show ?thesis by (auto simp: session_rel_def comes_next_def)
next
  case (reader_fails q k n)
  then have r: "drop (ss_sent a) (before_key (ss_typed a)) = q" "cc_open s = (\<not> ss_closed a)"
    using assms(1) main_rel_open by (auto simp: session_rel_def)
  with assms(1) reader_fails show ?thesis by (cases "cc_open s") (auto simp: session_rel_def comes_take)
next
  case reader_ends
  with assms(1) show ?thesis by (auto simp: session_rel_def)
qed

lemma main_refines:
  assumes "session_rel s a" "client_main_step s l t"
  shows "\<exists>a'. session_next a l = Some a' \<and> session_rel t a'"
  using assms(2)
  by (cases rule: client_main_step.cases) (use assms(1) in \<open>auto simp: session_rel_def\<close>)

lemma signal_refines:
  "session_rel s a \<Longrightarrow> session_rel (outcome_sent (s\<lparr>cc_signalled := True\<rparr>)) a"
  by (simp add: session_rel_def)

interpretation session: refines client_step start_client session_next new_session session_rel
proof
  show "session_rel start_client new_session" by (rule session_rel_start)
next
  fix s a l t
  assume r: "session_rel s a" and c: "client_step s l t"
  from c show "\<exists>a'. session_next a l = Some a' \<and> session_rel t a'"
    by (cases rule: client_step.cases)
      (use r in \<open>auto intro: copy_refines reader_refines main_refines signal_refines\<close>)
qed

text \<open>
  C4 In every interleaving of its goroutines a console session shows only the filtered form of what the
  guest sent, in order and without gaps, and nothing after the terminal is reset; it sends what is
  typed before the key that detaches, in order, and nothing after; and it resets the terminal once,
  with the connection closed.
\<close>

theorem console_client_refines_session:
  "steps client_step start_client ls s \<Longrightarrow> accept session_next new_session ls \<noteq> None"
  using session.run_accepted [of ls s] by auto

text \<open>A key is typed and the session ends.\<close>

definition sample_session :: "client_label list" where
  "sample_session = [Typed [0x41, 0x1d], Sent [0x41], Silent, CloseSession, Silent, ResetTerminal]"

lemma sample_session_runs: "\<exists>s. steps client_step start_client sample_session s"
  unfolding sample_session_def
  apply (intro exI)
  apply (rule steps_Cons, rule reader, rule reader_reads, simp add: start_client_def, simp)
  apply (rule steps_Cons, rule reader, rule reader_detaches, simp add: detach_key_def before_key_def, simp add: start_client_def)
  apply (rule steps_Cons, rule main, rule main_takes, simp add: start_client_def, simp add: outcome_sent_def)
  apply (rule steps_Cons, rule main, rule main_closes, simp)
  apply (rule steps_Cons, rule copier, rule copy_ends, simp add: start_client_def)
  apply (rule steps_Cons, rule main, rule main_resets, simp, simp)
  apply (rule steps.no_step)
  done

theorem console_client_refines_session_witness: "accept session_next new_session sample_session \<noteq> None"
  using sample_session_runs console_client_refines_session by blast


subsection \<open>The terminal\<close>

text \<open>A terminal that was made raw is reset and restored, after which there is only the message.\<close>

definition is_eprint :: "call \<Rightarrow> bool" where
  "is_eprint c = (case c of Eprint s \<Rightarrow> True | _ \<Rightarrow> False)"

definition restored :: "history \<Rightarrow> bool" where
  "restored t \<longleftrightarrow> (\<exists>u q r v. t = u @ (Print terminal_reset, q) # (RestoreTerm, r) # v \<and> only is_eprint v)"

lemma restored_append: "restored t \<Longrightarrow> restored (u @ t)"
  unfolding restored_def by (metis append.assoc)

lemma restored_Cons: "restored t \<Longrightarrow> restored (x # t)"
  using restored_append [of t "[x]"] by simp

lemma emits_print_bind:
  "(\<And>r. emits (f ()) (\<lambda>x t. Q x ((Print s, r) # t))) \<Longrightarrow> emits (print s \<bind> f) Q"
  unfolding print_def by (simp add: emits_sys_bind)

lemma emits_eprint_bind:
  "(\<And>r. emits (f ()) (\<lambda>x t. Q x ((Eprint s, r) # t))) \<Longrightarrow> emits (eprint s \<bind> f) Q"
  unfolding eprint_def by (simp add: emits_sys_bind)

lemma run_session_restores:
  assumes "emits relay (\<lambda>x. only (\<lambda>c. c \<noteq> MakeRaw))"
  shows "emits (run_session relay name raw) (\<lambda>e t. only (\<lambda>c. c \<noteq> MakeRaw) t \<and> (raw \<longrightarrow> restored t))"
proof -
  have last: "emits (restore_terminal raw \<bind> (\<lambda>_. eprint m \<bind> (\<lambda>_. ret x)))
      (\<lambda>e t. only (\<lambda>c. c \<noteq> MakeRaw) t \<and> (raw \<longrightarrow> restored t))" for m and x :: "err option"
  proof (cases raw)
    case True
    have "restored [(Print terminal_reset, q), (RestoreTerm, r), (Eprint m, p)]" for q r p
      unfolding restored_def by (intro exI [of _ "[]"] exI conjI) (auto simp: is_eprint_def)
    with True show ?thesis
      by (auto simp: restore_terminal_def print_def eprint_def intro!: emits_sys_bind emits_ret)
  qed (auto simp: restore_terminal_def eprint_def intro!: emits_sys_bind emits_ret)
  show ?thesis
    unfolding run_session_def
    by (intro emits_print_bind emits_eprint_bind emits_bind [OF assms] emits_sys_bind emits_mono [OF last])
      (auto intro: restored_Cons restored_append)
qed

lemma utf8_locale_only: "emits utf8_locale (\<lambda>u. only (\<lambda>c. c \<noteq> MakeRaw))"
proof -
  have "emits (locale_of vs) (\<lambda>u. only (\<lambda>c. c \<noteq> MakeRaw))" for vs
    by (induction vs) (auto intro!: emits_sys_bind emits_ret elim!: emits_mono)
  then show ?thesis unfolding utf8_locale_def .
qed

lemma open_session_restores:
  assumes "emits relay (\<lambda>x. only (\<lambda>c. c \<noteq> MakeRaw))"
  shows "emits (open_session relay name)
    (\<lambda>e t. (\<exists>r. (MakeRaw, r) \<in> set t \<and> succeeded r) \<longrightarrow> restored t)"
proof -
  have none: "only (\<lambda>c. c \<noteq> MakeRaw) t \<Longrightarrow> (MakeRaw, r) \<notin> set t" for t r
    by (auto simp: only_def list_all_iff)
  have warned: "emits (if u then ret () else warn False m) (\<lambda>x. only (\<lambda>c. c \<noteq> MakeRaw))" for u m
    unfolding warn_def by (auto intro!: emits_if emits_ret emits_sys_bind)
  show ?thesis
    unfolding open_session_def
    apply (intro emits_sys_bind emits_do_sys_bind emits_if emits_ret emits_bind [OF utf8_locale_only]
        emits_bind [OF warned] emits_mono [OF run_session_restores [OF assms]])
    by (auto dest: none simp: image_iff intro!: restored_Cons restored_append)
qed

end
