(* ===== verification/Commands.thy ===== *)
theory Commands
  imports Install Status RunSetup ConsoleClient
begin

text \<open>
  cmd/invirtio/main.go: the dispatch of the commands and the exit status. What follows the start of a
  guest and the session of a console are step relations of their own, so \<open>supervise_guest\<close> and \<open>relay\<close>
  stand for their outcomes; \<open>jerr\<close> is whether the command run found its stderr to be the journal. The
  arguments are those of the process, the program first.
\<close>

definition main_usage :: string where
  "main_usage = join_with [newline]
     [''usage: invirtio <command> [arguments]'', [], ''Commands:'',
      ''  install    install the guest, the launcher and this tool, and the service'',
      ''  uninstall  disable every device and remove what install added'',
      ''  enable     run a device's driver in a guest and export it to the host'',
      ''  disable    stop a device's guest and return the device to its host driver'',
      ''  list       list the host's WiFi and Ethernet devices and their drivers'',
      ''  status     show the state of the devices'',
      ''  console    attach to a device's guest console, Ctrl-] detaches'',
      ''  run        run a device's guest, as the service does'', [],
      ''Run '' @ [CHR 0x22] @ ''invirtio <command> -h'' @ [CHR 0x22] @ '' for a command's options.'', []]"

definition exit_status :: "bool \<Rightarrow> outcome \<Rightarrow> nat io" where
  "exit_status journal r =
     (case r of
        Exited n \<Rightarrow> ret n
      | Returned None \<Rightarrow> ret 0
      | Returned (Some e) \<Rightarrow> fatal journal (err_text e))"

definition run_command ::
  "(string \<Rightarrow> device \<Rightarrow> err option io) \<Rightarrow> (err option \<times> bool) io \<Rightarrow> string \<Rightarrow> string list \<Rightarrow> outcome io option" where
  "run_command supervise_guest relay cmd args =
     (if cmd = ''install'' then Some (cmd_install args)
      else if cmd = ''uninstall'' then Some (cmd_uninstall args)
      else if cmd = ''enable'' then Some (cmd_enable args)
      else if cmd = ''disable'' then Some (cmd_disable args)
      else if cmd = ''list'' then Some (cmd_list args)
      else if cmd = ''status'' then Some (cmd_status args)
      else if cmd = ''console'' then Some (cmd_console relay args)
      else if cmd = ''run'' then Some (cmd_run supervise_guest args)
      else None)"

definition invirtio_main ::
  "(string \<Rightarrow> device \<Rightarrow> err option io) \<Rightarrow> (err option \<times> bool) io \<Rightarrow> bool \<Rightarrow> string list \<Rightarrow> nat io" where
  "invirtio_main supervise_guest relay jerr argv =
     (case argv of
        prog # cmd # args \<Rightarrow>
          (case run_command supervise_guest relay cmd args of
             None \<Rightarrow> do {r \<leftarrow> usage_exit main_usage 2; exit_status False r}
           | Some m \<Rightarrow> do {r \<leftarrow> m; exit_status (cmd = ''run'' \<and> jerr) r})
      | _ \<Rightarrow> do {r \<leftarrow> usage_exit main_usage 2; exit_status False r})"

text \<open>An unknown command changes nothing and exits with status 2.\<close>

lemma unknown_command:
  assumes "run_command sg relay cmd args = None"
  shows "emits (invirtio_main sg relay jerr (prog # cmd # args)) (\<lambda>n t. n = 2 \<and> effects t = [])"
  using assms by (auto simp: invirtio_main_def usage_exit_def exit_status_def intro!: emits_sys_bind emits_ret)

end
