(* ===== verification/CpuMask.thy ===== *)
theory CpuMask
  imports Vdpa Glob
begin

text \<open>
  internal/harness/cpu.go: CPU masks as sysfs prints and takes them, CPU lists, the placement of a
  VDUSE device's interrupts, and the CPU time in /proc. A mask is a list of 64-bit words, of which
  the first has the CPUs from 0 to 63.
\<close>

unbundle bit_operations_syntax

type_synonym mask = "64 word list"

subsection \<open>Masks\<close>

definition set_bit_in :: "mask \<Rightarrow> nat \<Rightarrow> mask" where
  "set_bit_in m b = (let m = m @ replicate (b div 64 + 1 - length m) 0
     in m[b div 64 := (m ! (b div 64)) OR push_bit (b mod 64) 1])"

definition intersects :: "mask \<Rightarrow> mask \<Rightarrow> bool" where
  "intersects a b \<longleftrightarrow> list_ex (\<lambda>i. i < length b \<and> (a ! i) AND (b ! i) \<noteq> 0) [0..<length a]"

definition has_cpu :: "mask \<Rightarrow> nat \<Rightarrow> bool" where
  "has_cpu m b \<longleftrightarrow> b div 64 < length m \<and> bit (m ! (b div 64)) (b mod 64)"

text \<open>\<open>strconv.ParseUint\<close> in base 16 for 32 bits.\<close>

definition hex_value :: "char \<Rightarrow> nat option" where
  "hex_value c = (if is_digit c then Some (code c - 48)
     else if 97 \<le> code c \<and> code c \<le> 102 then Some (code c - 87)
     else if 65 \<le> code c \<and> code c \<le> 70 then Some (code c - 55)
     else None)"

fun hex_acc :: "nat \<Rightarrow> string \<Rightarrow> nat option" where
  "hex_acc n [] = Some n"
| "hex_acc n (c # s) = (case hex_value c of None \<Rightarrow> None | Some d \<Rightarrow> hex_acc (16 * n + d) s)"

definition parse_hex32 :: "string \<Rightarrow> nat option" where
  "parse_hex32 s = (if s = [] then None else
     case hex_acc 0 s of None \<Rightarrow> None | Some n \<Rightarrow> if n < 4294967296 then Some n else None)"

text \<open>The groups from the last, the number of groups before it, and the mask so far.\<close>

fun add_groups :: "string list \<Rightarrow> nat \<Rightarrow> mask \<Rightarrow> mask option" where
  "add_groups [] i m = Some m"
| "add_groups (g # gs) i m =
     (case parse_hex32 g of
        None \<Rightarrow> None
      | Some v \<Rightarrow> add_groups gs (Suc i)
          (foldl (\<lambda>m b. if bit v b then set_bit_in m (32 * i + b) else m) m [0..<32]))"

definition mask_error :: "string \<Rightarrow> err" where
  "mask_error s = Msg (''cannot parse the CPU mask '' @ go_quote s)"

definition parse_mask :: "string \<Rightarrow> mask res" where
  "parse_mask s = (case add_groups (rev (split_on (CHR '','') (trim_space s))) 0 [] of
     None \<Rightarrow> Inl (mask_error s) | Some m \<Rightarrow> Inr m)"

text \<open>A number as \<open>%08x\<close>, for numbers below \<open>2^32\<close>.\<close>

fun show_hex :: "nat \<Rightarrow> nat \<Rightarrow> string" where
  "show_hex 0 n = []"
| "show_hex (Suc k) n = show_hex k (n div 16) @ [hex_digit (n mod 16)]"

definition hex_group :: "64 word \<Rightarrow> string" where
  "hex_group w = show_hex 8 (unat w)"

definition word_groups :: "64 word \<Rightarrow> string list" where
  "word_groups w = [hex_group (drop_bit 32 w), hex_group (w AND 0xffffffff)]"

definition zero_group :: string where
  "zero_group = ''00000000''"

fun strip_groups :: "string list \<Rightarrow> string list" where
  "strip_groups (g # h # gs) = (if g = zero_group then strip_groups (h # gs) else g # h # gs)"
| "strip_groups gs = gs"

definition format_mask :: "mask \<Rightarrow> string" where
  "format_mask m = (let gs = strip_groups (concat (map word_groups (rev m)))
     in if gs = [] then zero_group else join_with '','' gs)"


subsection \<open>Lists\<close>

definition list_error :: "string \<Rightarrow> err" where
  "list_error s = Msg (''cannot parse the CPU list '' @ go_quote s)"

definition add_range :: "mask \<Rightarrow> int \<Rightarrow> int \<Rightarrow> mask" where
  "add_range m a z = foldl set_bit_in m (map nat [a..z])"

fun add_ranges :: "string list \<Rightarrow> mask \<Rightarrow> mask option" where
  "add_ranges [] m = Some m"
| "add_ranges (r # rs) m =
     (case cut r ''-'' of (lo, hi, found) \<Rightarrow>
        (case parse_int64 lo of
           None \<Rightarrow> None
         | Some a \<Rightarrow>
             (case (if found then parse_int64 hi else Some a) of
                None \<Rightarrow> None
              | Some z \<Rightarrow> add_ranges rs (add_range m a z))))"

definition parse_cpu_list :: "string \<Rightarrow> mask res" where
  "parse_cpu_list s = (case add_ranges (split_on (CHR '','') s) [] of
     None \<Rightarrow> Inl (list_error s) | Some m \<Rightarrow> Inr m)"

definition ones_count :: "64 word \<Rightarrow> nat" where
  "ones_count w = length (filter (bit w) [0..<64])"


subsection \<open>The host\<close>

definition read_text :: "string \<Rightarrow> string io" where
  "read_text p = do {
     r \<leftarrow> sysfs_read p;
     ret (case r of Inl _ \<Rightarrow> [] | Inr s \<Rightarrow> s)}"

definition online_path :: string where
  "online_path = ''/sys/devices/system/cpu/online''"

definition online_cpus :: "nat io" where
  "online_cpus = do {
     s \<leftarrow> read_text online_path;
     ret (case parse_cpu_list s of Inl _ \<Rightarrow> 0 | Inr m \<Rightarrow> sum_list (map ones_count m))}"

definition irq_mask :: "int \<Rightarrow> mask \<Rightarrow> mask \<Rightarrow> mask" where
  "irq_mask cpu online m = (if 0 \<le> cpu then set_bit_in [] (nat cpu) else if \<not> intersects m online then online else m)"

definition place_irq :: "int \<Rightarrow> mask \<Rightarrow> string \<Rightarrow> err option io" where
  "place_irq cpu online f = do {
     s \<leftarrow> read_text f;
     (case parse_mask s of
        Inl e \<Rightarrow> ret (Some e)
      | Inr m \<Rightarrow> do {
          e \<leftarrow> sysfs_write f (format_mask (irq_mask cpu online m));
          ret (case e of None \<Rightarrow> None | Some e \<Rightarrow> Some (Msg (f @ '': '' @ err_text e)))})}"

definition place_irqs :: "string \<Rightarrow> int \<Rightarrow> err option io" where
  "place_irqs name cpu = do {
     s \<leftarrow> read_text online_path;
     (case parse_cpu_list s of
        Inl e \<Rightarrow> ret (Some e)
      | Inr online \<Rightarrow> do {
          r \<leftarrow> sys (Glob (path_join [''/sys/class/vduse'', name, ''vq*/irq_cb_affinity'']));
          first_error (place_irq cpu online) (if succeeded r then snd r else [])})}"


subsection \<open>CPU time\<close>

text \<open>\<open>ParseInt\<close> where the error is left out: a number out of range is the nearest limit.\<close>

definition int_or_zero :: "string \<Rightarrow> int" where
  "int_or_zero s =
     (let (neg, u) = (case s of
            [] \<Rightarrow> (False, [])
          | c # cs \<Rightarrow> if c = CHR ''-'' then (True, cs) else if c = CHR ''+'' then (False, cs) else (False, s))
      in if u = [] \<or> \<not> list_all is_digit u then 0
         else if neg then max (- 9223372036854775808) (- int (digits_val 0 u))
         else min max_int64 (int (digits_val 0 u)))"

fun parse_ints :: "string list \<Rightarrow> int list option" where
  "parse_ints [] = Some []"
| "parse_ints (s # ss) = (case parse_int64 s of None \<Rightarrow> None | Some n \<Rightarrow> map_option ((#) n) (parse_ints ss))"

definition parse_cpu_line :: "string \<Rightarrow> int \<times> int" where
  "parse_cpu_line line =
     (let f = str_fields line
      in if length f < 8 \<or> \<not> has_prefix (f ! 0) ''cpu'' then (0, 0)
         else case parse_ints (take (min (length f) 9 - 1) (drop 1 f)) of
             None \<Rightarrow> (0, 0)
           | Some v \<Rightarrow>
               (let total = foldl (\<lambda>t n. wrap64 (t + n)) 0 v
                in (wrap64 (wrap64 (total - v ! 3) - v ! 4), total)))"

definition host_cpu :: "(int \<times> int) io" where
  "host_cpu = do {
     r \<leftarrow> ask (ReadFile ''/proc/stat'');
     ret (case r of Inl _ \<Rightarrow> (0, 0) | Inr s \<Rightarrow> parse_cpu_line (fst (cut s [newline])))}"

definition after_comm :: "string \<Rightarrow> string list" where
  "after_comm stat = (case last_index stat (CHR '')'') of None \<Rightarrow> [] | Some i \<Rightarrow> str_fields (drop (i + 1) stat))"

definition parent_of :: "string \<Rightarrow> int" where
  "parent_of stat = (let f = after_comm stat in if length f < 2 then 0 else int_or_zero (f ! 1))"

definition parent_pid :: "int \<Rightarrow> int io" where
  "parent_pid pid = do {
     r \<leftarrow> ask (ReadFile (''/proc/'' @ show_int pid @ ''/stat''));
     ret (case r of Inl _ \<Rightarrow> 0 | Inr s \<Rightarrow> parent_of s)}"

definition parse_stat :: "string \<Rightarrow> int \<times> int" where
  "parse_stat stat =
     (let f = after_comm stat in if length f < 13 then (0, 0) else (int_or_zero (f ! 11), int_or_zero (f ! 12)))"

definition process_ticks :: "int \<Rightarrow> (int \<times> int) io" where
  "process_ticks pid = do {
     r \<leftarrow> ask (ReadFile (''/proc/'' @ show_int pid @ ''/stat''));
     ret (case r of Inl _ \<Rightarrow> (0, 0) | Inr s \<Rightarrow> parse_stat s)}"


subsection \<open>Masks as sets of CPUs\<close>

lemma bit_push_one: "k < 64 \<Longrightarrow> bit (push_bit k 1 :: 64 word) j \<longleftrightarrow> j = k"
  by (auto simp: bit_exp_iff)

lemma has_cpu_set_bit: "has_cpu (set_bit_in m n) b \<longleftrightarrow> has_cpu m b \<or> b = n"
proof -
  let ?q = "n div 64"
  let ?e = "m @ replicate (?q + 1 - length m) 0"
  have same: "has_cpu ?e b \<longleftrightarrow> has_cpu m b"
    by (auto simp: has_cpu_def nth_append)
  have len: "?q < length ?e" by simp
  have e: "b = n \<longleftrightarrow> b div 64 = ?q \<and> b mod 64 = n mod 64"
    by (metis div_mult_mod_eq)
  show ?thesis
  proof (cases "b div 64 = ?q")
    case True
    then have "has_cpu (set_bit_in m n) b \<longleftrightarrow> bit (?e ! ?q) (b mod 64) \<or> b mod 64 = n mod 64"
      using len by (simp add: has_cpu_def set_bit_in_def Let_def bit_or_iff bit_push_one del: push_bit_of_1 length_append)
    also have "bit (?e ! ?q) (b mod 64) \<longleftrightarrow> has_cpu ?e b" using True len by (simp add: has_cpu_def)
    finally show ?thesis using True e same by blast
  next
    case False
    then have "has_cpu (set_bit_in m n) b \<longleftrightarrow> has_cpu ?e b"
      by (simp add: has_cpu_def set_bit_in_def Let_def del: length_append)
    then show ?thesis using False e same by blast
  qed
qed

lemma has_cpu_bits:
  "has_cpu (foldl (\<lambda>m b. if bit v b then set_bit_in m (k + b) else m) m bs) x \<longleftrightarrow>
   has_cpu m x \<or> (\<exists>b\<in>set bs. bit v b \<and> x = k + b)"
  by (induction bs arbitrary: m) (auto simp: has_cpu_set_bit)

text \<open>The CPUs of groups of 32 bits, least significant first, of which \<open>i\<close> come before.\<close>

definition group_cpus :: "nat list \<Rightarrow> nat \<Rightarrow> nat \<Rightarrow> bool" where
  "group_cpus vs i x \<longleftrightarrow> i \<le> x div 32 \<and> x div 32 - i < length vs \<and> bit (vs ! (x div 32 - i)) (x mod 32)"

lemma group_cpus_Cons:
  "group_cpus (v # vs) i x \<longleftrightarrow> (\<exists>b\<in>set [0..<32]. bit v b \<and> x = 32 * i + b) \<or> group_cpus vs (Suc i) x"
proof (cases "x div 32 = i")
  case True
  have "(\<exists>b\<in>set [0..<32]. bit v b \<and> x = 32 * i + b) \<longleftrightarrow> bit v (x mod 32)"
  proof
    assume "bit v (x mod 32)"
    moreover have "x = 32 * i + x mod 32" using True by (metis mult_div_mod_eq)
    ultimately show "\<exists>b\<in>set [0..<32]. bit v b \<and> x = 32 * i + b" by (auto intro!: bexI [of _ "x mod 32"])
  qed auto
  with True show ?thesis by (simp add: group_cpus_def)
next
  case False
  then have "\<not> (\<exists>b\<in>set [0..<32]. bit v b \<and> x = 32 * i + b)" by auto
  with False show ?thesis
    by (auto simp: group_cpus_def nth_Cons' Suc_le_eq Suc_diff_Suc)
qed

lemma hex_digit_value: "d < 16 \<Longrightarrow> hex_value (hex_digit d) = Some d"
  by (simp add: hex_digit_def hex_value_def is_digit_def)

lemma hex_acc_append:
  "hex_acc n (s @ t) = (case hex_acc n s of None \<Rightarrow> None | Some m \<Rightarrow> hex_acc m t)"
  by (induction n s rule: hex_acc.induct) (auto split: option.split)

lemma hex_acc_show: "hex_acc m (show_hex k n) = Some (m * 16 ^ k + n mod 16 ^ k)"
proof (induction k arbitrary: n)
  case (Suc k)
  have "n mod 16 ^ Suc k = 16 * (n div 16 mod 16 ^ k) + n mod 16"
    using mod_mult2_eq [of n 16 "16 ^ k"] by simp
  with Suc show ?case by (simp add: hex_acc_append hex_digit_value algebra_simps)
qed simp

lemma length_show_hex [simp]: "length (show_hex k n) = k"
  by (induction k arbitrary: n) auto

lemma parse_show_hex: "v < 4294967296 \<Longrightarrow> parse_hex32 (show_hex 8 v) = Some v"
proof -
  assume "v < 4294967296"
  then have "hex_acc 0 (show_hex 8 v) = Some v" using hex_acc_show [of 0 8 v] by simp
  moreover have "show_hex 8 v \<noteq> []" using length_show_hex [of 8 v] by (metis list.size(3) zero_neq_numeral)
  ultimately show ?thesis using \<open>v < 4294967296\<close> by (simp add: parse_hex32_def)
qed

lemma add_groups_show:
  "list_all (\<lambda>v. v < 4294967296) vs \<Longrightarrow>
   \<exists>m'. add_groups (map (show_hex 8) vs) i m = Some m' \<and> (\<forall>x. has_cpu m' x \<longleftrightarrow> has_cpu m x \<or> group_cpus vs i x)"
proof (induction vs arbitrary: i m)
  case Nil
  then show ?case by (simp add: group_cpus_def)
next
  case (Cons v vs)
  let ?m = "foldl (\<lambda>m b. if bit v b then set_bit_in m (32 * i + b) else m) m [0..<32]"
  from Cons.prems have "list_all (\<lambda>v. v < 4294967296) vs" "v < 4294967296" by simp_all
  from Cons.IH [OF this(1), of "Suc i" ?m] this(2)
  show ?case unfolding group_cpus_Cons has_cpu_bits by (simp add: parse_show_hex)
qed

text \<open>The groups of a mask, least significant first, and what is left of them in the text.\<close>

definition word_halves :: "64 word \<Rightarrow> nat list" where
  "word_halves w = [unat (w AND 0xffffffff), unat (drop_bit 32 w)]"

definition halves :: "mask \<Rightarrow> nat list" where
  "halves m = concat (map word_halves m)"

lemma half_bits:
  "word_halves w ! h < 4294967296 \<and> (bit (word_halves w ! h) b \<longleftrightarrow> bit w (32 * h + b))"
  if "h < 2" "b < 32"
proof -
  have low: "w AND 0xffffffff = take_bit 32 w"
    by (simp add: take_bit_eq_mask mask_eq_exp_minus_1)
  have "h = 0 \<or> h = 1" using that by auto
  then show ?thesis
  proof
    assume "h = 0"
    moreover have "unat (take_bit 32 w) < 2 ^ 32"
      by (simp add: unsigned_take_bit_eq take_bit_nat_less_exp del: power_numeral)
    ultimately show ?thesis using that
      by (simp add: word_halves_def low bit_unsigned_iff bit_take_bit_iff)
  next
    assume "h = 1"
    moreover have "unat w < 2 ^ 64" using unsigned_less [of w, where ?'a = nat] by simp
    then have "unat (drop_bit 32 w) < 2 ^ 32"
      unfolding unat_drop_bit_eq by (simp add: drop_bit_eq_div less_mult_imp_div_less)
    ultimately show ?thesis using that
      by (auto simp: word_halves_def bit_unsigned_iff bit_drop_bit_eq dest: bit_imp_le_length)
  qed
qed

lemma length_halves: "length (halves m) = 2 * length m"
  by (induction m) (auto simp: halves_def word_halves_def)

lemma halves_nth: "j < 2 * length m \<Longrightarrow> halves m ! j = word_halves (m ! (j div 2)) ! (j mod 2)"
proof (induction m arbitrary: j)
  case (Cons w m)
  show ?case
  proof (cases "j < 2")
    case True
    then have "j = 0 \<or> j = 1" by auto
    then show ?thesis by (auto simp: halves_def word_halves_def)
  next
    case False
    then obtain i where j: "j = i + 2" by (metis le_add_diff_inverse2 not_le)
    with Cons.prems have "halves m ! i = word_halves (m ! (i div 2)) ! (i mod 2)" by (intro Cons.IH) simp
    with j show ?thesis by (simp add: halves_def word_halves_def)
  qed
qed simp

lemma halves_cpus: "group_cpus (halves m) 0 x \<longleftrightarrow> has_cpu m x"
proof -
  have d: "x div 32 div 2 = x div 64" by (simp add: div_mult2_eq [symmetric])
  have e: "32 * (x div 32 mod 2) + x mod 32 = x mod 64"
    using mod_mult2_eq [of x 32 2] by simp
  have "bit (halves m ! (x div 32)) (x mod 32) \<longleftrightarrow> bit (m ! (x div 64)) (x mod 64)" if "x div 32 < 2 * length m"
    using half_bits [of "x div 32 mod 2" "x mod 32" "m ! (x div 64)"] halves_nth [OF that] d e by simp
  moreover have "x div 32 < 2 * length m \<longleftrightarrow> x div 64 < length m" using d by linarith
  ultimately show ?thesis by (auto simp: group_cpus_def has_cpu_def length_halves)
qed

lemma half_small: "v \<in> set (halves m) \<Longrightarrow> v < 4294967296"
proof -
  assume "v \<in> set (halves m)"
  then obtain w where "v = word_halves w ! 0 \<or> v = word_halves w ! 1"
    by (auto simp: halves_def word_halves_def)
  then show "v < 4294967296" using half_bits [of 0 0 w] half_bits [of 1 0 w] by auto
qed

lemma format_groups:
  "concat (map word_groups (rev m)) = map (show_hex 8) (rev (halves m))"
  by (induction m) (simp_all add: halves_def word_halves_def word_groups_def hex_group_def)

lemma zero_group_show: "zero_group = show_hex 8 0"
  unfolding zero_group_def by code_simp

lemma strip_zeros:
  assumes "\<forall>v\<in>set vs. v < 4294967296" "vs \<noteq> []"
  shows "\<exists>k ws. ws \<noteq> [] \<and> vs = replicate k 0 @ ws \<and> strip_groups (map (show_hex 8) vs) = map (show_hex 8) ws"
  using assms
proof (induction vs rule: induct_list012)
  case (2 v)
  then show ?case by (intro exI [of _ 0] exI [of _ "[v]"]) simp
next
  case (3 v u vs)
  show ?case
  proof (cases "show_hex 8 v = zero_group")
    case True
    then have "v = 0" using parse_show_hex [of v] parse_show_hex [of 0] 3(3) by (simp add: zero_group_show)
    moreover obtain k ws where "ws \<noteq> []" "u # vs = replicate k 0 @ ws"
      "strip_groups (map (show_hex 8) (u # vs)) = map (show_hex 8) ws"
      using 3(2) 3(3) by (metis list.set_intros(2) list.distinct(1))
    moreover have "strip_groups (map (show_hex 8) (v # u # vs)) = strip_groups (map (show_hex 8) (u # vs))"
      using True by simp
    ultimately show ?thesis by (intro exI [of _ "Suc k"] exI [of _ ws]) (simp del: list.map(2) strip_groups.simps)
  next
    case False
    then show ?thesis by (intro exI [of _ 0] exI [of _ "v # u # vs"]) simp
  qed
qed simp

lemma group_cpus_zeros: "group_cpus (vs @ replicate k 0) i x \<longleftrightarrow> group_cpus vs i x"
  by (auto simp: group_cpus_def nth_append)

lemma hex_digit_plain: "d < 16 \<Longrightarrow> hex_digit d \<noteq> CHR '','' \<and> \<not> is_space (hex_digit d)"
  using hex_digit_value [of d] by (auto simp: hex_value_def is_space_def is_digit_def split: if_splits)

lemma show_hex_plain: "c \<in> set (show_hex k n) \<Longrightarrow> c \<noteq> CHR '','' \<and> \<not> is_space c"
  by (induction k arbitrary: n) (auto simp: hex_digit_plain)

lemma set_join_with: "set (join_with sep ss) \<subseteq> set sep \<union> \<Union> (set ` set ss)"
  by (induction sep ss rule: join_with.induct) auto

lemma parse_joined:
  assumes "vs \<noteq> []" "\<forall>v\<in>set vs. v < 4294967296"
  shows "\<exists>m. parse_mask (join_with '','' (map (show_hex 8) vs)) = Inr m \<and>
           (\<forall>x. has_cpu m x \<longleftrightarrow> group_cpus (rev vs) 0 x)"
proof -
  let ?t = "join_with '','' (map (show_hex 8) vs)"
  have "\<not> is_space c" if "c \<in> set ?t" for c
    using that set_join_with [of "'',''" "map (show_hex 8) vs"] show_hex_plain
    by (auto simp: is_space_def)
  then have "trim_space ?t = ?t"
    unfolding trim_space_def by (intro trim_of_id) (metis hd_in_set last_in_set)
  moreover have "split_on (CHR '','') ?t = map (show_hex 8) vs"
    using assms(1) show_hex_plain by (intro split_join) auto
  moreover obtain m where "add_groups (map (show_hex 8) (rev vs)) 0 [] = Some m"
      "\<forall>x. has_cpu m x \<longleftrightarrow> has_cpu [] x \<or> group_cpus (rev vs) 0 x"
    using add_groups_show [of "rev vs" 0 "[]"] assms(2) by (auto simp: list_all_iff)
  ultimately show ?thesis by (auto simp: parse_mask_def rev_map has_cpu_def)
qed

lemma format_parses:
  "\<exists>m'. parse_mask (format_mask m) = Inr m' \<and> (\<forall>x. has_cpu m' x \<longleftrightarrow> has_cpu m x)"
proof (cases "m = []")
  case True
  then have "format_mask m = join_with '','' (map (show_hex 8) [0])"
    by (simp add: format_mask_def zero_group_show)
  moreover have "group_cpus [0] 0 x \<longleftrightarrow> has_cpu m x" for x
    using True by (cases "x div 32") (simp_all add: group_cpus_def has_cpu_def)
  ultimately show ?thesis using parse_joined [of "[0]"] by simp
next
  case False
  then have "rev (halves m) \<noteq> []" using length_halves [of m] by auto
  then obtain k ws where w: "ws \<noteq> []" "rev (halves m) = replicate k 0 @ ws"
      "strip_groups (map (show_hex 8) (rev (halves m))) = map (show_hex 8) ws"
    using strip_zeros [of "rev (halves m)"] half_small by auto
  then have "format_mask m = join_with '','' (map (show_hex 8) ws)"
    by (simp add: format_mask_def format_groups)
  moreover have "halves m = rev ws @ replicate k 0" using w(2) by (metis rev_append rev_replicate rev_rev_ident)
  then have "group_cpus (rev ws) 0 x \<longleftrightarrow> has_cpu m x" for x
    using halves_cpus [of m x] by (simp add: group_cpus_zeros)
  moreover have "set ws \<subseteq> set (halves m)" using w(2) by (metis Un_upper2 set_append set_rev)
  then have "\<forall>v\<in>set ws. v < 4294967296" using half_small by blast
  note parse_joined [OF w(1) this]
  ultimately show ?thesis by simp
qed

text \<open>
  C23 A mask that is written in the format of sysfs and read back has the same CPUs, whatever zero
  words it ends with.
\<close>

theorem mask_round_trip:
  "\<exists>m'. parse_mask (format_mask m) = Inr m' \<and> (\<forall>x. has_cpu m' x \<longleftrightarrow> has_cpu m x)"
  by (rule format_parses)

text \<open>The mask that an interrupt of the device gets with \<open>-C\<close> has the chosen CPU alone.\<close>

lemma irq_mask_pinned: "0 \<le> cpu \<Longrightarrow> has_cpu (irq_mask cpu online m) x \<longleftrightarrow> x = nat cpu"
  by (simp add: irq_mask_def has_cpu_set_bit) (simp add: has_cpu_def)

end
