(* ===== verification/Waiting.thy ===== *)
theory Waiting
  imports CpuMask Memory
begin

text \<open>
  internal/harness/harness.go: \<open>Wait\<close>, which polls a condition until it holds or a time passes. The
  clock is the call \<open>Now\<close>, whose answer is a number of nanoseconds. A condition may keep state from
  one poll to the next, as the closure of \<open>Release\<close> does. The loop runs for as many rounds as a
  clock allows that a \<open>Sleep\<close> moves on, and \<open>None\<close> is the outcome when it needed more.
\<close>

definition time_of :: "reply \<Rightarrow> int" where
  "time_of r = (case parse_int64 (datum r) of None \<Rightarrow> 0 | Some n \<Rightarrow> n)"

definition now :: "int io" where
  "now = do {r \<leftarrow> sys Now; ret (time_of r)}"

definition millis :: "nat \<Rightarrow> int" where
  "millis n = int n * 1000000"

primrec wait_rounds :: "nat \<Rightarrow> ('s \<Rightarrow> (bool \<times> 's) io) \<Rightarrow> int \<Rightarrow> nat \<Rightarrow> 's \<Rightarrow> (bool \<times> 's) option io" where
  "wait_rounds 0 cond stop pause s = ret None"
| "wait_rounds (Suc k) cond stop pause s = do {
     t \<leftarrow> now;
     if t < stop then do {
       x \<leftarrow> cond s;
       if fst x then ret (Some x)
       else do {
         _ \<leftarrow> sys (Sleep pause);
         wait_rounds k cond stop pause (snd x)}}
     else do {
       x \<leftarrow> cond s;
       ret (Some x)}}"

definition wait_loop :: "('s \<Rightarrow> (bool \<times> 's) io) \<Rightarrow> nat \<Rightarrow> nat \<Rightarrow> 's \<Rightarrow> (bool \<times> 's) option io" where
  "wait_loop cond timeout pause s = do {
     t \<leftarrow> now;
     wait_rounds (timeout div pause + 2) cond (t + millis timeout) pause s}"

definition wait :: "bool io \<Rightarrow> nat \<Rightarrow> nat \<Rightarrow> bool io" where
  "wait cond timeout pause = do {
     r \<leftarrow> wait_loop (\<lambda>_. do {b \<leftarrow> cond; ret (b, ())}) timeout pause ();
     ret (case r of None \<Rightarrow> False | Some x \<Rightarrow> fst x)}"


subsection \<open>The clock\<close>

text \<open>
  The time after a history that starts at time \<open>t\<close>, or \<open>None\<close> where the clock went back or did not
  move on with a \<open>Sleep\<close>.
\<close>

fun clock :: "int \<Rightarrow> history \<Rightarrow> int option" where
  "clock t [] = Some t"
| "clock t ((Now, r) # h) = (if t \<le> time_of r then clock (time_of r) h else None)"
| "clock t ((Sleep n, r) # h) = clock (t + millis n) h"
| "clock t ((c, r) # h) = clock t h"

lemma clock_append: "clock t (u @ v) = Option.bind (clock t u) (\<lambda>t. clock t v)"
  by (induction t u rule: clock.induct) auto

lemma clock_le: "clock t h = Some t' \<Longrightarrow> t \<le> t'"
  by (induction t h rule: clock.induct) (auto simp: millis_def split: if_splits)

text \<open>A computation that does nothing but calls.\<close>

definition calls_host :: "'a io \<Rightarrow> bool" where
  "calls_host m \<longleftrightarrow> emits m (\<lambda>x t. True)"

lemma calls_host_ret [intro!]: "calls_host (ret x)"
  by (auto simp: calls_host_def)

lemma calls_host_sys [intro!]: "calls_host (sys c)"
  unfolding calls_host_def by (rule emits_sys) simp

lemma calls_host_bind [intro!]: "calls_host m \<Longrightarrow> (\<And>x. calls_host (f x)) \<Longrightarrow> calls_host (m \<bind> f)"
  unfolding calls_host_def by (rule emits_bind [where P = "\<lambda>x t. True"]) auto

lemma calls_host_if [intro!]: "calls_host m \<Longrightarrow> calls_host n \<Longrightarrow> calls_host (if b then m else n)"
  by simp

lemma calls_host_small [intro!]: "calls_host now" "calls_host (stat_ok p)" "calls_host (do_sys c)" "calls_host (ask c)"
  unfolding now_def stat_ok_def do_sys_def ask_def by blast+

lemma wait_rounds_calls: "(\<And>s. calls_host (cond s)) \<Longrightarrow> calls_host (wait_rounds k cond stop pause s)"
  by (induction k arbitrary: s) auto

lemma wait_calls [intro!]: "calls_host cond \<Longrightarrow> calls_host (wait cond timeout pause)"
  unfolding wait_def wait_loop_def by (intro calls_host_bind wait_rounds_calls calls_host_small calls_host_ret)

definition waited :: "int \<Rightarrow> nat \<Rightarrow> nat \<Rightarrow> (bool \<times> 's) option \<Rightarrow> history \<Rightarrow> bool" where
  "waited stop k pause x h \<longleftrightarrow> (\<forall>t t'. clock t h = Some t' \<longrightarrow> stop \<le> t + int k * millis pause \<longrightarrow>
     x \<noteq> None \<and> (\<forall>s. x = Some (False, s) \<longrightarrow> stop \<le> t'))"

lemma waitedI:
  assumes "\<And>t t'. clock t h = Some t' \<Longrightarrow> stop \<le> t + int k * millis pause \<Longrightarrow>
     x \<noteq> None \<and> (\<forall>s. x = Some (False, s) \<longrightarrow> stop \<le> t')"
  shows "waited stop k pause x h"
  using assms by (auto simp: waited_def)

lemma emits_now_bind:
  "(\<And>r. emits (f (time_of r)) (\<lambda>x t. Q x ((Now, r) # t))) \<Longrightarrow> emits (now \<bind> f) Q"
  unfolding now_def by (simp add: emits_sys_bind)

lemma waited_holds: "waited stop k pause (Some (True, s)) h"
  by (simp add: waited_def)

lemma waited_late: "\<not> time_of r < stop \<Longrightarrow> waited stop k pause (Some x) ((Now, r) # h)"
  by (rule waitedI) (auto split: if_splits dest!: clock_le)

lemma waited_first: "time_of r < stop \<Longrightarrow> waited stop 0 pause x ((Now, r) # h)"
  by (rule waitedI) (auto split: if_splits)

text \<open>
  With a round for every pause until \<open>stop\<close>, and one more, the rounds end the wait, and only a wait
  that went on until \<open>stop\<close> ends without the condition.
\<close>

lemma rounds_wait:
  assumes "\<And>s. calls_host (cond s)"
  shows "emits (wait_rounds (Suc k) cond stop pause s) (waited stop k pause)"
proof (induction k arbitrary: s)
  case 0
  note cond = assms [unfolded calls_host_def]
  show ?case
    unfolding wait_rounds.simps
    by (intro emits_now_bind emits_if emits_bind [OF cond] emits_ret emits_sys_bind)
      (auto intro: waited_holds waited_late waited_first)
next
  case (Suc k)
  note cond = assms [unfolded calls_host_def]
  have later: "waited stop (Suc k) pause x ((Now, r) # h @ (Sleep pause, r') # u)"
    if w: "waited stop k pause x u" for x r h r' u
  proof (rule waitedI)
    fix t t'
    assume c: "clock t ((Now, r) # h @ (Sleep pause, r') # u) = Some t'"
      and e: "stop \<le> t + int (Suc k) * millis pause"
    from c obtain t1 where t1: "t \<le> time_of r" "clock (time_of r) h = Some t1"
        "clock (t1 + millis pause) u = Some t'"
      by (cases "clock (time_of r) h") (auto simp: clock_append split: if_splits)
    have "t \<le> t1" using t1(1) clock_le [OF t1(2)] by simp
    with e have "stop \<le> (t1 + millis pause) + int k * millis pause" by (simp add: algebra_simps)
    with w t1(3) show "x \<noteq> None \<and> (\<forall>s. x = Some (False, s) \<longrightarrow> stop \<le> t')"
      unfolding waited_def by blast
  qed
  show ?case
    by (subst wait_rounds.simps(2))
      (intro emits_now_bind emits_if emits_bind [OF cond] emits_ret emits_sys_bind emits_mono [OF Suc.IH],
        auto intro: waited_holds waited_late later)
qed

text \<open>A wait ends, and one that gives up took at least its time.\<close>

definition gave_up_late :: "nat \<Rightarrow> (bool \<times> 's) option \<Rightarrow> history \<Rightarrow> bool" where
  "gave_up_late timeout x h \<longleftrightarrow> (\<forall>t t' s. clock t h = Some t' \<longrightarrow> x = Some (False, s) \<longrightarrow>
     (\<exists>r u. h = (Now, r) # u \<and> time_of r + millis timeout \<le> t'))"

lemma pauses_cover: "0 < pause \<Longrightarrow> millis timeout \<le> int (timeout div pause + 1) * millis pause"
proof -
  assume "0 < pause"
  then have "timeout < (timeout div pause + 1) * pause"
    by (metis Suc_eq_plus1 dividend_less_times_div mult.commute mult_Suc_right)
  then have "int timeout * 1000000 \<le> int ((timeout div pause + 1) * pause) * 1000000" by linarith
  then show ?thesis by (simp add: millis_def algebra_simps)
qed

lemma wait_loop_ends:
  assumes "\<And>s. calls_host (cond s)" "0 < pause"
  shows "emits (wait_loop cond timeout pause s)
     (\<lambda>x h. (\<forall>t t'. clock t h = Some t' \<longrightarrow> x \<noteq> None) \<and> gave_up_late timeout x h)"
  unfolding wait_loop_def
proof (rule emits_now_bind)
  fix r
  let ?k = "timeout div pause + 1"
  have two: "timeout div pause + 2 = Suc ?k" by simp
  show "emits (wait_rounds (timeout div pause + 2) cond (time_of r + millis timeout) pause s)
     (\<lambda>x h. (\<forall>t t'. clock t ((Now, r) # h) = Some t' \<longrightarrow> x \<noteq> None) \<and> gave_up_late timeout x ((Now, r) # h))"
    unfolding two
  proof (rule emits_mono [OF rounds_wait [OF assms(1)]])
    fix x h
    assume "waited (time_of r + millis timeout) ?k pause x h"
    then have "x \<noteq> None \<and> (\<forall>s. x = Some (False, s) \<longrightarrow> time_of r + millis timeout \<le> t')"
      if "clock (time_of r) h = Some t'" for t'
      using that pauses_cover [OF assms(2), of timeout] unfolding waited_def by (metis add_left_mono)
    then show "(\<forall>t t'. clock t ((Now, r) # h) = Some t' \<longrightarrow> x \<noteq> None) \<and> gave_up_late timeout x ((Now, r) # h)"
      by (auto simp: gave_up_late_def split: if_splits)
  qed
qed

text \<open>
  C22 A wait returns, whatever the condition does, once the clock moves on while it sleeps; and it
  gives up only after its time.
\<close>

theorem wait_returns:
  assumes "\<And>s. calls_host (cond s)" "0 < pause"
    and "run e (wait_loop cond timeout pause s) = (x, h)" and "clock t h = Some t'"
  shows "\<exists>b s'. x = Some (b, s') \<and>
    (\<not> b \<longrightarrow> (\<exists>r u. h = (Now, r) # u \<and> time_of r + millis timeout \<le> t'))"
proof -
  from emits_run [OF wait_loop_ends [of cond, OF assms(1,2)] assms(3)] assms(4)
  have "x \<noteq> None" and late: "x = Some (False, s) \<Longrightarrow>
      \<exists>r u. h = (Now, r) # u \<and> time_of r + millis timeout \<le> t'" for s
    unfolding gave_up_late_def by blast+
  then obtain b s' where "x = Some (b, s')" by auto
  with late [of s'] show ?thesis by (intro exI [of _ b] exI [of _ s']) blast
qed

text \<open>A clock of a millisecond per sleep, and a condition that never holds.\<close>

definition slow_clock :: environment where
  "slow_clock h c = (case c of
     Now \<Rightarrow> (None, [show_int (if Sleep 1 \<in> fst ` set h then 1000000 else 0)]) | _ \<Rightarrow> (Some (ENOENT, []), []))"

definition never :: "unit \<Rightarrow> (bool \<times> unit) io" where
  "never s = do {b \<leftarrow> stat_ok ''/gone''; ret (b, s)}"

lemma never_calls: "calls_host (never s)"
  unfolding never_def by blast

theorem wait_returns_witness:
  "\<exists>b s' r u. fst (run slow_clock (wait_loop never 1 1 ())) = Some (b, s') \<and>
     (\<not> b \<longrightarrow> snd (run slow_clock (wait_loop never 1 1 ())) = (Now, r) # u \<and> time_of r + millis 1 \<le> 1000000)"
proof -
  have "clock 0 (snd (run slow_clock (wait_loop never 1 1 ()))) = Some 1000000"
    by (simp add: go_run wait_loop_def now_def never_def slow_clock_def time_of_def millis_def
        parse_show_int in_int64_def max_int64_def numeral_eq_Suc)
  from wait_returns [OF never_calls _ prod.collapse [symmetric] this] show ?thesis by auto
qed

end
