(* ===== verification/Harness.thy ===== *)
theory Harness
  imports Waiting Pci
begin

text \<open>
  internal/harness: the checks of a test and their report, the commands that it runs, what it reads
  of the kernel, and the cgroup of a guest. \<open>RunCmd\<close> is a process that \<open>exec.Cmd\<close> runs in a directory
  with a timeout in milliseconds, 0 for none. Its answer has the two outputs and how the process
  ended: its exit status, or a word where the context ended first.
\<close>

subsection \<open>Checks\<close>

type_synonym failures = "string list"

definition check_that :: "bool \<Rightarrow> string \<Rightarrow> failures \<Rightarrow> (bool \<times> failures) io" where
  "check_that cond what fs =
     (if cond then do {_ \<leftarrow> println (''ok: '' @ what); ret (cond, fs)}
      else do {_ \<leftarrow> println (''FAIL: '' @ what); ret (cond, fs @ [what])})"

definition report :: "failures \<Rightarrow> err option io" where
  "report fs =
     (if fs \<noteq> [] then ret (Some (Msg (show_nat (length fs) @ '' check(s) failed'')))
      else do {_ \<leftarrow> println ''all checks passed''; ret None})"


subsection \<open>Commands\<close>

record cmd_result =
  r_stdout :: string
  r_stderr :: string
  r_code :: int
  timed_out :: bool
  r_err :: "err option"

definition run_ok :: "cmd_result \<Rightarrow> bool" where
  "run_ok r \<longleftrightarrow> r_code r = 0 \<and> r_err r = None"

definition run_output :: "cmd_result \<Rightarrow> string" where
  "run_output r = r_stdout r @ r_stderr r"

definition nth_datum :: "reply \<Rightarrow> nat \<Rightarrow> string" where
  "nth_datum r i = (if i < length (snd r) then snd r ! i else [])"

definition run_result :: "reply \<Rightarrow> cmd_result" where
  "run_result r =
     (let res = (\<lambda>code late e. \<lparr>r_stdout = nth_datum r 0, r_stderr = nth_datum r 1, r_code = code,
                   timed_out = late, r_err = e\<rparr>);
          how = nth_datum r 2
      in if how = ''timeout'' then res (- 1) True (Some (Msg ''context deadline exceeded''))
         else if how = ''cancelled'' then res (- 1) False (Some (Msg ''context canceled''))
         else case fault_err r of
             Some e \<Rightarrow> res (- 1) False (Some e)
           | None \<Rightarrow> res (int_or_zero how) False None)"

definition run_context :: "string \<Rightarrow> nat \<Rightarrow> string \<Rightarrow> string list \<Rightarrow> cmd_result io" where
  "run_context dir timeout name args = do {
     r \<leftarrow> sys (RunCmd dir timeout name args);
     ret (run_result r)}"

definition run_timeout :: "nat \<Rightarrow> string \<Rightarrow> string list \<Rightarrow> cmd_result io" where
  "run_timeout timeout name args = run_context [] timeout name args"

definition run_cmd :: "string \<Rightarrow> string list \<Rightarrow> cmd_result io" where
  "run_cmd name args = run_timeout 0 name args"

definition no_command :: cmd_result where
  "no_command = \<lparr>r_stdout = [], r_stderr = [], r_code = - 1, timed_out = False,
     r_err = Some (Panic ''index out of range'')\<rparr>"

definition run_argv :: "string list \<Rightarrow> cmd_result io" where
  "run_argv argv = (case argv of [] \<Rightarrow> ret no_command | c # args \<Rightarrow> run_cmd c args)"

definition opt_err_text :: "err option \<Rightarrow> string" where
  "opt_err_text e = (case e of None \<Rightarrow> [] | Some e \<Rightarrow> '' '' @ err_text e)"

definition must_run :: "string \<Rightarrow> string list \<Rightarrow> err option io" where
  "must_run name args = do {
     r \<leftarrow> run_cmd name args;
     ret (if run_ok r then None
          else Some (Msg (name @ '' '' @ join_with '' '' args @ '': '' @
                 trim_space (run_output r @ opt_err_text (r_err r)))))}"

definition modprobe :: "string list \<Rightarrow> err option io" where
  "modprobe mods = must_run ''modprobe'' (''-a'' # mods)"

definition in_ns :: "string \<Rightarrow> string list \<Rightarrow> string list" where
  "in_ns ns argv = (if ns = [] then argv else [''ip'', ''netns'', ''exec'', ns] @ argv)"


subsection \<open>The kernel log\<close>

definition glob_names :: "string \<Rightarrow> string list io" where
  "glob_names pat = do {
     r \<leftarrow> sys (Glob pat);
     ret (if succeeded r then map path_base (snd r) else [])}"

definition log_lines :: "string \<Rightarrow> string list" where
  "log_lines s = split_on newline (trim_right_of (\<lambda>c. c = newline) s)"

definition kernel_log :: "string list io" where
  "kernel_log = do {r \<leftarrow> run_cmd ''dmesg'' []; ret (log_lines (r_stdout r))}"

definition kernel_mark :: "int \<Rightarrow> string io" where
  "kernel_mark pid = do {
     t \<leftarrow> now;
     let mark = ''invirtio-test: mark '' @ show_int pid @ ''-'' @ show_int t;
     _ \<leftarrow> sys (WriteFile ''/dev/kmsg'' (mark @ [newline]) 0);
     ret mark}"

text \<open>The lines after the last one that has the mark.\<close>

fun after_mark :: "string \<Rightarrow> string list \<Rightarrow> string list option" where
  "after_mark mark [] = None"
| "after_mark mark (l # ls) =
     (case after_mark mark ls of
        Some rest \<Rightarrow> Some rest
      | None \<Rightarrow> if str_contains l mark then Some ls else None)"

definition kernel_log_since :: "string \<Rightarrow> string list io" where
  "kernel_log_since mark = do {
     ls \<leftarrow> kernel_log;
     ret (case after_mark mark ls of None \<Rightarrow> ls | Some rest \<Rightarrow> rest)}"

definition is_warning :: "string \<Rightarrow> bool" where
  "is_warning l \<longleftrightarrow> str_contains l ''WARNING:'' \<or> str_contains l ''BUG:'' \<or> str_contains l ''circular locking''"

definition warnings :: "string list \<Rightarrow> string list" where
  "warnings ls = filter is_warning ls"


subsection \<open>Devices\<close>

definition repo_root :: "string io" where
  "repo_root = do {
     exe \<leftarrow> ask Executable;
     (case exe of
        Inl _ \<Rightarrow> ret ''.''
      | Inr exe \<Rightarrow> do {
          real \<leftarrow> ask (EvalSymlinks exe);
          ret (path_dir (path_dir (case real of Inl _ \<Rightarrow> exe | Inr real \<Rightarrow> real)))})}"

text \<open>The processes of the file descriptors, of which those of a process come together.\<close>

fun holders_of :: "string \<Rightarrow> int list \<Rightarrow> string list \<Rightarrow> int list io" where
  "holders_of dev pids [] = ret pids"
| "holders_of dev pids (fd # fds) = do {
     r \<leftarrow> sys (Readlink fd);
     let pid = int_or_zero (split_on (CHR ''/'') fd ! 2);
     holders_of dev
       (if succeeded r \<and> datum r = dev \<and> (pids = [] \<or> last pids \<noteq> pid) then pids @ [pid] else pids) fds}"

definition pci_holders :: "string \<Rightarrow> int list io" where
  "pci_holders addr = do {
     g \<leftarrow> iommu_group addr;
     (case g of
        Inl _ \<Rightarrow> ret []
      | Inr g \<Rightarrow> do {
          r \<leftarrow> sys (Glob ''/proc/[0-9]*/fd/*'');
          holders_of (''/dev/vfio/'' @ g) [] (if succeeded r then snd r else [])})}"

definition pci_netdev :: "string \<Rightarrow> string io" where
  "pci_netdev addr = do {
     nets \<leftarrow> glob_names (pci_path addr ''net/*'');
     ret (case nets of [] \<Rightarrow> [] | n # _ \<Rightarrow> n)}"

definition wait_netdev :: "string \<Rightarrow> nat \<Rightarrow> string io" where
  "wait_netdev addr timeout = do {
     ok \<leftarrow> wait (do {n \<leftarrow> pci_netdev addr; ret (n \<noteq> [])}) timeout 100;
     if \<not> ok then ret []
     else do {
       _ \<leftarrow> run_cmd ''udevadm'' [''settle''];
       pci_netdev addr}}"

definition attach_dev :: "string \<Rightarrow> err option io" where
  "attach_dev name = do {
     e \<leftarrow> vdpa_add name;
     if e \<noteq> None then ret e else bind_virtio name}"

definition cleanup_dev :: "string \<Rightarrow> unit io" where
  "cleanup_dev name = do {
     _ \<leftarrow> vdpa_remove name True;
     _ \<leftarrow> vdpa_destroy name;
     ret ()}"


subsection \<open>The memory of a guest\<close>

record guest_mem =
  mem_arg :: string
  peak_bytes :: int
  current_bytes :: int
  anon_bytes :: int
  file_bytes :: int
  shmem_bytes :: int
  kernel_bytes :: int
  guest_total :: int
  guest_peak_used :: int

definition remove_cgroup :: "string \<Rightarrow> unit io" where
  "remove_cgroup dir = do {
     there \<leftarrow> stat_ok dir;
     if \<not> there then ret ()
     else do {
       _ \<leftarrow> wait (do {
              e \<leftarrow> do_sys (Remove dir);
              if e = None then ret True
              else do {there \<leftarrow> stat_ok dir; ret (\<not> there)}}) 10000 100;
       ret ()}}"

definition make_cgroup :: "string \<Rightarrow> string res io" where
  "make_cgroup name = (let dir = path_join [''/sys/fs/cgroup'', name] in do {
     _ \<leftarrow> remove_cgroup dir;
     e \<leftarrow> do_sys (Mkdir dir 493);
     (case e of
        Some e \<Rightarrow> ret (Inl e)
      | None \<Rightarrow> do {
          ok \<leftarrow> stat_ok (path_join [dir, ''memory.peak'']);
          if \<not> ok then do {
            _ \<leftarrow> sys (Remove dir);
            ret (Inl (Msg (''the cgroup '' @ dir @ '' has no memory.peak, so the memory controller is off'')))}
          else ret (Inr dir)})})"

definition sample_guest :: "string \<Rightarrow> guest_mem \<Rightarrow> guest_mem" where
  "sample_guest meminfo m =
     (let info = parse_keyed meminfo;
          total = at_key info ''MemTotal''; avail = at_key info ''MemAvailable''
      in if total = 0 then m
         else m\<lparr>guest_total := total, guest_peak_used := max (guest_peak_used m) (wrap64 (total - avail))\<rparr>)"

text \<open>\<open>strconv.ParseInt\<close> with the error that it returns beside the number.\<close>

definition int_error :: "string \<Rightarrow> err option" where
  "int_error s =
     (if parse_int64 s \<noteq> None then None
      else Some (Msg (''strconv.ParseInt: parsing '' @ go_quote s @ '': '' @
        (let u = (case s of [] \<Rightarrow> [] | c # cs \<Rightarrow> if c = CHR ''-'' \<or> c = CHR ''+'' then cs else s)
         in if u = [] \<or> \<not> list_all is_digit u then ''invalid syntax'' else ''value out of range''))))"

definition read_number :: "string \<Rightarrow> (int \<times> err option) io" where
  "read_number path = do {
     s \<leftarrow> read_text path;
     ret (int_or_zero s, int_error s)}"

definition read_cgroup :: "string \<Rightarrow> guest_mem \<Rightarrow> (guest_mem \<times> err option) io" where
  "read_cgroup dir m = do {
     p \<leftarrow> read_number (path_join [dir, ''memory.peak'']);
     let m = m\<lparr>peak_bytes := fst p\<rparr>;
     if snd p \<noteq> None then ret (m, snd p)
     else do {
       c \<leftarrow> read_number (path_join [dir, ''memory.current'']);
       let m = m\<lparr>current_bytes := fst c\<rparr>;
       if snd c \<noteq> None then ret (m, snd c)
       else do {
         r \<leftarrow> ask (ReadFile (path_join [dir, ''memory.stat'']));
         (case r of
            Inl e \<Rightarrow> ret (m, Some e)
          | Inr data \<Rightarrow>
              (let st = parse_keyed data
               in ret (m\<lparr>anon_bytes := at_key st ''anon'', file_bytes := at_key st ''file'',
                        shmem_bytes := at_key st ''shmem'', kernel_bytes := at_key st ''kernel''\<rparr>, None)))}}}"

definition in_mib :: "int \<Rightarrow> string" where
  "in_mib n = show_fixed 0 (float_int n) (2 ^ 20) @ ''M''"

definition mem_summary :: "guest_mem \<Rightarrow> string" where
  "mem_summary m = ''mem='' @ mem_arg m @ '': cgroup peak '' @ in_mib (peak_bytes m) @ '', at the end '' @
     in_mib (current_bytes m) @ '' (anon '' @ in_mib (anon_bytes m) @ '', file '' @ in_mib (file_bytes m) @
     '', shmem '' @ in_mib (shmem_bytes m) @ '', kernel '' @ in_mib (kernel_bytes m) @ ''), guest peak use '' @
     in_mib (guest_peak_used m) @ '' of '' @ in_mib (guest_total m)"


subsection \<open>What they show\<close>

text \<open>The log since a mark is what follows the last line with the mark.\<close>

lemma after_mark_None: "after_mark mark ls = None \<longleftrightarrow> \<not> list_ex (\<lambda>l. str_contains l mark) ls"
  by (induction ls) (auto split: option.split)

lemma after_mark_Some:
  "after_mark mark ls = Some rest \<longleftrightarrow>
   (\<exists>pre l. ls = pre @ l # rest \<and> str_contains l mark \<and> \<not> list_ex (\<lambda>l. str_contains l mark) rest)"
proof (induction ls)
  case (Cons k ls)
  show ?case
  proof (cases "after_mark mark ls")
    case None
    then have no: "\<not> list_ex (\<lambda>l. str_contains l mark) ls" by (simp add: after_mark_None)
    with None show ?thesis by (auto simp: Cons_eq_append_conv)
  next
    case (Some r)
    then have "list_ex (\<lambda>l. str_contains l mark) ls" using after_mark_None [of mark ls] by auto
    with Some Cons show ?thesis by (auto simp: Cons_eq_append_conv)
  qed
qed simp

text \<open>The holders of a group are each named once where the descriptors of a process are together.\<close>

lemma holders_emits: "emits (holders_of dev pids fds) (\<lambda>ps t. (\<exists>qs. ps = pids @ qs \<and> length qs \<le> length fds) \<and>
    only (\<lambda>c. \<exists>p. c = Readlink p) t)"
proof (induction fds arbitrary: pids)
  case (Cons fd fds)
  show ?case unfolding holders_of.simps Let_def
    by (rule emits_sys_bind, rule emits_mono [OF Cons.IH]) (auto split: if_splits)
qed (auto intro!: emits_ret)

text \<open>A cgroup that is made has the memory controller, and one that has not is removed.\<close>

lemma remove_cgroup_calls: "calls_host (remove_cgroup dir)"
  unfolding remove_cgroup_def by (intro calls_host_bind calls_host_if wait_calls calls_host_small calls_host_ret)

lemma make_cgroup_emits:
  fixes name
  defines "d \<equiv> path_join [''/sys/fs/cgroup'', name]"
  shows "emits (make_cgroup name) (\<lambda>x t. case x of
     Inr dir \<Rightarrow> \<exists>v r. dir = d \<and> t = v @ [(Stat (path_join [d, ''memory.peak'']), r)] \<and> succeeded r
   | Inl e \<Rightarrow> \<exists>v r. (t = v @ [(Mkdir d 493, r)] \<and> \<not> succeeded r) \<or> t = v @ [(Remove d, r)])"
  unfolding make_cgroup_def Let_def d_def [symmetric]
  by (rule emits_bind [OF remove_cgroup_calls [unfolded calls_host_def]], intro emits_steps, auto)

end
