(* ===== verification/Regex.thy ===== *)
theory Regex
  imports Prelude
begin

text \<open>
  What the program uses of Go's package regexp: the syntax of its expressions and the leftmost-first
  match, which is the first in the order in which a backtracking search would try them. A text is a list
  of bytes; the classes of the expressions that the program has end at ASCII characters, so a match of
  bytes is one of runes. \<open>matches r (p, t)\<close> are the ways to match a prefix of \<open>t\<close>, which follows the
  character \<open>p\<close> if any, in order of preference, each with its groups and what is left.
\<close>

datatype re =
    Lit string
  | Cls "char \<Rightarrow> bool"
  | Seq re re
  | Or re re
  | Star re
  | Grp nat re
  | At "char option \<Rightarrow> char option \<Rightarrow> bool"

type_synonym cursor = "char option \<times> string"
type_synonym match = "(nat \<times> string) list \<times> cursor"

definition past :: "char option \<Rightarrow> string \<Rightarrow> char option" where
  "past p u = (if u = [] then p else Some (last u))"

definition ahead :: "string \<Rightarrow> char option" where
  "ahead t = (case t of [] \<Rightarrow> None | c # _ \<Rightarrow> Some c)"

definition followed :: "match list \<Rightarrow> (cursor \<Rightarrow> match list) \<Rightarrow> match list" where
  "followed xs f = concat (map (\<lambda>(c, k). map (\<lambda>(d, k'). (c @ d, k')) (f k)) xs)"

text \<open>The rounds of a repetition, each of which matches a character or more.\<close>

fun repeated :: "nat \<Rightarrow> (cursor \<Rightarrow> match list) \<Rightarrow> cursor \<Rightarrow> match list" where
  "repeated 0 f k = [([], k)]"
| "repeated (Suc n) f k =
     followed (filter (\<lambda>(c, k'). length (snd k') < length (snd k)) (f k)) (repeated n f) @ [([], k)]"

primrec matches :: "re \<Rightarrow> cursor \<Rightarrow> match list" where
  "matches (Lit s) k = (case cut_prefix (snd k) s of None \<Rightarrow> [] | Some t \<Rightarrow> [([], (past (fst k) s, t))])"
| "matches (Cls f) k = (case snd k of [] \<Rightarrow> [] | c # t \<Rightarrow> if f c then [([], (Some c, t))] else [])"
| "matches (Seq a b) k = followed (matches a k) (matches b)"
| "matches (Or a b) k = matches a k @ matches b k"
| "matches (Star a) k = repeated (length (snd k)) (matches a) k"
| "matches (Grp i a) k = map (\<lambda>(c, k'). ((i, take (length (snd k) - length (snd k')) (snd k)) # c, k')) (matches a k)"
| "matches (At q) k = (if q (fst k) (ahead (snd k)) then [([], k)] else [])"

text \<open>The leftmost match of a text: where it begins, its groups and what follows it.\<close>

definition first_of :: "match list \<Rightarrow> match option" where
  "first_of xs = (case xs of [] \<Rightarrow> None | x # _ \<Rightarrow> Some x)"

fun search :: "re \<Rightarrow> char option \<Rightarrow> string \<Rightarrow> (nat \<times> match) option" where
  "search r p [] = map_option (\<lambda>m. (0, m)) (first_of (matches r (p, [])))"
| "search r p (c # t) =
     (case first_of (matches r (p, c # t)) of
        Some m \<Rightarrow> Some (0, m)
      | None \<Rightarrow> map_option (\<lambda>(i, m). (Suc i, m)) (search r (Some c) t))"

definition matches_string :: "re \<Rightarrow> string \<Rightarrow> bool" where
  "matches_string r s \<longleftrightarrow> search r None s \<noteq> None"

text \<open>\<open>FindStringSubmatch\<close>, where a group that takes no part is empty, and \<open>FindStringIndex\<close>.\<close>

definition find_groups :: "re \<Rightarrow> string \<Rightarrow> (nat \<Rightarrow> string) option" where
  "find_groups r s = map_option (\<lambda>(i, c, k) n. case map_of (rev c) n of None \<Rightarrow> [] | Some g \<Rightarrow> g) (search r None s)"

definition find_index :: "re \<Rightarrow> string \<Rightarrow> (nat \<times> nat) option" where
  "find_index r s = map_option (\<lambda>(i, c, k). (i, length s - length (snd k))) (search r None s)"

definition find_string :: "re \<Rightarrow> string \<Rightarrow> string" where
  "find_string r s = (case find_index r s of None \<Rightarrow> [] | Some (i, j) \<Rightarrow> take (j - i) (drop i s))"

text \<open>The number of matches that do not overlap, of an expression that matches no empty text.\<close>

fun count_from :: "nat \<Rightarrow> re \<Rightarrow> char option \<Rightarrow> string \<Rightarrow> nat" where
  "count_from 0 r p s = 0"
| "count_from (Suc n) r p s =
     (case search r p s of None \<Rightarrow> 0 | Some (i, c, k) \<Rightarrow> Suc (count_from n r (fst k) (snd k)))"

definition count_matches :: "re \<Rightarrow> string \<Rightarrow> nat" where
  "count_matches r s = count_from (Suc (length s)) r None s"


subsection \<open>The classes and assertions of the syntax\<close>

definition re_space :: "char \<Rightarrow> bool" where
  "re_space c \<longleftrightarrow> code c = 32 \<or> code c = 9 \<or> code c = 10 \<or> code c = 12 \<or> code c = 13"

definition re_word :: "char \<Rightarrow> bool" where
  "re_word c \<longleftrightarrow> is_digit c \<or> (65 \<le> code c \<and> code c \<le> 90) \<or> (97 \<le> code c \<and> code c \<le> 122) \<or> c = CHR ''_''"

definition lower_hex :: "char \<Rightarrow> bool" where
  "lower_hex c \<longleftrightarrow> is_digit c \<or> (97 \<le> code c \<and> code c \<le> 102)"

definition any_char :: re where "any_char = Cls (\<lambda>c. c \<noteq> newline)"
definition many :: "(char \<Rightarrow> bool) \<Rightarrow> re" where "many f = Star (Cls f)"
definition some_of :: "(char \<Rightarrow> bool) \<Rightarrow> re" where "some_of f = Seq (Cls f) (Star (Cls f))"
definition maybe :: "re \<Rightarrow> re" where "maybe r = Or r (Lit [])"
definition text_begin :: re where "text_begin = At (\<lambda>p n. p = None)"
definition text_end :: re where "text_end = At (\<lambda>p n. n = None)"
definition line_begin :: re where "line_begin = At (\<lambda>p n. p = None \<or> p = Some newline)"

definition word_edge :: re where
  "word_edge = At (\<lambda>p n. (case p of None \<Rightarrow> False | Some c \<Rightarrow> re_word c) \<noteq> (case n of None \<Rightarrow> False | Some c \<Rightarrow> re_word c))"

fun seqs :: "re list \<Rightarrow> re" where
  "seqs [] = Lit []"
| "seqs [r] = r"
| "seqs (r # s # rs) = Seq r (seqs (s # rs))"


subsection \<open>What a match is\<close>

lemma past_simps [simp]: "past p [] = p" "past p (u @ [c]) = Some c" "past p [c] = Some c"
  by (simp_all add: past_def)

lemma past_past [simp]: "past (past p u) v = past p (u @ v)"
  by (simp add: past_def)

lemma past_Some: "past (Some c) u = past p (c # u)"
  by (simp add: past_def)

lemma past_Cons: "u \<noteq> [] \<Longrightarrow> past p (c # u) = past q u"
  by (simp add: past_def)

text \<open>A match is of a prefix of what is ahead.\<close>

definition moves_on :: "cursor \<Rightarrow> cursor \<Rightarrow> bool" where
  "moves_on k k' \<longleftrightarrow> (\<exists>u. snd k = u @ snd k' \<and> fst k' = past (fst k) u)"

lemma moves_on_refl [simp]: "moves_on k k"
  by (auto simp: moves_on_def)

lemma moves_on_trans: "moves_on k k' \<Longrightarrow> moves_on k' k'' \<Longrightarrow> moves_on k k''"
  by (fastforce simp: moves_on_def)

lemma followed_iff: "(c, k) \<in> set (followed xs f) \<longleftrightarrow> (\<exists>a d k1. (a, k1) \<in> set xs \<and> (d, k) \<in> set (f k1) \<and> c = a @ d)"
  by (force simp: followed_def)

lemma repeated_moves:
  assumes f: "\<And>k c k'. (c, k') \<in> set (f k) \<Longrightarrow> moves_on k k'"
  shows "(c, k') \<in> set (repeated n f k) \<Longrightarrow> moves_on k k'"
proof (induction n arbitrary: k c)
  case (Suc n)
  from Suc.prems consider "k' = k" | a d k1 where "(a, k1) \<in> set (f k)" "(d, k') \<in> set (repeated n f k1)"
    by (auto simp: followed_iff)
  then show ?case using f moves_on_trans Suc.IH by cases (simp, blast)
qed simp

lemma matches_moves: "(c, k') \<in> set (matches r k) \<Longrightarrow> moves_on k k'"
proof (induction r arbitrary: c k k')
  case (Lit s)
  then show ?case by (auto simp: moves_on_def cut_prefix_def has_prefix_iff split: if_splits)
next
  case (Cls f)
  then show ?case by (cases "snd k") (auto simp: moves_on_def intro: exI [of _ "[_]"] split: if_splits)
next
  case (Seq a b)
  from Seq.prems obtain a1 d k1 where "(a1, k1) \<in> set (matches a k)" "(d, k') \<in> set (matches b k1)"
    by (auto simp: followed_iff)
  then show ?case using Seq.IH moves_on_trans by blast
next
  case (Star a)
  then show ?case by (auto intro: repeated_moves [where f = "matches a"])
qed (auto split: if_splits)

text \<open>
  A match has the literals that its expression needs and no character that is in none of its classes and
  literals. So a text without such a literal has no match, and none goes across such a character.
\<close>

primrec needs :: "re \<Rightarrow> string \<Rightarrow> bool" where
  "needs (Lit s) l = str_contains s l"
| "needs (Cls f) l = False"
| "needs (Seq a b) l = (needs a l \<or> needs b l)"
| "needs (Or a b) l = (needs a l \<and> needs b l)"
| "needs (Star a) l = False"
| "needs (Grp i a) l = needs a l"
| "needs (At q) l = False"

primrec avoids :: "re \<Rightarrow> char \<Rightarrow> bool" where
  "avoids (Lit s) x = (x \<notin> set s)"
| "avoids (Cls f) x = (\<not> f x)"
| "avoids (Seq a b) x = (avoids a x \<and> avoids b x)"
| "avoids (Or a b) x = (avoids a x \<and> avoids b x)"
| "avoids (Star a) x = avoids a x"
| "avoids (Grp i a) x = avoids a x"
| "avoids (At q) x = True"

lemma contains_append: "str_contains t l \<Longrightarrow> str_contains (u @ t) l" "str_contains t l \<Longrightarrow> str_contains (t @ u) l"
  by (metis append.assoc str_contains_iff)+

definition consumes :: "re \<Rightarrow> string \<Rightarrow> bool" where
  "consumes r u \<longleftrightarrow> (\<forall>l. needs r l \<longrightarrow> str_contains u l) \<and> (\<forall>x. avoids r x \<longrightarrow> x \<notin> set u)"

lemma repeated_consumes:
  assumes f: "\<And>k c k'. (c, k') \<in> set (f k) \<Longrightarrow> \<exists>u. snd k = u @ snd k' \<and> x \<notin> set u"
  shows "(c, k') \<in> set (repeated n f k) \<Longrightarrow> \<exists>u. snd k = u @ snd k' \<and> x \<notin> set u"
proof (induction n arbitrary: k c)
  case (Suc n)
  from Suc.prems consider "k' = k" | a d k1 where "(a, k1) \<in> set (f k)" "(d, k') \<in> set (repeated n f k1)"
    by (auto simp: followed_iff)
  then show ?case
  proof cases
    case (2 a d k1)
    from f [OF 2(1)] obtain u where "snd k = u @ snd k1" "x \<notin> set u" by auto
    moreover from Suc.IH [OF 2(2)] obtain v where "snd k1 = v @ snd k'" "x \<notin> set v" by auto
    ultimately show ?thesis by (intro exI [of _ "u @ v"]) simp
  qed (intro exI [of _ "[]"], simp)
qed (intro exI [of _ "[]"], simp)

lemma matches_consumes: "(c, k') \<in> set (matches r k) \<Longrightarrow> \<exists>u. snd k = u @ snd k' \<and> consumes r u"
proof (induction r arbitrary: c k k')
  case (Lit s)
  then show ?case by (auto simp: consumes_def cut_prefix_def has_prefix_iff split: if_splits)
next
  case (Cls f)
  then show ?case
    by (cases "snd k") (auto simp: consumes_def intro: exI [of _ "[_]"] split: if_splits)
next
  case (Seq a b)
  from Seq.prems obtain a1 d k1 where 1: "(a1, k1) \<in> set (matches a k)" "(d, k') \<in> set (matches b k1)"
    by (auto simp: followed_iff)
  from Seq.IH(1) [OF 1(1)] obtain u where "snd k = u @ snd k1" "consumes a u" by auto
  moreover from Seq.IH(2) [OF 1(2)] obtain v where "snd k1 = v @ snd k'" "consumes b v" by auto
  ultimately show ?case
    by (intro exI [of _ "u @ v"]) (auto simp: consumes_def intro: contains_append)
next
  case (Or a b)
  from Or.prems have "(c, k') \<in> set (matches a k) \<or> (c, k') \<in> set (matches b k)" by simp
  then show ?case
  proof
    assume "(c, k') \<in> set (matches a k)"
    from Or.IH(1) [OF this] show ?thesis by (auto simp: consumes_def)
  next
    assume "(c, k') \<in> set (matches b k)"
    from Or.IH(2) [OF this] show ?thesis by (auto simp: consumes_def)
  qed
next
  case (Star a)
  obtain u where u: "snd k = u @ snd k'" using matches_moves [OF Star.prems] by (auto simp: moves_on_def)
  have "x \<notin> set u" if "avoids a x" for x
  proof -
    have a: "\<exists>v. snd k = v @ snd k' \<and> x \<notin> set v" if "(c, k') \<in> set (matches a k)" for k c k'
      using Star.IH [OF that] \<open>avoids a x\<close> by (auto simp: consumes_def)
    have "(c, k') \<in> set (repeated (length (snd k)) (matches a) k)" using Star.prems by simp
    from repeated_consumes [of "matches a" x, OF a this] u show ?thesis by auto
  qed
  with u show ?case by (auto simp: consumes_def)
next
  case (Grp i a)
  then obtain d where "(d, k') \<in> set (matches a k)" by auto
  from Grp.IH [OF this] show ?case by (auto simp: consumes_def)
next
  case (At q)
  then show ?case by (auto simp: consumes_def split: if_splits)
qed

lemma matches_needs: "(c, k') \<in> set (matches r k) \<Longrightarrow> needs r l \<Longrightarrow> str_contains (snd k) l"
  using matches_consumes [of c k' r k] contains_append(2) by (fastforce simp: consumes_def)

lemma first_of_None: "first_of xs = None \<longleftrightarrow> xs = []"
  by (cases xs) (simp_all add: first_of_def)

lemma search_needs: "search r p s = Some x \<Longrightarrow> needs r l \<Longrightarrow> str_contains s l"
proof (induction r p s arbitrary: x rule: search.induct)
  case (1 r p)
  then show ?case using matches_needs [of _ _ r "(p, [])" l]
    by (cases "matches r (p, [])") (auto simp: first_of_def)
next
  case (2 r p c t)
  show ?case
  proof (cases "matches r (p, c # t)")
    case Nil
    with 2 have "str_contains t l" by (auto simp: first_of_def)
    then show ?thesis using contains_append(1) [of t l "[c]"] by simp
  next
    case (Cons m ms)
    with 2 matches_needs [of "fst m" "snd m" r "(p, c # t)" l] show ?thesis by simp
  qed
qed

text \<open>A search goes on behind a character that no match has, where what is before it lacks a literal.\<close>

lemma search_behind:
  assumes "needs r l" "avoids r x"
  shows "\<not> str_contains u l \<Longrightarrow>
    search r p (u @ x # t) = map_option (\<lambda>(i, m). (Suc (length u) + i, m)) (search r (Some x) t)"
proof (induction u arbitrary: p)
  case Nil
  have "matches r (p, x # t) = []"
  proof (cases "matches r (p, x # t)")
    case (Cons m ms)
    with matches_consumes [of "fst m" "snd m" r "(p, x # t)"] obtain u
      where u: "x # t = u @ snd (snd m)" "consumes r u" by auto
    with assms have "u = []" by (cases u) (auto simp: consumes_def)
    with u assms Nil show ?thesis by (simp add: consumes_def)
  qed
  then show ?case by (simp add: first_of_def)
next
  case (Cons c u)
  have "matches r (p, c # u @ x # t) = []"
  proof (cases "matches r (p, c # u @ x # t)")
    case m: (Cons m ms)
    with matches_consumes [of "fst m" "snd m" r "(p, c # u @ x # t)"] obtain v
      where v: "c # u @ x # t = v @ snd (snd m)" "consumes r v" by auto
    with assms have "x \<notin> set v" "str_contains v l" by (auto simp: consumes_def)
    moreover have "\<exists>w. c # u = v @ w"
    proof -
      from v(1) have "(\<exists>w. c # u = v @ w) \<or> (\<exists>w. v = (c # u) @ x # w)"
        by (auto simp: append_eq_append_conv2 Cons_eq_append_conv append_eq_Cons_conv)
      with \<open>x \<notin> set v\<close> show ?thesis by auto
    qed
    ultimately show ?thesis using Cons.prems contains_append(2) by metis
  qed
  moreover from Cons.prems have "\<not> str_contains u l" using contains_append(1) [of u l "[c]"] by auto
  ultimately show ?case using Cons.IH [of "Some c"]
    by (cases "search r (Some x) t") (auto simp: first_of_def)
qed

lemma no_match: "needs r l \<Longrightarrow> \<not> str_contains s l \<Longrightarrow> search r p s = None"
  using search_needs [of r p s _ l] by (cases "search r p s") auto


subsection \<open>The first match\<close>

definition firsts :: "re \<Rightarrow> cursor \<Rightarrow> match \<Rightarrow> bool" where
  "firsts r k m \<longleftrightarrow> first_of (matches r k) = Some m"

lemma firsts_iff: "firsts r k m \<longleftrightarrow> (\<exists>ms. matches r k = m # ms)"
  by (auto simp: firsts_def first_of_def split: list.splits)

lemma firsts_lit: "firsts (Lit s) (p, s @ t) ([], (past p s, t))"
  by (simp add: firsts_iff cut_prefix_def)

lemma firsts_cls: "f c \<Longrightarrow> firsts (Cls f) (p, c # t) ([], (Some c, t))"
  by (simp add: firsts_iff)

lemma firsts_at: "q (fst k) (ahead (snd k)) \<Longrightarrow> firsts (At q) k ([], k)"
  by (simp add: firsts_iff)

lemma firsts_seq: "firsts a k (c, k1) \<Longrightarrow> firsts b k1 (d, k2) \<Longrightarrow> firsts (Seq a b) k (c @ d, k2)"
  by (auto simp: firsts_iff followed_def)

lemma firsts_or: "firsts a k m \<Longrightarrow> firsts (Or a b) k m" "matches a k = [] \<Longrightarrow> firsts b k m \<Longrightarrow> firsts (Or a b) k m"
  by (auto simp: firsts_iff)

lemma firsts_grp: "firsts a (p, u @ t) (c, (q, t)) \<Longrightarrow> firsts (Grp i a) (p, u @ t) ((i, u) # c, (q, t))"
  by (auto simp: firsts_iff)

lemma repeated_class:
  assumes "\<And>p c t. g (p, c # t) = (if f c then [([], (Some c, t))] else [])" "\<And>p. g (p, []) = []"
  shows "list_all f u \<Longrightarrow> (t = [] \<or> \<not> f (hd t)) \<Longrightarrow> length (u @ t) \<le> n \<Longrightarrow>
   \<exists>ms. repeated n g (p, u @ t) = ([], (past p u, t)) # ms"
proof (induction u arbitrary: n p)
  case Nil
  then show ?case by (cases n; cases t) (auto simp: followed_def assms)
next
  case (Cons c u)
  then obtain m where n: "n = Suc m" by (cases n) auto
  from Cons.IH [of m "Some c"] Cons.prems n obtain ms
    where "repeated m g (Some c, u @ t) = ([], (past (Some c) u, t)) # ms" by auto
  with Cons.prems n show ?case by (simp add: followed_def assms past_def)
qed

lemma firsts_many:
  "list_all f u \<Longrightarrow> (t = [] \<or> \<not> f (hd t)) \<Longrightarrow> firsts (many f) (p, u @ t) ([], (past p u, t))"
  using repeated_class [of "matches (Cls f)" f u t "length (u @ t)" p]
  by (simp add: firsts_iff many_def del: length_append)

lemma firsts_some:
  assumes "u \<noteq> []" "list_all f u" "t = [] \<or> \<not> f (hd t)"
  shows "firsts (some_of f) (p, u @ t) ([], (past p u, t))"
proof -
  obtain c v where u: "u = c # v" using assms(1) by (cases u) auto
  have "firsts (Cls f) (p, c # v @ t) ([], (Some c, v @ t))" using assms(2) u by (intro firsts_cls) simp
  moreover have "firsts (many f) (Some c, v @ t) ([], (past (Some c) v, t))"
    using assms u by (intro firsts_many) auto
  ultimately have "firsts (Seq (Cls f) (many f)) (p, c # v @ t) ([] @ [], (past (Some c) v, t))"
    by (rule firsts_seq)
  then show ?thesis by (cases v) (simp_all add: some_of_def many_def u past_def)
qed

lemma firsts_run:
  "u \<noteq> [] \<Longrightarrow> list_all f u \<Longrightarrow> (t = [] \<or> \<not> f (hd t)) \<Longrightarrow> firsts (Grp i (some_of f)) (p, u @ t) ([(i, u)], (past p u, t))"
  by (intro firsts_grp firsts_some)

lemma search_firsts: "firsts r (p, t) m \<Longrightarrow> search r p t = Some (0, m)"
  by (cases t) (auto simp: firsts_def)

lemma search_skip: "matches r (p, c # t) = [] \<Longrightarrow> search r p (c # t) = map_option (\<lambda>(i, m). (Suc i, m)) (search r (Some c) t)"
  by (simp add: first_of_def)

text \<open>The characters with which a match can begin.\<close>

primrec empties :: "re \<Rightarrow> bool" where
  "empties (Lit s) = (s = [])"
| "empties (Cls f) = False"
| "empties (Seq a b) = (empties a \<and> empties b)"
| "empties (Or a b) = (empties a \<or> empties b)"
| "empties (Star a) = True"
| "empties (Grp i a) = empties a"
| "empties (At q) = True"

primrec begins :: "re \<Rightarrow> char \<Rightarrow> bool" where
  "begins (Lit s) c = (case s of [] \<Rightarrow> False | d # _ \<Rightarrow> c = d)"
| "begins (Cls f) c = f c"
| "begins (Seq a b) c = (begins a c \<or> (empties a \<and> begins b c))"
| "begins (Or a b) c = (begins a c \<or> begins b c)"
| "begins (Star a) c = begins a c"
| "begins (Grp i a) c = begins a c"
| "begins (At q) c = False"

lemma repeated_begins:
  assumes f: "\<And>k c k'. (c, k') \<in> set (f k) \<Longrightarrow> snd k' = snd k \<or> (\<exists>d u. snd k = d # u \<and> b d)"
  shows "(c, k') \<in> set (repeated n f k) \<Longrightarrow> snd k' = snd k \<or> (\<exists>d u. snd k = d # u \<and> b d)"
proof (cases n)
  case (Suc m)
  assume "(c, k') \<in> set (repeated n f k)"
  then consider "k' = k" | a k1 where "(a, k1) \<in> set (f k)" "length (snd k1) < length (snd k)"
    by (auto simp: followed_iff Suc)
  then show ?thesis using f by cases (simp, fastforce)
qed simp

lemma matches_begins:
  "(c, k') \<in> set (matches r k) \<Longrightarrow> (snd k' = snd k \<and> empties r) \<or> (\<exists>d u. snd k = d # u \<and> begins r d)"
proof (induction r arbitrary: c k k')
  case (Lit s)
  then show ?case by (cases s) (auto simp: cut_prefix_def has_prefix_iff split: if_splits)
next
  case (Cls f)
  then show ?case by (cases "snd k") (auto split: if_splits)
next
  case (Seq a b)
  from Seq.prems obtain a1 d k1 where 1: "(a1, k1) \<in> set (matches a k)" "(d, k') \<in> set (matches b k1)"
    by (auto simp: followed_iff)
  from Seq.IH(1) [OF 1(1)] Seq.IH(2) [OF 1(2)] show ?case by (cases "snd k") auto
next
  case (Star a)
  have "snd k' = snd k \<or> (\<exists>d u. snd k = d # u \<and> begins a d)" if "(c, k') \<in> set (matches a k)" for c k k'
    using Star.IH [OF that] by auto
  from repeated_begins [of "matches a" "begins a", OF this] Star.prems show ?case by auto
next
  case (Or a b)
  from Or.prems have "(c, k') \<in> set (matches a k) \<or> (c, k') \<in> set (matches b k)" by simp
  then show ?case using Or.IH [of c k' k] by auto
next
  case (Grp i a)
  then obtain d where "(d, k') \<in> set (matches a k)" by auto
  from Grp.IH [OF this] show ?case by simp
qed (auto split: if_splits)

text \<open>A search passes over characters with which no match begins.\<close>

lemma matches_none:
  assumes "\<not> empties r" "\<not> begins r c"
  shows "matches r (p, c # t) = []"
proof (cases "matches r (p, c # t)")
  case (Cons m ms)
  with matches_begins [of "fst m" "snd m" r "(p, c # t)"] assms show ?thesis by simp
qed

lemma search_past:
  "\<not> empties r \<Longrightarrow> list_all (\<lambda>c. \<not> begins r c) u \<Longrightarrow>
   search r p (u @ t) = map_option (\<lambda>(i, m). (length u + i, m)) (search r (past p u) t)"
proof (induction u arbitrary: p)
  case Nil
  then show ?case by (cases "search r p t") auto
next
  case (Cons c u)
  then have "search r p (c # u @ t) = map_option (\<lambda>(i, m). (Suc i, m)) (search r (Some c) (u @ t))"
    by (intro search_skip matches_none) simp_all
  with Cons show ?case by (cases "search r (past (Some c) u) t") (auto simp: past_def)
qed

text \<open>An expression that begins with the assertion \<open>^\<close> matches at the beginning only.\<close>

lemma anchored_none: "matches (Seq text_begin r) (Some c, t) = []"
  by (simp add: text_begin_def followed_def)

lemma search_anchored: "search (Seq text_begin r) (Some c) t = None"
  by (induction t arbitrary: c) (simp_all add: first_of_def anchored_none del: matches.simps)

lemma firsts_anchored: "firsts r (None, t) m \<Longrightarrow> firsts (Seq text_begin r) (None, t) m"
  using firsts_seq [of text_begin "(None, t)" "[]" "(None, t)" r "fst m" "snd m"]
  by (simp add: firsts_at text_begin_def)

lemma find_firsts:
  "firsts r (None, s) (c, k) \<Longrightarrow> find_groups r s = Some (\<lambda>n. case map_of (rev c) n of None \<Rightarrow> [] | Some g \<Rightarrow> g)"
  by (simp add: find_groups_def search_firsts)

lemma find_needs: "needs r l \<Longrightarrow> \<not> str_contains s l \<Longrightarrow> find_groups r s = None"
  by (simp add: find_groups_def no_match)

text \<open>
  A run of a class before an expression that cannot begin with a character of the class: the run is matched
  in full or not at all.
\<close>

definition behind :: "re \<Rightarrow> (char \<Rightarrow> bool) \<Rightarrow> bool" where
  "behind b f \<longleftrightarrow> \<not> empties b \<and> (\<forall>c. begins b c \<longrightarrow> \<not> f c)"

lemma behind_none: "behind b f \<Longrightarrow> f c \<Longrightarrow> matches b (p, c # t) = []"
  by (intro matches_none) (auto simp: behind_def)

lemma followed_simps: "followed [] f = []" "followed ((c, k) # xs) f = map (\<lambda>(d, k'). (c @ d, k')) (f k) @ followed xs f"
  "followed (xs @ ys) f = followed xs f @ followed ys f"
  by (simp_all add: followed_def)

lemma followed_id: "followed [([], k)] f = f k"
  by (simp add: followed_def)

lemma run_repeated:
  assumes b: "behind b f" and g: "\<And>p c t. g (p, c # t) = (if f c then [([], (Some c, t))] else [])" "\<And>p. g (p, []) = []"
  shows "list_all f u \<Longrightarrow> (t = [] \<or> \<not> f (hd t)) \<Longrightarrow> length (u @ t) \<le> n \<Longrightarrow>
    followed (repeated n g (p, u @ t)) (matches b) = matches b (past p u, t)"
proof (induction u arbitrary: n p)
  case Nil
  have "repeated n g (p, t) = [([], (p, t))]" using Nil by (cases n; cases t) (auto simp: followed_def g)
  then show ?case by (simp add: followed_id)
next
  case (Cons c u)
  then obtain m where n: "n = Suc m" by (cases n) auto
  have "repeated n g (p, (c # u) @ t) = repeated m g (Some c, u @ t) @ [([], (p, (c # u) @ t))]"
    using Cons.prems n by (simp add: followed_def g)
  then have "followed (repeated n g (p, (c # u) @ t)) (matches b) =
      followed (repeated m g (Some c, u @ t)) (matches b) @ matches b (p, c # u @ t)"
    by (simp add: followed_simps followed_id)
  also have "matches b (p, c # u @ t) = []" using Cons.prems by (intro behind_none [OF b]) simp
  finally show ?case using Cons.IH [of m "Some c"] Cons.prems n by (simp add: past_def)
qed

lemma run_many:
  assumes "behind b f" "list_all f u" "t = [] \<or> \<not> f (hd t)"
  shows "matches (Seq (many f) b) (p, u @ t) = matches b (past p u, t)"
  using run_repeated [OF assms(1), of "matches (Cls f)" u t "length (u @ t)" p] assms(2,3)
  by (simp add: many_def)

lemma run_some:
  assumes "behind b f" "u \<noteq> []" "list_all f u" "t = [] \<or> \<not> f (hd t)"
  shows "followed (matches (some_of f) (p, u @ t)) (matches b) = matches b (past p u, t)"
proof -
  obtain c v where u: "u = c # v" using assms(2) by (cases u) auto
  have "followed (matches (some_of f) (p, u @ t)) (matches b) = matches (Seq (many f) b) (Some c, v @ t)"
    using assms(3) by (simp add: some_of_def many_def u followed_def)
  also have "\<dots> = matches b (past p u, t)"
    using assms by (subst run_many) (auto simp: u past_def)
  finally show ?thesis .
qed

lemma followed_Nil_iff: "followed xs f = [] \<longleftrightarrow> (\<forall>m\<in>set xs. f (snd m) = [])"
  by (auto simp: followed_def)

lemma run_group:
  assumes "behind b f" "u \<noteq> []" "list_all f u" "t = [] \<or> \<not> f (hd t)"
  shows "matches (Seq (Grp i (some_of f)) b) (p, u @ t) = map (\<lambda>(d, k). ((i, u) # d, k)) (matches b (past p u, t))"
proof -
  from firsts_some [OF assms(2-4)] obtain ms where ms: "matches (some_of f) (p, u @ t) = ([], (past p u, t)) # ms"
    by (auto simp: firsts_iff)
  from run_some [OF assms, of p] have "followed ms (matches b) = []"
    unfolding ms followed_simps by simp
  then show ?thesis
    by (simp add: ms followed_simps followed_Nil_iff case_prod_unfold)
qed

text \<open>A search passes over a run at whose end the rest of the expression does not match.\<close>

lemma search_run:
  assumes "behind b f" "list_all f u" "t = [] \<or> \<not> f (hd t)" "\<And>q. matches b (Some q, t) = []"
  shows "search (Seq (Grp i (some_of f)) b) p (u @ t) =
    map_option (\<lambda>(j, m). (length u + j, m)) (search (Seq (Grp i (some_of f)) b) (past p u) t)"
  using assms(2)
proof (induction u arbitrary: p)
  case Nil
  then show ?case by (cases "search (Seq (Grp i (some_of f)) b) p t") auto
next
  case (Cons c u)
  have "past p (c # u) = Some (last (c # u))" by (simp add: past_def)
  then have "matches (Seq (Grp i (some_of f)) b) (p, c # u @ t) = []"
    using run_group [OF assms(1) _ Cons.prems assms(3), of i p] assms(4) by simp
  then have "search (Seq (Grp i (some_of f)) b) p (c # u @ t) =
      map_option (\<lambda>(j, m). (Suc j, m)) (search (Seq (Grp i (some_of f)) b) (Some c) (u @ t))"
    by (rule search_skip)
  also have "search (Seq (Grp i (some_of f)) b) (Some c) (u @ t) =
      map_option (\<lambda>(j, m). (length u + j, m)) (search (Seq (Grp i (some_of f)) b) (past p (c # u)) t)"
    using Cons by (simp add: past_Some [of c u p])
  finally show ?case by (simp add: option.map_comp o_def case_prod_unfold)
qed

text \<open>A match of an expression that matches no empty text is not empty.\<close>

lemma matches_shrinks: "(c, k') \<in> set (matches r k) \<Longrightarrow> \<not> empties r \<Longrightarrow> length (snd k') < length (snd k)"
proof (induction r arbitrary: c k k')
  case (Lit s)
  then show ?case by (auto simp: cut_prefix_def has_prefix_iff split: if_splits)
next
  case (Cls f)
  then show ?case by (cases "snd k") (auto split: if_splits)
next
  case (Seq a b)
  from Seq.prems(1) obtain a1 d k1 where 1: "(a1, k1) \<in> set (matches a k)" "(d, k') \<in> set (matches b k1)"
    by (auto simp: followed_iff)
  have "length (snd k1) \<le> length (snd k)" "length (snd k') \<le> length (snd k1)"
    using matches_moves [OF 1(1)] matches_moves [OF 1(2)] by (auto simp: moves_on_def)
  with Seq.IH(1) [OF 1(1)] Seq.IH(2) [OF 1(2)] Seq.prems(2) show ?case by auto
next
  case (Or a b)
  then have "(c, k') \<in> set (matches a k) \<or> (c, k') \<in> set (matches b k)" by simp
  with Or.IH [of c k' k] Or.prems(2) show ?case by auto
next
  case (Grp i a)
  then obtain d where "(d, k') \<in> set (matches a k)" by auto
  with Grp.IH [OF this] Grp.prems(2) show ?case by simp
qed auto

lemma search_matches: "search r p s = Some (i, m) \<Longrightarrow> \<exists>k. m \<in> set (matches r k)"
proof (induction r p s arbitrary: i rule: search.induct)
  case (1 r p)
  then show ?case by (auto simp: first_of_def split: list.splits intro!: exI [of _ p] exI [of _ "[]"])
next
  case (2 r p c t)
  show ?case
  proof (cases "matches r (p, c # t)")
    case Nil
    with 2 show ?thesis by (auto simp: first_of_def)
  next
    case (Cons x xs)
    with 2 show ?thesis by (auto simp: first_of_def intro!: exI [of _ p] exI [of _ "c # t"])
  qed
qed

text \<open>A group between literals that matches no empty text is not empty.\<close>

lemma group_not_empty:
  assumes "find_groups (Seq (At q) (Seq (Lit l) (Seq (Grp i a) (Lit e)))) s = Some m" "\<not> empties a"
    and plain: "\<And>d k k'. (d, k') \<in> set (matches a k) \<Longrightarrow> d = []"
  shows "m i \<noteq> []"
proof -
  from assms(1) obtain j c k where f: "search (Seq (At q) (Seq (Lit l) (Seq (Grp i a) (Lit e)))) None s = Some (j, c, k)"
      "m = (\<lambda>n. case map_of (rev c) n of None \<Rightarrow> [] | Some g \<Rightarrow> g)"
    by (auto simp: find_groups_def)
  from search_matches [OF f(1)] obtain k0 where "(c, k) \<in> set (matches (Seq (At q) (Seq (Lit l) (Seq (Grp i a) (Lit e)))) k0)" by auto
  then obtain c1 k1 c2 k2 c3 k3 c4 where c: "(c1, k1) \<in> set (matches (At q) k0)" "(c2, k2) \<in> set (matches (Lit l) k1)"
      "(c3, k3) \<in> set (matches (Grp i a) k2)" "(c4, k) \<in> set (matches (Lit e) k3)" "c = c1 @ c2 @ c3 @ c4"
    unfolding matches.simps(3) followed_iff by blast
  then have none: "c1 = []" "c2 = []" "c4 = []" by (auto split: if_splits option.splits)
  from c(3) obtain d where d: "(d, k3) \<in> set (matches a k2)" "c3 = (i, take (length (snd k2) - length (snd k3)) (snd k2)) # d"
    by auto
  from matches_shrinks [OF d(1) assms(2)] have "take (length (snd k2) - length (snd k3)) (snd k2) \<noteq> []" by auto
  with c(5) none d plain [OF d(1)] show ?thesis by (simp add: f(2))
qed

end
