(* ===== verification/Guest.thy ===== *)
theory Guest
  imports Harness Regex
begin

text \<open>
  internal/harness: the guests of a test. A guest's console is its standard input and a log file,
  which \<open>Output\<close> reads between two markers; \<open>launch.go\<close> starts a guest with the launcher. The calls
  on a process name it by its pid. \<open>GuestRunning\<close> fails when the process ended, \<open>GuestWait\<close> waits for
  a time, or without a limit for 0, and answers with the exit status.
\<close>

record guest =
  g_pid :: string
  g_path :: string
  g_start :: nat
  g_marks :: nat

subsection \<open>Start\<close>

definition close_failed :: "string \<Rightarrow> err \<Rightarrow> guest res io" where
  "close_failed path e = do {
     _ \<leftarrow> sys (CloseFile path);
     ret (Inl e)}"

definition start_guest_proc :: "string \<Rightarrow> string list \<Rightarrow> guest res io" where
  "start_guest_proc path argv = do {
     e \<leftarrow> do_sys (OpenAppend path);
     (case e of
        Some e \<Rightarrow> ret (Inl e)
      | None \<Rightarrow> do {
          st \<leftarrow> ask (Stat path);
          (case st of
             Inl e \<Rightarrow> close_failed path e
           | Inr len \<Rightarrow> do {
               e \<leftarrow> do_sys MakePipe;
               (case e of
                  Some e \<Rightarrow> close_failed path e
                | None \<Rightarrow> do {
                    p \<leftarrow> ask (StartProc argv);
                    (case p of
                       Inl e \<Rightarrow> close_failed path e
                     | Inr pid \<Rightarrow> ret (Inr \<lparr>g_pid = pid, g_path = path,
                         g_start = nat (int_or_zero len), g_marks = 0\<rparr>))})})})}"

record launch =
  l_build :: string
  l_type :: string
  l_name :: string
  l_options :: string
  l_log_dir :: string
  l_devices :: "string list"
  l_args :: "string list"
  l_cgroup :: string

definition make_log_dir :: "string \<Rightarrow> string res io" where
  "make_log_dir name = ask (MkdirTemp (path_join [''/dev/shm'', name @ ''-'']))"

definition launch_argv :: "string \<Rightarrow> launch \<Rightarrow> string list" where
  "launch_argv root l =
     [path_join [root, ''build/invirtio-launch''], ''-u'', ''nobody'', ''-t'', ''20'',
      ''-l'', ''1024'', ''-i'', path_join [l_build l, ''initramfs/initramfs.cpio''],
      ''-e'', l_type l @ '','' @ l_name l @ '',log='' @ path_join [l_log_dir l, ''inflight'']] @
     (if l_cgroup l \<noteq> [] then [''-g'', l_cgroup l] else []) @
     (if l_devices l \<noteq> [] then [''-b''] else []) @
     concat (map (\<lambda>d. [''-d'', d]) (l_devices l)) @
     [path_join [l_build l, ''linux''],
      ''vduse_guest.device='' @ l_type l @ '','' @ l_name l @ (if l_options l \<noteq> [] then '','' @ l_options l else [])] @
     l_args l"

definition launch_guest :: "string \<Rightarrow> launch \<Rightarrow> guest res io" where
  "launch_guest path l = do {
     root \<leftarrow> repo_root;
     start_guest_proc path (launch_argv root l)}"


subsection \<open>The console\<close>

definition guest_running :: "guest \<Rightarrow> bool io" where
  "guest_running g = do {r \<leftarrow> sys (GuestRunning (g_pid g)); ret (succeeded r)}"

definition log_of :: "guest \<Rightarrow> string res \<Rightarrow> string" where
  "log_of g r = (case r of Inl _ \<Rightarrow> [] | Inr s \<Rightarrow> if length s < g_start g then [] else drop (g_start g) s)"

definition guest_log :: "guest \<Rightarrow> string io" where
  "guest_log g = do {r \<leftarrow> ask (ReadFile (g_path g)); ret (log_of g r)}"

definition shows_or_ended :: "guest \<Rightarrow> string \<Rightarrow> bool io" where
  "shows_or_ended g text = do {
     l \<leftarrow> guest_log g;
     if str_contains l text then ret True
     else do {a \<leftarrow> guest_running g; ret (\<not> a)}}"

definition wait_text :: "guest \<Rightarrow> string \<Rightarrow> nat \<Rightarrow> bool io" where
  "wait_text g text timeout = do {
     _ \<leftarrow> wait (shows_or_ended g text) timeout 200;
     l \<leftarrow> guest_log g;
     ret (str_contains l text)}"

definition guest_send :: "guest \<Rightarrow> string \<Rightarrow> err option io" where
  "guest_send g line = do_sys (GuestSend (g_pid g) (line @ [newline]))"

definition start_mark :: "nat \<Rightarrow> string" where
  "start_mark n = ''mark-'' @ show_nat n @ ''-start''"

definition end_mark :: "nat \<Rightarrow> string" where
  "end_mark n = ''mark-'' @ show_nat n @ ''-end''"

definition split_mark :: "string \<Rightarrow> string" where
  "split_mark m = take (length m - 1) m @ [CHR 0x27, CHR 0x27] @ drop (length m - 1) m"

definition marked_line :: "nat \<Rightarrow> string \<Rightarrow> string" where
  "marked_line n line =
     ''echo '' @ split_mark (start_mark n) @ ''; '' @ line @ ''; echo '' @ split_mark (end_mark n)"

text \<open>
  The text between the markers, without carriage returns. The markers do not overlap, so the slice is
  in bounds (\<open>marks_apart\<close>).
\<close>

definition between_marks :: "nat \<Rightarrow> string \<Rightarrow> string" where
  "between_marks n l =
     (case index_of l (start_mark n) of
        None \<Rightarrow> []
      | Some i \<Rightarrow>
          (case index_of l (end_mark n) of
             None \<Rightarrow> []
           | Some j \<Rightarrow>
               (let b = i + length (start_mark n)
                in if j < i then [] else filter (\<lambda>c. c \<noteq> CHR 0x0D) (take (j - b) (drop b l)))))"

definition guest_output :: "guest \<Rightarrow> string \<Rightarrow> nat \<Rightarrow> (string \<times> guest) io" where
  "guest_output g line timeout =
     (let g = g\<lparr>g_marks := g_marks g + 1\<rparr>; n = g_marks g in do {
     e \<leftarrow> guest_send g (marked_line n line);
     if e \<noteq> None then ret ([], g)
     else do {
       ok \<leftarrow> wait_text g (end_mark n) timeout;
       if \<not> ok then ret ([], g)
       else do {
         l \<leftarrow> guest_log g;
         ret (between_marks n l, g)}}})"


subsection \<open>Counters\<close>

text \<open>One or more characters of a class, and what follows them.\<close>

definition span1 :: "(char \<Rightarrow> bool) \<Rightarrow> string \<Rightarrow> (string \<times> string) option" where
  "span1 p s = (if takeWhile p s = [] then None else Some (takeWhile p s, dropWhile p s))"

definition queue_re :: "string \<Rightarrow> string option" where
  "queue_re line = do {
     (_, s) \<leftarrow> span1 re_space line;
     s \<leftarrow> cut_prefix s ''queue '';
     (n, s) \<leftarrow> span1 is_digit s;
     if list_all re_space s then Some n else None}"

definition counter_re :: "string \<Rightarrow> (string \<times> string) option" where
  "counter_re line = do {
     (_, s) \<leftarrow> span1 re_space line;
     (w, s) \<leftarrow> span1 re_word s;
     (_, s) \<leftarrow> span1 re_space s;
     let neg = has_prefix s ''-'';
     (n, s) \<leftarrow> span1 is_digit (if neg then drop 1 s else s);
     if list_all re_space s then Some (w, (if neg then ''-'' else []) @ n) else None}"

type_synonym counters = "string \<rightharpoonup> int"

definition counter_line :: "string \<times> counters \<Rightarrow> string \<Rightarrow> string \<times> counters" where
  "counter_line st line = (case st of (prefix, m) \<Rightarrow>
     (case queue_re line of
        Some n \<Rightarrow> (''q'' @ n @ ''_'', m)
      | None \<Rightarrow>
          (case counter_re line of
             Some (k, v) \<Rightarrow> (prefix, m(prefix @ k \<mapsto> int_or_zero v))
           | None \<Rightarrow> (prefix, m))))"

definition parse_counters :: "string \<Rightarrow> counters" where
  "parse_counters text = snd (foldl counter_line ([], Map.empty) (split_on newline text))"

definition guest_counters :: "guest \<Rightarrow> (counters \<times> guest) io" where
  "guest_counters g = do {
     r \<leftarrow> guest_output g ''cat /proc/vduse_guest'' 10000;
     ret (parse_counters (fst r), snd r)}"


subsection \<open>The end\<close>

definition guest_signal :: "guest \<Rightarrow> string \<Rightarrow> err option io" where
  "guest_signal g sig = do_sys (GuestSignal (g_pid g) sig)"

definition guest_wait :: "guest \<Rightarrow> nat \<Rightarrow> bool io" where
  "guest_wait g timeout = do {r \<leftarrow> sys (GuestWait (g_pid g) timeout); ret (succeeded r)}"

definition guest_exit_code :: "guest \<Rightarrow> int io" where
  "guest_exit_code g = do {
     a \<leftarrow> guest_running g;
     if a then ret (- 1)
     else do {
       r \<leftarrow> sys (GuestWait (g_pid g) 0);
       ret (if succeeded r then int_or_zero (datum r) else - 1)}}"

definition guest_kill :: "guest \<Rightarrow> unit io" where
  "guest_kill g = do {
     a \<leftarrow> guest_running g;
     _ \<leftarrow> (if a then do {
            _ \<leftarrow> guest_signal g ''KILL'';
            _ \<leftarrow> sys (GuestWait (g_pid g) 0);
            ret ()} else ret ());
     _ \<leftarrow> sys (GuestClose (g_pid g));
     _ \<leftarrow> sys (CloseFile (g_path g));
     ret ()}"

definition guest_stop :: "guest \<Rightarrow> nat \<Rightarrow> unit io" where
  "guest_stop g timeout = do {
     a \<leftarrow> guest_running g;
     if \<not> a then ret ()
     else do {
       _ \<leftarrow> guest_signal g ''TERM'';
       ok \<leftarrow> guest_wait g timeout;
       if \<not> ok then guest_kill g else ret ()}}"


subsection \<open>The UML process\<close>

definition is_uml :: "int \<Rightarrow> bool io" where
  "is_uml pid = do {
     r \<leftarrow> ask (ReadFile (''/proc/'' @ show_int pid @ ''/cmdline''));
     ret (case r of Inl _ \<Rightarrow> False | Inr s \<Rightarrow> str_contains s ''vduse_uml.broker_fd='')}"

text \<open>
  Whether the launcher is above a process. The parents of a process are different processes, of
  which there are at most \<open>pid_max\<close>.
\<close>

definition pid_max :: nat where "pid_max = 4194304"

primrec above :: "nat \<Rightarrow> int \<Rightarrow> int \<Rightarrow> bool io" where
  "above 0 launcher p = ret False"
| "above (Suc k) launcher p =
     (if p \<le> 1 then ret False
      else if p = launcher then ret True
      else do {q \<leftarrow> parent_pid p; above k launcher q})"

definition below :: "int \<Rightarrow> int \<Rightarrow> bool io" where
  "below launcher pid = do {p \<leftarrow> parent_pid pid; above pid_max launcher p}"

fun first_uml :: "int \<Rightarrow> string list \<Rightarrow> int io" where
  "first_uml launcher [] = ret 0"
| "first_uml launcher (p # ps) =
     (case parse_int64 (path_base p) of
        None \<Rightarrow> first_uml launcher ps
      | Some pid \<Rightarrow> do {
          u \<leftarrow> is_uml pid;
          if \<not> u then first_uml launcher ps
          else do {
            b \<leftarrow> below launcher pid;
            if \<not> b then first_uml launcher ps
            else do {
              q \<leftarrow> parent_pid pid;
              if q \<le> 0 then first_uml launcher ps
              else do {
                qu \<leftarrow> is_uml q;
                if \<not> qu then ret pid else first_uml launcher ps}}}})"

definition uml_pid :: "int \<Rightarrow> int io" where
  "uml_pid launcher = do {
     r \<leftarrow> sys (Glob ''/proc/[0-9]*'');
     first_uml launcher (if succeeded r then snd r else [])}"


subsection \<open>Release\<close>

definition system_supplicant :: "string list" where
  "system_supplicant = [''busctl'', ''--auto-start=no'', ''call'', ''fi.w1.wpa_supplicant1'',
     ''/fi/w1/wpa_supplicant1'', ''fi.w1.wpa_supplicant1'']"

text \<open>The expression \<open>^o "(\S+)"\<close>: the text up to the last quote before a space, if any.\<close>

definition supplicant_path :: "string \<Rightarrow> string option" where
  "supplicant_path s =
     (case cut_prefix s [CHR ''o'', CHR '' '', CHR 0x22] of
        None \<Rightarrow> None
      | Some t \<Rightarrow>
          (let w = takeWhile (\<lambda>c. \<not> re_space c) t
           in case last_index w (CHR 0x22) of
                None \<Rightarrow> None
              | Some i \<Rightarrow> if i = 0 then None else Some (take i w)))"

definition unmanaged :: "string \<Rightarrow> bool io" where
  "unmanaged net = do {
     _ \<leftarrow> run_cmd ''nmcli'' [''device'', ''set'', net, ''managed'', ''no''];
     r \<leftarrow> run_cmd ''nmcli'' [''-g'', ''GENERAL.STATE'', ''device'', ''show'', net];
     ret (str_contains (r_stdout r) ''unmanaged'' \<or> \<not> run_ok r)}"

text \<open>The state of the second wait is the time since which wpa_supplicant is without the interface.\<close>

definition without_supplicant :: "string \<Rightarrow> int \<Rightarrow> (bool \<times> int) io" where
  "without_supplicant net since = do {
     r \<leftarrow> run_argv (system_supplicant @ [''GetInterface'', ''s'', net]);
     since \<leftarrow> (case supplicant_path (r_stdout r) of
        None \<Rightarrow> ret since
      | Some p \<Rightarrow> do {
          _ \<leftarrow> run_argv (system_supplicant @ [''RemoveInterface'', ''o'', p]);
          now});
     t \<leftarrow> now;
     ret (t - since \<ge> millis 1000, since)}"

definition release :: "string \<Rightarrow> unit io" where
  "release net = do {
     _ \<leftarrow> wait (unmanaged net) 5000 100;
     since \<leftarrow> now;
     _ \<leftarrow> wait_loop (without_supplicant net) 10000 200 since;
     ret ()}"


subsection \<open>The markers\<close>

lemma contains_split: "c \<notin> set p \<Longrightarrow> str_contains (a @ c # b) p \<longleftrightarrow> str_contains a p \<or> str_contains b p"
proof
  assume c: "c \<notin> set p" and "str_contains (a @ c # b) p"
  then obtain u t where "a @ c # b = u @ p @ t" by (auto simp: str_contains_iff)
  with c show "str_contains a p \<or> str_contains b p"
    by (fastforce simp: str_contains_iff append_eq_append_conv2 Cons_eq_append_conv append_eq_Cons_conv)
next
  assume "str_contains a p \<or> str_contains b p"
  then show "str_contains (a @ c # b) p"
    unfolding str_contains_iff by (metis append.assoc append_Cons)
qed

lemma contains_length: "str_contains s p \<Longrightarrow> length p \<le> length s"
  by (auto simp: str_contains_iff)

text \<open>A text whose first character does not come again is found where it is first.\<close>

lemma index_first:
  assumes "p \<noteq> []" "hd p \<notin> set (tl p)"
  shows "\<not> str_contains s p \<Longrightarrow> index_of (s @ p @ t) p = Some (length s)"
proof (induction s)
  case Nil
  from assms(1) show ?case by (cases p) (auto simp: has_prefix_iff)
next
  case (Cons c s)
  have "\<not> has_prefix (c # s @ p @ t) p"
  proof
    assume "has_prefix (c # s @ p @ t) p"
    then obtain x where x: "(c # s) @ p @ t = p @ x" by (auto simp: has_prefix_iff)
    show False
    proof (cases "length p \<le> length (c # s)")
      case True
      from x have "take (length p) ((c # s) @ p @ t) = p" by (metis append_eq_conv_conj)
      with True have "c # s = p @ drop (length p) (c # s)" by (simp del: append_Cons) (metis append_take_drop_id)
      with Cons.prems show False unfolding str_contains_iff by (metis append_Nil)
    next
      case False
      from x False have "p = (c # s) @ drop (length (c # s)) p"
        by (metis append_eq_append_conv_if append_take_drop_id nat_le_linear)
      moreover from this x have "drop (length (c # s)) p @ x = p @ t" by (metis append.assoc same_append_eq)
      ultimately obtain q where q: "p = (c # s) @ q" "q \<noteq> []" "q @ x = p @ t" using False
        by (metis append_Nil2 order_refl)
      from q(2,3) assms(1) have "hd q = hd p" by (metis hd_append2)
      with q(1,2) assms(2) show False by auto
    qed
  qed
  moreover have "\<not> str_contains s p"
    using Cons.prems unfolding str_contains_iff by (metis append_Cons)
  ultimately show ?case using Cons.IH by simp
qed

definition mark_init :: "nat \<Rightarrow> string" where
  "mark_init n = ''mark-'' @ show_nat n @ ''-''"

lemma marks_init: "start_mark n = mark_init n @ ''start''" "end_mark n = mark_init n @ ''end''"
  by (simp_all add: start_mark_def end_mark_def mark_init_def)

lemma init_chars: "c \<in> set (mark_init n) \<Longrightarrow> is_digit c \<or> c \<in> set ''mark-''"
  using show_nat_digits [of n] by (auto simp: mark_init_def list_all_iff)

definition is_mark :: "nat \<Rightarrow> string \<Rightarrow> bool" where
  "is_mark n p \<longleftrightarrow> p = start_mark n \<or> p = end_mark n"

text \<open>What the echo of a line is made of: the characters between its parts are in no marker.\<close>

definition gap :: "char \<Rightarrow> bool" where
  "gap c \<longleftrightarrow> c \<in> set [CHR '' '', CHR '';'', CHR 0x27, CHR 0x0D]"

lemma gap_split:
  assumes "is_mark n p" "gap c"
  shows "str_contains (a @ c # b) p \<longleftrightarrow> str_contains a p \<or> str_contains b p"
proof (rule contains_split)
  show "c \<notin> set p"
    using assms init_chars [of c n] by (auto simp: is_mark_def gap_def marks_init is_digit_def)
qed

lemma short_text:
  assumes "is_mark n p" "length s \<le> length (mark_init n)"
  shows "\<not> str_contains s p"
  using assms contains_length [of s p] by (auto simp: is_mark_def marks_init)

lemma half_marks:
  assumes "is_mark n p"
  shows "\<not> str_contains (mark_init n @ ''star'') p" "\<not> str_contains (mark_init n @ ''en'') p"
proof -
  have no: "CHR ''e'' \<notin> set (mark_init n)" "CHR ''t'' \<notin> set (mark_init n)"
    using init_chars [of "CHR ''e''" n] init_chars [of "CHR ''t''" n] by (auto simp: is_digit_def)
  show "\<not> str_contains (mark_init n @ ''star'') p"
    using assms no contains_length [of "mark_init n @ ''star''" p] str_contains_set [of "mark_init n @ ''star''" p]
    by (auto simp: is_mark_def marks_init)
  show "\<not> str_contains (mark_init n @ ''en'') p"
    using assms no contains_length [of "mark_init n @ ''en''" p] str_contains_set [of "mark_init n @ ''en''" p]
    by (auto simp: is_mark_def marks_init)
qed

lemma split_mark_snoc: "split_mark (a @ [c]) = a @ [CHR 0x27, CHR 0x27, c]"
  by (simp add: split_mark_def)

lemma split_marks:
  "split_mark (start_mark n) = (mark_init n @ ''star'') @ CHR 0x27 # [] @ CHR 0x27 # ''t''"
  "split_mark (end_mark n) = (mark_init n @ ''en'') @ CHR 0x27 # [] @ CHR 0x27 # ''d''"
  using split_mark_snoc [of "mark_init n @ ''star''" "CHR ''t''"] split_mark_snoc [of "mark_init n @ ''en''" "CHR ''d''"]
  by (simp_all add: marks_init)

definition echo_of :: "nat \<Rightarrow> string \<Rightarrow> string" where
  "echo_of n line = '' '' @ marked_line n line @ [CHR 0x0D, newline]"

lemma echo_parts:
  "u @ echo_of n line = u @ CHR '' '' # ''echo'' @ CHR '' '' # (mark_init n @ ''star'') @ CHR 0x27 # [] @ CHR 0x27 # ''t'' @
     CHR '';'' # [] @ CHR '' '' # line @ CHR '';'' # [] @ CHR '' '' # ''echo'' @ CHR '' '' #
     (mark_init n @ ''en'') @ CHR 0x27 # [] @ CHR 0x27 # ''d'' @ CHR 0x0D # [newline]"
  by (simp add: echo_of_def marked_line_def split_marks)

text \<open>The console echoes what is typed, and the echo has no marker unless the line has one.\<close>

lemma echo_unmarked:
  assumes "is_mark n p"
  shows "str_contains (u @ echo_of n line) p \<longleftrightarrow> str_contains u p \<or> str_contains line p"
proof -
  have g: "gap (CHR '' '')" "gap (CHR '';'')" "gap (CHR 0x27)" "gap (CHR 0x0D)" by (simp_all add: gap_def)
  have "6 \<le> length (mark_init n)" by (cases "show_nat n") (simp_all add: mark_init_def)
  then have "\<not> str_contains s p" if "length s \<le> 4" for s
    using short_text [OF assms] that by simp
  then show ?thesis
    unfolding echo_parts gap_split [OF assms g(1)] gap_split [OF assms g(2)] gap_split [OF assms g(3)]
      gap_split [OF assms g(4)]
    by (simp add: half_marks [OF assms])
qed

lemma mark_start: "is_mark n p \<Longrightarrow> p \<noteq> [] \<and> hd p \<notin> set (tl p)"
proof -
  assume "is_mark n p"
  moreover have "CHR ''m'' \<notin> set (show_nat n)"
    using show_nat_digits [of n] by (auto simp: list_all_iff is_digit_def)
  ultimately show ?thesis by (auto simp: is_mark_def marks_init mark_init_def)
qed

text \<open>The text of the console: what is before the prompt's blank, the echo, and what the command prints.\<close>

definition console_text :: "string \<Rightarrow> nat \<Rightarrow> string \<Rightarrow> string \<Rightarrow> string \<Rightarrow> string" where
  "console_text u n line body post = u @ echo_of n line @ start_mark n @ body @ end_mark n @ post"

definition unmarked :: "nat \<Rightarrow> string \<Rightarrow> bool" where
  "unmarked n s \<longleftrightarrow> \<not> str_contains s (start_mark n) \<and> \<not> str_contains s (end_mark n)"

lemma start_index:
  assumes "unmarked n u" "unmarked n line"
  shows "index_of (console_text u n line body post) (start_mark n) = Some (length (u @ echo_of n line))"
proof -
  have m: "is_mark n (start_mark n)" by (simp add: is_mark_def)
  have "\<not> str_contains (u @ echo_of n line) (start_mark n)"
    using assms echo_unmarked [OF m] by (simp add: unmarked_def)
  from index_first [OF _ _ this] mark_start [OF m] show ?thesis by (simp add: console_text_def)
qed

lemma end_index:
  assumes "unmarked n u" "unmarked n line" "unmarked n body"
  shows "index_of (console_text u n line body post) (end_mark n) =
         Some (length (u @ echo_of n line @ start_mark n @ body))"
proof -
  have m: "is_mark n (end_mark n)" by (simp add: is_mark_def)
  have sep: "newline \<notin> set (end_mark n)" "CHR ''t'' \<notin> set (end_mark n)"
    using init_chars [of newline n] init_chars [of "CHR ''t''" n]
    by (auto simp: marks_init is_digit_def newline_def)
  have e: "u @ echo_of n line = (u @ '' '' @ marked_line n line @ [CHR 0x0D]) @ newline # []"
    by (simp add: echo_of_def)
  have parts: "u @ echo_of n line @ start_mark n @ body =
      (u @ '' '' @ marked_line n line @ [CHR 0x0D]) @ newline # (mark_init n @ ''star'') @ CHR ''t'' # body"
    by (simp add: echo_of_def marks_init)
  have "\<not> str_contains (u @ echo_of n line) (end_mark n)"
    using assms echo_unmarked [OF m] by (simp add: unmarked_def)
  then have "\<not> str_contains (u @ '' '' @ marked_line n line @ [CHR 0x0D]) (end_mark n)"
    unfolding e contains_split [OF sep(1)] by blast
  then have "\<not> str_contains (u @ echo_of n line @ start_mark n @ body) (end_mark n)"
    unfolding parts contains_split [OF sep(1)] contains_split [OF sep(2)]
    using half_marks(1) [OF m] assms(3) by (simp add: unmarked_def)
  from index_first [OF _ _ this] mark_start [OF m] show ?thesis by (simp add: console_text_def)
qed

lemma marks_apart:
  "index_of l (start_mark n) = Some i \<Longrightarrow> index_of l (end_mark n) = Some j \<Longrightarrow> i \<le> j \<Longrightarrow>
   i + length (start_mark n) \<le> j"
proof (rule ccontr)
  assume i: "index_of l (start_mark n) = Some i" and j: "index_of l (end_mark n) = Some j"
    and "i \<le> j" and c: "\<not> i + length (start_mark n) \<le> j"
  from index_of_Some_iff [OF i] obtain t where t: "l = take i l @ start_mark n @ t" "length (take i l) = i" by blast
  from index_of_Some_iff [OF j] obtain v where v: "l = take j l @ end_mark n @ v" "length (take j l) = j" by blast
  have me: "is_mark n (end_mark n)" and ms: "is_mark n (start_mark n)" by (simp_all add: is_mark_def)
  have "l ! j = hd (end_mark n)" using v mark_start [OF me] by (metis hd_append2 hd_drop_conv_nth append_eq_conv_conj drop_eq_Nil append_is_Nil_conv not_le)
  moreover have "l ! j = start_mark n ! (j - i)"
    using t \<open>i \<le> j\<close> c by (metis add_diff_inverse_nat nth_append nth_append_length_plus not_le add_less_cancel_left)
  moreover have "hd (end_mark n) = hd (start_mark n)" by (simp add: start_mark_def end_mark_def)
  ultimately have h: "start_mark n ! (j - i) = hd (start_mark n)" by simp
  show False
  proof (cases "j = i")
    case True
    then have "start_mark n @ t = end_mark n @ v" using t(1) v(1) by (metis append_eq_append_conv)
    then show False by (simp add: marks_init)
  next
    case False
    with \<open>i \<le> j\<close> obtain d where d: "j - i = Suc d" by (metis Suc_pred diff_is_0_eq le_antisym neq0_conv)
    with c \<open>i \<le> j\<close> have "d < length (tl (start_mark n))" by simp
    then have "start_mark n ! (j - i) \<in> set (tl (start_mark n))" by (metis d nth_mem nth_tl)
    with h mark_start [OF ms] show False by simp
  qed
qed

lemma between_exact:
  assumes "unmarked n u" "unmarked n line" "unmarked n body"
  shows "between_marks n (console_text u n line body post) = filter (\<lambda>c. c \<noteq> CHR 0x0D) body"
  by (simp add: between_marks_def start_index [OF assms(1,2)] end_index [OF assms] Let_def)
    (simp add: console_text_def)

lemma yields_wait_met:
  assumes "yields f cond True" "0 < timeout"
  shows "yields f (wait cond timeout pause) True"
proof -
  have rounds: "yields f (wait_rounds (Suc (Suc k)) (\<lambda>_. do {b \<leftarrow> cond; ret (b, ())})
      (time_of (f Now) + millis timeout) pause ()) (Some (True, ()))" for k
    using assms(2)
    by (auto intro!: yields_bind [OF yields_sys] yields_bind [OF assms(1)] simp: now_def millis_def)
  show ?thesis
    unfolding wait_def wait_loop_def now_def State_Monad.bind_assoc State_Monad.bind_left_identity
      add_2_eq_Suc'
    by (rule yields_bind [OF yields_sys], rule yields_bind [OF rounds]) auto
qed

text \<open>
  C14 A command that a guest's shell runs for the tests returns what it printed, whatever the console
  showed before, although the console echoes the line with the two markers: the echo of the markers is
  not taken for the markers. The host's answers are those of a guest whose log has the markers and
  what is between them, and whose command prints no marker.
\<close>

theorem output_returns_body:
  assumes "succeeded (f (GuestSend (g_pid g) (marked_line n line @ [newline])))"
    and "f (ReadFile (g_path g)) = (None, [old @ console_text u n line body post])"
    and "length old = g_start g" "n = Suc (g_marks g)" "0 < timeout"
    and "unmarked n u" "unmarked n line" "unmarked n body"
  shows "yields f (guest_output g line timeout) (filter (\<lambda>c. c \<noteq> CHR 0x0D) body, g\<lparr>g_marks := n\<rparr>)"
proof -
  let ?l = "console_text u n line body post"
  have l: "yields f (guest_log (g\<lparr>g_marks := n\<rparr>)) ?l"
    unfolding guest_log_def by (rule yields_bind [OF yields_ask]) (use assms(2,3) in \<open>auto simp: result_def fault_err_def datum_def log_of_def\<close>)
  have c: "str_contains ?l (end_mark n)"
    using end_index [OF assms(6-8)] by (simp add: str_contains_def)
  have met: "yields f (shows_or_ended (g\<lparr>g_marks := n\<rparr>) (end_mark n)) True"
    unfolding shows_or_ended_def by (rule yields_bind [OF l]) (use c in auto)
  have waits: "yields f (wait_text (g\<lparr>g_marks := n\<rparr>) (end_mark n) timeout) True"
    unfolding wait_text_def
    by (rule yields_bind [OF yields_wait_met [OF met assms(5)]], rule yields_bind [OF l]) (use c in auto)
  have send: "yields f (guest_send (g\<lparr>g_marks := n\<rparr>) (marked_line n line)) None"
    unfolding guest_send_def using yields_do_sys [of f "GuestSend (g_pid g) (marked_line n line @ [newline])"]
      assms(1) [folded fault_err_iff] by simp
  have n: "g_marks g + 1 = n" "g_marks (g\<lparr>g_marks := n\<rparr>) = n" using assms(4) by simp_all
  show ?thesis
    unfolding guest_output_def Let_def n
    by (rule yields_bind [OF send], simp, rule yields_bind [OF waits], simp, rule yields_bind [OF l])
      (auto simp: between_exact [OF assms(6-8)])
qed

text \<open>A guest that printed two lines, of which the console ends each with a carriage return.\<close>

definition sample_guest_state :: guest where
  "sample_guest_state = \<lparr>g_pid = ''7'', g_path = ''/tmp/log'', g_start = 1, g_marks = 0\<rparr>"

definition sample_answers :: "call \<Rightarrow> reply" where
  "sample_answers c = (case c of
     ReadFile p \<Rightarrow> (None, [''x'' @ console_text ''#'' 1 ''id'' [CHR ''0'', CHR 0x0D] []])
   | _ \<Rightarrow> (None, []))"

lemma sample_unmarked: "unmarked 1 ''#''" "unmarked 1 ''id''" "unmarked 1 [CHR ''0'', CHR 0x0D]"
  by (auto simp: unmarked_def start_mark_def end_mark_def dest!: contains_length)

theorem output_returns_body_witness:
  "yields sample_answers (guest_output sample_guest_state ''id'' 5) (''0'', sample_guest_state\<lparr>g_marks := 1\<rparr>)"
proof -
  have "yields sample_answers (guest_output sample_guest_state ''id'' 5)
      (filter (\<lambda>c. c \<noteq> CHR 0x0D) [CHR ''0'', CHR 0x0D], sample_guest_state\<lparr>g_marks := 1\<rparr>)"
    by (rule output_returns_body [of sample_answers sample_guest_state 1 "''id''" "''x''" "''#''" "[CHR ''0'', CHR 0x0D]" "[]" 5])
      (simp_all add: sample_unmarked sample_answers_def sample_guest_state_def del: One_nat_def)
  then show ?thesis by simp
qed


subsection \<open>Above and below\<close>

definition parent_at :: "(call \<Rightarrow> reply) \<Rightarrow> int \<Rightarrow> int" where
  "parent_at f p = (case result (f (ReadFile (''/proc/'' @ show_int p @ ''/stat''))) of Inl _ \<Rightarrow> 0 | Inr s \<Rightarrow> parent_of s)"

lemma yields_parent: "yields f (parent_pid p) (parent_at f p)"
  unfolding parent_pid_def parent_at_def by (rule yields_bind [OF yields_ask]) auto

text \<open>The launcher is above a process when the parents of the process lead to it within the bound.\<close>

lemma yields_above:
  "yields f (above k launcher p) (\<exists>i<k. (parent_at f ^^ i) p = launcher \<and> (\<forall>j\<le>i. 1 < (parent_at f ^^ j) p))"
proof (induction k arbitrary: p)
  case (Suc k)
  let ?P = "\<lambda>i. (parent_at f ^^ i) p = launcher \<and> (\<forall>j\<le>i. 1 < (parent_at f ^^ j) p)"
  consider "p \<le> 1" | "1 < p" "p = launcher" | "1 < p" "p \<noteq> launcher" by linarith
  then show ?case
  proof cases
    case 1
    then have "\<not> (\<exists>i<Suc k. ?P i)" by force
    with 1 show ?thesis by (auto simp del: funpow.simps)
  next
    case 2
    then have "?P 0" by simp
    then have "\<exists>i<Suc k. ?P i" by blast
    with 2 show ?thesis by (auto simp del: funpow.simps)
  next
    case 3
    have step: "?P (Suc i) \<longleftrightarrow> (parent_at f ^^ i) (parent_at f p) = launcher \<and>
        (\<forall>j\<le>i. 1 < (parent_at f ^^ j) (parent_at f p))" for i
    proof -
      have "(\<forall>j\<le>Suc i. 1 < (parent_at f ^^ j) p) \<longleftrightarrow> (\<forall>j\<le>i. 1 < (parent_at f ^^ Suc j) p)"
        using 3(1) by (metis Suc_le_mono funpow_0 less_Suc_eq_0_disj less_Suc_eq_le)
      then show ?thesis by (simp add: funpow_swap1)
    qed
    have "\<not> ?P 0" using 3 by simp
    then have "(\<exists>i<Suc k. ?P i) \<longleftrightarrow> (\<exists>i<k. ?P (Suc i))"
      unfolding Ex_less_Suc2 [of k ?P] by blast
    then have e: "(\<exists>i<Suc k. ?P i) \<longleftrightarrow> (\<exists>i<k. (parent_at f ^^ i) (parent_at f p) = launcher \<and>
        (\<forall>j\<le>i. 1 < (parent_at f ^^ j) (parent_at f p)))"
      unfolding step .
    show ?thesis unfolding e using yields_bind [OF yields_parent Suc.IH] 3 by simp
  qed
qed auto

end
