(* ===== verification/TestDevices.thy ===== *)
theory TestDevices
  imports Guest Flags Mconsole "HOL-Library.List_Lexorder" "HOL-Library.Char_ord"
begin

text \<open>
  cmd/invirtio-test: the dispatch of main.go and the commands of devices.go, which move devices to and
  from VFIO, steer interrupts, run a guest by hand and talk to its management console. The usage
  texts end with the table of flags, which is not modelled.
\<close>

subsection \<open>main.go\<close>

definition note_err :: "string \<Rightarrow> unit io" where
  "note_err msg = do {_ \<leftarrow> sys (Eprint (msg @ [newline])); ret ()}"

definition test_fatal :: "string \<Rightarrow> outcome io" where
  "test_fatal msg = do {_ \<leftarrow> note_err (''invirtio-test: '' @ msg); ret (Exited 1)}"

definition err_suffix :: "err option \<Rightarrow> string" where
  "err_suffix e = (case e of None \<Rightarrow> [] | Some e \<Rightarrow> '': '' @ err_text e)"

definition list_suffix :: "string \<Rightarrow> string list \<Rightarrow> string" where
  "list_suffix word items = (if items = [] then [] else '', '' @ word @ '' '' @ join_with '', '' items)"

definition as_test_root :: "outcome io \<Rightarrow> outcome io" where
  "as_test_root m = do {
     r \<leftarrow> sys Geteuid;
     if datum r \<noteq> ''0'' then test_fatal ''must run as root'' else m}"

text \<open>The table of commands: a name that is registered twice is a panic.\<close>

record test_command =
  tc_summary :: string
  tc_run :: "string list \<Rightarrow> outcome io"

type_synonym test_commands = "(string \<times> test_command) list"

definition register :: "string \<Rightarrow> test_command \<Rightarrow> test_commands \<Rightarrow> test_commands option" where
  "register name c cs = (if map_of cs name \<noteq> None then None else Some (cs @ [(name, c)]))"

definition pad_right :: "nat \<Rightarrow> string \<Rightarrow> string" where
  "pad_right n s = s @ spaces (n - length s)"

definition test_usage :: "test_commands \<Rightarrow> string" where
  "test_usage cs = ''usage: invirtio-test <command> [arguments]'' @ [newline, newline] @ ''Commands:'' @ [newline] @
     concat (map (\<lambda>(n, c). ''  '' @ pad_right 18 n @ '' '' @ tc_summary c @ [newline]) (sort_key fst cs)) @
     [newline] @ ''Run '' @ [CHR 0x22] @ ''invirtio-test <command> -h'' @ [CHR 0x22] @
     '' for a command's options.'' @ [newline]"

definition test_main :: "test_commands \<Rightarrow> string list \<Rightarrow> outcome io" where
  "test_main cs argv =
     (case argv of
        prog # cmd # args \<Rightarrow>
          (case map_of cs cmd of
             None \<Rightarrow> usage_exit (test_usage cs) 2
           | Some c \<Rightarrow> do {
               r \<leftarrow> tc_run c args;
               (case r of
                  Returned (Some e) \<Rightarrow> test_fatal (err_text e)
                | Returned None \<Rightarrow> ret (Exited 0)
                | Exited n \<Rightarrow> ret (Exited n))})
      | _ \<Rightarrow> usage_exit (test_usage cs) 2)"


subsection \<open>PCI devices\<close>

definition lines_of :: "string list \<Rightarrow> string" where
  "lines_of ls = concat (map (\<lambda>l. l @ [newline]) ls)"

definition with_pci_arg :: "string \<Rightarrow> string list \<Rightarrow> (string \<Rightarrow> outcome io) \<Rightarrow> outcome io" where
  "with_pci_arg text rest k =
     (if length rest \<noteq> 1 then usage_exit text 2
      else case normalize_address (hd rest) of
          Inl e \<Rightarrow> test_fatal (err_text e)
        | Inr addr \<Rightarrow> do {
            ok \<leftarrow> stat_ok (pci_path addr []);
            if \<not> ok then test_fatal (''no such PCI device: '' @ addr) else k addr})"

text \<open>A command's flags, and what it does with their values and its arguments.\<close>

definition with_flags ::
  "flag_set \<Rightarrow> string \<Rightarrow> string list \<Rightarrow> (flag_values \<Rightarrow> string list \<Rightarrow> outcome io) \<Rightarrow> outcome io" where
  "with_flags fs text args k =
     (case parse_flags fs Map.empty args of Inl n \<Rightarrow> usage_exit text n | Inr (v, rest) \<Rightarrow> k v rest)"

definition fails :: "string \<Rightarrow> outcome io" where
  "fails msg = ret (Returned (Some (Msg msg)))"

definition bind_usage :: string where
  "bind_usage = lines_of [''usage: invirtio-test bind <pci address>'', [],
     ''Bind a PCI device to vfio-pci, so that a guest can claim it. Refuses a'',
     ''device that has a mounted block device or active swap behind it, so that'',
     ''the disk the host runs from cannot be taken away.'']"

definition use_list :: "string \<Rightarrow> string list \<Rightarrow> string \<Rightarrow> string" where
  "use_list name uses hint = ''refusing to bind '' @ name @ '', it is in use:'' @ [newline] @ ''  '' @
     join_with (newline # ''  '') uses @ [newline] @ hint"

definition bind_pci :: "string \<Rightarrow> outcome io" where
  "bind_pci addr = do {
     g \<leftarrow> iommu_group addr;
     (case g of
        Inl e \<Rightarrow> ret (Returned (Some e))
      | Inr g \<Rightarrow> do {
          _ \<leftarrow> println (addr @ '' is in IOMMU group '' @ g);
          e \<leftarrow> check_group addr;
          _ \<leftarrow> (case e of None \<Rightarrow> ret () | Some e \<Rightarrow> note_err (''invirtio-test: '' @ err_text e @ '', so bind those too''));
          drv \<leftarrow> pci_driver addr;
          if drv = ''vfio-pci'' then do {
            _ \<leftarrow> println (addr @ '' is already bound to vfio-pci'');
            ret (Returned None)}
          else do {
            _ \<leftarrow> (if drv \<noteq> [] then println (''unbinding '' @ addr @ '' from '' @ drv) else ret ());
            e \<leftarrow> bind_vfio addr;
            if e \<noteq> None then ret (Returned e)
            else do {
              _ \<leftarrow> println (addr @ '' bound to vfio-pci, /dev/vfio/'' @ g);
              ret (Returned None)}}})}"

definition cmd_bind :: "string list \<Rightarrow> outcome io" where
  "cmd_bind args = with_flags [] bind_usage args (\<lambda>v rest. with_pci_arg bind_usage rest (\<lambda>addr. do {
     uses \<leftarrow> in_use addr;
     if uses \<noteq> [] then fails (use_list addr uses ''unmount and swapoff those first'')
     else as_test_root (bind_pci addr)}))"

text \<open>The processes that hold a group open, each once.\<close>

fun holder_pids :: "string \<Rightarrow> string list \<Rightarrow> string list \<Rightarrow> string list io" where
  "holder_pids node pids [] = ret pids"
| "holder_pids node pids (fd # fds) = do {
     r \<leftarrow> sys (Readlink fd);
     let pid = split_on (CHR ''/'') fd ! 2;
     holder_pids node (if succeeded r \<and> datum r = node \<and> pid \<notin> set pids then pids @ [pid] else pids) fds}"

definition group_holders :: "string \<Rightarrow> string list io" where
  "group_holders g = do {
     r \<leftarrow> sys (Glob ''/proc/[0-9]*/fd/*'');
     holder_pids (''/dev/vfio/'' @ g) [] (if succeeded r then snd r else [])}"

definition still_open :: "string \<Rightarrow> string list \<Rightarrow> string" where
  "still_open g pids = ''/dev/vfio/'' @ g @ '' is still open by pid '' @ join_with '', '' pids @ '', stop them first''"

definition unbind_usage :: string where
  "unbind_usage = lines_of [''usage: invirtio-test unbind <pci address>'', [],
     ''Clear the vfio-pci override of a PCI device and let the kernel bind the'',
     ''driver that matches it. Stop whatever uses the device first, since a'',
     ''process that holds /dev/vfio/<group> open keeps it.'']"

fun show_blocks :: "string \<Rightarrow> string list \<Rightarrow> unit io" where
  "show_blocks addr [] = ret ()"
| "show_blocks addr (b # bs) = do {
     r \<leftarrow> sys (EvalSymlinks (path_join [b, ''device'']));
     _ \<leftarrow> (if succeeded r \<and> str_contains (datum r @ ''/'') (''/'' @ addr @ ''/'')
          then println (''  block device /dev/'' @ path_base b) else ret ());
     show_blocks addr bs}"

definition return_pci :: "string \<Rightarrow> string \<Rightarrow> outcome io" where
  "return_pci addr cur = do {
     _ \<leftarrow> (if cur \<noteq> [] then println (''unbinding '' @ addr @ '' from '' @ cur) else ret ());
     e \<leftarrow> bind_native addr;
     if e \<noteq> None then ret (Returned e)
     else do {
       drv \<leftarrow> pci_driver addr;
       if drv = [] then fails (addr @ '' is now unbound, no host driver matched it'')
       else do {
         _ \<leftarrow> println (addr @ '' bound to '' @ drv);
         r \<leftarrow> sys (Glob ''/sys/block/*'');
         _ \<leftarrow> show_blocks addr (if succeeded r then snd r else []);
         ret (Returned None)}}}"

definition holders_in :: "string res \<Rightarrow> (string \<times> string list) io" where
  "holders_in g = (case g of
     Inl _ \<Rightarrow> ret ([], [])
   | Inr g \<Rightarrow> do {pids \<leftarrow> group_holders g; ret (g, pids)})"

definition unbind_pci :: "string \<Rightarrow> outcome io" where
  "unbind_pci addr = do {
     cur \<leftarrow> pci_driver addr;
     if cur \<noteq> [] \<and> cur \<noteq> ''vfio-pci'' then do {
       _ \<leftarrow> println (addr @ '' is bound to '' @ cur @ '', not vfio-pci, so there is nothing to do'');
       ret (Returned None)}
     else do {
       g \<leftarrow> iommu_group addr;
       h \<leftarrow> holders_in g;
       if snd h \<noteq> [] then fails (still_open (fst h) (snd h))
       else return_pci addr cur}}"

definition cmd_unbind :: "string list \<Rightarrow> outcome io" where
  "cmd_unbind args = with_flags [] unbind_usage args (\<lambda>v rest.
     with_pci_arg unbind_usage rest (\<lambda>addr. as_test_root (unbind_pci addr)))"


subsection \<open>Platform devices\<close>

definition platform_driver :: "string \<Rightarrow> string io" where
  "platform_driver dev = do {
     r \<leftarrow> ask (Readlink (path_join [dev, ''driver'']));
     ret (case r of Inl _ \<Rightarrow> [] | Inr link \<Rightarrow> path_base link)}"

definition with_platform_arg :: "string \<Rightarrow> string list \<Rightarrow> (string \<Rightarrow> string \<Rightarrow> outcome io) \<Rightarrow> outcome io" where
  "with_platform_arg text rest k =
     (if length rest \<noteq> 1 then usage_exit text 2
      else let name = hd rest; dev = path_join [''/sys/bus/platform/devices'', name] in do {
          ok \<leftarrow> stat_ok dev;
          if \<not> ok then test_fatal (''no such platform device: '' @ name) else k name dev})"

text \<open>The directories of a hub, of which those deeper than four are left out.\<close>

fun usb_devices :: "string \<Rightarrow> string \<Rightarrow> string list \<Rightarrow> string list io" where
  "usb_devices hub bus [] = ret []"
| "usb_devices hub bus (p # ps) =
     (if count_char (CHR ''/'') (trim_prefix p hub) > 4 \<or> \<not> has_prefix (path_base p) (bus @ ''-'')
      then usb_devices hub bus ps
      else do {
        there \<leftarrow> stat_ok (path_join [p, ''devnum'']);
        if \<not> there then usb_devices hub bus ps
        else do {
          prod \<leftarrow> read_text (path_join [p, ''product'']);
          found \<leftarrow> usb_devices hub bus ps;
          ret ((''USB device '' @ path_base p @ '' ('' @ (if prod = [] then ''?'' else prod) @ '') is attached'') # found)}})"

fun usb_hubs :: "string list \<Rightarrow> string list io" where
  "usb_hubs [] = ret []"
| "usb_hubs (hub # hubs) = do {
     r \<leftarrow> sys (WalkDir hub);
     found \<leftarrow> usb_devices hub (trim_prefix (path_base hub) ''usb'') (snd r);
     rest \<leftarrow> usb_hubs hubs;
     ret (found @ rest)}"

definition usb_attached :: "string \<Rightarrow> string list io" where
  "usb_attached dev = do {
     r \<leftarrow> sys (Glob (path_join [dev, ''usb[0-9]*'']));
     usb_hubs (if succeeded r then snd r else [])}"

definition platform_bind_usage :: string where
  "platform_bind_usage = lines_of [''usage: invirtio-test platform-bind [-no-reset] <platform device>'', [],
     ''Bind a platform device, such as an ACPI xHCI controller like NVDA8000:02, to'',
     ''vfio-platform, so that a guest can claim it. The names are in'',
     ''/sys/bus/platform/devices. vfio-platform refuses a device that it cannot'',
     ''reset, which for ACPI devices means one without an _RST method. -no-reset'',
     ''loads vfio-platform with reset_required=0, so that such a device can be'',
     ''bound, and reloads it if it is loaded with the other setting and has no'',
     ''devices. Refuses a USB host controller with devices attached.'']"

fun show_peers :: "string \<Rightarrow> string list \<Rightarrow> unit io" where
  "show_peers name [] = ret ()"
| "show_peers name (p # ps) = do {
     _ \<leftarrow> (if path_base p \<noteq> name then do {
            drv \<leftarrow> platform_driver p;
            note_err (''  group peer '' @ path_base p @ '' (driver '' @ drv @ '') needs to be bound too'')}
          else ret ());
     show_peers name ps}"

text \<open>The module with the reset setting that is wanted.\<close>

definition reset_param :: string where
  "reset_param = ''/sys/module/vfio_platform/parameters/reset_required''"

definition reload_vfio :: "bool \<Rightarrow> err option io" where
  "reload_vfio no_reset = (let want = (if no_reset then ''N'' else ''Y'') in do {
     have \<leftarrow> read_text reset_param;
     if have = [] \<or> have = want then ret None
     else do {
       b \<leftarrow> sys (Glob ''/sys/bus/platform/drivers/vfio-platform/*:*'');
       if succeeded b \<and> snd b \<noteq> [] then
         ret (Some (Msg (''vfio-platform is loaded with reset_required='' @ have @ '' and has devices bound, unbind them first'')))
       else do {
         _ \<leftarrow> println (''reloading vfio-platform with reset_required='' @ want);
         must_run ''modprobe'' [''-r'', ''vfio-platform'']}}})"

definition load_vfio :: "bool \<Rightarrow> err option io" where
  "load_vfio no_reset = do {
     e \<leftarrow> reload_vfio no_reset;
     if e \<noteq> None then ret e
     else do {
       _ \<leftarrow> run_cmd ''modprobe'' [''-q'', ''vfio_iommu_type1''];
       must_run ''modprobe'' [''vfio-platform'', ''reset_required='' @ (if no_reset then ''0'' else ''1'')]}}"

text \<open>The override, the unbind and the probe, of which the error of the probe is left out.\<close>

definition move_platform :: "string \<Rightarrow> string \<Rightarrow> string \<Rightarrow> string \<Rightarrow> err option io" where
  "move_platform name dev cur override = do {
     e \<leftarrow> sysfs_write (path_join [dev, ''driver_override'']) override;
     if e \<noteq> None then ret e
     else do {
       e \<leftarrow> (if cur \<noteq> [] then do {
              _ \<leftarrow> println (''unbinding '' @ name @ '' from '' @ cur);
              sysfs_write (path_join [dev, ''driver/unbind'']) name}
            else ret None);
       if e \<noteq> None then ret e
       else do {
         _ \<leftarrow> sysfs_write ''/sys/bus/platform/drivers_probe'' name;
         ret None}}}"

definition last_of :: "nat \<Rightarrow> 'a list \<Rightarrow> 'a list" where
  "last_of n xs = drop (length xs - n) xs"

definition bind_failed :: "string \<Rightarrow> string \<Rightarrow> bool \<Rightarrow> string list \<Rightarrow> string" where
  "bind_failed name drv no_reset ls =
     ''binding '' @ name @ '' failed, its driver is '' @ go_quote drv @
     concat (map (\<lambda>l. newline # ''  '' @ l) (last_of 3 (filter (\<lambda>l. str_contains (to_lower l) ''vfio'') ls))) @
     (if no_reset then [] else newline # ''if the device has no reset function, retry with -no-reset'') @
     newline # ''invirtio-test platform-unbind '' @ name @ '' returns it to the host''"

definition bind_platform :: "bool \<Rightarrow> string \<Rightarrow> string \<Rightarrow> outcome io" where
  "bind_platform no_reset name dev = do {
     link \<leftarrow> ask (Readlink (path_join [dev, ''iommu_group'']));
     (case link of
        Inl _ \<Rightarrow> fails (name @ '' has no IOMMU group, is an IOMMU enabled?'')
      | Inr link \<Rightarrow> (let g = path_base link in do {
          _ \<leftarrow> println (name @ '' is in IOMMU group '' @ g);
          peers \<leftarrow> sys (Glob (path_join [''/sys/kernel/iommu_groups'', g, ''devices/*'']));
          _ \<leftarrow> show_peers name (if succeeded peers then snd peers else []);
          cur \<leftarrow> platform_driver dev;
          if cur = ''vfio-platform'' then do {
            _ \<leftarrow> println (name @ '' is already bound to vfio-platform'');
            ret (Returned None)}
          else do {
            e \<leftarrow> load_vfio no_reset;
            if e \<noteq> None then ret (Returned e)
            else do {
              e \<leftarrow> move_platform name dev cur ''vfio-platform'';
              if e \<noteq> None then ret (Returned e)
              else do {
                drv \<leftarrow> platform_driver dev;
                if drv \<noteq> ''vfio-platform'' then do {
                  ls \<leftarrow> kernel_log;
                  fails (bind_failed name drv no_reset ls)}
                else do {
                  _ \<leftarrow> println (name @ '' bound to vfio-platform, /dev/vfio/'' @ g);
                  ret (Returned None)}}}}}))}"

definition cmd_platform_bind :: "string list \<Rightarrow> outcome io" where
  "cmd_platform_bind args = with_flags [(''no-reset'', BoolFlag)] platform_bind_usage args (\<lambda>v rest.
     with_platform_arg platform_bind_usage rest (\<lambda>name dev. do {
       uses \<leftarrow> usb_attached dev;
       if uses \<noteq> [] then fails (use_list name uses ''unplug those first'')
       else as_test_root (bind_platform (flag_bool v ''no-reset'') name dev)}))"

definition platform_unbind_usage :: string where
  "platform_unbind_usage = lines_of [''usage: invirtio-test platform-unbind <platform device>'', [],
     ''Clear the vfio-platform override of a platform device and let the kernel'',
     ''bind the driver that matches it. Stop whatever uses the device first.'']"

definition unbind_platform :: "string \<Rightarrow> string \<Rightarrow> outcome io" where
  "unbind_platform name dev = do {
     cur \<leftarrow> platform_driver dev;
     if cur \<noteq> [] \<and> cur \<noteq> ''vfio-platform'' then do {
       _ \<leftarrow> println (name @ '' is bound to '' @ cur @ '', not vfio-platform, so there is nothing to do'');
       ret (Returned None)}
     else do {
       link \<leftarrow> ask (Readlink (path_join [dev, ''iommu_group'']));
       h \<leftarrow> holders_in (case link of Inl e \<Rightarrow> Inl e | Inr l \<Rightarrow> Inr (path_base l));
       if snd h \<noteq> [] then fails (still_open (fst h) (snd h))
       else do {
         e \<leftarrow> move_platform name dev cur [newline];
         if e \<noteq> None then ret (Returned e)
         else do {
           drv \<leftarrow> platform_driver dev;
           if drv = [] then fails (name @ '' is now unbound, no host driver matched it'')
           else do {
             _ \<leftarrow> println (name @ '' bound to '' @ drv);
             ret (Returned None)}}}}}"

definition cmd_platform_unbind :: "string list \<Rightarrow> outcome io" where
  "cmd_platform_unbind args = with_flags [] platform_unbind_usage args (\<lambda>v rest.
     with_platform_arg platform_unbind_usage rest (\<lambda>name dev. as_test_root (unbind_platform name dev)))"


subsection \<open>Interrupts\<close>

definition cpu_range_re :: "string \<Rightarrow> bool" where
  "cpu_range_re s \<longleftrightarrow> (case cut s ''-'' of (a, b, found) \<Rightarrow>
     a \<noteq> [] \<and> list_all is_digit a \<and> (found \<longrightarrow> b \<noteq> [] \<and> list_all is_digit b))"

definition cpu_list_re :: "string \<Rightarrow> bool" where
  "cpu_list_re s \<longleftrightarrow> list_all cpu_range_re (split_on (CHR '','') s)"

definition vfio_irq_re :: "string \<Rightarrow> bool" where
  "vfio_irq_re s \<longleftrightarrow> has_prefix s ''vfio-msi['' \<or> has_prefix s ''vfio-msix[''"

definition irq_of_line :: "string \<Rightarrow> string \<Rightarrow> string option" where
  "irq_of_line addr line =
     (let f = str_fields line
      in if length f < 2 then None
         else if vfio_irq_re (last f) \<and> str_contains (last f) (''('' @ addr @ '')'')
         then Some (trim_suffix (f ! 0) '':'') else None)"

definition vfio_irqs :: "string \<Rightarrow> string list io" where
  "vfio_irqs addr = do {
     r \<leftarrow> ask (ReadFile ''/proc/interrupts'');
     ret (List.map_filter (irq_of_line addr) (split_on newline (case r of Inl _ \<Rightarrow> [] | Inr s \<Rightarrow> s)))}"

text \<open>The affinity of each interrupt. The state is the list as the kernel prints it, once it is known.\<close>

fun steer_irqs :: "string \<Rightarrow> string \<Rightarrow> string list \<Rightarrow> string io" where
  "steer_irqs cpus target [] = ret target"
| "steer_irqs cpus target (irq # irqs) =
     (let p = ''/proc/irq/'' @ irq @ ''/smp_affinity_list'' in do {
       r \<leftarrow> sysfs_read p;
       (case r of
          Inl _ \<Rightarrow> steer_irqs cpus target irqs
        | Inr cur \<Rightarrow>
            if cur = target then steer_irqs cpus target irqs
            else do {
              e \<leftarrow> sysfs_write p cpus;
              if e \<noteq> None then do {
                _ \<leftarrow> note_err (''failed to set the affinity of IRQ '' @ irq);
                steer_irqs cpus target irqs}
              else do {
                r \<leftarrow> sysfs_read p;
                (case r of
                   Inl _ \<Rightarrow> steer_irqs cpus target irqs
                 | Inr seen \<Rightarrow> do {
                     _ \<leftarrow> note_err (''IRQ '' @ irq @ '' -> CPU '' @ seen);
                     steer_irqs cpus seen irqs})}})})"

definition apply_affinity :: "string \<Rightarrow> string \<Rightarrow> string \<Rightarrow> (nat \<times> string) io" where
  "apply_affinity addr cpus target = do {
     irqs \<leftarrow> vfio_irqs addr;
     target \<leftarrow> steer_irqs cpus target irqs;
     ret (length irqs, target)}"

text \<open>The loop runs until the process is interrupted, here after a number of rounds.\<close>

primrec watch_irqs :: "nat \<Rightarrow> string \<Rightarrow> string \<Rightarrow> string \<Rightarrow> unit io" where
  "watch_irqs 0 addr cpus target = ret ()"
| "watch_irqs (Suc k) addr cpus target = do {
     r \<leftarrow> apply_affinity addr cpus target;
     _ \<leftarrow> sys (Sleep 200);
     watch_irqs k addr cpus (snd r)}"

definition irq_usage :: string where
  "irq_usage = lines_of [''usage: invirtio-test irq-affinity [-once] <pci address> <cpu list>'', [],
     ''Set the affinity of the host interrupts that vfio-pci requested for the'',
     ''device to the given host CPUs, such as 4 or 4-5. The interrupts exist only'',
     ''while the guest has MSI or MSI-X enabled, and are requested again when the'',
     ''guest switches modes or reloads its driver, so by default the command keeps'',
     ''running and sets the affinity of each interrupt when it appears, until it is'',
     ''interrupted. With -once, it sets the affinity of the interrupts that exist'',
     ''now and fails if there are none. Pin the guest CPU that handles the'',
     ''interrupts (cpu_pin=) to the same host CPU.'']"

text \<open>The status 130 is what a shell shows of a process that SIGINT ended.\<close>

definition cmd_irq_affinity :: "nat \<Rightarrow> string list \<Rightarrow> outcome io" where
  "cmd_irq_affinity rounds args = with_flags [(''once'', BoolFlag)] irq_usage args (\<lambda>v rest.
     if length rest \<noteq> 2 then usage_exit irq_usage 2
     else case normalize_address (rest ! 0) of
         Inl e \<Rightarrow> ret (Returned (Some e))
       | Inr addr \<Rightarrow> (let cpus = rest ! 1 in
           if \<not> cpu_list_re cpus then fails (go_quote cpus @ '' is not a CPU list like 4 or 4-5'')
           else as_test_root (
             if flag_bool v ''once'' then do {
               r \<leftarrow> apply_affinity addr cpus cpus;
               if fst r = 0 then fails (addr @ '' has no VFIO interrupts'') else ret (Returned None)}
             else do {
               _ \<leftarrow> note_err (''watching the VFIO interrupts of '' @ addr @ '', stop with Ctrl-C'');
               _ \<leftarrow> watch_irqs rounds addr cpus cpus;
               ret (Exited 130)})))"


subsection \<open>Guests by hand\<close>

definition destroy_usage :: string where
  "destroy_usage = lines_of [''usage: invirtio-test destroy <name>'', [],
     ''Destroy a VDUSE device that a guest left behind when it was killed rather'',
     ''than stopped. A device on the vDPA bus must be removed first with vdpa dev'',
     ''del, and its guest must have exited.'']"

definition cmd_destroy :: "string list \<Rightarrow> outcome io" where
  "cmd_destroy args = with_flags [] destroy_usage args (\<lambda>v rest.
     if length rest \<noteq> 1 then usage_exit destroy_usage 2
     else (let name = hd rest in as_test_root (do {
       there \<leftarrow> vduse_exists name;
       if \<not> there then fails (''no VDUSE device '' @ name)
       else do {
         a \<leftarrow> vdpa_attached name;
         if a then fails (name @ '' is on the vDPA bus, run vdpa dev del '' @ name @ '' first'')
         else do {
           e \<leftarrow> vdpa_destroy name;
           ret (Returned e)}}})))"

text \<open>
  The command run. \<open>StartProc\<close> starts the guest, and \<open>GuestWait\<close> with \<open>GuestSignal\<close> is what the main
  goroutine does until the guest ended; the answer of the wait has the exit status and the signal that
  killed the guest, if any. The watcher polls the log for the guest's word that it created the device,
  and \<open>watch_device\<close> is one of its polls; it ends before the device is removed.
\<close>

definition run_guest_usage :: string where
  "run_guest_usage = lines_of [''usage: invirtio-test run [-log <file>] <name> <guest command>...'', [],
     ''Run a UML guest that serves the VDUSE device <name>, attach the device to the'',
     ''host once the guest has created it, and remove and destroy the device when'',
     ''the guest exits, however it exits. The guest's console stays on the terminal'',
     ''and is also written to the log. A device that an earlier guest left behind'',
     ''is removed first, since a wlan device cannot be taken over. A signal stops'',
     ''the guest in order.'']"

text \<open>A poll: whether the watcher is done.\<close>

definition watch_device :: "string \<Rightarrow> string \<Rightarrow> bool io" where
  "watch_device log_path name = do {
     s \<leftarrow> read_text log_path;
     if str_contains s (name @ '': created'') then do {
       e \<leftarrow> vdpa_add name;
       _ \<leftarrow> (case e of None \<Rightarrow> ret () | Some e \<Rightarrow> note_err (''invirtio-test: '' @ err_text e));
       ret True}
     else ret False}"

text \<open>
  What the main goroutine and the watcher do while the guest runs, in the order in which they do it,
  and whether the watcher is done.
\<close>

datatype run_event = Poll | GotSignal

fun run_events :: "string \<Rightarrow> string \<Rightarrow> string \<Rightarrow> bool \<Rightarrow> run_event list \<Rightarrow> bool io" where
  "run_events log_path name pid watched [] = ret watched"
| "run_events log_path name pid watched (Poll # es) = do {
     w \<leftarrow> (if watched then ret True else watch_device log_path name);
     run_events log_path name pid w es}"
| "run_events log_path name pid watched (GotSignal # es) = do {
     _ \<leftarrow> sys (GuestSignal pid ''TERM'');
     run_events log_path name pid watched es}"

text \<open>The end of a guest, in which the last poll of the watcher, if it is \<open>late\<close>, can still add the device.\<close>

definition end_guest :: "string \<Rightarrow> string \<Rightarrow> bool \<Rightarrow> bool \<Rightarrow> unit io" where
  "end_guest log_path name tty late = do {
     _ \<leftarrow> sysfs_write (path_join [''/sys/class/vduse'', name, ''msg_timeout'']) ''1'';
     _ \<leftarrow> (if late then watch_device log_path name else ret True);
     _ \<leftarrow> cleanup_dev name;
     _ \<leftarrow> (if tty then do {_ \<leftarrow> sys RestoreTerm; ret ()} else ret ());
     ret ()}"

definition guest_status :: "reply \<Rightarrow> outcome" where
  "guest_status r =
     (case fault_err r of
        Some e \<Rightarrow> Returned (Some e)
      | None \<Rightarrow>
          (let code = int_or_zero (nth_datum r 0); sig = nth_datum r 1
           in if sig \<noteq> [] then Exited (128 + nat (int_or_zero sig))
              else if code = 0 then Returned None else Exited (nat code)))"

definition run_guest :: "run_event list \<Rightarrow> bool \<Rightarrow> string \<Rightarrow> string \<Rightarrow> string list \<Rightarrow> outcome io" where
  "run_guest events late log_path name argv = do {
     e \<leftarrow> modprobe [''vduse'', ''vdpa'', ''virtio_vdpa''];
     if e \<noteq> None then ret (Returned e)
     else do {
       _ \<leftarrow> cleanup_dev name;
       e \<leftarrow> do_sys (OpenCreate log_path 438);
       if e \<noteq> None then ret (Returned e)
       else do {
         tty \<leftarrow> sys IsTerminal;
         e \<leftarrow> do_sys MakePipe;
         if e \<noteq> None then ret (Returned e)
         else do {
           p \<leftarrow> ask (StartProc argv);
           (case p of
              Inl e \<Rightarrow> ret (Returned (Some e))
            | Inr pid \<Rightarrow> do {
                watched \<leftarrow> run_events log_path name pid False events;
                r \<leftarrow> sys (GuestWait pid 0);
                _ \<leftarrow> end_guest log_path name (succeeded tty) (late \<and> \<not> watched);
                _ \<leftarrow> sys (CloseFile log_path);
                ret (guest_status r)})}}}}"

definition cmd_run_guest :: "run_event list \<Rightarrow> bool \<Rightarrow> string list \<Rightarrow> outcome io" where
  "cmd_run_guest events late args = with_flags [(''log'', StringFlag)] run_guest_usage args (\<lambda>v rest.
     if length rest < 2 then usage_exit run_guest_usage 2
     else (let name = hd rest;
               log_path = (if flag_string v ''log'' = [] then ''/tmp/vduse-run-'' @ name @ ''.log'' else flag_string v ''log'')
           in as_test_root (run_guest events late log_path name (tl rest))))"

definition mconsole_usage :: string where
  "mconsole_usage = lines_of [''usage: invirtio-test mconsole <umid | socket path> <command>...'', [],
     ''Send one command to a running UML guest's management console and print the'',
     ''reply. The umid is the one given to the guest with umid=, and its socket is'',
     ''~/.uml/<umid>/mconsole of the user who runs the guest. A guest run by the'',
     ''launcher with -s serves the socket at that path. Commands include'',
     [CHR 0x22] @ ''proc interrupts'' @ [CHR 0x22] @ '' and '' @ [CHR 0x22] @ ''help'' @ [CHR 0x22] @ ''.'']"

definition socket_path :: "string \<Rightarrow> string res io" where
  "socket_path arg =
     (if CHR ''/'' \<in> set arg then ret (Inr arg)
      else do {
        home \<leftarrow> sys (Getenv ''HOME'');
        ret (if datum home = [] then Inl (Msg ''$HOME is not defined'')
             else Inr (path_join [datum home, ''.uml'', arg, ''mconsole'']))})"

definition reply_text :: "string \<Rightarrow> string" where
  "reply_text s = (let t = trim_left_of (\<lambda>c. c = newline) s
     in if t \<noteq> [] \<and> \<not> has_suffix t [newline] then t @ [newline] else t)"

definition cmd_mconsole :: "string list \<Rightarrow> outcome io" where
  "cmd_mconsole args = with_flags [] mconsole_usage args (\<lambda>v rest.
     if length rest < 2 then usage_exit mconsole_usage 2
     else do {
       p \<leftarrow> socket_path (hd rest);
       (case p of
          Inl e \<Rightarrow> ret (Returned (Some e))
        | Inr path \<Rightarrow> do {
            r \<leftarrow> mconsole_request path (join_with '' '' (tl rest));
            (case r of
               Inl e \<Rightarrow> ret (Returned (Some e))
             | Inr t \<Rightarrow> do {
                 _ \<leftarrow> print (reply_text t);
                 ret (Returned None)})})})"


subsection \<open>What they do\<close>

text \<open>A platform device gets its override before its driver lets go, and is probed last.\<close>

definition platform_writes :: "string \<Rightarrow> string \<Rightarrow> string \<Rightarrow> string \<Rightarrow> call list" where
  "platform_writes name dev cur override =
     [WriteTo (path_join [dev, ''driver_override'']) override] @
     (if cur \<noteq> [] then [WriteTo (path_join [dev, ''driver/unbind'']) name] else []) @
     [WriteTo ''/sys/bus/platform/drivers_probe'' name]"

lemma move_platform_order:
  "emits (move_platform name dev cur override) (\<lambda>e t.
     has_prefix (platform_writes name dev cur override) (effects t) \<and>
     (e = None \<longrightarrow> wrote (path_join [dev, ''driver_override'']) override t \<and>
        (cur \<noteq> [] \<longrightarrow> wrote (path_join [dev, ''driver/unbind'']) name t)))"
proof (cases "cur = []")
  case True
  then show ?thesis unfolding move_platform_def platform_writes_def println_def
    by (auto intro!: emits_bind [OF sysfs_write_emits] emits_bind [OF emits_ret [of "\<lambda>e t. e = None \<and> t = []"]]
        emits_if emits_ret)
next
  case False
  then show ?thesis unfolding move_platform_def platform_writes_def println_def
    by (auto intro!: emits_bind [OF sysfs_write_emits] emits_sys_bind emits_if emits_ret)
qed

text \<open>
  However a guest that was started ends, its device is removed from the bus and destroyed after the
  guest ended, also where the watcher added it at the last moment.
\<close>

definition is_add :: "call \<Rightarrow> bool" where
  "is_add c \<longleftrightarrow> (\<exists>d. c = Exec Combined ''vdpa'' [''dev'', ''add'', ''name'', d, ''mgmtdev'', ''vduse''])"

definition removed_after :: "string \<Rightarrow> history \<Rightarrow> bool" where
  "removed_after name t \<longleftrightarrow> (\<exists>u e w v. t = u @ w @ v \<and> remove_done name True e w \<and> only (\<lambda>c. \<not> is_add c) v)"

lemma removed_after_append: "removed_after name t \<Longrightarrow> removed_after name (u @ t)"
  unfolding removed_after_def by (metis append.assoc)

lemma removed_after_Cons: "removed_after name t \<Longrightarrow> removed_after name (x # t)"
  using removed_after_append [of name t "[x]"] by simp

lemma removed_after_more: "removed_after name t \<Longrightarrow> only (\<lambda>c. \<not> is_add c) v \<Longrightarrow> removed_after name (t @ v)"
  unfolding removed_after_def by (metis append.assoc only_simps(3))

lemma only_sys: "p c \<Longrightarrow> emits (sys c) (\<lambda>r. only p)"
  by (rule emits_sys) simp

lemma only_loop: "(\<And>n. emits (body n) (\<lambda>x. only p)) \<Longrightarrow> emits (loop k body n) (\<lambda>x. only p)"
  by (induction k arbitrary: n) (auto intro!: only_emits_bind emits_option emits_ret)

lemma destroy_adds_nothing: "emits (vdpa_destroy name) (\<lambda>e. only (\<lambda>c. \<not> is_add c))"
  unfolding vdpa_destroy_def vduse_exists_def destroy_once_def vdpa_attached_def stat_ok_def do_sys_def
  by (intro only_emits_bind only_loop only_sys emits_if emits_option emits_ret) (auto simp: is_add_def)

lemma cleanup_removes: "emits (cleanup_dev name) (\<lambda>u. removed_after name)"
  unfolding cleanup_dev_def
proof (rule emits_bind [OF vdpa_remove_emits], rule emits_bind [OF destroy_adds_nothing], rule emits_ret)
  fix e w e' v
  assume "remove_done name True e w" "only (\<lambda>c. \<not> is_add c) v"
  then show "removed_after name (w @ v @ [])"
    unfolding removed_after_def by (intro exI [of _ "[]"] exI [of _ e] exI [of _ w] exI [of _ v]) simp
qed

lemma watch_calls: "calls_host (watch_device log_path name)"
  unfolding watch_device_def read_text_def sysfs_read_def vdpa_add_def command_run_def note_err_def
  by (auto split: option.split)

lemma end_guest_removes: "emits (end_guest log_path name tty late) (\<lambda>u. removed_after name)"
proof -
  have watched: "emits (if late then watch_device log_path name else ret True) (\<lambda>w t. True)"
    using watch_calls by (auto simp: calls_host_def)
  have tty: "emits (if tty then do {_ \<leftarrow> sys RestoreTerm; ret ()} else ret ()) (\<lambda>u. only (\<lambda>c. \<not> is_add c))"
    by (auto intro!: emits_if emits_ret emits_sys_bind simp: is_add_def)
  show ?thesis
    unfolding end_guest_def
    by (rule emits_bind [OF sysfs_write_emits], rule emits_bind [OF watched], rule emits_bind [OF cleanup_removes],
        rule emits_bind [OF tty], rule emits_ret)
      (rule removed_after_append, rule removed_after_append, simp add: removed_after_more)
qed

lemma events_call: "calls_host (run_events log_path name pid w es)"
proof (induction es arbitrary: w)
  case (Cons e es)
  then show ?case by (cases e) (auto intro!: calls_host_bind simp: watch_calls)
qed auto

lemma run_guest_removes:
  "emits (run_guest events late log_path name argv) (\<lambda>r t.
     (\<exists>p. (StartProc argv, p) \<in> set t \<and> succeeded p) \<longrightarrow> removed_after name t)"
proof -
  have started: "emits (run_events log_path name pid False events) (\<lambda>w t. True)" for pid
    using events_call by (simp add: calls_host_def)
  have before: "emits (modprobe ms) (\<lambda>e. only (\<lambda>c. c \<noteq> StartProc argv))" for ms
    unfolding modprobe_def must_run_def run_cmd_def run_timeout_def run_context_def
    by (intro only_emits_bind only_sys emits_ret) auto
  have clean: "emits (cleanup_dev name) (\<lambda>e. only (\<lambda>c. c \<noteq> StartProc argv))"
    unfolding cleanup_dev_def vdpa_remove_def sysfs_write_def command_run_def
      vdpa_destroy_def vduse_exists_def destroy_once_def vdpa_attached_def stat_ok_def do_sys_def
    by (intro only_emits_bind only_loop only_sys emits_if emits_option emits_ret) auto
  have none: "only (\<lambda>c. c \<noteq> StartProc argv) t \<Longrightarrow> (StartProc argv, p) \<notin> set t" for t p
    by (auto simp: only_def list_all_iff)
  show ?thesis
    unfolding run_guest_def
    apply (intro emits_bind [OF before] emits_bind [OF clean] emits_sys_bind emits_do_sys_bind emits_ask_bind
        emits_if emits_ret emits_sum emits_bind [OF started] emits_bind [OF end_guest_removes])
    apply (auto dest: none simp: result_succeeded split: if_splits)
    apply (rule removed_after_append, rule removed_after_append, (rule removed_after_Cons)+,
        rule removed_after_append, rule removed_after_Cons, rule removed_after_more, assumption, simp add: is_add_def)+
    done
qed

text \<open>
  C15 The command run of the tests removes its device from the vDPA bus once its guest was started,
  however the guest and the signals go, and nothing adds the device again after that, also where the
  watcher adds it while the guest ends.
\<close>

theorem run_guest_cleans_up:
  assumes "run e (run_guest events late log_path name argv) = (r, t)"
    and "(StartProc argv, p) \<in> set t" "succeeded p"
  shows "removed_after name t"
  using emits_run [OF run_guest_removes assms(1)] assms(2,3) by blast

text \<open>A guest that starts, and whose device the watcher adds late.\<close>

definition sample_run :: "outcome \<times> history" where
  "sample_run = run (\<lambda>h c. (None, [''d: created'', [], ''0''])) (run_guest [GotSignal] True ''/l'' ''d'' [''linux''])"

lemma sample_run_starts: "(StartProc [''linux''], (None, [''d: created'', [], ''0''])) \<in> set (snd sample_run)"
  unfolding sample_run_def run_guest_def modprobe_def must_run_def run_cmd_def run_timeout_def run_context_def
    cleanup_dev_def vdpa_remove_def vdpa_attached_def vdpa_destroy_def vduse_exists_def destroy_once_def
    end_guest_def watch_device_def read_text_def vdpa_add_def
  by (simp add: go_run run_result_def run_ok_def nth_datum_def int_or_zero_def Let_def
      digit_val_def max_int64_def)

theorem run_guest_cleans_up_witness: "removed_after ''d'' (snd sample_run)"
  by (rule run_guest_cleans_up [OF _ sample_run_starts, of _ _ _ _ _ "fst sample_run"])
    (simp_all add: sample_run_def)

end
