(* ===== verification/Suite.thy ===== *)
theory Suite
  imports TestDevices "HOL-Library.Sublist"
begin

text \<open>
  What the test suites of cmd/invirtio-test share: a suite is state beside the world, and a test is a
  computation of the state monad over both. \<open>lift_io\<close> runs an operation of the host. The mutable fields
  of a suite are its record, which extends \<open>checks\<close>, the checker that each suite embeds.
\<close>

type_synonym ('s, 'a) job = "('s \<times> world, 'a) state"

abbreviation give :: "'a \<Rightarrow> ('s, 'a) job" where
  "give \<equiv> State_Monad.return"

definition lift_io :: "'a io \<Rightarrow> ('s, 'a) job" where
  "lift_io m = State (\<lambda>(s, w). case run_state m w of (x, w') \<Rightarrow> (x, (s, w')))"

definition suite :: "('s, 's) job" where
  "suite = State (\<lambda>(s, w). (s, (s, w)))"

definition change :: "('s \<Rightarrow> 's) \<Rightarrow> ('s, unit) job" where
  "change f = State (\<lambda>(s, w). ((), (f s, w)))"

record checks =
  ck_failures :: failures

definition check :: "bool \<Rightarrow> string \<Rightarrow> ('z checks_scheme, bool) job" where
  "check cond what = do {
     s \<leftarrow> suite;
     r \<leftarrow> lift_io (check_that cond what (ck_failures s));
     _ \<leftarrow> change (\<lambda>s. s\<lparr>ck_failures := snd r\<rparr>);
     give (fst r)}"

text \<open>Whether a signal ended the context of the suite.\<close>

definition ctx_ended :: "bool io" where
  "ctx_ended = do {r \<leftarrow> sys PendingSignal; ret (succeeded r)}"

definition tee_output :: "string \<Rightarrow> err option io" where
  "tee_output path = do {
     e \<leftarrow> do_sys (OpenCreate path 438);
     if e \<noteq> None then ret e
     else do {
       e \<leftarrow> do_sys MakePipe;
       if e \<noteq> None then do {_ \<leftarrow> sys (CloseFile path); ret e} else ret None}}"

fun each :: "('a \<Rightarrow> ('s, unit) job) \<Rightarrow> 'a list \<Rightarrow> ('s, unit) job" where
  "each f [] = give ()"
| "each f (x # xs) = do {_ \<leftarrow> f x; each f xs}"

definition job_for_each :: "('a \<Rightarrow> unit io) \<Rightarrow> 'a list \<Rightarrow> ('s, unit) job" where
  "job_for_each f xs = lift_io (for_each f xs)"


subsection \<open>What a test prints\<close>

definition does :: "('s, 'a) job \<Rightarrow> ('s \<Rightarrow> 'a \<Rightarrow> 's \<Rightarrow> history \<Rightarrow> bool) \<Rightarrow> bool" where
  "does m P \<longleftrightarrow> (\<forall>s w. case run_state m (s, w) of (x, (s', w')) \<Rightarrow>
     \<exists>t. env w' = env w \<and> hist w' = hist w @ t \<and> P s x s' t)"

lemma doesD:
  assumes "does m P" "run_state m (s, w) = (x, (s', w'))"
  shows "\<exists>t. env w' = env w \<and> hist w' = hist w @ t \<and> P s x s' t"
  using assms(1) [unfolded does_def, rule_format, of w s] assms(2) by simp

lemma does_give: "(\<And>s. P s x s []) \<Longrightarrow> does (give x) P"
  by (simp add: does_def State_Monad.return_def)

lemma does_suite: "(\<And>s. P s s s []) \<Longrightarrow> does suite P"
  by (simp add: does_def suite_def)

lemma does_change: "(\<And>s. P s () (f s) []) \<Longrightarrow> does (change f) P"
  by (simp add: does_def change_def)

lemma does_lift: "emits m Q \<Longrightarrow> (\<And>s x t. Q x t \<Longrightarrow> P s x s t) \<Longrightarrow> does (lift_io m) P"
  unfolding does_def
proof (intro allI)
  fix s w
  assume m: "emits m Q" and P: "\<And>s x t. Q x t \<Longrightarrow> P s x s t"
  obtain x w' where r: "run_state m w = (x, w')" by (cases "run_state m w")
  from emitsD [OF m r] P show "case run_state (lift_io m) (s, w) of (x, s', w') \<Rightarrow>
      \<exists>t. env w' = env w \<and> hist w' = hist w @ t \<and> P s x s' t"
    by (auto simp: lift_io_def r)
qed

lemma does_bind:
  assumes m: "does m P" and f: "\<And>x. does (f x) (Q x)"
    and R: "\<And>s x s1 t y s2 u. P s x s1 t \<Longrightarrow> Q x s1 y s2 u \<Longrightarrow> R s y s2 (t @ u)"
  shows "does (m \<bind> f) R"
  unfolding does_def
proof (intro allI)
  fix s w
  obtain x s1 w1 where 1: "run_state m (s, w) = (x, (s1, w1))" by (cases "run_state m (s, w)") auto
  obtain y s2 w2 where 2: "run_state (f x) (s1, w1) = (y, (s2, w2))" by (cases "run_state (f x) (s1, w1)") auto
  from doesD [OF m 1] obtain t where t: "env w1 = env w" "hist w1 = hist w @ t" "P s x s1 t" by auto
  from doesD [OF f 2] obtain u where "env w2 = env w1" "hist w2 = hist w1 @ u" "Q x s1 y s2 u" by auto
  with t R [of s x s1 t y s2 u] have "\<exists>t. env w2 = env w \<and> hist w2 = hist w @ t \<and> R s y s2 t" by auto
  with 1 2 show "case run_state (m \<bind> f) (s, w) of (x, s', w') \<Rightarrow> \<exists>t. env w' = env w \<and> hist w' = hist w @ t \<and> R s x s' t"
    by (simp add: State_Monad.bind_def)
qed

text \<open>The same from one state, step by step.\<close>

definition goes :: "'s \<Rightarrow> ('s, 'a) job \<Rightarrow> ('a \<Rightarrow> 's \<Rightarrow> history \<Rightarrow> bool) \<Rightarrow> bool" where
  "goes s m P \<longleftrightarrow> (\<forall>w. case run_state m (s, w) of (x, (s', w')) \<Rightarrow>
     \<exists>t. env w' = env w \<and> hist w' = hist w @ t \<and> P x s' t)"

lemma goesD:
  assumes "goes s m P" "run_state m (s, w) = (x, (s', w'))"
  shows "\<exists>t. env w' = env w \<and> hist w' = hist w @ t \<and> P x s' t"
  using assms(1) [unfolded goes_def, rule_format, of w] assms(2) by simp

lemma goes_does: "does m P \<Longrightarrow> goes s m (P s)"
  by (simp add: does_def goes_def)

lemma does_goes: "(\<And>s. goes s m (P s)) \<Longrightarrow> does m P"
  by (simp add: does_def goes_def)

lemma goes_give: "P x s [] \<Longrightarrow> goes s (give x) P"
  by (simp add: goes_def State_Monad.return_def)

lemma goes_bind:
  assumes m: "goes s m P" and f: "\<And>x s1 t. P x s1 t \<Longrightarrow> goes s1 (f x) (\<lambda>y s2 u. Q y s2 (t @ u))"
  shows "goes s (m \<bind> f) Q"
  unfolding goes_def
proof
  fix w
  obtain x s1 w1 where 1: "run_state m (s, w) = (x, (s1, w1))" by (cases "run_state m (s, w)") auto
  obtain y s2 w2 where 2: "run_state (f x) (s1, w1) = (y, (s2, w2))" by (cases "run_state (f x) (s1, w1)") auto
  from goesD [OF m 1] obtain t where t: "env w1 = env w" "hist w1 = hist w @ t" "P x s1 t" by auto
  from goesD [OF f [OF t(3)] 2] obtain u where "env w2 = env w1" "hist w2 = hist w1 @ u" "Q y s2 (t @ u)" by auto
  with t have "\<exists>t. env w2 = env w \<and> hist w2 = hist w @ t \<and> Q y s2 t" by auto
  with 1 2 show "case run_state (m \<bind> f) (s, w) of (x, s', w') \<Rightarrow> \<exists>t. env w' = env w \<and> hist w' = hist w @ t \<and> Q x s' t"
    by (simp add: State_Monad.bind_def)
qed

lemma goes_lift:
  assumes "emits m (\<lambda>x t. P x s t)"
  shows "goes s (lift_io m) P"
  unfolding goes_def
proof
  fix w
  obtain x w' where r: "run_state m w = (x, w')" by (cases "run_state m w")
  from emitsD [OF assms r] show "case run_state (lift_io m) (s, w) of (x, s', w') \<Rightarrow>
      \<exists>t. env w' = env w \<and> hist w' = hist w @ t \<and> P x s' t"
    by (auto simp: lift_io_def r)
qed

lemma goes_lift_bind:
  "emits m P \<Longrightarrow> (\<And>x t. P x t \<Longrightarrow> goes s (f x) (\<lambda>y s' u. Q y s' (t @ u))) \<Longrightarrow> goes s (lift_io m \<bind> f) Q"
  by (rule goes_bind [where P = "\<lambda>x s' t. s' = s \<and> P x t"]) (auto intro!: goes_lift elim!: emits_mono)

lemma goes_suite_bind: "goes s (f s) Q \<Longrightarrow> goes s (suite \<bind> f) Q"
  by (rule goes_bind [where P = "\<lambda>x s' t. x = s \<and> s' = s \<and> t = []"]) (auto simp: goes_def suite_def)

lemma goes_change_bind: "goes (h s) (f ()) Q \<Longrightarrow> goes s (change h \<bind> f) Q"
  by (rule goes_bind [where P = "\<lambda>x s' t. s' = h s \<and> t = []"]) (auto simp: goes_def change_def)

lemma goes_if: "(b \<Longrightarrow> goes s m P) \<Longrightarrow> (\<not> b \<Longrightarrow> goes s n P) \<Longrightarrow> goes s (if b then m else n) P"
  by simp

lemma goes_option:
  "(x = None \<Longrightarrow> goes s m P) \<Longrightarrow> (\<And>y. x = Some y \<Longrightarrow> goes s (f y) P) \<Longrightarrow> goes s (case x of None \<Rightarrow> m | Some y \<Rightarrow> f y) P"
  by (cases x) simp_all

lemma goes_sum:
  "(\<And>y. x = Inl y \<Longrightarrow> goes s (f y) P) \<Longrightarrow> (\<And>y. x = Inr y \<Longrightarrow> goes s (g y) P) \<Longrightarrow>
   goes s (case x of Inl y \<Rightarrow> f y | Inr y \<Rightarrow> g y) P"
  by (cases x) simp_all

lemma goes_mono: "goes s m P \<Longrightarrow> (\<And>x s' t. P x s' t \<Longrightarrow> Q x s' t) \<Longrightarrow> goes s m Q"
  unfolding goes_def by (fastforce split: prod.splits)

text \<open>The failures that are printed.\<close>

fun failure_of :: "call \<Rightarrow> string list" where
  "failure_of (Print s) = (if has_prefix s ''FAIL: '' then [butlast (drop 6 s)] else [])"
| "failure_of c = []"

definition printed_failures :: "history \<Rightarrow> string list" where
  "printed_failures t = concat (map (\<lambda>(c, r). failure_of c) t)"

lemma printed_failures_simps [simp]:
  "printed_failures [] = []" "printed_failures ((c, r) # t) = failure_of c @ printed_failures t"
  "printed_failures (t @ u) = printed_failures t @ printed_failures u"
  by (simp_all add: printed_failures_def)

text \<open>
  What a test records of the failures that it prints: with \<open>(=)\<close>, all of them and nothing else. A test that
  shows the output of commands may print a line that looks like a failure, and then the failures that it
  records are \<open>subseq\<close> of those printed. The test leaves a part of its suite, the \<open>frame\<close>, as it is.
\<close>

definition logged :: "(failures \<Rightarrow> failures \<Rightarrow> bool) \<Rightarrow> ('z checks_scheme \<Rightarrow> 'b) \<Rightarrow> ('z checks_scheme, 'a) job \<Rightarrow> bool" where
  "logged R frame m \<longleftrightarrow> does m (\<lambda>s x s' t. frame s' = frame s \<and>
     (\<exists>fs. ck_failures s' = ck_failures s @ fs \<and> R fs (printed_failures t)))"

definition no_frame :: "'s \<Rightarrow> unit" where
  "no_frame s = ()"

abbreviation honest :: "('z checks_scheme, 'a) job \<Rightarrow> bool" where "honest \<equiv> logged (=) no_frame"

definition calm :: "'a io \<Rightarrow> bool" where
  "calm m \<longleftrightarrow> emits m (\<lambda>x t. printed_failures t = [])"

text \<open>The outcome of a suite: what a report says of the failures that were recorded.\<close>

definition stopped_by_signal :: "failures \<Rightarrow> err" where
  "stopped_by_signal fs = Msg (''stopped by a signal, '' @ show_nat (length fs) @ '' check(s) failed'')"

definition reports :: "err option \<Rightarrow> failures \<Rightarrow> bool" where
  "reports r fs = (case r of None \<Rightarrow> fs = []
     | Some e \<Rightarrow> e \<in> {stopped_by_signal fs, Msg (show_nat (length fs) @ '' check(s) failed'')})"

definition faithful :: "(failures \<Rightarrow> failures \<Rightarrow> bool) \<Rightarrow> ('z checks_scheme \<Rightarrow> 'b) \<Rightarrow> ('z checks_scheme, err option) job \<Rightarrow> bool" where
  "faithful R frame m \<longleftrightarrow> does m (\<lambda>s r s' t. frame s' = frame s \<and>
     (\<exists>fs. ck_failures s' = ck_failures s @ fs \<and> R fs (printed_failures t)) \<and> reports r (ck_failures s'))"

lemma fail_text: "failure_of (Print (CHR ''F'' # CHR ''A'' # CHR ''I'' # CHR ''L'' # CHR '':'' # CHR '' '' # what @ [newline])) = [what]"
  by simp

lemma ok_text: "failure_of (Print (CHR ''o'' # s)) = []"
  by simp

locale failure_log =
  fixes R :: "failures \<Rightarrow> failures \<Rightarrow> bool"
    and frame :: "'z checks_scheme \<Rightarrow> 'b"
  assumes R_none: "R [] []"
    and R_app: "R a b \<Longrightarrow> R c d \<Longrightarrow> R (a @ c) (b @ d)"
    and R_one: "R [f] [f]"
    and frame_failures: "frame (s\<lparr>ck_failures := fs\<rparr>) = frame s"
begin

lemma logged_give [intro!]: "logged R frame (give x)"
  unfolding logged_def by (rule does_give) (simp add: R_none)

lemma logged_suite [intro!]: "logged R frame suite"
  unfolding logged_def by (rule does_suite) (simp add: R_none)

lemma logged_change: "(\<And>s. ck_failures (f s) = ck_failures s \<and> frame (f s) = frame s) \<Longrightarrow> logged R frame (change f)"
  unfolding logged_def by (rule does_change) (simp add: R_none)

lemma logged_host: "emits m (\<lambda>x t. R [] (printed_failures t)) \<Longrightarrow> logged R frame (lift_io m)"
  unfolding logged_def by (erule does_lift) auto

lemma logged_calm: "calm m \<Longrightarrow> logged R frame (lift_io m)"
  unfolding calm_def by (rule logged_host) (auto elim!: emits_mono simp: R_none)

lemma logged_bind [intro!]: "logged R frame m \<Longrightarrow> (\<And>x. logged R frame (f x)) \<Longrightarrow> logged R frame (m \<bind> f)"
  unfolding logged_def
  by (rule does_bind [where P = "\<lambda>s x s' t. frame s' = frame s \<and> (\<exists>fs. ck_failures s' = ck_failures s @ fs \<and> R fs (printed_failures t))"
        and Q = "\<lambda>x s y s' t. frame s' = frame s \<and> (\<exists>fs. ck_failures s' = ck_failures s @ fs \<and> R fs (printed_failures t))"])
    (auto intro: R_app)

lemma logged_if [intro!]: "logged R frame m \<Longrightarrow> logged R frame n \<Longrightarrow> logged R frame (if b then m else n)"
  by simp

lemma logged_option [intro!]:
  "(x = None \<Longrightarrow> logged R frame m) \<Longrightarrow> (\<And>y. x = Some y \<Longrightarrow> logged R frame (f y)) \<Longrightarrow> logged R frame (case x of None \<Rightarrow> m | Some y \<Rightarrow> f y)"
  by (cases x) simp_all

lemma logged_sum [intro!]:
  "(\<And>y. x = Inl y \<Longrightarrow> logged R frame (f y)) \<Longrightarrow> (\<And>y. x = Inr y \<Longrightarrow> logged R frame (g y)) \<Longrightarrow>
   logged R frame (case x of Inl y \<Rightarrow> f y | Inr y \<Rightarrow> g y)"
  by (cases x) simp_all

lemma logged_prod [intro!]: "(\<And>a b. x = (a, b) \<Longrightarrow> logged R frame (f a b)) \<Longrightarrow> logged R frame (case x of (a, b) \<Rightarrow> f a b)"
  by (cases x) simp

lemma logged_check [intro!]: "logged R frame (check cond what)"
  unfolding logged_def does_def check_def check_that_def println_def suite_def lift_io_def change_def
  by (cases cond) (auto simp: State_Monad.bind_def State_Monad.return_def sys_def Let_def fail_text ok_text R_none R_one frame_failures)

lemma logged_each [intro!]: "(\<And>x. logged R frame (f x)) \<Longrightarrow> logged R frame (each f xs)"
  by (induction xs) auto

lemma faithful_bind: "logged R frame m \<Longrightarrow> (\<And>x. faithful R frame (f x)) \<Longrightarrow> faithful R frame (m \<bind> f)"
  unfolding logged_def faithful_def
  by (rule does_bind [where P = "\<lambda>s x s' t. frame s' = frame s \<and> (\<exists>fs. ck_failures s' = ck_failures s @ fs \<and> R fs (printed_failures t))"
        and Q = "\<lambda>x s r s' t. frame s' = frame s \<and> (\<exists>fs. ck_failures s' = ck_failures s @ fs \<and> R fs (printed_failures t)) \<and> reports r (ck_failures s')"])
    (auto intro: R_app)

lemma faithful_if: "faithful R frame m \<Longrightarrow> faithful R frame n \<Longrightarrow> faithful R frame (if b then m else n)"
  by simp

lemma faithful_stopped: "faithful R frame (do {s \<leftarrow> suite; give (Some (stopped_by_signal (ck_failures s)))})"
  unfolding faithful_def does_def suite_def
  by (simp add: State_Monad.bind_def State_Monad.return_def reports_def R_none)

lemma faithful_report: "faithful R frame (do {s \<leftarrow> suite; lift_io (report (ck_failures s))})"
  unfolding faithful_def does_def suite_def lift_io_def report_def println_def
  by (auto simp: State_Monad.bind_def State_Monad.return_def reports_def sys_def Let_def R_none)

end

interpretation every_failure: failure_log "(=)" no_frame
  by unfold_locales (simp_all add: no_frame_def)

declare every_failure.logged_calm [intro!]

lemma subseq_log: "(\<And>s fs. frame (s\<lparr>ck_failures := fs\<rparr>) = frame s) \<Longrightarrow> failure_log subseq frame"
  by unfold_locales (simp_all add: list_emb_append_mono)

lemma subseq_host: "failure_log subseq frame \<Longrightarrow> calls_host m \<Longrightarrow> logged subseq frame (lift_io m)"
  unfolding calls_host_def by (erule failure_log.logged_host) (auto elim!: emits_mono)

lemma calm_calls: "calm m \<Longrightarrow> calls_host m"
  unfolding calm_def calls_host_def by (auto elim!: emits_mono)

lemma calm_ret [intro!]: "calm (ret x)"
  unfolding calm_def by auto

lemma calm_bind [intro!]: "calm m \<Longrightarrow> (\<And>x. calm (f x)) \<Longrightarrow> calm (m \<bind> f)"
  unfolding calm_def by (rule emits_bind [where P = "\<lambda>x t. printed_failures t = []"]) (auto elim: emits_mono)

lemma calm_if [intro!]: "calm m \<Longrightarrow> calm n \<Longrightarrow> calm (if b then m else n)"
  by simp

lemma calm_option [intro!]:
  "(x = None \<Longrightarrow> calm m) \<Longrightarrow> (\<And>y. x = Some y \<Longrightarrow> calm (f y)) \<Longrightarrow> calm (case x of None \<Rightarrow> m | Some y \<Rightarrow> f y)"
  by (cases x) simp_all

lemma calm_sum [intro!]:
  "(\<And>y. x = Inl y \<Longrightarrow> calm (f y)) \<Longrightarrow> (\<And>y. x = Inr y \<Longrightarrow> calm (g y)) \<Longrightarrow>
   calm (case x of Inl y \<Rightarrow> f y | Inr y \<Rightarrow> g y)"
  by (cases x) simp_all

lemma calm_loop [intro!]: "(\<And>n. calm (body n)) \<Longrightarrow> calm (loop k body n)"
  by (induction k arbitrary: n) auto

lemma calm_for_each [intro!]: "(\<And>x. calm (f x)) \<Longrightarrow> calm (for_each f xs)"
  by (induction xs) auto

lemma calm_sys: "failure_of c = [] \<Longrightarrow> calm (sys c)"
  unfolding calm_def by (rule emits_sys) simp

lemma calm_ask [intro!]: "failure_of c = [] \<Longrightarrow> calm (ask c)"
  unfolding ask_def by (intro calm_bind calm_sys calm_ret)

text \<open>Running a test from a state of its suite.\<close>

definition run_job :: "('s, 'a) job \<Rightarrow> 's \<Rightarrow> ('a \<times> 's) io" where
  "run_job m s = State (\<lambda>w. case run_state m (s, w) of (x, (s', w')) \<Rightarrow> ((x, s'), w'))"

lemma emits_goes: "goes s m P \<Longrightarrow> emits (run_job m s) (\<lambda>r t. P (fst r) (snd r) t)"
  unfolding run_job_def by (rule emitsI) (auto dest: goesD split: prod.splits)

lemma emits_run_job: "does m P \<Longrightarrow> emits (run_job m s) (\<lambda>r t. P s (fst r) (snd r) t)"
  unfolding run_job_def by (rule emitsI) (auto dest: doesD split: prod.splits)


subsection \<open>Guests of a suite\<close>

text \<open>The counters of /proc/vduse_guest as a list, with each name once.\<close>

fun counter_names :: "string \<Rightarrow> string list \<Rightarrow> string list" where
  "counter_names pre [] = []"
| "counter_names pre (l # ls) =
     (case queue_re l of
        Some n \<Rightarrow> counter_names (''q'' @ n @ ''_'') ls
      | None \<Rightarrow>
          (case counter_re l of
             Some (k, v) \<Rightarrow> List.insert (pre @ k) (counter_names pre ls)
           | None \<Rightarrow> counter_names pre ls))"

definition counter_list :: "string \<Rightarrow> (string \<times> int) list" where
  "counter_list text = map (\<lambda>k. (k, at_key (parse_counters text) k)) (counter_names [] (split_on newline text))"

definition error_counters :: "string list" where
  "error_counters = [''start_errors'', ''iova_map_errors'', ''bad_requests'', ''inject_errors'']"

definition bad_counters :: "string list \<Rightarrow> (string \<times> int) list \<Rightarrow> string list" where
  "bad_counters names cs = concat (map (\<lambda>(k, v). concat (map (\<lambda>n.
     if has_suffix k n \<and> v \<noteq> 0 then [k @ '' '' @ show_int v] else []) names)) cs)"

definition check_healthy :: "string \<Rightarrow> ('z checks_scheme, unit) job" where
  "check_healthy text = (let cs = counter_list text in do {
     ok \<leftarrow> check (cs \<noteq> []) ''the guest reports its counters'';
     if \<not> ok then give ()
     else do {
       let bad = bad_counters error_counters cs;
       _ \<leftarrow> check (bad = []) (''the guest's error counters are zero'' @ list_suffix ''but'' bad);
       give ()}})"

lemma healthy_honest [intro!]: "honest (check_healthy text)"
  unfolding check_healthy_def Let_def by blast


subsection \<open>The parts of a run\<close>

definition need_tool :: "string \<Rightarrow> err option io" where
  "need_tool tool = do {
     r \<leftarrow> run_cmd ''sh'' [''-c'', ''command -v '' @ tool];
     ret (if r_code r \<noteq> 0 then Some (Msg (tool @ '' is not installed'')) else None)}"

definition end_guest_of :: "guest \<Rightarrow> unit io" where
  "end_guest_of g = do {
     _ \<leftarrow> guest_stop g 30000;
     guest_kill g}"

fun guest_warnings :: "guest list \<Rightarrow> string list io" where
  "guest_warnings [] = ret []"
| "guest_warnings (g # gs) = do {
     l \<leftarrow> guest_log g;
     ws \<leftarrow> guest_warnings gs;
     ret (warnings (split_on newline l) @ ws)}"

definition show_warnings :: "string list \<Rightarrow> unit io" where
  "show_warnings ws = for_each (\<lambda>w. println (''warning: '' @ w)) ws"

definition abs_path :: "string \<Rightarrow> string res io" where
  "abs_path p =
     (if has_prefix p ''/'' then ret (Inr (path_clean p))
      else do {
        r \<leftarrow> ask Getwd;
        ret (case r of Inl e \<Rightarrow> Inl e | Inr d \<Rightarrow> Inr (path_join [d, p]))})"

text \<open>A test, the tests that were asked for, and the run of a suite from its set-up to its report.\<close>

record 's test_case =
  tc_name :: string
  tc_about :: string
  tc_run :: "('s, unit) job"

fun run_tests :: "('s test_case \<Rightarrow> ('s, unit) job) \<Rightarrow> (string \<Rightarrow> bool) \<Rightarrow> 's test_case list \<Rightarrow> ('s, unit) job" where
  "run_tests run_one wanted [] = give ()"
| "run_tests run_one wanted (t # ts) = do {
     ended \<leftarrow> lift_io ctx_ended;
     _ \<leftarrow> (if \<not> wanted (tc_name t) \<or> ended then give ()
          else do {
            _ \<leftarrow> lift_io (println (''== '' @ tc_name t @ '': '' @ tc_about t));
            run_one t});
     run_tests run_one wanted ts}"

definition suite_run :: "('z checks_scheme test_case \<Rightarrow> ('z checks_scheme, unit) job) \<Rightarrow> 'z checks_scheme test_case list \<Rightarrow>
    int \<Rightarrow> (string \<Rightarrow> bool) \<Rightarrow> ('z checks_scheme, err option) job" where
  "suite_run run_one tests pid wanted = do {
     mark \<leftarrow> lift_io (kernel_mark pid);
     _ \<leftarrow> run_tests run_one wanted tests;
     ended \<leftarrow> lift_io ctx_ended;
     if ended then do {
       s \<leftarrow> suite;
       give (Some (stopped_by_signal (ck_failures s)))}
     else do {
       ls \<leftarrow> lift_io (kernel_log_since mark);
       _ \<leftarrow> lift_io (show_warnings (warnings ls));
       _ \<leftarrow> check (warnings ls = []) ''the host's kernel logs no warning'';
       s \<leftarrow> suite;
       lift_io (report (ck_failures s))}}"

lemma calm_io [intro!]:
  "calm (sysfs_read p)" "calm (sysfs_write p v)" "calm (stat_ok p)" "calm (read_text p)" "calm (command_run n xs)"
  "calm (do_sys (MkdirAll p m))" "calm now" "calm ctx_ended"
  unfolding sysfs_read_def sysfs_write_def stat_ok_def read_text_def command_run_def do_sys_def ask_def now_def ctx_ended_def
  by (intro calm_bind calm_if calm_ret calm_sys; simp)+

lemma calm_run [intro!]:
  "calm (run_context d n c xs)" "calm (run_timeout n c xs)" "calm (run_cmd c xs)" "calm (must_run c xs)" "calm (modprobe xs)"
  "calm (glob_names p)" "calm kernel_log" "calm (kernel_log_since m)" "calm (kernel_mark pid)" "calm repo_root"
  unfolding run_context_def run_timeout_def run_cmd_def must_run_def modprobe_def glob_names_def kernel_log_def
    kernel_log_since_def kernel_mark_def repo_root_def ask_def Let_def
  by (intro calm_bind calm_if calm_ret calm_sys calm_io calm_option calm_sum; simp)+

lemma calm_wait_rounds: "(\<And>s. calm (cond s)) \<Longrightarrow> calm (wait_rounds k cond stop pause s)"
  by (induction k arbitrary: s) (auto intro!: calm_sys)

lemma calm_wait [intro!]: "calm cond \<Longrightarrow> calm (wait cond timeout pause)"
  unfolding wait_def wait_loop_def by (intro calm_bind calm_wait_rounds calm_io calm_ret)

lemma calm_vdpa [intro!]:
  "calm (vdpa_remove n gone)" "calm (vdpa_destroy n)" "calm (cleanup_dev n)" "calm (attach_dev n)"
  unfolding cleanup_dev_def attach_dev_def vdpa_remove_def vdpa_attached_def vdpa_destroy_def vduse_exists_def destroy_once_def
    vdpa_add_def bind_virtio_def do_sys_def ask_def Let_def
  by (intro calm_bind calm_if calm_ret calm_sys calm_io calm_option calm_sum calm_loop; simp)+

lemma calm_guest [intro!]:
  "calm (guest_log g)" "calm (guest_running g)" "calm (guest_output g l n)" "calm (guest_counters g)"
  "calm (guest_signal g sig)" "calm (guest_wait g n)" "calm (guest_exit_code g)" "calm (guest_kill g)"
  "calm (guest_stop g n)" "calm (start_guest_proc p argv)"
  unfolding guest_counters_def guest_output_def guest_send_def wait_text_def shows_or_ended_def guest_log_def
    guest_stop_def guest_kill_def guest_signal_def guest_wait_def guest_exit_code_def guest_running_def
    start_guest_proc_def close_failed_def do_sys_def ask_def Let_def
  by (intro calm_bind calm_if calm_ret calm_sys calm_io calm_option calm_sum calm_wait; simp)+

lemma calm_guest_warnings [intro!]: "calm (guest_warnings gs)"
  by (induction gs) auto

lemma calm_show_warnings [intro!]: "calm (show_warnings ws)"
  unfolding show_warnings_def println_def by (intro calm_for_each calm_bind calm_sys calm_ret) simp


locale test_suite = failure_log R frame
  for R :: "failures \<Rightarrow> failures \<Rightarrow> bool" and frame :: "'z checks_scheme \<Rightarrow> 'b" +
  fixes run_one :: "'z checks_scheme test_case \<Rightarrow> ('z checks_scheme, unit) job"
    and tests :: "'z checks_scheme test_case list"
  assumes test_logged: "t \<in> set tests \<Longrightarrow> logged R frame (run_one t)"
begin

lemma tests_logged: "set ts \<subseteq> set tests \<Longrightarrow> logged R frame (run_tests run_one wanted ts)"
proof (induction ts)
  case (Cons t ts)
  have "calm (println (''== '' @ s))" for s
    unfolding println_def by (intro calm_bind calm_sys calm_ret) simp
  with Cons show ?case by (auto intro!: test_logged logged_calm)
qed auto

lemma suite_faithful: "faithful R frame (suite_run run_one tests pid wanted)"
  unfolding suite_run_def
  by (intro faithful_bind faithful_if faithful_stopped faithful_report tests_logged logged_calm logged_check
      calm_run calm_io calm_show_warnings order_refl)

text \<open>What the suite returns, recorded and printed, on every host.\<close>

lemma suite_report:
  assumes "ck_failures s0 = []"
  shows "case run e (run_job (suite_run run_one tests pid wanted) s0) of ((r, s), t) \<Rightarrow>
     frame s = frame s0 \<and> R (ck_failures s) (printed_failures t) \<and> reports r (ck_failures s)"
proof -
  from emits_run_job [OF suite_faithful [unfolded faithful_def], of pid wanted s0] assms
  have "emits (run_job (suite_run run_one tests pid wanted) s0)
      (\<lambda>r t. frame (snd r) = frame s0 \<and> R (ck_failures (snd r)) (printed_failures t) \<and> reports (fst r) (ck_failures (snd r)))"
    by (auto elim!: emits_mono)
  from emits_run [OF this] show ?thesis by (auto split: prod.split)
qed

end

end
