(* ===== verification/BlkTests.thy ===== *)
theory BlkTests
  imports Suite
begin

text \<open>
  cmd/invirtio-test/blk.go: the tests of the virtio-blk backend. A command that runs beside its test, as
  fio does in the test kill, is one call where its result is taken. The second signal, which kills the
  guests and exits at once, is \<open>blk_interrupted\<close>. \<open>compile\<close> stands for \<open>regexp.Compile\<close>.
\<close>

definition blk_name :: string where "blk_name = ''vblk-test''"
definition blk_disk_size :: nat where "blk_disk_size = 268435456"
definition blk_data_size :: nat where "blk_data_size = 67108864"

type_synonym commands = "(string \<times> string list) list"

record blk_suite = checks +
  bs_out :: string
  bs_guest_dir :: string
  bs_sandbox_dir :: string
  bs_disk :: string
  bs_ubd :: string
  bs_log :: string
  bs_data :: string
  bs_ref :: string
  bs_dir :: string
  bs_guests :: "guest list"
  bs_after :: "commands list"

type_synonym 'a blk = "(blk_suite, 'a) job"

definition new_blk_suite :: "string \<Rightarrow> string \<Rightarrow> string \<Rightarrow> blk_suite" where
  "new_blk_suite guest_dir sandbox_dir out_dir =
     \<lparr>ck_failures = [], bs_out = out_dir, bs_guest_dir = guest_dir, bs_sandbox_dir = sandbox_dir, bs_disk = [],
      bs_ubd = [], bs_log = [], bs_data = [], bs_ref = [], bs_dir = [], bs_guests = [], bs_after = []\<rparr>"


subsection \<open>Set-up\<close>

definition blk_paths :: "blk_suite \<Rightarrow> blk_suite" where
  "blk_paths s = s\<lparr>bs_disk := path_join [bs_out s, ''disk.img''], bs_ubd := path_join [bs_out s, ''disk.img''],
     bs_log := path_join [bs_out s, blk_name @ ''.inflight''], bs_data := path_join [bs_out s, ''data'']\<rparr>"

definition blk_files :: "blk_suite \<Rightarrow> (string \<times> err option) io" where
  "blk_files s = do {
     e \<leftarrow> do_sys (WriteFile (bs_disk s) [] 420);
     if e \<noteq> None then ret ([], e)
     else do {
       e \<leftarrow> do_sys (Truncate (bs_disk s) blk_disk_size);
       if e \<noteq> None then ret ([], e)
       else do {
         r \<leftarrow> sys (RandomBytes blk_data_size);
         e \<leftarrow> do_sys (WriteFile (bs_data s) (datum r) 420);
         ret (datum r, e)}}}"

definition blk_host :: "string \<Rightarrow> err option io" where
  "blk_host out_dir = and_then (first_error need_tool [''fio'', ''mkfs.ext4'', ''vdpa'', ''dd'', ''udevadm''])
     (and_then (modprobe [''vduse'', ''vdpa'', ''virtio_vdpa'', ''virtio_blk'']) (do {
        _ \<leftarrow> sys UnlimitMemlock;
        and_then (do_sys (MkdirAll out_dir 493)) (tee_output (path_join [out_dir, ''test.log'']))}))"

definition blk_setup :: "err option blk" where
  "blk_setup = do {
     s \<leftarrow> suite;
     e \<leftarrow> lift_io (blk_host (bs_out s));
     if e \<noteq> None then give e
     else do {
       _ \<leftarrow> change blk_paths;
       s \<leftarrow> suite;
       r \<leftarrow> lift_io (blk_files s);
       _ \<leftarrow> change (\<lambda>s. s\<lparr>bs_ref := fst r\<rparr>);
       give (snd r)}}"


subsection \<open>Guests and the disk\<close>

definition reached :: "guest \<Rightarrow> bool io" where
  "reached g = do {
     l \<leftarrow> guest_log g;
     if str_contains l (blk_name @ '': created'') \<or> str_contains l (blk_name @ '': reconnecting'') \<or>
        str_contains l (blk_name @ '': the device stopped'') then ret True
     else do {a \<leftarrow> guest_running g; ret (\<not> a)}}"

definition wait_ready :: "guest \<Rightarrow> bool io" where
  "wait_ready g = do {
     ready \<leftarrow> wait (reached g) 60000 200;
     if ready then guest_running g else ret False}"

definition blk_boot :: "string list \<Rightarrow> guest option blk" where
  "blk_boot argv = do {
     s \<leftarrow> suite;
     let n = show_nat (length (bs_guests s) + 1);
     ended \<leftarrow> lift_io ctx_ended;
     if ended then give None
     else do {
       r \<leftarrow> lift_io (start_guest_proc (path_join [bs_dir s, ''guest-'' @ n @ ''.log'']) argv);
       ok \<leftarrow> check (\<not> isl r) (''guest '' @ n @ '' starts'' @ err_suffix (case r of Inl e \<Rightarrow> Some e | Inr g \<Rightarrow> None));
       (case r of
          Inl _ \<Rightarrow> give None
        | Inr g \<Rightarrow> do {
            _ \<leftarrow> change (\<lambda>s. s\<lparr>bs_guests := bs_guests s @ [g]\<rparr>);
            ready \<leftarrow> lift_io (wait_ready g);
            ok \<leftarrow> check ready (''guest '' @ n @ '' reaches the device'');
            give (if ok then Some g else None)})}}"

definition blk_start :: "string \<Rightarrow> string list \<Rightarrow> guest option blk" where
  "blk_start opts args = do {
     s \<leftarrow> suite;
     blk_boot ([path_join [bs_guest_dir s, ''linux''], ''umid='' @ blk_name, ''mem=512M'', ''seccomp=on'',
       ''initrd='' @ path_join [bs_guest_dir s, ''initramfs/initramfs.cpio''], ''ubd0='' @ bs_ubd s,
       ''vduse_guest.device=blk,'' @ blk_name @ '',disk=/dev/ubda,log='' @ bs_log s @ opts] @ args)}"

definition logs_text :: "guest \<Rightarrow> string \<Rightarrow> bool blk" where
  "logs_text g text = do {
     l \<leftarrow> lift_io (guest_log g);
     check (str_contains l text) (''the guest logs '' @ go_quote text)}"

definition host_disk :: "string io" where
  "host_disk = do {
     bs \<leftarrow> glob_names (path_join [''/sys/bus/vdpa/devices'', blk_name, ''virtio*/block/*'']);
     ret (case bs of [] \<Rightarrow> [] | b # _ \<Rightarrow> ''/dev/'' @ b)}"

definition virtio_dev :: "string io" where
  "virtio_dev = do {
     ds \<leftarrow> glob_names (path_join [''/sys/bus/vdpa/devices'', blk_name, ''virtio*'']);
     ret (case ds of [] \<Rightarrow> [] | d # _ \<Rightarrow> d)}"

definition has_disk :: "bool io" where
  "has_disk = do {
     d \<leftarrow> host_disk;
     if d = [] then ret False else stat_ok d}"

definition wait_disk :: "string blk" where
  "wait_disk = do {
     ok \<leftarrow> lift_io (wait has_disk 60000 200);
     _ \<leftarrow> lift_io (run_cmd ''udevadm'' [''settle'']);
     ok \<leftarrow> check ok ''the host gets a block device'';
     if \<not> ok then give [] else lift_io host_disk}"

definition blk_attach :: "string blk" where
  "blk_attach = do {
     e \<leftarrow> lift_io (attach_dev blk_name);
     ok \<leftarrow> check (e = None) (''vdpa dev add attaches the device'' @ err_suffix e);
     if \<not> ok then give [] else wait_disk}"

definition blk_detach :: "bool blk" where
  "blk_detach = do {
     e \<leftarrow> lift_io (vdpa_remove blk_name False);
     check (e = None) (''vdpa dev del removes the device'' @ err_suffix e)}"

definition blk_run :: "string \<Rightarrow> string list \<Rightarrow> cmd_result blk" where
  "blk_run name args = do {
     s \<leftarrow> suite;
     lift_io (run_context (bs_dir s) 120000 name args)}"

definition write_data :: "string \<Rightarrow> bool blk" where
  "write_data dev = do {
     s \<leftarrow> suite;
     r \<leftarrow> blk_run ''dd'' [''if='' @ bs_data s, ''of='' @ dev, ''bs=1M'', ''oflag=direct'', ''status=none''];
     check (run_ok r) (''the reference data is written to '' @ dev @ '': '' @ trim_space (run_output r))}"

definition write_at_start :: "string \<Rightarrow> string \<Rightarrow> err option io" where
  "write_at_start path v = do {
     e \<leftarrow> do_sys (OpenWrite path);
     if e \<noteq> None then ret e
     else do {
       e \<leftarrow> do_sys (WriteAt path v);
       cerr \<leftarrow> do_sys (CloseFile path);
       ret (if e = None then cerr else e)}}"

definition write_disk_file :: "bool blk" where
  "write_disk_file = do {
     s \<leftarrow> suite;
     e \<leftarrow> lift_io (write_at_start (bs_disk s) (bs_ref s));
     check (e = None) (''the reference data is written to the disk's file'' @ err_suffix e)}"

definition check_data :: "string \<Rightarrow> string \<Rightarrow> bool blk" where
  "check_data dev after = do {
     s \<leftarrow> suite;
     r \<leftarrow> blk_run ''dd'' [''if='' @ dev, ''bs=1M'', ''count='' @ show_nat (blk_data_size div 1048576), ''iflag=direct'', ''status=none''];
     check (run_ok r \<and> r_stdout r = bs_ref s) (''the data matches after '' @ after)}"

definition fio_jobs :: "string \<Rightarrow> string \<Rightarrow> string list \<Rightarrow> string list \<Rightarrow> cmd_result blk" where
  "fio_jobs name dev common jobs = do {
     s \<leftarrow> suite;
     lift_io (run_context (bs_dir s) 600000 ''fio'' ([''--filename='' @ dev, ''--ioengine=io_uring'', ''--direct=1'',
       ''--verify=crc32c'', ''--verify_fatal=1'', ''--verify_state_save=0'',
       ''--output='' @ path_join [bs_dir s, name @ ''-fio.log'']] @ common @ jobs))}"

definition fio :: "string \<Rightarrow> string \<Rightarrow> string list \<Rightarrow> cmd_result blk" where
  "fio job dev args = fio_jobs job dev args [''--name='' @ job]"

definition healthy :: "guest \<Rightarrow> unit blk" where
  "healthy g = do {
     r \<leftarrow> lift_io (guest_output g ''cat /proc/vduse_guest'' 10000);
     check_healthy (fst r)}"


subsection \<open>The tests\<close>

text \<open>A guest that started and the host's disk for it, where there is one.\<close>

definition with_guest :: "string \<Rightarrow> string list \<Rightarrow> (guest \<Rightarrow> unit blk) \<Rightarrow> unit blk" where
  "with_guest opts args k = do {
     g \<leftarrow> blk_start opts args;
     (case g of None \<Rightarrow> give () | Some g \<Rightarrow> k g)}"

definition with_disk :: "(string \<Rightarrow> unit blk) \<Rightarrow> unit blk" where
  "with_disk k = do {
     dev \<leftarrow> blk_attach;
     if dev = [] then give () else k dev}"

definition blk_test_io :: "unit blk" where
  "blk_test_io = with_guest [] [] (\<lambda>g. with_disk (\<lambda>dev. do {
     serial \<leftarrow> lift_io (read_text (path_join [''/sys/block'', path_base dev, ''serial'']));
     _ \<leftarrow> check (serial = blk_name) (''the host reads the device's ID '' @ go_quote blk_name @ '' as its serial '' @ go_quote serial);
     r \<leftarrow> fio ''verify'' dev [''--rw=randwrite'', ''--bs=4k'', ''--iodepth=16'', ''--fsync=64''];
     _ \<leftarrow> check (run_ok r) ''fio writes and verifies the whole disk with flushes'';
     healthy g}))"

definition fs_body :: "guest \<Rightarrow> string \<Rightarrow> string \<Rightarrow> unit blk" where
  "fs_body g dev mnt = do {
     s \<leftarrow> suite;
     r \<leftarrow> blk_run ''mkfs.ext4'' [''-F'', ''-q'', dev];
     made \<leftarrow> check (run_ok r) ''mkfs.ext4 makes a file system'';
     mounted \<leftarrow> (if \<not> made then give False else do {
       r \<leftarrow> blk_run ''mount'' [dev, mnt];
       check (run_ok r) ''the file system mounts''});
     if \<not> mounted then give ()
     else do {
       r \<leftarrow> blk_run ''cp'' [bs_data s, path_join [mnt, ''data'']];
       copied \<leftarrow> (if \<not> run_ok r then give False else do {
         r \<leftarrow> blk_run ''sync'' []; give (run_ok r)});
       _ \<leftarrow> check copied ''a file is copied to it'';
       _ \<leftarrow> blk_run ''umount'' [mnt];
       _ \<leftarrow> lift_io (sys (WriteFile ''/proc/sys/vm/drop_caches'' ''3'' 0));
       r \<leftarrow> blk_run ''mount'' [dev, mnt];
       again \<leftarrow> check (run_ok r) ''the file system mounts again'';
       if \<not> again then give ()
       else do {
         got \<leftarrow> lift_io (ask (ReadFile (path_join [mnt, ''data''])));
         _ \<leftarrow> check (got = Inr (bs_ref s)) ''the file matches after the page cache is dropped'';
         _ \<leftarrow> lift_io (run_cmd ''umount'' [mnt]);
         healthy g}}}"

definition blk_test_fs :: "unit blk" where
  "blk_test_fs = with_guest [] [] (\<lambda>g. with_disk (\<lambda>dev. do {
     s \<leftarrow> suite;
     let mnt = path_join [bs_dir s, ''mnt''];
     _ \<leftarrow> lift_io (sys (MkdirAll mnt 493));
     _ \<leftarrow> fs_body g dev mnt;
     _ \<leftarrow> lift_io (run_timeout 60000 ''umount'' [mnt]);
     give ()}))"

definition rebind_driver :: "string \<Rightarrow> bool io" where
  "rebind_driver v = do {
     e \<leftarrow> sysfs_write ''/sys/bus/virtio/drivers/virtio_blk/unbind'' v;
     if e \<noteq> None then ret False
     else do {
       e \<leftarrow> sysfs_write ''/sys/bus/virtio/drivers/virtio_blk/bind'' v;
       ret (e = None)}}"

definition blk_test_rebind :: "unit blk" where
  "blk_test_rebind = with_guest [] [] (\<lambda>g. with_disk (\<lambda>dev. do {
     ok \<leftarrow> write_data dev;
     if \<not> ok then give ()
     else do {
       v \<leftarrow> lift_io virtio_dev;
       bound \<leftarrow> lift_io (rebind_driver v);
       ok \<leftarrow> check bound (''virtio_blk unbinds and binds '' @ v @ '' again'');
       if \<not> ok then give ()
       else do {
         dev \<leftarrow> wait_disk;
         ok \<leftarrow> (if dev = [] then give False else check_data dev ''virtio_blk binds again'');
         ok \<leftarrow> (if \<not> ok then give False else blk_detach);
         if \<not> ok then give ()
         else do {
           dev \<leftarrow> blk_attach;
           _ \<leftarrow> (if dev = [] then give False else check_data dev ''vdpa dev del and add'');
           healthy g}}}}))"

text \<open>The jobs of the queues, one on the first CPU of each, or nothing where a queue has none.\<close>

definition first_cpu :: "string \<Rightarrow> string" where
  "first_cpu cpus = takeWhile (\<lambda>c. c \<noteq> CHR '','' \<and> c \<noteq> CHR ''-'') (dropWhile (\<lambda>c. c = CHR '','' \<or> c = CHR ''-'') cpus)"

fun queue_jobs :: "string \<Rightarrow> nat \<Rightarrow> string list \<Rightarrow> string list option blk" where
  "queue_jobs disk i [] = give (Some [])"
| "queue_jobs disk i (q # qs) = do {
     cpus \<leftarrow> lift_io (read_text (path_join [''/sys/block'', disk, ''mq'', q, ''cpu_list'']));
     ok \<leftarrow> check (first_cpu cpus \<noteq> []) (''queue '' @ q @ '' has host CPUs'');
     if \<not> ok then give None
     else do {
       rest \<leftarrow> queue_jobs disk (Suc i) qs;
       give (map_option ((@) [''--name=q'' @ q, ''--cpus_allowed='' @ first_cpu cpus,
         ''--offset='' @ show_nat (i * blk_disk_size div 4), ''--size='' @ show_nat (blk_disk_size div 4)]) rest)}}"

definition check_queue :: "counters \<Rightarrow> nat \<Rightarrow> unit blk" where
  "check_queue c i = (let n = at_key c (''q'' @ show_nat i @ ''_requests'') in do {
     _ \<leftarrow> check (n > 0) (''queue '' @ show_nat i @ '' serves requests, '' @ show_int n);
     give ()})"

definition blk_test_multiqueue :: "unit blk" where
  "blk_test_multiqueue = with_guest '',queues=4'' [''ncpus=4''] (\<lambda>g. with_disk (\<lambda>dev. do {
     mq \<leftarrow> lift_io (glob_names (path_join [''/sys/block'', path_base dev, ''mq/*'']));
     ok \<leftarrow> check (length mq = 4) (''the host's disk has 4 queues, '' @ show_nat (length mq));
     if \<not> ok then give ()
     else do {
       jobs \<leftarrow> queue_jobs (path_base dev) 0 mq;
       (case jobs of
          None \<Rightarrow> give ()
        | Some jobs \<Rightarrow> do {
            r \<leftarrow> fio_jobs ''multiqueue'' dev [''--rw=randwrite'', ''--bs=4k'', ''--iodepth=16''] jobs;
            _ \<leftarrow> check (run_ok r) ''fio writes and verifies through every queue'';
            c \<leftarrow> lift_io (guest_counters g);
            _ \<leftarrow> each (check_queue (fst c)) [0..<4];
            healthy (snd c)})}}))"

definition bounce_region :: "string \<Rightarrow> string" where
  "bounce_region text = foldl (\<lambda>r l. case str_fields l of [k, v] \<Rightarrow> if k = ''bounce_region'' then v else r | _ \<Rightarrow> r)
     [] (split_on newline text)"

definition blk_test_zero_copy :: "unit blk" where
  "blk_test_zero_copy = with_guest '',bounce=guest'' [] (\<lambda>g. with_disk (\<lambda>dev. do {
     r \<leftarrow> fio ''verify'' dev [''--rw=randwrite'', ''--bs=4k'', ''--iodepth=16''];
     _ \<leftarrow> check (run_ok r) ''fio writes and verifies the whole disk'';
     o' \<leftarrow> lift_io (guest_output g ''cat /proc/vduse_guest'' 10000);
     let region = bounce_region (fst o');
     _ \<leftarrow> check (region = ''guest'') (''guest pages back the bounce region, '' @ go_quote region);
     let regs = at_key (parse_counters (fst o')) ''umem_regs'';
     _ \<leftarrow> check (regs > 0) (''the guest registered its pages with VDUSE, '' @ show_int regs @ '' times'');
     healthy (snd o')}))"

text \<open>The end of a guest by a signal, and what it leaves.\<close>

definition kill_wait :: "guest \<Rightarrow> unit io" where
  "kill_wait g = do {
     _ \<leftarrow> guest_signal g ''KILL'';
     _ \<leftarrow> guest_wait g 10000;
     ret ()}"

definition term_stops :: "guest \<Rightarrow> bool blk" where
  "term_stops g = do {
     ok \<leftarrow> lift_io (do {_ \<leftarrow> guest_signal g ''TERM''; guest_wait g 30000});
     check ok ''the guest stops on SIGTERM''}"

definition check_gone :: "string \<Rightarrow> string \<Rightarrow> unit blk" where
  "check_gone p what = do {
     there \<leftarrow> lift_io (stat_ok p);
     _ \<leftarrow> check (\<not> there) what;
     give ()}"

definition blk_test_stop :: "unit blk" where
  "blk_test_stop = with_guest [] [] (\<lambda>g. with_disk (\<lambda>dev. do {
     ok \<leftarrow> blk_detach;
     if \<not> ok then give ()
     else do {
       _ \<leftarrow> term_stops g;
       _ \<leftarrow> logs_text g (blk_name @ '': destroyed the device'');
       _ \<leftarrow> check_gone (''/dev/vduse/'' @ blk_name) ''no VDUSE device is left'';
       s \<leftarrow> suite;
       check_gone (bs_log s) ''no in-flight log is left''}}))"

definition delay_name :: string where
  "delay_name = blk_name @ ''-delay''"

definition delay_disk :: "nat \<Rightarrow> bool blk" where
  "delay_disk ms = do {
     e \<leftarrow> lift_io (modprobe [''dm_delay'']);
     ok \<leftarrow> check (e = None) (''dm-delay loads'' @ err_suffix e);
     if \<not> ok then give False
     else do {
       s \<leftarrow> suite;
       r \<leftarrow> lift_io (run_cmd ''losetup'' [''-f'', ''--show'', bs_disk s]);
       ok \<leftarrow> check (run_ok r) (''a loop device holds the disk's file: '' @ trim_space (run_output r));
       if \<not> ok then give False
       else do {
         let lo = trim_space (r_stdout r);
         e \<leftarrow> lift_io (must_run ''dmsetup'' [''create'', delay_name, ''--table'',
           ''0 '' @ show_nat (blk_disk_size div 512) @ '' delay '' @ lo @ '' 0 0 '' @ lo @ '' 0 '' @ show_nat ms]);
         if e \<noteq> None then do {
           _ \<leftarrow> lift_io (run_cmd ''losetup'' [''-d'', lo]);
           check False (''dm-delay delays the disk's writes'' @ err_suffix e)}
         else do {
           _ \<leftarrow> change (\<lambda>s. s\<lparr>bs_after := bs_after s @ [[(''dmsetup'', [''remove'', delay_name]), (''losetup'', [''-d'', lo])]],
             bs_ubd := ''/dev/mapper/'' @ delay_name\<rparr>);
           give True}}}}"

text \<open>
  \<open>fmt.Sscanf\<close> of the line of a queue's replays: a number after blanks, and a word of the format with
  the blanks before and after it, of which there is at least one.
\<close>

definition blanks :: "string \<Rightarrow> string" where
  "blanks s = dropWhile (\<lambda>c. c = CHR '' '') s"

definition scan_int :: "string \<Rightarrow> (int \<times> string) option" where
  "scan_int s =
     (let t = blanks s;
          sign = (if t \<noteq> [] \<and> (hd t = CHR ''-'' \<or> hd t = CHR ''+'') then [hd t] else []);
          u = drop (length sign) t
      in case parse_int64 (sign @ takeWhile is_digit u) of
           None \<Rightarrow> None
         | Some n \<Rightarrow> Some (n, dropWhile is_digit u))"

definition scan_word :: "string \<Rightarrow> string \<Rightarrow> string option" where
  "scan_word w s = (if has_prefix s '' '' then cut_prefix (blanks s) w else None)"

definition replay_prefix :: string where
  "replay_prefix = blk_name @ '': queue ''"

definition replays_of :: "string \<Rightarrow> int option" where
  "replays_of line = do {
     i \<leftarrow> index_of line replay_prefix;
     (q, s) \<leftarrow> scan_int (drop (i + length replay_prefix) line);
     s \<leftarrow> scan_word ''has'' s;
     (m, s) \<leftarrow> (if has_prefix s '' '' then scan_int s else None);
     s \<leftarrow> scan_word ''requests'' s;
     s \<leftarrow> scan_word ''to'' s;
     s \<leftarrow> scan_word ''replay'' s;
     Some m}"

definition blk_replays :: "string \<Rightarrow> int" where
  "blk_replays l = sum_list (map (\<lambda>line. case replays_of line of None \<Rightarrow> 0 | Some m \<Rightarrow> m) (split_on newline l))"

definition fio_kill :: "string \<Rightarrow> cmd_result blk" where
  "fio_kill dev = fio ''kill'' dev [''--rw=randwrite'', ''--bs=4k'', ''--size=8M'', ''--iodepth=16'']"

definition blk_test_kill :: "unit blk" where
  "blk_test_kill = do {
     ok \<leftarrow> delay_disk 10;
     if \<not> ok then give ()
     else with_guest [] [] (\<lambda>g. with_disk (\<lambda>dev. do {
       _ \<leftarrow> lift_io (sys (Sleep 3000));
       _ \<leftarrow> lift_io (kill_wait g);
       g \<leftarrow> blk_start [] [];
       (case g of
          None \<Rightarrow> do {
            _ \<leftarrow> lift_io (vdpa_remove blk_name True);
            _ \<leftarrow> fio_kill dev;
            give ()}
        | Some g \<Rightarrow> do {
            _ \<leftarrow> logs_text g (blk_name @ '': reconnecting to the blk device'');
            r \<leftarrow> fio_kill dev;
            _ \<leftarrow> check (run_ok r) ''fio finishes and verifies across kill -9 and a relaunch'';
            l \<leftarrow> lift_io (guest_log g);
            let n = blk_replays l;
            _ \<leftarrow> check (n > 0) (''the relaunched guest replays the requests that the killed one held, '' @ show_int n);
            healthy g})}))}"

definition blk_test_term :: "unit blk" where
  "blk_test_term = with_guest [] [] (\<lambda>g. with_disk (\<lambda>dev. do {
     ok \<leftarrow> write_data dev;
     if \<not> ok then give ()
     else do {
       _ \<leftarrow> term_stops g;
       _ \<leftarrow> logs_text g ''the device stays on the host's vDPA bus for the next guest'';
       with_guest [] [] (\<lambda>g. do {
         _ \<leftarrow> logs_text g (blk_name @ '': reconnecting to the blk device'');
         _ \<leftarrow> check_data dev ''SIGTERM and a relaunch'';
         healthy g})}}))"

definition blk_test_unused :: "unit blk" where
  "blk_test_unused = do {
     ok \<leftarrow> write_disk_file;
     if \<not> ok then give ()
     else with_guest [] [] (\<lambda>g. do {
       _ \<leftarrow> lift_io (kill_wait g);
       with_guest [] [] (\<lambda>g. do {
         _ \<leftarrow> logs_text g (blk_name @ '': created blk device'');
         dev \<leftarrow> blk_attach;
         _ \<leftarrow> (if dev = [] then give False else check_data dev ''a relaunch before the host attached'');
         healthy g})})}"

definition blk_test_timeout :: "unit blk" where
  "blk_test_timeout = with_guest [] [] (\<lambda>g. with_disk (\<lambda>dev. do {
     _ \<leftarrow> lift_io (sysfs_write (path_join [''/sys/class/vduse'', blk_name, ''msg_timeout'']) ''2'');
     _ \<leftarrow> lift_io (kill_wait g);
     v \<leftarrow> lift_io virtio_dev;
     _ \<leftarrow> lift_io (sysfs_write ''/sys/bus/virtio/drivers/virtio_blk/unbind'' v);
     with_guest [] [] (\<lambda>g. do {
       _ \<leftarrow> logs_text g (blk_name @ '': the device stopped working after a message timed out'');
       _ \<leftarrow> lift_io (kill_wait g);
       e \<leftarrow> lift_io (must_run ''vdpa'' [''dev'', ''del'', blk_name]);
       _ \<leftarrow> check (e = None) ''vdpa dev del removes the broken device'';
       give ()})}))"

definition sandbox_argv :: "string \<Rightarrow> string \<Rightarrow> string \<Rightarrow> string list" where
  "sandbox_argv root logs dir =
     [path_join [root, ''build/invirtio-launch''], ''-u'', ''nobody'', ''-t'', ''20'',
      ''-i'', path_join [dir, ''initramfs/initramfs.cpio''],
      ''-e'', ''blk,'' @ blk_name @ '',log='' @ path_join [logs, ''inflight''],
      path_join [dir, ''linux''], ''mem=512M'', ''brd.rd_nr=1'',
      ''brd.rd_size='' @ show_nat (blk_disk_size div 1024),
      ''vduse_guest.device=blk,'' @ blk_name @ '',disk=/dev/ram0'']"

definition sandbox_body :: "guest \<Rightarrow> string \<Rightarrow> unit blk" where
  "sandbox_body g dev = do {
     r \<leftarrow> fio ''verify'' dev [''--rw=randwrite'', ''--bs=4k'', ''--iodepth=16'', ''--fsync=64''];
     _ \<leftarrow> check (run_ok r) ''fio writes and verifies the whole disk'';
     _ \<leftarrow> healthy g;
     l \<leftarrow> lift_io (guest_log g);
     _ \<leftarrow> check (str_contains l ''Installed the sandbox filter'' \<and> \<not> str_contains l ''The sandbox denied'')
            ''the guest runs under its seccomp filter, which denies nothing'';
     ok \<leftarrow> blk_detach;
     if \<not> ok then give ()
     else do {
       ok \<leftarrow> lift_io (do {_ \<leftarrow> guest_signal g ''TERM''; guest_wait g 30000});
       code \<leftarrow> lift_io (if ok then guest_exit_code g else ret 1);
       _ \<leftarrow> check (ok \<and> code = 0) ''the launcher stops the guest in order'';
       check_gone (''/dev/vduse/'' @ blk_name) ''no VDUSE device is left''}}"

definition blk_test_sandbox :: "unit blk" where
  "blk_test_sandbox = do {
     logs \<leftarrow> lift_io (ask (MkdirTemp ''/dev/shm/vblk-test-''));
     _ \<leftarrow> check (\<not> isl logs) (''a directory for the in-flight log is made on a tmpfs'' @
            err_suffix (case logs of Inl e \<Rightarrow> Some e | Inr _ \<Rightarrow> None));
     (case logs of
        Inl _ \<Rightarrow> give ()
      | Inr dir \<Rightarrow> do {
          root \<leftarrow> lift_io repo_root;
          s \<leftarrow> suite;
          g \<leftarrow> blk_boot (sandbox_argv root dir (bs_sandbox_dir s));
          _ \<leftarrow> (case g of None \<Rightarrow> give () | Some g \<Rightarrow> with_disk (sandbox_body g));
          _ \<leftarrow> lift_io (sys (RemoveAll dir));
          give ()})}"


subsection \<open>The suite\<close>

type_synonym blk_test = "blk_suite test_case"

definition blk_tests :: "blk_test list" where
  "blk_tests =
    [\<lparr>tc_name = ''io'', tc_about = ''fio verifies the whole disk, with flushes, and the host reads the device's ID'', tc_run = blk_test_io\<rparr>,
     \<lparr>tc_name = ''fs'', tc_about = ''a file system on the disk keeps a file across a remount'', tc_run = blk_test_fs\<rparr>,
     \<lparr>tc_name = ''rebind'', tc_about = ''the data survives virtio_blk rebinding and vdpa dev del and add'', tc_run = blk_test_rebind\<rparr>,
     \<lparr>tc_name = ''multiqueue'', tc_about = ''four queues on four guest CPUs each serve requests'', tc_run = blk_test_multiqueue\<rparr>,
     \<lparr>tc_name = ''zero-copy'', tc_about = ''fio verifies the disk with guest pages behind the bounce region'', tc_run = blk_test_zero_copy\<rparr>,
     \<lparr>tc_name = ''stop'', tc_about = ''a guest stopped after vdpa dev del destroys its device and log'', tc_run = blk_test_stop\<rparr>,
     \<lparr>tc_name = ''kill'', tc_about = ''a guest killed under load is relaunched and fio finishes'', tc_run = blk_test_kill\<rparr>,
     \<lparr>tc_name = ''term'', tc_about = ''a guest stopped while attached hands the device to the next one'', tc_run = blk_test_term\<rparr>,
     \<lparr>tc_name = ''unused'', tc_about = ''a guest killed before the host attaches is replaced cleanly'', tc_run = blk_test_unused\<rparr>,
     \<lparr>tc_name = ''timeout'', tc_about = ''a relaunched guest reports a device that a message timeout broke'', tc_run = blk_test_timeout\<rparr>,
     \<lparr>tc_name = ''sandbox'', tc_about = ''fio verifies the disk of a guest that the launcher runs'', tc_run = blk_test_sandbox\<rparr>]"

definition before_test :: "blk_suite \<Rightarrow> string \<Rightarrow> unit io" where
  "before_test s dir = do {
     _ \<leftarrow> cleanup_dev blk_name;
     _ \<leftarrow> sys (Remove (bs_log s));
     _ \<leftarrow> run_cmd ''umount'' [path_join [dir, ''mnt'']];
     _ \<leftarrow> sys (RemoveAll dir);
     _ \<leftarrow> sys (MkdirAll dir 493);
     ret ()}"

definition after_test :: "blk_suite \<Rightarrow> unit io" where
  "after_test s = do {
     ended \<leftarrow> ctx_ended;
     _ \<leftarrow> vdpa_remove blk_name ended;
     _ \<leftarrow> for_each end_guest_of (bs_guests s);
     _ \<leftarrow> cleanup_dev blk_name;
     _ \<leftarrow> sys (Remove (bs_log s));
     for_each (for_each (\<lambda>(c, args). do {_ \<leftarrow> run_cmd c args; ret ()})) (bs_after s)}"

definition run_blk_test :: "blk_test \<Rightarrow> unit blk" where
  "run_blk_test t = do {
     s \<leftarrow> suite;
     let dir = path_join [bs_out s, tc_name t];
     _ \<leftarrow> lift_io (before_test s dir);
     _ \<leftarrow> change (\<lambda>s. s\<lparr>bs_dir := dir, bs_guests := []\<rparr>);
     _ \<leftarrow> tc_run t;
     s \<leftarrow> suite;
     _ \<leftarrow> lift_io (after_test s);
     _ \<leftarrow> change (\<lambda>s. s\<lparr>bs_after := [], bs_ubd := bs_disk s\<rparr>);
     ws \<leftarrow> lift_io (guest_warnings (bs_guests s));
     _ \<leftarrow> lift_io (show_warnings ws);
     _ \<leftarrow> check (ws = []) (tc_name t @ '': no guest logs a kernel warning'');
     give ()}"

definition blk_suite_run :: "int \<Rightarrow> (string \<Rightarrow> bool) \<Rightarrow> err option blk" where
  "blk_suite_run pid wanted = suite_run run_blk_test blk_tests pid wanted"

definition blk_usage :: string where
  "blk_usage = lines_of ([''usage: invirtio-test test-blk [options]'', [],
     ''Test the VDUSE virtio-blk backend against the host's virtio_blk. Each test'',
     ''starts its own guests and leaves no device behind. Most tests run UML as'',
     ''root with a 256 MiB ubd disk backed by a file in the output directory, so'',
     ''that the data outlives a guest. The sandbox test runs a guest under the'',
     ''launcher, which serves a ramdisk. Build the guests with'',
     ''scripts/invirtio-build-guest.sh -t blk-test-ubd and -t blk-test. Every test'',
     ''checks that the guest's error counters stay at zero and that neither'',
     ''kernel logs a warning. The guests' consoles go to <test>/guest-<n>.log in'',
     ''the output directory. Run as root on the linux-host kernel, with fio and'',
     ''mkfs.ext4.'', [], ''Tests:''] @
     map (\<lambda>t. ''  '' @ pad_right 11 (tc_name t) @ '' '' @ tc_about t) blk_tests)"

definition blk_flags :: flag_set where
  "blk_flags = map (\<lambda>n. (n, StringFlag)) [''guest'', ''sandbox-guest'', ''out'', ''run'']"

definition blk_defaults :: "string \<Rightarrow> flag_values" where
  "blk_defaults root = Map.empty(''guest'' \<mapsto> path_join [root, ''linux-uml/build-blk-test-ubd''],
     ''sandbox-guest'' \<mapsto> path_join [root, ''linux-uml/build-blk-test''], ''out'' \<mapsto> path_join [root, ''build/test-blk''])"

definition blk_all :: "int \<Rightarrow> (string \<Rightarrow> bool) \<Rightarrow> err option blk" where
  "blk_all pid wanted = do {
     e \<leftarrow> blk_setup;
     if e \<noteq> None then give e else blk_suite_run pid wanted}"

text \<open>What a second signal does, after which the program exits with status 1.\<close>

definition blk_interrupted :: "unit blk" where
  "blk_interrupted = do {
     s \<leftarrow> suite;
     _ \<leftarrow> lift_io (for_each guest_kill (bs_guests s));
     _ \<leftarrow> lift_io (cleanup_dev blk_name);
     _ \<leftarrow> lift_io (sys CloseTee);
     give ()}"

definition cmd_test_blk :: "(string \<Rightarrow> (string \<Rightarrow> bool) res) \<Rightarrow> int \<Rightarrow> string list \<Rightarrow> outcome io" where
  "cmd_test_blk compile pid args = do {
     root \<leftarrow> repo_root;
     (case parse_flags blk_flags (blk_defaults root) args of
        Inl n \<Rightarrow> usage_exit blk_usage n
      | Inr (v, rest) \<Rightarrow>
          if rest \<noteq> [] then usage_exit blk_usage 2
          else case compile (flag_string v ''run'') of
              Inl e \<Rightarrow> ret (Returned (Some e))
            | Inr wanted \<Rightarrow> as_test_root (do {
                p \<leftarrow> abs_path (flag_string v ''out'');
                (case p of
                   Inl e \<Rightarrow> ret (Returned (Some e))
                 | Inr dir \<Rightarrow> do {
                     r \<leftarrow> run_job (blk_all pid wanted)
                       (new_blk_suite (flag_string v ''guest'') (flag_string v ''sandbox-guest'') dir);
                     ret (Returned (fst r))})}))}"


subsection \<open>The report\<close>

lemma calm_blk [intro!]:
  "calm (reached g)" "calm (wait_ready g)" "calm host_disk" "calm virtio_dev" "calm has_disk" "calm (write_at_start p v)"
  "calm (rebind_driver v)" "calm (kill_wait g)" "calm (before_test s d)" "calm (end_guest_of g)"
  unfolding reached_def wait_ready_def host_disk_def virtio_dev_def has_disk_def write_at_start_def rebind_driver_def
    kill_wait_def before_test_def end_guest_of_def do_sys_def
  by (intro calm_bind calm_if calm_ret calm_sys calm_io calm_run calm_wait calm_guest calm_vdpa calm_option; simp)+

lemma calm_after_test [intro!]: "calm (after_test s)"
  unfolding after_test_def
  by (intro calm_bind calm_for_each calm_sys calm_blk calm_io calm_vdpa; auto)

text \<open>Every step of a test is honest.\<close>

lemma honest_steps [intro!]:
  "honest (blk_boot argv)" "honest (blk_start opts args)" "honest (logs_text g text)" "honest wait_disk"
  "honest blk_attach" "honest blk_detach" "honest (blk_run c xs)" "honest (write_data dev)" "honest write_disk_file"
  "honest (check_data dev after)" "honest (fio_jobs n dev common jobs)" "honest (fio n dev xs)" "honest (healthy g)"
  "honest (term_stops g)" "honest (check_gone p what)" "honest (delay_disk ms)" "honest (check_queue cs i)" "honest (fio_kill dev)"
  unfolding blk_boot_def blk_start_def logs_text_def wait_disk_def blk_attach_def blk_detach_def blk_run_def write_data_def
    write_disk_file_def check_data_def fio_def fio_jobs_def healthy_def term_stops_def check_gone_def delay_disk_def
    check_queue_def fio_kill_def Let_def
  by (auto intro!: every_failure.logged_change simp: no_frame_def)

lemma honest_queue_jobs [intro!]: "honest (queue_jobs disk i qs)"
  by (induction qs arbitrary: i) auto

lemma honest_with [intro!]:
  "(\<And>g. honest (k g)) \<Longrightarrow> honest (with_guest opts args k)" "(\<And>d. honest (h d)) \<Longrightarrow> honest (with_disk h)"
  unfolding with_guest_def with_disk_def by auto

lemma honest_tests: "list_all (\<lambda>t. honest (tc_run t)) blk_tests"
proof -
  have fs: "honest (fs_body g dev mnt)" and sandbox: "honest (sandbox_body g dev)" for g dev mnt
    unfolding fs_body_def sandbox_body_def Let_def by (auto intro!: calm_sys)
  show ?thesis
    unfolding blk_tests_def list.pred_inject test_case.simps
      blk_test_io_def blk_test_fs_def blk_test_rebind_def blk_test_multiqueue_def blk_test_zero_copy_def blk_test_stop_def
      blk_test_kill_def blk_test_term_def blk_test_unused_def blk_test_timeout_def blk_test_sandbox_def Let_def
    by (intro conjI) (auto intro!: fs sandbox calm_sys simp: ask_def)
qed

interpretation blk: test_suite "(=)" no_frame run_blk_test blk_tests
proof unfold_locales
  fix t assume "t \<in> set blk_tests"
  then have "honest (tc_run t)" using honest_tests by (simp add: list_all_iff)
  then show "honest (run_blk_test t)" unfolding run_blk_test_def Let_def by (auto intro!: every_failure.logged_change simp: no_frame_def)
qed

text \<open>
  C27 The report of the tests is what they printed: the suite ends without an error only when no check
  failed, its error counts the failures that were printed, and what it recorded is what it printed, for
  every selection of the tests and on every host.
\<close>

theorem blk_report_exact:
  "case run e (run_job (blk_suite_run pid wanted) (new_blk_suite g sb out_dir)) of ((r, s), t) \<Rightarrow>
     ck_failures s = printed_failures t \<and> reports r (printed_failures t)"
  using blk.suite_report [of "new_blk_suite g sb out_dir" e pid wanted]
  by (auto simp: blk_suite_run_def new_blk_suite_def split: prod.splits)

end
