(* ===== verification/Floats.thy ===== *)
theory Floats
  imports Complex_Main Sizes
begin

text \<open>
  Go's \<open>float64\<close> as the program uses it: a number is \<open>m * 2 ^ e\<close>, \<open>strconv.ParseFloat\<close> and every operation
  round the exact result to the nearest number of 53 bits with a tie to even, and the verb \<open>%.<prec>f\<close> rounds
  the exact value to a decimal. Results above the greatest number are not represented: \<open>ParseFloat\<close> reports
  them as an error, and no figure that the program computes gets there.
\<close>

datatype float = Flt int int

subsection \<open>Rounding\<close>

text \<open>The exponent at which a quotient of positive numbers has 53 bits, or that of the least number.\<close>

definition float_exp :: "nat \<Rightarrow> nat \<Rightarrow> int" where
  "float_exp n d =
     (let k = int (bitlen n) - int (bitlen d);
          e = (if (if 0 \<le> k then d * 2 ^ nat k \<le> n else d \<le> n * 2 ^ nat (- k)) then k - 52 else k - 53)
      in max e (- 1074))"

text \<open>A mantissa that was rounded up to 54 bits, or down to zero, gets its normal form.\<close>

definition normal :: "int \<Rightarrow> int \<Rightarrow> float" where
  "normal m e = (if m = 0 then Flt 0 0 else if \<bar>m\<bar> = 2 ^ 53 then Flt (m div 2) (e + 1) else Flt m e)"

definition round_float :: "bool \<Rightarrow> nat \<Rightarrow> nat \<Rightarrow> float" where
  "round_float neg n d =
     (if n = 0 then Flt 0 0
      else let e = float_exp n d;
               m = (if 0 \<le> e then half_even n (d * 2 ^ nat e) else half_even (n * 2 ^ nat (- e)) d)
           in normal (if neg then - int m else int m) e)"

definition too_large :: "float \<Rightarrow> bool" where
  "too_large x = (case x of Flt m e \<Rightarrow> int (bitlen (nat \<bar>m\<bar>)) + e > 1024)"


subsection \<open>Operations\<close>

text \<open>A number as a quotient, and the operations that round their exact result.\<close>

definition numer :: "float \<Rightarrow> int" where
  "numer x = (case x of Flt m e \<Rightarrow> if 0 \<le> e then m * 2 ^ nat e else m)"

definition denom :: "float \<Rightarrow> nat" where
  "denom x = (case x of Flt m e \<Rightarrow> if 0 \<le> e then 1 else 2 ^ nat (- e))"

definition quotient :: "int \<Rightarrow> nat \<Rightarrow> float" where
  "quotient n d = round_float (n < 0) (nat \<bar>n\<bar>) d"

definition float_of :: "int \<Rightarrow> float" where
  "float_of n = quotient n 1"

definition flt_add :: "float \<Rightarrow> float \<Rightarrow> float" where
  "flt_add x y = quotient (numer x * int (denom y) + numer y * int (denom x)) (denom x * denom y)"

definition flt_sub :: "float \<Rightarrow> float \<Rightarrow> float" where
  "flt_sub x y = quotient (numer x * int (denom y) - numer y * int (denom x)) (denom x * denom y)"

definition flt_mult :: "float \<Rightarrow> float \<Rightarrow> float" where
  "flt_mult x y = quotient (numer x * numer y) (denom x * denom y)"

text \<open>Division by a number other than zero.\<close>

definition flt_div :: "float \<Rightarrow> float \<Rightarrow> float" where
  "flt_div x y = (let n = numer x * int (denom y); d = numer y * int (denom x)
     in quotient (if d < 0 then - n else n) (nat \<bar>d\<bar>))"

definition flt_less :: "float \<Rightarrow> float \<Rightarrow> bool" where
  "flt_less x y \<longleftrightarrow> numer x * int (denom y) < numer y * int (denom x)"

definition flt_zero :: "float \<Rightarrow> bool" where
  "flt_zero x = (case x of Flt m e \<Rightarrow> m = 0)"

definition show_float :: "nat \<Rightarrow> float \<Rightarrow> string" where
  "show_float prec x = show_fixed prec (numer x) (denom x)"


subsection \<open>Parsing\<close>

text \<open>The digits of an exponent, which \<open>ParseFloat\<close> stops to add up at 10000.\<close>

definition exponent :: "string \<Rightarrow> int" where
  "exponent ds = foldl (\<lambda>e c. if e < 10000 then e * 10 + int (digit_val c) else e) 0 ds"

definition read_exponent :: "string \<Rightarrow> int option" where
  "read_exponent s =
     (case s of
        [] \<Rightarrow> Some 0
      | c # t \<Rightarrow>
          if c \<noteq> CHR ''e'' \<and> c \<noteq> CHR ''E'' then None
          else let neg = (t \<noteq> [] \<and> hd t = CHR ''-'');
                   ds = (if t \<noteq> [] \<and> (hd t = CHR ''-'' \<or> hd t = CHR ''+'') then tl t else t)
               in if ds = [] \<or> \<not> list_all is_digit ds then None
                  else Some (if neg then - exponent ds else exponent ds))"

text \<open>A decimal number: whether it is negative, its digits as an integer and the power of ten.\<close>

definition read_decimal :: "string \<Rightarrow> (bool \<times> nat \<times> int) option" where
  "read_decimal s =
     (let neg = (s \<noteq> [] \<and> hd s = CHR ''-'');
          t = (if s \<noteq> [] \<and> (hd s = CHR ''-'' \<or> hd s = CHR ''+'') then tl s else s);
          ip = takeWhile is_digit t; u = dropWhile is_digit t;
          point = (u \<noteq> [] \<and> hd u = CHR ''.'');
          fp = (if point then takeWhile is_digit (tl u) else []);
          v = (if point then dropWhile is_digit (tl u) else u)
      in if ip @ fp = [] then None
         else map_option (\<lambda>e. (neg, digits_val 0 (ip @ fp), e - int (length fp))) (read_exponent v))"

datatype parsed = Number float | OutOfRange | NotNumber

definition decimal_float :: "bool \<Rightarrow> nat \<Rightarrow> int \<Rightarrow> float" where
  "decimal_float neg n e = (if 0 \<le> e then round_float neg (n * 10 ^ nat e) 1 else round_float neg n (10 ^ nat (- e)))"

definition parse_float :: "string \<Rightarrow> parsed" where
  "parse_float s =
     (case read_decimal s of
        None \<Rightarrow> NotNumber
      | Some (neg, n, e) \<Rightarrow> (let x = decimal_float neg n e in if too_large x then OutOfRange else Number x))"


subsection \<open>How near a result is\<close>

definition val :: "float \<Rightarrow> real" where
  "val x = (case x of Flt m e \<Rightarrow> of_int m * 2 powi e)"

lemma denom_pos: "0 < denom x"
  by (simp add: denom_def split: float.split)

lemma power_int_nat: "(2 :: real) powi k = (if 0 \<le> k then 2 ^ nat k else 1 / 2 ^ nat (- k))"
  by (simp add: power_int_def inverse_eq_divide power_divide)

lemma val_quotient: "val x = of_int (numer x) / of_nat (denom x)"
  by (cases x) (simp add: val_def numer_def denom_def power_int_nat)

lemma frac_less_eq_iff: "0 < b \<Longrightarrow> 0 < d \<Longrightarrow> (a :: real) / of_nat b < c / of_nat d \<longleftrightarrow> a * of_nat d < c * of_nat b"
  by (simp add: divide_less_eq less_divide_eq mult.commute)

lemma flt_less_val: "flt_less x y \<longleftrightarrow> val x < val y"
proof -
  have "val x < val y \<longleftrightarrow> of_int (numer x) * of_nat (denom y) < (of_int (numer y) * of_nat (denom x) :: real)"
    unfolding val_quotient using denom_pos [of x] denom_pos [of y] by (intro frac_less_eq_iff)
  also have "\<dots> \<longleftrightarrow> (of_int (numer x * int (denom y)) < (of_int (numer y * int (denom x)) :: real))" by simp
  finally show ?thesis unfolding flt_less_def of_int_less_iff by simp
qed

lemma bitlen_bounds: "0 < n \<Longrightarrow> 2 ^ (bitlen n - 1) \<le> n \<and> n < 2 ^ bitlen n \<and> 0 < bitlen n"
proof (induction n rule: less_induct)
  case (less n)
  have b: "bitlen n = Suc (bitlen (n div 2))" using less.prems by (subst bitlen.simps) simp
  show ?case
  proof (cases "n = 1")
    case False
    with less.prems have "0 < n div 2" "n div 2 < n" by auto
    from less.IH [OF this(2,1)] obtain k where "bitlen (n div 2) = Suc k" "2 ^ k \<le> n div 2" "n div 2 < 2 ^ Suc k"
      by (cases "bitlen (n div 2)") auto
    then show ?thesis unfolding b by auto
  next
    case True
    have "bitlen n = 1" unfolding b using True by (simp add: bitlen.simps [of 0])
    with True show ?thesis by simp
  qed
qed

lemma quotient_bit:
  assumes "0 < n" "0 < d"
  shows "2 powi (int (bitlen n) - int (bitlen d) - 1) \<le> real n / real d"
proof -
  from bitlen_bounds [OF assms(1)] bitlen_bounds [OF assms(2)]
  have "real (2 ^ (bitlen n - 1)) \<le> real n" "real d \<le> real (2 ^ bitlen d)" "0 < bitlen n"
    by (simp_all only: of_nat_le_iff less_imp_le)
  then have "2 ^ (bitlen n - 1) / 2 ^ bitlen d \<le> real n / real d" "0 < bitlen n"
    using assms by (simp_all add: frac_le)
  moreover have "2 powi (int (bitlen n) - int (bitlen d) - 1) = (2 :: real) ^ (bitlen n - 1) / 2 ^ bitlen d"
    using \<open>0 < bitlen n\<close> by (simp flip: power_int_of_nat add: power_int_diff of_nat_diff)
  ultimately show ?thesis by simp
qed

lemma float_exp_low:
  assumes n: "0 < n" "0 < d"
  shows "2 powi (float_exp n d + 52) \<le> real n / real d \<or> float_exp n d = - 1074"
proof -
  define k where "k = int (bitlen n) - int (bitlen d)"
  let ?c = "if 0 \<le> k then d * 2 ^ nat k \<le> n else d \<le> n * 2 ^ nat (- k)"
  have c: "2 powi k \<le> real n / real d" if ?c
  proof (cases "0 \<le> k")
    case True
    with that have "real (d * 2 ^ nat k) \<le> real n" by (simp only: of_nat_le_iff if_True)
    with True n show ?thesis by (simp add: power_int_nat field_simps)
  next
    case False
    with that have "real d \<le> real (n * 2 ^ nat (- k))" by (simp only: of_nat_le_iff if_False)
    with False n show ?thesis by (simp add: power_int_nat field_simps)
  qed
  have e: "float_exp n d = max (if ?c then k - 52 else k - 53) (- 1074)" by (simp add: float_exp_def k_def Let_def)
  consider "?c" "float_exp n d = k - 52" | "float_exp n d = k - 53" | "float_exp n d = - 1074"
    unfolding e max_def by argo
  then show ?thesis
  proof cases
    case 1
    with c show ?thesis by simp
  next
    case 2
    with quotient_bit [OF n] show ?thesis by (simp add: k_def)
  qed simp
qed

lemma float_exp_bit:
  assumes n: "0 < n" "0 < d" and least: "d \<le> n * 2 ^ 1022"
  shows "2 powi (float_exp n d + 52) \<le> real n / real d"
proof -
  have "2 powi (- 1022) \<le> real n / real d"
  proof -
    from least have "real d \<le> real (n * 2 ^ 1022)" by (simp only: of_nat_le_iff)
    with n show ?thesis by (simp add: power_int_minus field_simps del: power_int_add_numeral)
  qed
  with float_exp_low [OF n] show ?thesis by auto
qed

lemma half_even_real:
  assumes "0 < d"
  shows "\<bar>real (half_even n d) - real n / real d\<bar> \<le> 1 / 2"
proof -
  from half_even_near [OF assms, of n]
  have "real (2 * (half_even n d * d)) \<le> real (2 * n + d)" "real (2 * n) \<le> real (2 * (half_even n d * d) + d)"
    by (simp_all only: of_nat_le_iff)
  with assms have "real (half_even n d) - real n / real d \<le> 1 / 2" "- (1 / 2) \<le> real (half_even n d) - real n / real d"
    by (simp_all add: field_simps)
  then show ?thesis by linarith
qed

lemma val_normal: "val (normal m e) = of_int m * 2 powi e"
proof (cases "\<bar>m\<bar> = 2 ^ 53")
  case True
  then have "m = 2 ^ 53 \<or> m = - (2 ^ 53)" by linarith
  then have "m = 2 * (m div 2)" by auto
  moreover have "(2 :: real) powi (e + 1) = 2 * 2 powi e" by (simp add: power_int_add)
  ultimately show ?thesis using True by (auto simp: normal_def val_def)
qed (simp add: normal_def val_def)

lemma round_float_val:
  assumes "0 < n" "0 < d"
  shows "\<bar>val (round_float False n d) - real n / real d\<bar> \<le> 2 powi float_exp n d / 2"
proof -
  define e where "e = float_exp n d"
  define N D where "N = (if 0 \<le> e then n else n * 2 ^ nat (- e))" and "D = (if 0 \<le> e then d * 2 ^ nat e else d)"
  have v: "val (round_float False n d) = real (half_even N D) * 2 powi e"
    using assms by (simp add: round_float_def val_normal e_def N_def D_def Let_def)
  have q: "real n / real d = (real N / real D) * 2 powi e"
    using assms by (simp add: N_def D_def power_int_nat)
  have "0 < D" using assms by (simp add: D_def)
  from half_even_real [OF this, of N]
  have "\<bar>real (half_even N D) - real N / real D\<bar> * 2 powi e \<le> 1 / 2 * 2 powi e"
    by (intro mult_right_mono) simp_all
  moreover have "real (half_even N D) * 2 powi e - real N / real D * 2 powi e = (real (half_even N D) - real N / real D) * 2 powi e"
    by (simp only: left_diff_distrib)
  ultimately show ?thesis unfolding v q e_def [symmetric] by (simp add: abs_mult)
qed

lemma round_float_near:
  assumes "0 < n" "0 < d" "d \<le> n * 2 ^ 1022"
  shows "\<bar>val (round_float False n d) - real n / real d\<bar> \<le> real n / real d / 2 ^ 53"
proof -
  have "2 powi (float_exp n d + 52) = (2 :: real) powi float_exp n d * 2 ^ 52" by (simp add: power_int_add)
  with float_exp_bit [OF assms] have "2 powi float_exp n d / 2 \<le> real n / real d / 2 ^ 53" by simp
  with round_float_val [OF assms(1,2)] show ?thesis by (rule order_trans)
qed

text \<open>The numbers that are too large are those from \<open>2 ^ 1024\<close>.\<close>

lemma too_large_val:
  assumes "0 < m" "too_large (Flt m e)"
  shows "2 powi 1024 \<le> val (Flt m e)"
proof -
  define n where "n = nat m"
  have m: "m = int n" and k: "1024 < int (bitlen n) + e" using assms by (simp_all add: n_def too_large_def)
  have "2 ^ (bitlen n - 1) \<le> n" "0 < bitlen n" using bitlen_bounds [of n] assms(1) by (auto simp: n_def)
  then have "real (2 ^ (bitlen n - 1)) \<le> real n" by (simp only: of_nat_le_iff)
  then have "2 powi (int (bitlen n) - 1) \<le> real n" using \<open>0 < bitlen n\<close> by (simp add: power_int_nat nat_diff_distrib)
  then have "2 powi (int (bitlen n) - 1) * 2 powi e \<le> real n * 2 powi e" by (intro mult_right_mono) simp_all
  moreover have "(2 :: real) powi 1024 \<le> 2 powi (int (bitlen n) - 1 + e)" using k by (intro power_int_increasing) simp_all
  ultimately show ?thesis by (simp add: val_def m power_int_add [symmetric])
qed

lemma round_float_mantissa:
  "0 < n \<Longrightarrow> round_float neg n d =
    (let e = float_exp n d; h = half_even (if 0 \<le> e then n else n * 2 ^ nat (- e)) (if 0 \<le> e then d * 2 ^ nat e else d)
     in normal (if neg then - int h else int h) e)"
  by (simp add: round_float_def Let_def)

lemma round_float_nonneg: "\<exists>m e. round_float False n d = Flt (int m) e"
proof -
  have "\<exists>m e. round_float False n d = Flt m e \<and> 0 \<le> m" by (auto simp: round_float_def normal_def Let_def)
  then show ?thesis by (metis nonneg_int_cases)
qed

text \<open>A number of 64 bits: zero, 53 bits with the first one set, or fewer with the least exponent.\<close>

definition flt_ok :: "float \<Rightarrow> bool" where
  "flt_ok x = (case x of Flt m e \<Rightarrow>
     (m = 0 \<and> e = 0) \<or> (2 ^ 52 \<le> \<bar>m\<bar> \<and> \<bar>m\<bar> < 2 ^ 53 \<and> - 1074 \<le> e) \<or> (m \<noteq> 0 \<and> \<bar>m\<bar> < 2 ^ 52 \<and> e = - 1074))"

lemma normal_ok:
  assumes "\<bar>m\<bar> \<le> 2 ^ 53" "2 ^ 52 \<le> \<bar>m\<bar> \<or> e = - 1074" "- 1074 \<le> e"
  shows "flt_ok (normal m e)"
  using assms by (auto simp: normal_def flt_ok_def)

lemma float_exp_top:
  assumes n: "0 < n" "0 < d"
  shows "real n / real d < 2 powi (float_exp n d + 53)"
proof -
  define k where "k = int (bitlen n) - int (bitlen d)"
  let ?c = "if 0 \<le> k then d * 2 ^ nat k \<le> n else d \<le> n * 2 ^ nat (- k)"
  have small: "real n / real d < 2 powi k" if "\<not> ?c"
  proof (cases "0 \<le> k")
    case True
    with that have "real n < real (d * 2 ^ nat k)" by (simp only: of_nat_less_iff if_True not_le)
    with True n show ?thesis by (simp add: power_int_nat field_simps)
  next
    case False
    with that have "real (n * 2 ^ nat (- k)) < real d" by (simp only: of_nat_less_iff if_False not_le)
    with False n show ?thesis by (simp add: power_int_nat less_divide_eq divide_less_eq mult.commute)
  qed
  have top: "real n / real d < 2 powi (k + 1)"
  proof -
    from bitlen_bounds [OF n(1)] bitlen_bounds [OF n(2)]
    have "real n < real (2 ^ bitlen n)" "real (2 ^ (bitlen d - 1)) \<le> real d" "0 < bitlen d"
      by (simp_all only: of_nat_less_iff of_nat_le_iff)
    then have "real n / real d < 2 ^ bitlen n / 2 ^ (bitlen d - 1)" "0 < bitlen d"
      using n by (simp_all add: frac_less)
    moreover have "2 powi (k + 1) = (2 :: real) ^ bitlen n / 2 ^ (bitlen d - 1)"
      using \<open>0 < bitlen d\<close> by (simp flip: power_int_of_nat power_int_diff add: k_def of_nat_diff algebra_simps)
    ultimately show ?thesis by simp
  qed
  have e: "float_exp n d = max (if ?c then k - 52 else k - 53) (- 1074)" by (simp add: float_exp_def k_def Let_def)
  have "2 powi ((if ?c then k - 52 else k - 53) + 53) \<le> (2 :: real) powi (float_exp n d + 53)"
    unfolding e by (intro power_int_increasing) auto
  moreover have "real n / real d < 2 powi ((if ?c then k - 52 else k - 53) + 53)"
    using small top by (cases ?c) (simp_all only: if_True if_False, simp_all add: add.commute)
  ultimately show ?thesis by simp
qed

lemma round_float_ok: "0 < d \<Longrightarrow> flt_ok (round_float neg n d)"
proof (cases "n = 0")
  case False
  assume d: "0 < d"
  define e where "e = float_exp n d"
  define N D where "N = (if 0 \<le> e then n else n * 2 ^ nat (- e))" and "D = (if 0 \<le> e then d * 2 ^ nat e else d)"
  have "real n / real d < 2 powi (e + 53)" using float_exp_top [of n d] d False by (simp add: e_def)
  moreover have q: "real n / real d = (real N / real D) * 2 powi e"
    using d by (simp add: N_def D_def power_int_nat)
  moreover have "2 powi (e + 53) = 2 ^ 53 * (2 :: real) powi e" by (simp add: power_int_add)
  ultimately have "real N / real D * 2 powi e < 2 ^ 53 * 2 powi e" by argo
  then have "real N / real D < 2 ^ 53" by (rule mult_right_less_imp_less) simp
  moreover have D: "0 < D" using d by (simp add: D_def)
  ultimately have "real (half_even N D) < 2 ^ 53 + 1" using half_even_real [of D N] by linarith
  then have "real (half_even N D) < real (2 ^ 53 + 1)" by simp
  then have "half_even N D \<le> 2 ^ 53" by (simp only: of_nat_less_iff)
  then have "int (half_even N D) \<le> 2 ^ 53" by (metis of_nat_le_iff of_nat_numeral of_nat_power)
  moreover have "- 1074 \<le> e" by (simp add: e_def float_exp_def Let_def)
  moreover have "2 ^ 52 \<le> int (half_even N D) \<or> e = - 1074"
  proof (cases "e = - 1074")
    case False
    then have "2 powi (e + 52) \<le> real n / real d" using float_exp_low [of n d] d \<open>n \<noteq> 0\<close> by (simp add: e_def)
    moreover have "2 powi (e + 52) = 2 ^ 52 * (2 :: real) powi e" by (simp add: power_int_add)
    ultimately have "2 ^ 52 * 2 powi e \<le> real N / real D * 2 powi e" using q by argo
    then have "2 ^ 52 \<le> real N / real D" by (rule mult_right_le_imp_le) simp
    then have "2 ^ 52 < real (half_even N D) + 1" using half_even_real [OF D, of N] by linarith
    then have "real (2 ^ 52) < real (half_even N D + 1)" by simp
    then have "2 ^ 52 \<le> half_even N D" unfolding of_nat_less_iff by simp
    then show ?thesis by (metis of_nat_le_iff of_nat_numeral of_nat_power)
  qed simp
  ultimately have "flt_ok (normal (if neg then - int (half_even N D) else int (half_even N D)) e)"
    by (intro normal_ok) auto
  moreover have "round_float neg n d = normal (if neg then - int (half_even N D) else int (half_even N D)) e"
    using False unfolding N_def D_def e_def by (simp only: round_float_mantissa Let_def neq0_conv)
  ultimately show ?thesis by simp
qed (simp add: round_float_def flt_ok_def)

lemma flt_ok_ops [intro]: "0 < d \<Longrightarrow> flt_ok (quotient n d)" "flt_ok (float_of n)" "flt_ok (flt_add x y)" "flt_ok (flt_sub x y)"
    "flt_ok (flt_mult x y)"
  using denom_pos [of x] denom_pos [of y]
  by (simp_all add: quotient_def float_of_def flt_add_def flt_sub_def flt_mult_def round_float_ok)

definition double :: "float \<Rightarrow> bool" where
  "double x \<longleftrightarrow> flt_ok x \<and> \<not> too_large x"

lemma parse_float_ok: "parse_float s = Number x \<Longrightarrow> flt_ok x \<and> \<not> too_large x"
  by (auto simp: parse_float_def decimal_float_def Let_def round_float_ok split: option.splits if_splits)

text \<open>Digits, a point and digits are read as the number that they write.\<close>

lemma read_decimal_digits:
  assumes "list_all is_digit ip" "list_all is_digit fp" "ip \<noteq> []"
  shows "read_decimal (ip @ CHR ''.'' # fp) = Some (False, digits_val 0 (ip @ fp), - int (length fp))"
proof -
  obtain c cs where ip: "ip = c # cs" using assms(3) by (cases ip) auto
  have "c \<noteq> CHR ''-''" "c \<noteq> CHR ''+''" using assms(1) digit_not_sign [of c] by (auto simp: ip)
  moreover have "\<not> is_digit (CHR ''.'')" by (simp add: is_digit_def)
  moreover have "takeWhile is_digit cs = cs" "dropWhile is_digit cs = []" "takeWhile is_digit fp = fp" "dropWhile is_digit fp = []"
    using assms by (simp_all add: ip list_all_iff takeWhile_eq_all_conv dropWhile_eq_Nil_conv)
  ultimately show ?thesis using assms(1,2)
    by (simp add: read_decimal_def ip read_exponent_def takeWhile_append2 dropWhile_append2 list_all_iff Let_def
      del: takeWhile_eq_all_conv dropWhile_eq_Nil_conv)
qed

lemma digits_val_less: "list_all is_digit s \<Longrightarrow> digits_val 0 s < 10 ^ length s"
proof (induction s rule: rev_induct)
  case (snoc c s)
  then have "digits_val 0 s + 1 \<le> 10 ^ length s" "digit_val c < 10"
    by (auto simp: is_digit_def digit_val_def)
  then have "10 * (digits_val 0 s + 1) \<le> 10 ^ Suc (length s)" by simp
  with \<open>digit_val c < 10\<close> show ?case by (simp add: digits_val_append)
qed simp

text \<open>
  What \<open>ParseFloat\<close> makes of a decimal number is within one part in 2 ^ 53 of it, for every number of up
  to 308 digits before the point and 300 after it that is not zero.
\<close>

theorem parse_float_near:
  assumes "list_all is_digit ip" "list_all is_digit fp" "ip \<noteq> []" "length ip \<le> 308" "length fp \<le> 300"
    and n: "0 < digits_val 0 (ip @ fp)"
  defines "q \<equiv> real (digits_val 0 (ip @ fp)) / 10 ^ length fp"
  shows "\<exists>x. parse_float (ip @ ''.'' @ fp) = Number x \<and> \<bar>val x - q\<bar> \<le> q / 2 ^ 53"
proof -
  define n d where "n = digits_val 0 (ip @ fp)" and "d = (10 :: nat) ^ length fp"
  define x where "x = decimal_float False n (- int (length fp))"
  have x: "x = round_float False n d" by (simp add: x_def decimal_float_def d_def)
  have "d \<le> 10 ^ 300" unfolding d_def using assms(5) by (intro power_increasing) simp_all
  also have "\<dots> \<le> 1 * (2 :: nat) ^ 1022" by simp
  also have "\<dots> \<le> n * 2 ^ 1022" using n by (intro mult_right_mono) (simp_all add: n_def)
  finally have near: "\<bar>val x - q\<bar> \<le> q / 2 ^ 53"
    unfolding x q_def using round_float_near [of n d] n by (simp add: n_def d_def)
  have "n < 10 ^ length ip * d"
    unfolding n_def d_def using assms digits_val_less [of "ip @ fp"] by (simp add: power_add)
  also have "\<dots> \<le> 10 ^ 308 * d" using assms(4) by (intro mult_right_mono power_increasing) simp_all
  finally have "real n < real (10 ^ 308 * d)" by (simp only: of_nat_less_iff)
  then have "q < 10 ^ 308" by (simp add: q_def n_def d_def divide_less_eq)
  then have "q / 2 ^ 53 < 10 ^ 308 / 2 ^ 53" by (intro divide_strict_right_mono) simp_all
  with near \<open>q < 10 ^ 308\<close> have "val x < 10 ^ 308 + 10 ^ 308 / 2 ^ 53" by linarith
  then have "val x < 2 powi 1024" by simp
  moreover have "\<exists>m e. x = Flt m e \<and> 0 \<le> m" unfolding x using round_float_nonneg [of n d] by auto
  then obtain m e where m: "x = Flt m e" "0 \<le> m" by blast
  moreover have "0 < m"
  proof (rule ccontr)
    assume "\<not> 0 < m"
    with m have "val x = 0" by (simp add: val_def)
    moreover have "0 < q" using n by (simp add: q_def)
    ultimately show False using near by (simp add: field_simps)
  qed
  ultimately have "\<not> too_large x" using too_large_val [of m e] by auto
  then have "parse_float (ip @ ''.'' @ fp) = Number x"
    using read_decimal_digits [OF assms(1-3)] by (simp add: parse_float_def x_def n_def Let_def)
  with near show ?thesis by blast
qed

theorem parse_float_near_witness:
  "\<exists>x. parse_float ''0.045'' = Number x \<and> \<bar>val x - 45 / 1000\<bar> \<le> 45 / 1000 / 2 ^ 53"
  using parse_float_near [of "''0''" "''045''"] by (simp add: is_digit_def digit_val_def)

end
