(* ===== verification/NetUtil.thy ===== *)
theory NetUtil
  imports Guest Config Floats
begin

text \<open>
  internal/harness/netutil.go: the reports of ping and iperf3. The expressions are those of the source,
  matched by theory \<open>Regex\<close>, and a figure is the \<open>float64\<close> that the code parses, or \<open>None\<close> for the infinity
  that \<open>ParseFloat\<close> returns beside a range error. Of an error of encoding/json only that it occurred is
  modelled. The rest of the file, which is about interfaces and namespaces, is in \<open>Harness\<close> and \<open>Guest\<close>.
\<close>

subsection \<open>ping\<close>

record ping =
  p_received :: int
  p_loss :: "float option"
  p_min :: "float option"
  p_avg :: "float option"
  p_max :: "float option"
  p_mdev :: "float option"

definition zero :: float where "zero = Flt 0 0"

definition no_ping :: ping where
  "no_ping = \<lparr>p_received = 0, p_loss = Some zero, p_min = Some zero, p_avg = Some zero, p_max = Some zero, p_mdev = Some zero\<rparr>"

definition figure_char :: "char \<Rightarrow> bool" where
  "figure_char c \<longleftrightarrow> is_digit c \<or> c = CHR ''.''"

definition ping_recv_re :: re where
  "ping_recv_re = seqs [Grp 1 (some_of is_digit), Lit '' '', maybe (Lit ''packets ''), Lit ''received'']"

definition ping_loss_re :: re where
  "ping_loss_re = seqs [Grp 1 (some_of figure_char), Lit ''% packet loss'']"

definition ping_rtt_re :: re where
  "ping_rtt_re = seqs [Lit ''= '', Grp 1 (some_of figure_char), Lit ''/'', Grp 2 (some_of figure_char), Lit ''/'',
     Grp 3 (some_of figure_char), maybe (Seq (Lit ''/'') (Grp 4 (some_of figure_char))), Lit '' ms'']"

definition figure :: "string \<Rightarrow> float option" where
  "figure s = (case parse_float s of Number x \<Rightarrow> Some x | OutOfRange \<Rightarrow> None | NotNumber \<Rightarrow> Some zero)"

definition parse_ping :: "string \<Rightarrow> ping \<times> bool" where
  "parse_ping out =
     (let p = no_ping;
          p = (case find_groups ping_recv_re out of None \<Rightarrow> p | Some m \<Rightarrow> p\<lparr>p_received := int_or_zero (m 1)\<rparr>);
          p = (case find_groups ping_loss_re out of None \<Rightarrow> p | Some m \<Rightarrow> p\<lparr>p_loss := figure (m 1)\<rparr>)
      in case find_groups ping_rtt_re out of
           None \<Rightarrow> (p, False)
         | Some m \<Rightarrow>
             (let p = p\<lparr>p_min := figure (m 1), p_avg := figure (m 2), p_max := figure (m 3)\<rparr>
              in (if m 4 \<noteq> [] then p\<lparr>p_mdev := figure (m 4)\<rparr> else p, True)))"


subsection \<open>iperf3\<close>

record iperf =
  received_bps :: float
  sent_bps :: float
  retransmits :: int
  last_bytes :: float
  ip_packets :: int
  lost_packets :: int
  ip_seconds :: float

definition no_iperf :: iperf where
  "no_iperf = \<lparr>received_bps = zero, sent_bps = zero, retransmits = 0, last_bytes = zero, ip_packets = 0,
     lost_packets = 0, ip_seconds = zero\<rparr>"

text \<open>The structs that the report is unmarshalled into: a sum, of which each field has some keys, and the end.\<close>

record iperf_sum =
  su_bps :: float
  su_retransmits :: int
  su_packets :: int
  su_lost :: int
  su_seconds :: float

definition no_sum :: iperf_sum where
  "no_sum = \<lparr>su_bps = zero, su_retransmits = 0, su_packets = 0, su_lost = 0, su_seconds = zero\<rparr>"

record iperf_report =
  rp_error :: string
  rp_intervals :: "float list"
  rp_received :: "iperf_sum option"
  rp_sent :: "iperf_sum option"
  rp_sum :: "iperf_sum option"

definition set_float :: "float \<Rightarrow> json \<Rightarrow> float option" where
  "set_float old v = (case v of
      JNum l \<Rightarrow> (case parse_float l of Number x \<Rightarrow> Some x | _ \<Rightarrow> None)
    | JNull \<Rightarrow> Some old
    | _ \<Rightarrow> None)"

text \<open>A struct in a field, and a pointer to one, which null sets to nil.\<close>

definition set_struct :: "('a \<Rightarrow> string \<times> json \<Rightarrow> 'a option) \<Rightarrow> 'a \<Rightarrow> json \<Rightarrow> 'a option" where
  "set_struct f old v = (case v of JObj ms \<Rightarrow> fold_opt f old ms | JNull \<Rightarrow> Some old | _ \<Rightarrow> None)"

definition set_pointer :: "('a \<Rightarrow> string \<times> json \<Rightarrow> 'a option) \<Rightarrow> 'a \<Rightarrow> 'a option \<Rightarrow> json \<Rightarrow> 'a option option" where
  "set_pointer f new old v = (case v of
      JNull \<Rightarrow> Some None
    | JObj ms \<Rightarrow> map_option Some (fold_opt f (case old of None \<Rightarrow> new | Some x \<Rightarrow> x) ms)
    | _ \<Rightarrow> None)"

text \<open>A slice, whose elements are decoded over those that it had.\<close>

fun set_items :: "('a \<Rightarrow> json \<Rightarrow> 'a option) \<Rightarrow> 'a \<Rightarrow> 'a list \<Rightarrow> json list \<Rightarrow> 'a list option" where
  "set_items f new old [] = Some []"
| "set_items f new old (v # vs) =
     (case f (case old of [] \<Rightarrow> new | x # _ \<Rightarrow> x) v of
        None \<Rightarrow> None
      | Some x \<Rightarrow> map_option ((#) x) (set_items f new (tl old) vs))"

definition set_slice :: "('a \<Rightarrow> json \<Rightarrow> 'a option) \<Rightarrow> 'a \<Rightarrow> 'a list \<Rightarrow> json \<Rightarrow> 'a list option" where
  "set_slice f new old v = (case v of JArr vs \<Rightarrow> set_items f new old vs | JNull \<Rightarrow> Some [] | _ \<Rightarrow> None)"

definition set_bytes :: "float \<Rightarrow> string \<times> json \<Rightarrow> float option" where
  "set_bytes x m = (if to_lower (fst m) = ''bytes'' then set_float x (snd m) else Some x)"

definition set_interval :: "float \<Rightarrow> string \<times> json \<Rightarrow> float option" where
  "set_interval x m = (if to_lower (fst m) = ''sum'' then set_struct set_bytes x (snd m) else Some x)"

definition set_received :: "iperf_sum \<Rightarrow> string \<times> json \<Rightarrow> iperf_sum option" where
  "set_received s m =
     (if to_lower (fst m) = ''bits_per_second'' then map_option (\<lambda>x. s\<lparr>su_bps := x\<rparr>) (set_float (su_bps s) (snd m))
      else Some s)"

definition set_sent :: "iperf_sum \<Rightarrow> string \<times> json \<Rightarrow> iperf_sum option" where
  "set_sent s m =
     (if to_lower (fst m) = ''retransmits'' then map_option (\<lambda>n. s\<lparr>su_retransmits := n\<rparr>) (set_int64 (su_retransmits s) (snd m))
      else set_received s m)"

definition set_sum :: "iperf_sum \<Rightarrow> string \<times> json \<Rightarrow> iperf_sum option" where
  "set_sum s m =
     (if to_lower (fst m) = ''packets'' then map_option (\<lambda>n. s\<lparr>su_packets := n\<rparr>) (set_int64 (su_packets s) (snd m))
      else if to_lower (fst m) = ''lost_packets'' then map_option (\<lambda>n. s\<lparr>su_lost := n\<rparr>) (set_int64 (su_lost s) (snd m))
      else if to_lower (fst m) = ''seconds'' then map_option (\<lambda>x. s\<lparr>su_seconds := x\<rparr>) (set_float (su_seconds s) (snd m))
      else set_received s m)"

definition set_end :: "iperf_report \<Rightarrow> string \<times> json \<Rightarrow> iperf_report option" where
  "set_end r m =
     (if to_lower (fst m) = ''sum_received''
        then map_option (\<lambda>x. r\<lparr>rp_received := x\<rparr>) (set_pointer set_received no_sum (rp_received r) (snd m))
      else if to_lower (fst m) = ''sum_sent''
        then map_option (\<lambda>x. r\<lparr>rp_sent := x\<rparr>) (set_pointer set_sent no_sum (rp_sent r) (snd m))
      else if to_lower (fst m) = ''sum''
        then map_option (\<lambda>x. r\<lparr>rp_sum := x\<rparr>) (set_pointer set_sum no_sum (rp_sum r) (snd m))
      else Some r)"

definition set_report :: "iperf_report \<Rightarrow> string \<times> json \<Rightarrow> iperf_report option" where
  "set_report r m =
     (if to_lower (fst m) = ''error'' then map_option (\<lambda>s. r\<lparr>rp_error := s\<rparr>) (set_string (rp_error r) (snd m))
      else if to_lower (fst m) = ''intervals''
        then map_option (\<lambda>xs. r\<lparr>rp_intervals := xs\<rparr>) (set_slice (set_struct set_interval) zero (rp_intervals r) (snd m))
      else if to_lower (fst m) = ''end'' then set_struct set_end r (snd m)
      else Some r)"

definition unmarshal_report :: "string \<Rightarrow> iperf_report option" where
  "unmarshal_report out = (case read_json out of
      None \<Rightarrow> None
    | Some v \<Rightarrow> set_struct set_report \<lparr>rp_error = [], rp_intervals = [], rp_received = None, rp_sent = None, rp_sum = None\<rparr> v)"

definition json_error :: err where
  "json_error = Msg ''json: the report cannot be decoded''"

definition iperf_figures :: "iperf_report \<Rightarrow> iperf" where
  "iperf_figures j =
     (let r = no_iperf;
          r = (case rp_received j of None \<Rightarrow> r | Some s \<Rightarrow> r\<lparr>received_bps := su_bps s\<rparr>);
          r = (case rp_sent j of None \<Rightarrow> r | Some s \<Rightarrow> r\<lparr>sent_bps := su_bps s, retransmits := su_retransmits s\<rparr>);
          r = (case rp_sum j of
                 None \<Rightarrow> r
               | Some s \<Rightarrow> (if flt_zero (sent_bps r) then r\<lparr>sent_bps := su_bps s\<rparr> else r)
                   \<lparr>ip_packets := su_packets s, lost_packets := su_lost s, ip_seconds := su_seconds s\<rparr>)
      in if rp_intervals j = [] then r else r\<lparr>last_bytes := last (rp_intervals j)\<rparr>)"

definition parse_iperf :: "string \<Rightarrow> iperf \<times> err option" where
  "parse_iperf out =
     (case unmarshal_report out of
        None \<Rightarrow> (no_iperf, Some json_error)
      | Some j \<Rightarrow>
          if rp_error j \<noteq> [] then (no_iperf, Some (Msg (rp_error j)))
          else (let r = iperf_figures j
                in if flt_zero (received_bps r) \<and> flt_zero (sent_bps r) \<and> ip_packets r = 0
                   then (r, Some (Msg ''iperf3 reported no transfer'')) else (r, None)))"


subsection \<open>What ping reports\<close>

definition found :: "re \<Rightarrow> char option \<Rightarrow> string \<Rightarrow> (nat \<times> string) list \<Rightarrow> bool" where
  "found r p s c \<longleftrightarrow> (\<exists>i k. search r p s = Some (i, c, k))"

lemma found_later:
  "search r p s = map_option (\<lambda>(i, m). (j + i, m)) (search r q t) \<Longrightarrow> found r q t c \<Longrightarrow> found r p s c"
  by (auto simp: found_def)

lemma found_here: "matches r (p, s) = (c, k) # ms \<Longrightarrow> found r p s c"
  using search_firsts [of r p s "(c, k)"] by (auto simp: found_def firsts_iff)

lemma found_groups: "found r None s c \<Longrightarrow> find_groups r s = Some (\<lambda>n. case map_of (rev c) n of None \<Rightarrow> [] | Some g \<Rightarrow> g)"
  by (auto simp: found_def find_groups_def)

text \<open>The lines of iputils: what it printed before, the summary and the round trip times.\<close>

definition ping_summary :: "nat \<Rightarrow> nat \<Rightarrow> string \<Rightarrow> nat \<Rightarrow> string" where
  "ping_summary sent received loss time =
     show_nat sent @ '' packets transmitted, '' @ show_nat received @ '' received, '' @ loss @ ''% packet loss, time '' @
     show_nat time @ ''ms''"

definition ping_times :: "string \<Rightarrow> string \<Rightarrow> string \<Rightarrow> string \<Rightarrow> string" where
  "ping_times a b c d = ''rtt min/avg/max/mdev = '' @ a @ ''/'' @ b @ ''/'' @ c @ ''/'' @ d @ '' ms''"

definition figure_text :: "string \<Rightarrow> bool" where
  "figure_text s \<longleftrightarrow> s \<noteq> [] \<and> list_all figure_char s"

lemma digit_chars: "is_digit c \<Longrightarrow> figure_char c" "\<not> is_digit (CHR '' '')" "\<not> is_digit newline" "\<not> figure_char (CHR '' '')"
  "\<not> figure_char newline" "\<not> figure_char (CHR ''%'')" "\<not> figure_char (CHR ''/'')"
  by (simp_all add: figure_char_def is_digit_def newline_def)

lemma show_nat_figure: "list_all figure_char (show_nat n)"
  using show_nat_digits [of n] by (auto simp: list_all_iff digit_chars)

definition after_recv :: re where "after_recv = seqs [Lit '' '', maybe (Lit ''packets ''), Lit ''received'']"
definition after_loss :: re where "after_loss = Lit ''% packet loss''"

lemma ping_res: "ping_recv_re = Seq (Grp 1 (some_of is_digit)) after_recv" "ping_loss_re = Seq (Grp 1 (some_of figure_char)) after_loss"
  by (simp_all add: ping_recv_re_def after_recv_def ping_loss_re_def after_loss_def)

lemma behind_recv: "behind after_recv is_digit" "behind after_loss figure_char"
  by (auto simp: behind_def after_recv_def after_loss_def maybe_def digit_chars)

lemma recv_found:
  assumes "\<not> str_contains pre ''received''"
  shows "found ping_recv_re None (pre @ newline # ping_summary sent received loss time @ rest) [(1, show_nat received)]"
proof (rule found_later [OF search_behind [OF _ _ assms]])
  show "needs ping_recv_re ''received''"
    by (simp add: ping_recv_re_def str_contains_def)
  show "avoids ping_recv_re newline"
    by (simp add: ping_recv_re_def some_of_def maybe_def newline_def is_digit_def)
  define t where "t = '' received, '' @ loss @ ''% packet loss, time '' @ show_nat time @ ''ms'' @ rest"
  have 1: "found ping_recv_re q (show_nat received @ t) [(1, show_nat received)]" for q
    unfolding ping_res
    by (rule found_here, subst run_group [OF behind_recv(1)])
      (auto simp: show_nat_digits t_def digit_chars after_recv_def maybe_def followed_def cut_prefix_def)
  have 2: "found ping_recv_re q ('' packets transmitted, '' @ show_nat received @ t) [(1, show_nat received)]" for q
    by (rule found_later [OF search_past 1])
      (simp_all add: ping_recv_re_def some_of_def maybe_def is_digit_def)
  show "found ping_recv_re (Some newline) (ping_summary sent received loss time @ rest) [(1, show_nat received)]"
    unfolding ping_summary_def ping_res append_assoc
    by (rule found_later [OF search_run [OF behind_recv(1) show_nat_digits]])
      (use 2 in \<open>simp_all add: digit_chars after_recv_def maybe_def followed_def cut_prefix_def t_def ping_res\<close>)
qed

lemma loss_found:
  assumes "\<not> str_contains pre ''% packet loss''" "figure_text loss"
  shows "found ping_loss_re None (pre @ newline # ping_summary sent received loss time @ rest) [(1, loss)]"
proof (rule found_later [OF search_behind [OF _ _ assms(1)]])
  show "needs ping_loss_re ''% packet loss''"
    by (simp add: ping_loss_re_def str_contains_def)
  show "avoids ping_loss_re newline"
    by (simp add: ping_loss_re_def some_of_def newline_def figure_char_def is_digit_def)
  define t where "t = ''% packet loss, time '' @ show_nat time @ ''ms'' @ rest"
  have 1: "found ping_loss_re q (loss @ t) [(1, loss)]" for q
    unfolding ping_res
    by (rule found_here, subst run_group [OF behind_recv(2)])
      (use assms(2) in \<open>auto simp: figure_text_def t_def digit_chars after_loss_def cut_prefix_def\<close>)
  have 2: "found ping_loss_re q ('' received, '' @ loss @ t) [(1, loss)]" for q
    by (rule found_later [OF search_past 1])
      (simp_all add: ping_loss_re_def some_of_def figure_char_def is_digit_def)
  have 3: "found ping_loss_re q (show_nat received @ '' received, '' @ loss @ t) [(1, loss)]" for q
    unfolding ping_res
    by (rule found_later [OF search_run [OF behind_recv(2) show_nat_figure]])
      (use 2 in \<open>simp_all add: digit_chars after_loss_def cut_prefix_def ping_res\<close>)
  have 4: "found ping_loss_re q ('' packets transmitted, '' @ show_nat received @ '' received, '' @ loss @ t) [(1, loss)]" for q
    by (rule found_later [OF search_past 3])
      (simp_all add: ping_loss_re_def some_of_def figure_char_def is_digit_def)
  show "found ping_loss_re (Some newline) (ping_summary sent received loss time @ rest) [(1, loss)]"
    unfolding ping_summary_def ping_res append_assoc
    by (rule found_later [OF search_run [OF behind_recv(2) show_nat_figure]])
      (use 4 in \<open>simp_all add: digit_chars after_loss_def cut_prefix_def t_def ping_res\<close>)
qed

lemma times_found:
  assumes pre: "\<not> str_contains pre ''= ''"
    and texts: "figure_text loss" "figure_text a" "figure_text b" "figure_text c" "figure_text d"
  shows "found ping_rtt_re None (pre @ newline # ping_summary sent received loss time @ newline # ping_times a b c d @ rest)
    [(1, a), (2, b), (3, c), (4, d)]"
proof (rule found_later [OF search_behind [OF _ _ pre]])
  show n: "needs ping_rtt_re ''= ''"
    by (simp add: ping_rtt_re_def str_contains_def)
  show v: "avoids ping_rtt_re newline"
    by (simp add: ping_rtt_re_def some_of_def maybe_def newline_def figure_char_def is_digit_def)
  have eq: "c \<noteq> CHR ''=''" if "figure_char c" for c using that by (auto simp: figure_char_def is_digit_def)
  have "CHR ''='' \<notin> set (ping_summary sent received loss time)"
    using texts(1) show_nat_figure eq by (auto simp: ping_summary_def figure_text_def list_all_iff)
  then have s: "\<not> str_contains (ping_summary sent received loss time) ''= ''"
    using str_contains_set [of "ping_summary sent received loss time" "''= ''"] by auto
  have "\<exists>k. firsts ping_rtt_re (q, ''= '' @ a @ ''/'' @ b @ ''/'' @ c @ ''/'' @ d @ '' ms'' @ rest)
      ([] @ [(1, a)] @ [] @ [(2, b)] @ [] @ [(3, c)] @ ([] @ [(4, d)]) @ [], k)" for q
    unfolding ping_rtt_re_def seqs.simps maybe_def
    by (rule exI, (rule firsts_seq firsts_lit firsts_or(1) firsts_run | (use texts in \<open>simp add: figure_text_def digit_chars; fail\<close>))+)
  then have 1: "found ping_rtt_re q (''= '' @ a @ ''/'' @ b @ ''/'' @ c @ ''/'' @ d @ '' ms'' @ rest) [(1, a), (2, b), (3, c), (4, d)]" for q
    unfolding found_def by (metis append_Cons append_Nil search_firsts)
  have "found ping_rtt_re q (''rtt min/avg/max/mdev '' @ ''= '' @ a @ ''/'' @ b @ ''/'' @ c @ ''/'' @ d @ '' ms'' @ rest)
      [(1, a), (2, b), (3, c), (4, d)]" for q
    by (rule found_later [OF search_past 1]) (simp_all add: ping_rtt_re_def)
  then show "found ping_rtt_re (Some newline) (ping_summary sent received loss time @ newline # ping_times a b c d @ rest)
      [(1, a), (2, b), (3, c), (4, d)]"
    by (intro found_later [OF search_behind [OF n v s]]) (simp add: ping_times_def)
qed

lemma int_or_zero_show: "in_int64 (int n) \<Longrightarrow> int_or_zero (show_nat n) = int n"
  using hd_show_nat_digit [of n] digit_not_sign [of "hd (show_nat n)"] show_nat_digits [of n] digits_val_show [of n]
  by (cases "show_nat n") (auto simp: int_or_zero_def in_int64_def Let_def dest: sym)

text \<open>
  C38 What ping reports is what it printed: from the output of iputils, whatever it printed before its
  summary without the words of one, \<open>ParsePing\<close> takes the number of replies, the loss and the round trip
  times, and says that there are times.
\<close>

theorem parse_ping_summary:
  assumes pre: "\<not> str_contains pre ''received''" "\<not> str_contains pre ''% packet loss''" "\<not> str_contains pre ''= ''"
    and texts: "figure_text loss" "figure_text a" "figure_text b" "figure_text c" "figure_text d"
    and range: "in_int64 (int received)"
  shows "parse_ping (pre @ newline # ping_summary sent received loss time @ newline # ping_times a b c d @ rest) =
    (\<lparr>p_received = int received, p_loss = figure loss, p_min = figure a, p_avg = figure b, p_max = figure c,
      p_mdev = figure d\<rparr>, True)"
proof -
  note int_or_zero_show [OF range]
  moreover have "d \<noteq> []" using texts by (simp add: figure_text_def)
  ultimately show ?thesis
    using found_groups [OF recv_found [OF pre(1)], of sent received loss time "newline # ping_times a b c d @ rest"]
      found_groups [OF loss_found [OF pre(2) texts(1)], of sent received time "newline # ping_times a b c d @ rest"]
      found_groups [OF times_found [OF pre(3) texts], of sent received time rest]
    by (simp add: parse_ping_def no_ping_def Let_def)
qed

theorem parse_ping_summary_witness:
  "\<exists>p. parse_ping (''PING 10.0.0.1'' @ newline # ping_summary 5 5 ''0'' 804 @ newline # ping_times ''0.031'' ''0.045'' ''0.061'' ''0.010'' @ [newline]) =
     (p, True) \<and> p_received p = 5"
  using parse_ping_summary [of "''PING 10.0.0.1''" "''0''" "''0.031''" "''0.045''" "''0.061''" "''0.010''" 5 5 804 "[newline]"]
  by (simp add: str_contains_def figure_text_def figure_char_def is_digit_def in_int64_def max_int64_def)


subsection \<open>What iperf3 reports\<close>

lemma read_decimal_int: "read_decimal (show_nat n) = Some (False, n, 0)"
proof -
  have "takeWhile is_digit (show_nat n) = show_nat n" "dropWhile is_digit (show_nat n) = []"
    using show_nat_digits [of n] by (simp_all add: list_all_iff takeWhile_eq_all_conv dropWhile_eq_Nil_conv)
  moreover have "hd (show_nat n) \<noteq> CHR ''-''" "hd (show_nat n) \<noteq> CHR ''+''"
    using hd_show_nat_digit [of n] digit_not_sign by auto
  ultimately show ?thesis
    by (simp add: read_decimal_def read_exponent_def Let_def del: takeWhile_eq_all_conv dropWhile_eq_Nil_conv)
qed

lemma parse_float_int:
  assumes "n < 2 ^ 64"
  shows "parse_float (show_int (int n)) = Number (float_of (int n))"
proof -
  have x: "decimal_float False n 0 = float_of (int n)"
    by (simp add: decimal_float_def float_of_def quotient_def)
  have "\<not> too_large (float_of (int n))"
  proof (cases "n = 0")
    case True
    then show ?thesis by (simp add: float_of_def quotient_def round_float_def too_large_def bitlen.simps)
  next
    case False
    have f: "float_of (int n) = round_float False n 1" by (simp add: float_of_def quotient_def)
    have "real n < real (2 ^ 64)" using assms by (simp only: of_nat_less_iff)
    then have "real n < 2 ^ 64" by simp
    moreover have "\<bar>val (float_of (int n)) - real n\<bar> \<le> real n / 2 ^ 53" "real n / 2 ^ 53 < real n"
      using round_float_near [of n 1] False unfolding f by simp_all
    ultimately have v: "val (float_of (int n)) < 2 ^ 64 + 2 ^ 64" "0 < val (float_of (int n))"
      unfolding abs_le_iff by linarith+
    then have "val (float_of (int n)) < 2 powi 1024" by simp
    moreover obtain m e where m: "float_of (int n) = Flt (int m) e" using round_float_nonneg [of n 1] by (auto simp: f)
    moreover have "m \<noteq> 0" using v(2) m by (intro notI) (simp add: val_def)
    ultimately show ?thesis using too_large_val [of "int m" e] by auto
  qed
  then show ?thesis by (simp add: parse_float_def show_int_def read_decimal_int x Let_def)
qed

definition number :: "string \<Rightarrow> nat \<Rightarrow> string \<times> json" where
  "number k n = (k, JNum (show_int (int n)))"

text \<open>The report of a run over TCP: the bytes of its intervals and its two sums.\<close>

definition tcp_report :: "nat list \<Rightarrow> nat \<Rightarrow> nat \<Rightarrow> nat \<Rightarrow> json" where
  "tcp_report bytes received sent again = JObj [
     (''intervals'', JArr (map (\<lambda>b. JObj [(''sum'', JObj [number ''bytes'' b])]) bytes)),
     (''end'', JObj [(''sum_received'', JObj [number ''bits_per_second'' received]),
       (''sum_sent'', JObj [number ''bits_per_second'' sent, number ''retransmits'' again])])]"

lemma keys:
  "to_lower ''intervals'' = ''intervals''" "to_lower ''sum'' = ''sum''" "to_lower ''bytes'' = ''bytes''"
  "to_lower ''end'' = ''end''" "to_lower ''sum_received'' = ''sum_received''" "to_lower ''sum_sent'' = ''sum_sent''"
  "to_lower ''bits_per_second'' = ''bits_per_second''" "to_lower ''retransmits'' = ''retransmits''"
  by (simp_all add: to_lower_def lower_char_def)

lemma elems_ok_map: "elems_ok (map f xs) \<longleftrightarrow> (\<forall>x\<in>set xs. json_ok (f x))"
  by (induction xs) auto

lemma set_items_in:
  "(\<And>x y. x \<in> set xs \<Longrightarrow> f y (g x) = Some (h x)) \<Longrightarrow> set_items f new old (map g xs) = Some (map h xs)"
  by (induction xs arbitrary: old) (auto split: list.splits)

text \<open>
  What iperf3 reports of a run over TCP is what \<open>ParseIperf\<close> returns: both rates, the retransmits and the
  bytes of the last interval, and no error when data came through.
\<close>

theorem parse_iperf_tcp:
  assumes "bytes \<noteq> []" "\<forall>b\<in>set bytes. b < 2 ^ 64" "received < 2 ^ 64" "sent < 2 ^ 64" "in_int64 (int again)" "0 < received"
  shows "parse_iperf (show_json 0 (tcp_report bytes received sent again)) =
    (\<lparr>received_bps = float_of (int received), sent_bps = float_of (int sent), retransmits = int again,
      last_bytes = float_of (int (last bytes)), ip_packets = 0, lost_packets = 0, ip_seconds = zero\<rparr>, None)"
proof -
  have t: "text_ok ''intervals'' \<and> text_ok ''sum'' \<and> text_ok ''bytes'' \<and> text_ok ''end'' \<and> text_ok ''sum_received'' \<and>
      text_ok ''bits_per_second'' \<and> text_ok ''sum_sent'' \<and> text_ok ''retransmits''"
    by (intro conjI ascii_text_ok) simp_all
  have "json_ok (tcp_report bytes received sent again)"
    using t by (auto simp: tcp_report_def number_def elems_ok_map)
  from read_show_json [OF this, of "[]"]
  have r: "read_json (show_json 0 (tcp_report bytes received sent again)) = Some (tcp_report bytes received sent again)"
    by simp
  have num: "set_float old (JNum (show_int (int n))) = Some (float_of (int n))" if "n < 2 ^ 64" for old n
    using parse_float_int [OF that] by (simp add: set_float_def)
  have items: "set_items (set_struct set_interval) zero [] (map (\<lambda>b. JObj [(''sum'', JObj [number ''bytes'' b])]) bytes) =
      Some (map (\<lambda>b. float_of (int b)) bytes)"
    using assms(2) by (intro set_items_in) (simp add: set_struct_def set_interval_def set_bytes_def number_def num keys)
  have "unmarshal_report (show_json 0 (tcp_report bytes received sent again)) =
      Some \<lparr>rp_error = [], rp_intervals = map (\<lambda>b. float_of (int b)) bytes,
        rp_received = Some (no_sum\<lparr>su_bps := float_of (int received)\<rparr>),
        rp_sent = Some (no_sum\<lparr>su_bps := float_of (int sent), su_retransmits := int again\<rparr>), rp_sum = None\<rparr>"
    unfolding unmarshal_report_def r option.case
    unfolding tcp_report_def
    using assms parse_show_int [OF assms(5)]
    by (simp add: set_struct_def set_report_def set_slice_def items [unfolded number_def] set_end_def set_pointer_def set_received_def
        set_sent_def number_def num set_int64_def keys no_sum_def)
  moreover have "\<not> flt_zero (float_of (int received))"
  proof
    assume "flt_zero (float_of (int received))"
    then have "val (float_of (int received)) = 0" by (simp add: flt_zero_def val_def split: float.splits)
    with round_float_near [of received 1] assms(6) show False
      by (simp add: float_of_def quotient_def)
  qed
  ultimately show ?thesis using assms(1)
    by (simp add: parse_iperf_def iperf_figures_def no_iperf_def no_sum_def last_map Let_def)
qed

theorem parse_iperf_tcp_witness:
  "snd (parse_iperf (show_json 0 (tcp_report [100, 250] 9400000000 9500000000 12))) = None"
  using parse_iperf_tcp [of "[100, 250]" 9400000000 9500000000 12] by (simp add: in_int64_def max_int64_def)


subsection \<open>The types of the figures\<close>

definition sum_ok :: "iperf_sum \<Rightarrow> bool" where
  "sum_ok s \<longleftrightarrow> double (su_bps s) \<and> double (su_seconds s) \<and> in_int64 (su_retransmits s) \<and> in_int64 (su_packets s) \<and>
     in_int64 (su_lost s)"

definition report_ok :: "iperf_report \<Rightarrow> bool" where
  "report_ok r \<longleftrightarrow> list_all double (rp_intervals r) \<and> pred_option sum_ok (rp_received r) \<and> pred_option sum_ok (rp_sent r) \<and>
     pred_option sum_ok (rp_sum r)"

lemma double_zero [simp]: "double zero" "in_int64 0"
  by (simp_all add: double_def zero_def flt_ok_def too_large_def in_int64_def max_int64_def bitlen.simps [of 0])

lemma int_or_zero_int64 [simp]: "in_int64 (int_or_zero s)"
  unfolding int_or_zero_def in_int64_def max_int64_def by (auto simp: Let_def split: list.split)

lemma figure_double [simp]: "pred_option double (figure s)"
  using parse_float_ok [of s] by (cases "parse_float s") (simp_all add: figure_def, simp add: double_def)

lemma set_float_double: "set_float old v = Some x \<Longrightarrow> double old \<Longrightarrow> double x"
  unfolding set_float_def by (auto simp: double_def dest: parse_float_ok split: json.splits parsed.splits)

lemma set_int64_ok: "set_int64 old v = Some n \<Longrightarrow> in_int64 old \<Longrightarrow> in_int64 n"
  unfolding set_int64_def parse_int64_def by (auto simp: Let_def split: json.splits list.splits if_splits)

lemma set_struct_inv:
  "set_struct f old v = Some y \<Longrightarrow> P old \<Longrightarrow> (\<And>a x b. f a x = Some b \<Longrightarrow> P a \<Longrightarrow> P b) \<Longrightarrow> P y"
  unfolding set_struct_def by (auto split: json.splits elim: fold_opt_inv [where P = P])

lemma set_pointer_inv:
  assumes "set_pointer f new old v = Some y" "P new" "pred_option P old" "\<And>a x b. f a x = Some b \<Longrightarrow> P a \<Longrightarrow> P b"
  shows "pred_option P y"
  using assms(1-3) unfolding set_pointer_def
  by (auto split: json.splits option.splits elim!: fold_opt_inv [where P = P] dest: assms(4))

lemma set_items_inv:
  assumes "set_items f new old vs = Some ys" "P new" "list_all P old" "\<And>a v b. f a v = Some b \<Longrightarrow> P a \<Longrightarrow> P b"
  shows "list_all P ys"
  using assms(1-3)
proof (induction vs arbitrary: old ys)
  case (Cons v vs)
  then show ?case by (cases old) (auto split: option.splits dest: assms(4))
qed simp

lemma set_sums_ok:
  "set_received s m = Some s' \<Longrightarrow> sum_ok s \<Longrightarrow> sum_ok s'" "set_sent s m = Some s' \<Longrightarrow> sum_ok s \<Longrightarrow> sum_ok s'"
  "set_sum s m = Some s' \<Longrightarrow> sum_ok s \<Longrightarrow> sum_ok s'"
proof -
  show r: "set_received s m = Some s' \<Longrightarrow> sum_ok s \<Longrightarrow> sum_ok s'" for s m s'
    by (auto simp: set_received_def sum_ok_def split: if_splits dest: set_float_double)
  show "set_sent s m = Some s' \<Longrightarrow> sum_ok s \<Longrightarrow> sum_ok s'" "set_sum s m = Some s' \<Longrightarrow> sum_ok s \<Longrightarrow> sum_ok s'"
    by (auto simp: set_sent_def set_sum_def sum_ok_def split: if_splits dest: set_float_double set_int64_ok r [unfolded sum_ok_def])
qed

lemma set_interval_double: "set_interval x m = Some y \<Longrightarrow> double x \<Longrightarrow> double y"
  unfolding set_interval_def set_bytes_def
  by (auto split: if_splits elim!: set_struct_inv [where P = double] dest: set_float_double)

lemma set_pointer_sum:
  "set_pointer f no_sum old v = Some y \<Longrightarrow> pred_option sum_ok old \<Longrightarrow> (\<And>a x b. f a x = Some b \<Longrightarrow> sum_ok a \<Longrightarrow> sum_ok b) \<Longrightarrow>
   pred_option sum_ok y"
  by (erule set_pointer_inv) (simp_all add: no_sum_def sum_ok_def)

lemma set_end_ok: "set_end r m = Some r' \<Longrightarrow> report_ok r \<Longrightarrow> report_ok r'"
  unfolding set_end_def report_ok_def
  by (auto split: if_splits dest: set_pointer_sum [OF _ _ set_sums_ok(1)] set_pointer_sum [OF _ _ set_sums_ok(2)]
      set_pointer_sum [OF _ _ set_sums_ok(3)])

lemma set_intervals_double:
  "set_slice (set_struct set_interval) zero old v = Some xs \<Longrightarrow> list_all double old \<Longrightarrow> list_all double xs"
  unfolding set_slice_def
  by (auto split: json.splits elim!: set_items_inv [where P = double] set_struct_inv [where P = double] dest: set_interval_double)

lemma set_report_ok: "set_report r m = Some r' \<Longrightarrow> report_ok r \<Longrightarrow> report_ok r'"
proof -
  assume m: "set_report r m = Some r'" and r: "report_ok r"
  have "report_ok r'" if "set_struct set_end r (snd m) = Some r'"
    using that r by (rule set_struct_inv) (rule set_end_ok)
  with m r show ?thesis
    by (auto simp: set_report_def report_ok_def split: if_splits dest: set_intervals_double)
qed

lemma unmarshal_ok: "unmarshal_report out = Some r \<Longrightarrow> report_ok r"
proof -
  assume "unmarshal_report out = Some r"
  then obtain v where "set_struct set_report \<lparr>rp_error = [], rp_intervals = [], rp_received = None, rp_sent = None, rp_sum = None\<rparr> v = Some r"
    by (auto simp: unmarshal_report_def split: option.splits)
  then show ?thesis
    by (rule set_struct_inv) (simp add: report_ok_def, rule set_report_ok)
qed


end
