(* ===== verification/Rig.thy ===== *)
theory Rig
  imports Suite NetUtil
begin

text \<open>
  What the suites of the network and WiFi tests share beside the checks: the directory of the test that
  runs, that of its in-flight log, and its guests. A guest counts the markers of its console in its own
  memory, which every holder of the guest shares, so the counts are kept in the suite by the guest's pid.
\<close>

record rig = checks +
  rg_dir :: string
  rg_log_dir :: string
  rg_guests :: "guest list"
  rg_marks :: "(string \<times> nat) list"

definition marks_of :: "'z rig_scheme \<Rightarrow> guest \<Rightarrow> nat" where
  "marks_of s g = (case map_of (rg_marks s) (g_pid g) of None \<Rightarrow> 0 | Some n \<Rightarrow> n)"

definition set_marks :: "guest \<Rightarrow> 'z rig_scheme \<Rightarrow> 'z rig_scheme" where
  "set_marks g s = s\<lparr>rg_marks := AList.update (g_pid g) (g_marks g) (rg_marks s)\<rparr>"

definition ask_guest :: "guest \<Rightarrow> string \<Rightarrow> nat \<Rightarrow> ('z rig_scheme, string) job" where
  "ask_guest g line timeout = do {
     s \<leftarrow> suite;
     r \<leftarrow> lift_io (guest_output (g\<lparr>g_marks := marks_of s g\<rparr>) line timeout);
     _ \<leftarrow> change (set_marks (snd r));
     give (fst r)}"

definition ask_counters :: "guest \<Rightarrow> ('z rig_scheme, string) job" where
  "ask_counters g = ask_guest g ''cat /proc/vduse_guest'' 10000"

definition say :: "string \<Rightarrow> ('s, unit) job" where
  "say s = lift_io (println s)"

definition host_run :: "string \<Rightarrow> string list \<Rightarrow> ('s, cmd_result) job" where
  "host_run c args = lift_io (run_cmd c args)"

text \<open>A command in the directory of the test that a signal stops.\<close>

definition rig_run :: "nat \<Rightarrow> string list \<Rightarrow> ('z rig_scheme, cmd_result) job" where
  "rig_run timeout argv = do {
     s \<leftarrow> suite;
     (case argv of
        [] \<Rightarrow> give no_command
      | c # args \<Rightarrow> lift_io (run_context (rg_dir s) timeout c args))}"

text \<open>A process that a suite started is killed and waited for, and the last bytes of a log.\<close>

definition stop_server :: "string \<Rightarrow> unit io" where
  "stop_server pid = do {
     _ \<leftarrow> sys (GuestSignal pid ''KILL'');
     _ \<leftarrow> sys (GuestWait pid 0);
     ret ()}"

definition tail_of :: "nat \<Rightarrow> string \<Rightarrow> string" where
  "tail_of n s = drop (length s - n) s"

definition counters_off :: "string list \<Rightarrow> counters \<Rightarrow> string list" where
  "counters_off ks c = concat (map (\<lambda>n. case c n of
      None \<Rightarrow> [n @ '' 0'']
    | Some v \<Rightarrow> if v \<noteq> 0 then [n @ '' '' @ show_int v] else []) ks)"


subsection \<open>Guests\<close>

definition says_or_ended :: "guest \<Rightarrow> (string \<Rightarrow> bool) \<Rightarrow> bool io" where
  "says_or_ended g ready = do {
     l \<leftarrow> guest_log g;
     if ready l then ret True
     else do {a \<leftarrow> guest_running g; ret (\<not> a)}}"

definition guest_ready :: "guest \<Rightarrow> (string \<Rightarrow> bool) \<Rightarrow> bool io" where
  "guest_ready g ready = do {
     ok \<leftarrow> wait (says_or_ended g ready) 120000 200;
     if ok then guest_running g else ret False}"

definition guest_number :: "'z rig_scheme \<Rightarrow> string" where
  "guest_number s = show_nat (length (rg_guests s) + 1)"

definition launch_rig :: "launch \<Rightarrow> (string \<Rightarrow> bool) \<Rightarrow> string \<Rightarrow> ('z rig_scheme, guest option) job" where
  "launch_rig l ready what = do {
     s \<leftarrow> suite;
     let n = guest_number s;
     ended \<leftarrow> lift_io ctx_ended;
     if ended then give None
     else do {
       r \<leftarrow> lift_io (launch_guest (path_join [rg_dir s, ''guest-'' @ n @ ''.log'']) l);
       ok \<leftarrow> check (\<not> isl r) (''guest '' @ n @ '' starts'' @ err_suffix (case r of Inl e \<Rightarrow> Some e | Inr g \<Rightarrow> None));
       (case r of
          Inl _ \<Rightarrow> give None
        | Inr g \<Rightarrow> do {
            _ \<leftarrow> change (\<lambda>s. s\<lparr>rg_guests := rg_guests s @ [g]\<rparr>);
            _ \<leftarrow> change (set_marks g);
            up \<leftarrow> lift_io (guest_ready g ready);
            ok \<leftarrow> check up (''guest '' @ n @ '' '' @ what);
            give (if ok then Some g else None)})}}"

definition rig_detach :: "string \<Rightarrow> ('z rig_scheme, bool) job" where
  "rig_detach name = do {
     e \<leftarrow> lift_io (vdpa_remove name False);
     check (e = None) (''vdpa dev del removes the device'' @ err_suffix e)}"


subsection \<open>A test\<close>

text \<open>The clean host before a test, and what follows its guests.\<close>

definition rig_begin :: "string \<Rightarrow> string \<Rightarrow> string \<Rightarrow> ('z rig_scheme, bool) job" where
  "rig_begin name out_dir test = do {
     _ \<leftarrow> lift_io (cleanup_dev name);
     let dir = path_join [out_dir, test];
     _ \<leftarrow> change (\<lambda>s. s\<lparr>rg_dir := dir\<rparr>);
     _ \<leftarrow> lift_io (sys (RemoveAll dir));
     _ \<leftarrow> lift_io (sys (MkdirAll dir 493));
     r \<leftarrow> lift_io (make_log_dir name);
     _ \<leftarrow> change (\<lambda>s. s\<lparr>rg_log_dir := (case r of Inl e \<Rightarrow> [] | Inr d \<Rightarrow> d)\<rparr>);
     check (\<not> isl r) (test @ '': a directory for the in-flight log is made'' @
       err_suffix (case r of Inl e \<Rightarrow> Some e | Inr d \<Rightarrow> None))}"

definition rig_end :: "string \<Rightarrow> string \<Rightarrow> bool \<Rightarrow> ('z rig_scheme, unit) job" where
  "rig_end name test gone = do {
     s \<leftarrow> suite;
     _ \<leftarrow> lift_io (vdpa_remove name gone);
     _ \<leftarrow> lift_io (for_each end_guest_of (rg_guests s));
     _ \<leftarrow> lift_io (cleanup_dev name);
     _ \<leftarrow> lift_io (sys (RemoveAll (rg_log_dir s)));
     ws \<leftarrow> lift_io (guest_warnings (rg_guests s));
     _ \<leftarrow> lift_io (show_warnings ws);
     _ \<leftarrow> check (ws = []) (test @ '': no guest logs a kernel warning'');
     give ()}"


subsection \<open>Operations that do nothing but calls\<close>

lemma calls_option [intro!]:
  "(x = None \<Longrightarrow> calls_host m) \<Longrightarrow> (\<And>y. x = Some y \<Longrightarrow> calls_host (f y)) \<Longrightarrow> calls_host (case x of None \<Rightarrow> m | Some y \<Rightarrow> f y)"
  by (cases x) simp_all

lemma calls_sum [intro!]:
  "(\<And>y. x = Inl y \<Longrightarrow> calls_host (f y)) \<Longrightarrow> (\<And>y. x = Inr y \<Longrightarrow> calls_host (g y)) \<Longrightarrow>
   calls_host (case x of Inl y \<Rightarrow> f y | Inr y \<Rightarrow> g y)"
  by (cases x) simp_all

lemma calls_list [intro!]:
  "(x = [] \<Longrightarrow> calls_host m) \<Longrightarrow> (\<And>y ys. x = y # ys \<Longrightarrow> calls_host (f y ys)) \<Longrightarrow>
   calls_host (case x of [] \<Rightarrow> m | y # ys \<Rightarrow> f y ys)"
  by (cases x) simp_all

lemma calls_prod [intro!]: "(\<And>a b. x = (a, b) \<Longrightarrow> calls_host (f a b)) \<Longrightarrow> calls_host (case x of (a, b) \<Rightarrow> f a b)"
  by (cases x) simp_all

lemma calls_for_each [intro!]: "(\<And>x. calls_host (f x)) \<Longrightarrow> calls_host (for_each f xs)"
  by (induction xs) auto

lemma calls_first_error [intro!]: "(\<And>x. calls_host (f x)) \<Longrightarrow> calls_host (first_error f xs)"
  by (induction xs) auto

lemma calls_wait_loop [intro!]: "(\<And>s. calls_host (cond s)) \<Longrightarrow> calls_host (wait_loop cond timeout pause s)"
  unfolding wait_loop_def by (intro calls_host_bind wait_rounds_calls calls_host_small)

lemmas calls_steps = calls_host_bind calls_host_if calls_host_ret calls_host_sys calls_host_small calls_option calls_sum
  calls_list calls_prod calls_for_each calls_first_error calls_wait_loop wait_calls

lemmas calls_known [intro!] = calm_io [THEN calm_calls] calm_run [THEN calm_calls] calm_vdpa [THEN calm_calls]
  calm_guest [THEN calm_calls] calm_show_warnings [THEN calm_calls] calm_guest_warnings [THEN calm_calls]

lemma calls_print [intro!]: "calls_host (println s)" "calls_host (print s)"
  unfolding println_def print_def by (intro calls_steps)+

lemma calls_host_reads [intro!]:
  "calls_host (pci_driver a)" "calls_host (iommu_group a)" "calls_host (pci_netdev a)" "calls_host (host_interfaces n)"
  "calls_host (parent_pid pid)" "calls_host (is_uml pid)" "calls_host (run_argv xs)"
  unfolding pci_driver_def iommu_group_def pci_netdev_def host_interfaces_def parent_pid_def is_uml_def run_argv_def
  by (intro calls_steps calls_known)+

lemma calls_holders [intro!]: "calls_host (pci_holders a)"
proof -
  have "calls_host (holders_of dev pids fds)" for dev pids fds
    unfolding calls_host_def by (rule emits_mono [OF holders_emits]) simp
  then show ?thesis unfolding pci_holders_def by (intro calls_steps calls_host_reads)
qed

lemma calls_uml [intro!]: "calls_host (uml_pid launcher)"
proof -
  have above: "calls_host (above k l p)" for k l p
    by (induction k arbitrary: p) (auto simp del: calls_host_def)
  have "calls_host (first_uml l ps)" for l ps
    unfolding below_def
    by (induction ps) (auto simp: below_def intro!: above)
  then show ?thesis unfolding uml_pid_def by (intro calls_steps)
qed

lemma calls_changes [intro!]:
  "calls_host (bind_vfio a)" "calls_host (bind_native a)" "calls_host (place_irqs n c)" "calls_host (release net)"
  "calls_host (need_tool tool)" "calls_host (tee_output p)" "calls_host (make_log_dir n)" "calls_host (launch_guest p l)"
  "calls_host (end_guest_of g)"
  unfolding bind_vfio_def bind_native_def place_irqs_def place_irq_def release_def unmanaged_def without_supplicant_def
    need_tool_def tee_output_def make_log_dir_def launch_guest_def end_guest_of_def
  by (intro calls_steps calls_known calls_host_reads)+

lemma calls_and_then [intro!]: "calls_host m \<Longrightarrow> calls_host n \<Longrightarrow> calls_host (and_then m n)"
  unfolding and_then_def by (intro calls_steps)

lemma calls_ready [intro!]: "calls_host (guest_ready g p)"
  unfolding guest_ready_def says_or_ended_def by (intro calls_steps calls_known)

text \<open>Operations that make only calls of a kind.\<close>

definition makes :: "(call \<Rightarrow> bool) \<Rightarrow> 'a io \<Rightarrow> bool" where
  "makes p m \<longleftrightarrow> emits m (\<lambda>x. only p)"

lemma makes_ret: "makes p (ret x)"
  unfolding makes_def by (rule emits_ret) simp

lemma makes_bind: "makes p m \<Longrightarrow> (\<And>x. makes p (f x)) \<Longrightarrow> makes p (m \<bind> f)"
  unfolding makes_def by (rule only_emits_bind)

lemma makes_if: "(b \<Longrightarrow> makes p m) \<Longrightarrow> (\<not> b \<Longrightarrow> makes p n) \<Longrightarrow> makes p (if b then m else n)"
  by simp

lemma makes_sys: "p c \<Longrightarrow> makes p (sys c)" "p c \<Longrightarrow> makes p (do_sys c)" "p c \<Longrightarrow> makes p (ask c)"
  "p (Stat f) \<Longrightarrow> makes p (stat_ok f)" "p Now \<Longrightarrow> makes p now" "p (Print (s @ [newline])) \<Longrightarrow> makes p (println s)"
proof -
  have sys: "p c \<Longrightarrow> makes p (sys c)" for c unfolding makes_def by (rule emits_sys) simp
  then show "p c \<Longrightarrow> makes p (sys c)" .
  show "p c \<Longrightarrow> makes p (do_sys c)" "p c \<Longrightarrow> makes p (ask c)" "p (Stat f) \<Longrightarrow> makes p (stat_ok f)" "p Now \<Longrightarrow> makes p now"
    "p (Print (s @ [newline])) \<Longrightarrow> makes p (println s)"
    unfolding do_sys_def ask_def stat_ok_def now_def println_def by (intro makes_bind makes_ret sys, assumption)+
qed

lemma makes_cases:
  "(a = None \<Longrightarrow> makes p m) \<Longrightarrow> (\<And>y. a = Some y \<Longrightarrow> makes p (f y)) \<Longrightarrow> makes p (case a of None \<Rightarrow> m | Some y \<Rightarrow> f y)"
  "(\<And>y. b = Inl y \<Longrightarrow> makes p (g y)) \<Longrightarrow> (\<And>y. b = Inr y \<Longrightarrow> makes p (h y)) \<Longrightarrow> makes p (case b of Inl y \<Rightarrow> g y | Inr y \<Rightarrow> h y)"
  "(c = [] \<Longrightarrow> makes p m) \<Longrightarrow> (\<And>y ys. c = y # ys \<Longrightarrow> makes p (k y ys)) \<Longrightarrow> makes p (case c of [] \<Rightarrow> m | y # ys \<Rightarrow> k y ys)"
  "(\<And>u v. d = (u, v) \<Longrightarrow> makes p (l u v)) \<Longrightarrow> makes p (case d of (u, v) \<Rightarrow> l u v)"
  by (auto split: option.split sum.split list.split prod.split)

lemma makes_lists:
  "(\<And>x. x \<in> set xs \<Longrightarrow> makes p (f x)) \<Longrightarrow> makes p (for_each f xs)"
  "(\<And>x. x \<in> set xs \<Longrightarrow> makes p (g x)) \<Longrightarrow> makes p (first_error g xs)"
  by (induction xs) (auto intro!: makes_ret makes_bind makes_cases)

lemma makes_wait_loop:
  assumes "\<And>s. makes p (cond s)" "p Now" "p (Sleep pause)"
  shows "makes p (wait_loop cond timeout pause s)"
proof -
  have "makes p (wait_rounds k cond stop pause s)" for k stop s
    by (induction k arbitrary: s) (auto intro!: makes_ret makes_bind makes_if makes_sys assms)
  then show ?thesis unfolding wait_loop_def by (intro makes_bind makes_sys assms)
qed

lemma makes_wait: "makes p cond \<Longrightarrow> p Now \<Longrightarrow> p (Sleep pause) \<Longrightarrow> makes p (wait cond timeout pause)"
  unfolding wait_def by (intro makes_bind makes_ret makes_wait_loop)

lemmas makes_steps = makes_bind makes_ret makes_if makes_sys makes_cases makes_lists makes_wait makes_wait_loop

lemma makes_run:
  "p (RunCmd d n c xs) \<Longrightarrow> makes p (run_context d n c xs)" "p (RunCmd [] n c xs) \<Longrightarrow> makes p (run_timeout n c xs)"
  "p (RunCmd [] 0 c xs) \<Longrightarrow> makes p (run_cmd c xs)" "p (RunCmd [] 0 c xs) \<Longrightarrow> makes p (must_run c xs)"
  "p (RunCmd [] 0 c xs) \<Longrightarrow> makes p (run_argv (c # xs))"
  unfolding must_run_def run_argv_def run_cmd_def run_timeout_def run_context_def list.case by (intro makes_steps, assumption)+

lemma emits_only: "makes p m \<Longrightarrow> emits m (\<lambda>x. only p)"
  by (simp add: makes_def)

lemma run_cmd_emits: "emits (run_cmd c xs) (\<lambda>x t. \<exists>r. t = [(RunCmd [] 0 c xs, r)] \<and> r_stdout x = nth_datum r 0)"
  unfolding run_cmd_def run_timeout_def run_context_def
  by (intro emits_steps) (auto simp: run_result_def Let_def split: option.splits)

text \<open>
  A suite of this kind records the failures that it prints and keeps the rest of its state, as a client of
  this interface sees it in \<open>frame\<close>, which has none of what the operations above change.
\<close>

locale rig_log = failure_log subseq frame for frame :: "'z rig_scheme \<Rightarrow> 'b" +
  assumes frame_marks: "frame (s\<lparr>rg_marks := m\<rparr>) = frame s"
    and frame_guests: "frame (s\<lparr>rg_guests := gs\<rparr>) = frame s"
    and frame_dirs: "frame (s\<lparr>rg_dir := d\<rparr>) = frame s" "frame (s\<lparr>rg_log_dir := d\<rparr>) = frame s"
begin

abbreviation tells :: "('z rig_scheme, 'a) job \<Rightarrow> bool" where
  "tells \<equiv> logged subseq frame"

lemma tells_host [intro!]: "calls_host m \<Longrightarrow> tells (lift_io m)"
  by (rule subseq_host) unfold_locales

lemma tells_marks [intro!]: "tells (change (set_marks g))"
  by (rule logged_change) (simp add: set_marks_def frame_marks)

lemma tells_guests [intro!]: "tells (change (\<lambda>s. s\<lparr>rg_guests := f s\<rparr>))"
  by (rule logged_change) (simp add: frame_guests)

lemma tells_dirs [intro!]: "tells (change (\<lambda>s. s\<lparr>rg_dir := d\<rparr>))" "tells (change (\<lambda>s. s\<lparr>rg_log_dir := d\<rparr>))"
  by (rule logged_change, simp add: frame_dirs)+

lemma tells_ask [intro!]: "tells (ask_guest g l t)"
  unfolding ask_guest_def by auto

lemma tells_rig [intro!]:
  "tells (ask_counters g)" "tells (say w)" "tells (host_run c xs)" "tells (rig_run t argv)"
  "tells (launch_rig la p w)" "tells (rig_detach n)" "tells (rig_begin n d tn)" "tells (rig_end n tn gone)"
  unfolding ask_counters_def say_def host_run_def rig_run_def launch_rig_def rig_detach_def rig_begin_def
    rig_end_def Let_def
  by (auto split: list.split)

end

end
