(* ===== verification/NetTests.thy ===== *)
theory NetTests
  imports Rig
begin

text \<open>
  cmd/invirtio-test/net.go: the tests of the virtio-net backend, with a veth pair or the two ports of an
  X710. The iperf3 run that goes on across the kill of a guest is one call where its result is taken.
  \<open>compile\<close> stands for \<open>regexp.Compile\<close>.
\<close>

definition net_name :: string where "net_name = ''vnet-test''"
definition net_mtu :: nat where "net_mtu = 9000"
definition net_guest_port :: string where "net_guest_port = ''0000:05:00.0''"
definition net_peer_port :: string where "net_peer_port = ''0000:05:00.1''"
definition net_peer_ns :: string where "net_peer_ns = ''vnet-peer''"
definition net_min_rate :: float where "net_min_rate = float_of 50000000"

definition net_features :: "(string \<times> nat) list" where
  "net_features = [(''CSUM'', 0), (''GUEST_CSUM'', 1), (''MTU'', 3), (''MAC'', 5), (''GUEST_TSO4'', 7),
     (''GUEST_TSO6'', 8), (''GUEST_ECN'', 9), (''HOST_TSO4'', 11), (''HOST_TSO6'', 12),
     (''HOST_ECN'', 13), (''MRG_RXBUF'', 15), (''STATUS'', 16), (''SPEED_DUPLEX'', 63)]"

definition net_error_counters :: "string list" where
  "net_error_counters = [''tx_invalid'', ''tx_dropped'', ''rx_oversized'', ''rx_unsupported'',
     ''q0_bad_requests'', ''q1_bad_requests'', ''q0_inject_errors'', ''q1_inject_errors'']"

definition net_errors :: "string list" where
  "net_errors = [''is broken'', ''dropping a bad request'', ''cannot '', ''is gone'']"

text \<open>Port 1 of the X710 in its namespace, with its servers.\<close>

record far_end =
  fe_net :: string
  fe_servers :: "string list"
  fe_link_down :: string

record net_suite = rig +
  ns_build :: string
  ns_out :: string
  ns_x710 :: bool
  ns_host_addr :: string
  ns_peer_addr :: string
  ns_peer_net :: string
  ns_netdev :: string
  ns_far :: "far_end option"
  ns_port_driver :: string

type_synonym 'a net = "(net_suite, 'a) job"


subsection \<open>The far end\<close>

definition peer_on_host :: "unit io" where
  "peer_on_host = do {
     _ \<leftarrow> wait (do {n \<leftarrow> pci_netdev net_peer_port; ret (n \<noteq> [])}) 10000 100;
     ret ()}"

definition far_stop :: "far_end \<Rightarrow> unit io" where
  "far_stop f = do {
     _ \<leftarrow> for_each stop_server (fe_servers f);
     _ \<leftarrow> run_argv (in_ns net_peer_ns [''ip'', ''link'', ''set'', fe_net f, ''netns'', ''1'']);
     _ \<leftarrow> run_cmd ''ip'' [''netns'', ''del'', net_peer_ns];
     _ \<leftarrow> peer_on_host;
     _ \<leftarrow> run_cmd ''ethtool'' [''--set-priv-flags'', fe_net f, ''link-down-on-close'', fe_link_down f];
     ret ()}"

definition link_down_re :: re where
  "link_down_re = seqs [line_begin, Lit ''link-down-on-close'', many re_space, Lit '':'', many re_space,
     Grp 1 (Or (Lit ''on'') (Lit ''off''))]"

definition peer_commands :: "string \<Rightarrow> string \<Rightarrow> string list list" where
  "peer_commands net addr =
     [[''ip'', ''netns'', ''add'', net_peer_ns],
      [''ip'', ''link'', ''set'', net, ''netns'', net_peer_ns],
      in_ns net_peer_ns [''ip'', ''link'', ''set'', net, ''mtu'', show_nat net_mtu, ''up''],
      in_ns net_peer_ns [''ip'', ''addr'', ''add'', addr @ ''/24'', ''dev'', net],
      in_ns net_peer_ns [''ip'', ''link'', ''set'', ''lo'', ''up'']]"

definition server_argv :: "string \<Rightarrow> string list" where
  "server_argv server = in_ns net_peer_ns [server, if server = ''netserver'' then ''-D'' else ''-s'']"

definition must_argv :: "string list \<Rightarrow> err option io" where
  "must_argv argv = must_run (hd argv) (tl argv)"

fun start_servers :: "far_end \<Rightarrow> string list \<Rightarrow> far_end res io" where
  "start_servers f [] = ret (Inr f)"
| "start_servers f (server # rest) = do {
     p \<leftarrow> ask (StartProc (server_argv server));
     (case p of
        Inl e \<Rightarrow> do {_ \<leftarrow> far_stop f; ret (Inl e)}
      | Inr pid \<Rightarrow> start_servers (f\<lparr>fe_servers := fe_servers f @ [pid]\<rparr>) rest)}"

definition start_peer :: "string \<Rightarrow> string list \<Rightarrow> far_end res io" where
  "start_peer addr servers = do {
     _ \<leftarrow> run_cmd ''ip'' [''netns'', ''del'', net_peer_ns];
     _ \<leftarrow> peer_on_host;
     net \<leftarrow> pci_netdev net_peer_port;
     if net = [] then ret (Inl (Msg (net_peer_port @ '' has no interface on the host'')))
     else do {
       r \<leftarrow> run_cmd ''ethtool'' [''--show-priv-flags'', net];
       (case find_groups link_down_re (r_stdout r) of
          None \<Rightarrow> ret (Inl (Msg (''ethtool shows no link-down-on-close flag for '' @ net)))
        | Some m \<Rightarrow> do {
            let f = \<lparr>fe_net = net, fe_servers = [], fe_link_down = m 1\<rparr>;
            e \<leftarrow> must_run ''ethtool'' [''--set-priv-flags'', net, ''link-down-on-close'', ''on''];
            (case e of
               Some e \<Rightarrow> ret (Inl e)
             | None \<Rightarrow> do {
                 _ \<leftarrow> release net;
                 e \<leftarrow> first_error must_argv (peer_commands net addr);
                 (case e of
                    Some e \<Rightarrow> do {_ \<leftarrow> far_stop f; ret (Inl e)}
                  | None \<Rightarrow> start_servers f servers)})})}}"

text \<open>Port 0 goes back to the driver that it had.\<close>

definition restore_port :: "string \<Rightarrow> unit io" where
  "restore_port driver = do {
     d \<leftarrow> pci_driver net_guest_port;
     if d = driver then ret ()
     else if driver = ''vfio-pci'' then do {_ \<leftarrow> bind_vfio net_guest_port; ret ()}
     else do {_ \<leftarrow> bind_native net_guest_port; ret ()}}"


subsection \<open>Set-up\<close>

definition net_tools :: "bool \<Rightarrow> string list" where
  "net_tools x710 = [''iperf3'', ''vdpa'', ''ip'', ''ping''] @ (if x710 then [''ethtool''] else [])"

definition net_host :: "bool \<Rightarrow> string \<Rightarrow> err option io" where
  "net_host x710 out_dir = and_then (first_error need_tool (net_tools x710))
     (and_then (modprobe [''vduse'', ''vdpa'', ''virtio_vdpa'', ''virtio_net''])
       (and_then (do_sys (MkdirAll out_dir 493)) (tee_output (path_join [out_dir, ''test.log'']))))"

definition port_free :: "err option io" where
  "port_free = and_then (modprobe [''vfio-pci'', ''i40e'']) (do {
     pids \<leftarrow> pci_holders net_guest_port;
     ret (case pids of [] \<Rightarrow> None
       | p # _ \<Rightarrow> Some (Msg (net_guest_port @ '' is in use by process '' @ show_int p @ '', stop its guest first'')))})"

definition release_port :: "unit io" where
  "release_port = do {
     net \<leftarrow> pci_netdev net_guest_port;
     if net \<noteq> [] then release net else ret ()}"

definition net_setup :: "err option net" where
  "net_setup = do {
     s \<leftarrow> suite;
     e \<leftarrow> lift_io (net_host (ns_x710 s) (ns_out s));
     if e \<noteq> None then give e
     else if \<not> ns_x710 s then do {
       _ \<leftarrow> change (\<lambda>s. s\<lparr>ns_host_addr := ''10.72.0.1'', ns_peer_addr := ''10.72.0.2'', ns_peer_net := ''veth1'', ns_netdev := ''veth0''\<rparr>);
       give None}
     else do {
       _ \<leftarrow> change (\<lambda>s. s\<lparr>ns_host_addr := ''10.71.0.1'', ns_peer_addr := ''10.71.0.2'', ns_netdev := ''eth0''\<rparr>);
       e \<leftarrow> lift_io port_free;
       if e \<noteq> None then give e
       else do {
         d \<leftarrow> lift_io (pci_driver net_guest_port);
         _ \<leftarrow> change (\<lambda>s. s\<lparr>ns_port_driver := d\<rparr>);
         _ \<leftarrow> lift_io release_port;
         s \<leftarrow> suite;
         r \<leftarrow> lift_io (start_peer (ns_peer_addr s) [''iperf3'']);
         (case r of
            Inl e \<Rightarrow> give (Some e)
          | Inr f \<Rightarrow> do {
              _ \<leftarrow> change (\<lambda>s. s\<lparr>ns_far := Some f, ns_peer_net := fe_net f\<rparr>);
              give None})}}}"

definition net_teardown :: "unit net" where
  "net_teardown = do {
     s \<leftarrow> suite;
     if \<not> ns_x710 s then give ()
     else do {
       _ \<leftarrow> lift_io (case ns_far s of None \<Rightarrow> ret () | Some f \<Rightarrow> far_stop f);
       _ \<leftarrow> change (\<lambda>s. s\<lparr>ns_far := None\<rparr>);
       lift_io (restore_port (ns_port_driver s))}}"


subsection \<open>Guests and traffic\<close>

definition net_launch :: "net_suite \<Rightarrow> launch" where
  "net_launch s = \<lparr>l_build = ns_build s, l_type = ''net'', l_name = net_name,
     l_options = ''netdev='' @ ns_netdev s @ '',mtu='' @ show_nat net_mtu, l_log_dir = rg_log_dir s,
     l_devices = (if ns_x710 s then [net_guest_port] else []),
     l_args = [''mem=512M'', ''init_shell''] @ (if ns_x710 s then [] else [''veth_test'']), l_cgroup = []\<rparr>"

definition net_ready :: "string \<Rightarrow> bool" where
  "net_ready l \<longleftrightarrow> (str_contains l (net_name @ '': created'') \<or> str_contains l (net_name @ '': reconnecting'')) \<and>
     str_contains l ''net-test-init: ready''"

definition net_start :: "guest option net" where
  "net_start = do {
     s \<leftarrow> suite;
     launch_rig (net_launch s) net_ready ''reaches the device''}"

definition net_configure :: "string \<Rightarrow> nat \<Rightarrow> bool net" where
  "net_configure net mtu = do {
     s \<leftarrow> suite;
     e \<leftarrow> lift_io (first_error must_argv
       [[''ip'', ''link'', ''set'', net, ''mtu'', show_nat mtu],
        [''ip'', ''addr'', ''replace'', ns_host_addr s @ ''/24'', ''dev'', net],
        [''ip'', ''link'', ''set'', net, ''up'']]);
     check (e = None) (net @ '' is configured with MTU '' @ show_nat mtu @ err_suffix e)}"

definition first_interface :: "string io" where
  "first_interface = do {
     nets \<leftarrow> host_interfaces net_name;
     ret (case nets of [] \<Rightarrow> [] | n # _ \<Rightarrow> n)}"

text \<open>The interface that the last look found, which the closure keeps.\<close>

definition find_interface :: "string \<Rightarrow> (bool \<times> string) io" where
  "find_interface net = do {
     n \<leftarrow> first_interface;
     let net = (if n = [] then net else n);
     ret (net \<noteq> [], net)}"

definition wait_interface :: "string io" where
  "wait_interface = do {
     r \<leftarrow> wait_loop find_interface 30000 100 [];
     ret (case r of None \<Rightarrow> [] | Some x \<Rightarrow> snd x)}"

definition net_attach :: "string net" where
  "net_attach = do {
     e \<leftarrow> lift_io (attach_dev net_name);
     ok \<leftarrow> check (e = None) (''vdpa dev add attaches the device'' @ err_suffix e);
     if \<not> ok then give []
     else do {
       net \<leftarrow> lift_io wait_interface;
       ok \<leftarrow> check (net \<noteq> []) ''the host gets an interface'';
       if \<not> ok then give []
       else do {
         _ \<leftarrow> lift_io (release net);
         _ \<leftarrow> lift_io (place_irqs net_name (- 1));
         ok \<leftarrow> net_configure net net_mtu;
         give (if ok then net else [])}}}"

definition net_file :: "string \<Rightarrow> string \<Rightarrow> string io" where
  "net_file net file = read_text (path_join [''/sys/class/net'', net, file])"

definition wait_carrier :: "string \<Rightarrow> bool \<Rightarrow> bool io" where
  "wait_carrier net on =
     wait (do {c \<leftarrow> net_file net ''carrier''; ret (c = (if on then ''1'' else ''0''))}) 30000 100"

text \<open>A guest, attached and with carrier.\<close>

definition net_up :: "(guest \<times> string) option net" where
  "net_up = do {
     g \<leftarrow> net_start;
     (case g of
        None \<Rightarrow> give None
      | Some g \<Rightarrow> do {
          net \<leftarrow> net_attach;
          if net = [] then give None
          else do {
            on \<leftarrow> lift_io (wait_carrier net True);
            ok \<leftarrow> check on (net @ '' has carrier'');
            give (if ok then Some (g, net) else None)}})}"

text \<open>A shell command at the far end: in its namespace with the X710, and in the guest otherwise.\<close>

definition peer_x710 :: "string \<Rightarrow> (string \<times> bool) net" where
  "peer_x710 cmd = do {
     r \<leftarrow> rig_run 120000 (in_ns net_peer_ns [''sh'', ''-c'', cmd]);
     give (run_output r, run_ok r)}"

definition net_peer :: "guest \<Rightarrow> string \<Rightarrow> (string \<times> bool) net" where
  "net_peer g cmd = do {
     s \<leftarrow> suite;
     if ns_x710 s then peer_x710 cmd
     else do {
       out \<leftarrow> ask_guest g (cmd @ ''; echo peer-status=$?'') 120000;
       give (out, str_contains out ''peer-status=0'')}}"

definition net_ping :: "guest \<Rightarrow> bool \<Rightarrow> bool net" where
  "net_ping g from_peer = do {
     s \<leftarrow> suite;
     out \<leftarrow> (if from_peer then do {r \<leftarrow> net_peer g (''ping -c 5 -W 1 '' @ ns_host_addr s); give (fst r)}
            else do {r \<leftarrow> rig_run 60000 [''ping'', ''-c'', ''5'', ''-W'', ''1'', ns_peer_addr s]; give (run_output r)});
     give (case parse_ping out of (p, ok) \<Rightarrow> ok \<and> p_received p > 0)}"

definition fast_enough :: "iperf \<times> err option \<Rightarrow> bool" where
  "fast_enough r \<longleftrightarrow> snd r = None \<and> flt_less net_min_rate (received_bps (fst r))"

definition gbps :: "iperf \<Rightarrow> string" where
  "gbps r = show_float 2 (flt_div (received_bps r) (float_of 1000000000))"

definition show_link :: "string \<Rightarrow> unit io" where
  "show_link net = do {
     r \<leftarrow> run_cmd ''ip'' [''-s'', ''-s'', ''link'', ''show'', net];
     println (r_stdout r)}"

definition show_slow :: "guest \<Rightarrow> string list \<Rightarrow> cmd_result \<Rightarrow> unit net" where
  "show_slow g argv r = do {
     _ \<leftarrow> say (join_with '' '' argv @ '' exited with '' @ show_int (r_code r) @ err_suffix (r_err r) @ '': '' @ trim_space (r_stderr r));
     _ \<leftarrow> say (tail_of 2000 (r_stdout r));
     nets \<leftarrow> lift_io (host_interfaces net_name);
     _ \<leftarrow> lift_io (for_each show_link nets);
     s \<leftarrow> suite;
     _ \<leftarrow> (if ns_x710 s then give () else do {
            out \<leftarrow> ask_guest g ''pidof iperf3; tail -20 /tmp/iperf3.log'' 10000;
            say (''guest iperf3 server:'' @ out)});
     out \<leftarrow> ask_guest g (''ip -s link show '' @ ns_netdev s @ ''; cat /proc/vduse_guest'') 10000;
     say (''guest:'' @ out)}"

definition net_iperf :: "guest \<Rightarrow> nat \<Rightarrow> string list \<Rightarrow> (iperf \<times> err option) net" where
  "net_iperf g seconds args = do {
     s \<leftarrow> suite;
     let argv = [''iperf3'', ''-c'', ns_peer_addr s, ''-J'', ''-t'', show_nat seconds] @ args;
     r \<leftarrow> rig_run ((seconds + 60) * 1000) argv;
     let res = parse_iperf (r_stdout r);
     ended \<leftarrow> (if fast_enough res then give True else lift_io ctx_ended);
     if ended then give res
     else do {
       _ \<leftarrow> show_slow g argv r;
       give res}}"

definition error_lines :: "string \<Rightarrow> string list" where
  "error_lines l = map trim_space (filter (\<lambda>line. list_ex (str_contains line) net_errors) (split_on newline l))"

definition net_healthy :: "guest \<Rightarrow> unit net" where
  "net_healthy g = do {
     t \<leftarrow> ask_counters g;
     ok \<leftarrow> check (counter_list t \<noteq> []) ''the guest reports its counters'';
     if \<not> ok then give ()
     else do {
       let bad = counters_off net_error_counters (parse_counters t);
       _ \<leftarrow> check (bad = []) (''the guest's error counters are zero'' @ list_suffix ''but'' bad);
       l \<leftarrow> lift_io (guest_log g);
       let errs = error_lines l;
       _ \<leftarrow> lift_io (for_each (\<lambda>e. println (''  '' @ e)) errs);
       _ \<leftarrow> check (errs = []) ''the guest logs no error'';
       give ()}}"


subsection \<open>The tests\<close>

definition with_net :: "(guest \<Rightarrow> string \<Rightarrow> unit net) \<Rightarrow> unit net" where
  "with_net k = do {
     r \<leftarrow> net_up;
     (case r of None \<Rightarrow> give () | Some (g, net) \<Rightarrow> k g net)}"

definition missing_features :: "string \<Rightarrow> string list" where
  "missing_features bits = map fst (filter (\<lambda>(n, b). length bits \<le> b \<or> bits ! b \<noteq> CHR ''1'') net_features)"

definition net_test_device :: "unit net" where
  "net_test_device = with_net (\<lambda>g net. do {
     s \<leftarrow> suite;
     out \<leftarrow> ask_guest g (''cat /sys/class/net/'' @ ns_netdev s @ ''/address'') 10000;
     let mac = trim_space out;
     addr \<leftarrow> (if mac \<noteq> [] then lift_io (net_file net ''address'') else give []);
     _ \<leftarrow> check (mac \<noteq> [] \<and> addr = mac) (net @ '' has the address of the guest's '' @ ns_netdev s @ '', '' @ mac);
     mtu \<leftarrow> lift_io (net_file net ''mtu'');
     mtu' \<leftarrow> lift_io (net_file net ''mtu'');
     _ \<leftarrow> check (mtu = show_nat net_mtu) (net @ '' has the guest's MTU '' @ show_nat net_mtu @ '': '' @ mtu');
     bits \<leftarrow> lift_io (net_file net ''device/features'');
     _ \<leftarrow> check (missing_features bits = []) (''every feature is negotiated'' @ list_suffix ''missing'' (missing_features bits));
     speed \<leftarrow> lift_io (net_file net ''speed'');
     duplex \<leftarrow> (if speed = ''10000'' then lift_io (net_file net ''duplex'') else give []);
     speed' \<leftarrow> lift_io (net_file net ''speed'');
     duplex' \<leftarrow> lift_io (net_file net ''duplex'');
     _ \<leftarrow> check (speed = ''10000'' \<and> duplex = ''full'') (net @ '' reports 10000 Mb/s full duplex: '' @ speed' @ '' '' @ duplex');
     net_healthy g})"

definition link_local_re :: re where
  "link_local_re = seqs [Lit ''inet6 '', Grp 1 (Seq (Lit ''fe80::'') (some_of (\<lambda>c. lower_hex c \<or> c = CHR '':''))), Lit ''/'']"

definition ping_link_local :: "guest \<Rightarrow> string \<Rightarrow> unit net" where
  "ping_link_local g net = do {
     s \<leftarrow> suite;
     r \<leftarrow> net_peer g (''ip -6 -o addr show dev '' @ ns_peer_net s @ '' scope link'');
     ok \<leftarrow> (case find_groups link_local_re (fst r) of
        None \<Rightarrow> give False
      | Some m \<Rightarrow> do {
          r \<leftarrow> rig_run 60000 [''ping'', ''-c'', ''5'', ''-W'', ''1'', m 1 @ ''%'' @ net];
          give (case parse_ping (run_output r) of (p, rtt) \<Rightarrow> rtt \<and> p_received p > 0)});
     _ \<leftarrow> check ok ''the host pings the far end's IPv6 link-local address'';
     give ()}"

text \<open>One run of each direction and number of streams, until one fails.\<close>

definition traffic_runs :: "(bool \<times> nat) list" where
  "traffic_runs = [(False, 1), (False, 4), (True, 1), (True, 4)]"

fun traffic_at :: "guest \<Rightarrow> nat \<Rightarrow> (bool \<times> nat) list \<Rightarrow> bool net" where
  "traffic_at g mtu [] = give True"
| "traffic_at g mtu ((back, streams) # runs) = do {
     r \<leftarrow> net_iperf g 5 ([''-P'', show_nat streams] @ (if back then [''-R''] else []));
     ok \<leftarrow> check (fast_enough r) (''iperf3 at MTU '' @ show_nat mtu @ '', '' @
        (if back then ''far end to host'' else ''host to far end'') @ '', with '' @ show_nat streams @ '' stream(s): '' @
        gbps (fst r) @ '' Gb/s'' @ err_suffix (snd r));
     if \<not> ok then give False else traffic_at g mtu runs}"

fun traffic_mtus :: "guest \<Rightarrow> string \<Rightarrow> nat list \<Rightarrow> bool net" where
  "traffic_mtus g net [] = give True"
| "traffic_mtus g net (mtu # mtus) = do {
     ok \<leftarrow> net_configure net mtu;
     if \<not> ok then give False
     else do {
       s \<leftarrow> suite;
       r \<leftarrow> net_peer g (''ip link set '' @ ns_peer_net s @ '' mtu '' @ show_nat mtu);
       _ \<leftarrow> check (snd r) (''the far end's MTU is set to '' @ show_nat mtu);
       ok \<leftarrow> traffic_at g mtu traffic_runs;
       if \<not> ok then give False else traffic_mtus g net mtus}}"

definition check_grows :: "counters \<Rightarrow> counters \<Rightarrow> string \<Rightarrow> unit net" where
  "check_grows before after n = do {
     _ \<leftarrow> check (at_key after n > at_key before n) (''the guest's '' @ n @ '' grows: '' @ show_int (at_key before n) @
        '' to '' @ show_int (at_key after n));
     give ()}"

definition check_ping :: "guest \<Rightarrow> bool \<Rightarrow> string \<Rightarrow> unit net" where
  "check_ping g from_peer what = do {
     ok \<leftarrow> net_ping g from_peer;
     _ \<leftarrow> check ok what;
     give ()}"

definition net_test_traffic :: "unit net" where
  "net_test_traffic = with_net (\<lambda>g net. do {
     before \<leftarrow> ask_counters g;
     _ \<leftarrow> check_ping g False ''the host pings the far end'';
     _ \<leftarrow> check_ping g True ''the far end pings the host'';
     s \<leftarrow> suite;
     _ \<leftarrow> (if ns_x710 s then ping_link_local g net else give ());
     ok \<leftarrow> traffic_mtus g net [net_mtu, 1500];
     if \<not> ok then give ()
     else do {
       after \<leftarrow> ask_counters g;
       _ \<leftarrow> each (check_grows (parse_counters before) (parse_counters after)) [''tx_gso'', ''rx_gso''];
       net_healthy g}})"

definition check_carrier :: "string \<Rightarrow> bool \<Rightarrow> bool \<Rightarrow> string \<Rightarrow> unit net" where
  "check_carrier net ok on what = do {
     on \<leftarrow> (if ok then lift_io (wait_carrier net on) else give False);
     _ \<leftarrow> check on what;
     give ()}"

definition net_test_link :: "unit net" where
  "net_test_link = with_net (\<lambda>g net. do {
     s \<leftarrow> suite;
     r \<leftarrow> net_peer g (''ip link set '' @ ns_peer_net s @ '' down'');
     _ \<leftarrow> check_carrier net (snd r) False (net @ '' loses carrier when the far end goes down'');
     r \<leftarrow> net_peer g (''ip link set '' @ ns_peer_net s @ '' up'');
     _ \<leftarrow> check_carrier net (snd r) True (net @ '' gets carrier back when the far end comes up'');
     _ \<leftarrow> check_ping g False ''the host pings the far end'';
     t \<leftarrow> ask_counters g;
     let n = at_key (parse_counters t) ''link_changes'';
     _ \<leftarrow> check (n \<ge> 2) (''the guest reports the link changes: '' @ show_int n);
     net_healthy g})"

primrec net_reattach :: "nat \<Rightarrow> guest \<Rightarrow> bool net" where
  "net_reattach 0 g = give True"
| "net_reattach (Suc k) g = do {
     ok \<leftarrow> rig_detach net_name;
     if \<not> ok then give False
     else do {
       net \<leftarrow> net_attach;
       if net = [] then give False
       else do {
         on \<leftarrow> lift_io (wait_carrier net True);
         ok \<leftarrow> (if on then net_ping g False else give False);
         _ \<leftarrow> check ok ''traffic passes after attaching again'';
         net_reattach k g}}}"

definition check_iperf :: "guest \<Rightarrow> unit net" where
  "check_iperf g = do {
     r \<leftarrow> net_iperf g 5 [];
     _ \<leftarrow> check (fast_enough r) (''iperf3 passes: '' @ gbps (fst r) @ '' Gb/s'' @ err_suffix (snd r));
     give ()}"

definition net_test_reattach :: "unit net" where
  "net_test_reattach = with_net (\<lambda>g net. do {
     ok \<leftarrow> net_reattach 2 g;
     if \<not> ok then give ()
     else do {
       _ \<leftarrow> check_iperf g;
       net_healthy g}})"

definition kill_run :: "cmd_result net" where
  "kill_run = do {
     s \<leftarrow> suite;
     rig_run 180000 [''iperf3'', ''-c'', ns_peer_addr s, ''-J'', ''-t'', ''60'']}"

definition net_test_kill :: "unit net" where
  "net_test_kill = with_net (\<lambda>g net. do {
     _ \<leftarrow> lift_io (sys (Sleep 5000));
     uml \<leftarrow> lift_io (uml_pid (int_or_zero (g_pid g)));
     ok \<leftarrow> check (uml > 0) ''the guest's UML process is found'';
     if \<not> ok then do {_ \<leftarrow> kill_run; give ()}
     else do {
       _ \<leftarrow> net_healthy g;
       _ \<leftarrow> lift_io (sys (GuestSignal (show_int uml) ''KILL''));
       gone \<leftarrow> lift_io (guest_wait g 30000);
       _ \<leftarrow> check gone ''the launcher exits when its guest is killed'';
       g2 \<leftarrow> net_start;
       (case g2 of
          None \<Rightarrow> do {_ \<leftarrow> kill_run; give ()}
        | Some g2 \<Rightarrow> do {
            l \<leftarrow> lift_io (guest_log g2);
            _ \<leftarrow> check (str_contains l (net_name @ '': reconnecting'')) ''the relaunched guest reconnects to the device'';
            _ \<leftarrow> check_carrier net True True (net @ '', which stays, gets carrier back'');
            r \<leftarrow> kill_run;
            s \<leftarrow> suite;
            _ \<leftarrow> (if \<not> ns_x710 s then give ()
                 else (let res = parse_iperf (r_stdout r) in do {
                   _ \<leftarrow> check (snd res = None \<and> flt_less zero (last_bytes (fst res)))
                     (''an iperf3 run across the kill finishes with traffic in its last second'' @ err_suffix (snd res));
                   give ()}));
            _ \<leftarrow> check_ping g2 False ''the host pings the far end through the relaunched guest'';
            _ \<leftarrow> check_iperf g2;
            net_healthy g2})}})"

definition net_test_stop :: "unit net" where
  "net_test_stop = with_net (\<lambda>g net. do {
     _ \<leftarrow> check_ping g False ''the host pings the far end'';
     _ \<leftarrow> net_healthy g;
     l \<leftarrow> lift_io (guest_log g);
     l' \<leftarrow> (if str_contains l ''Installed the sandbox filter'' then lift_io (guest_log g) else give []);
     _ \<leftarrow> check (str_contains l ''Installed the sandbox filter'' \<and> \<not> str_contains l' ''The sandbox denied'')
            ''the guest runs under its seccomp filter, which denies nothing'';
     ok \<leftarrow> rig_detach net_name;
     if \<not> ok then give ()
     else do {
       _ \<leftarrow> lift_io (guest_signal g ''TERM'');
       ended \<leftarrow> lift_io (guest_wait g 30000);
       code \<leftarrow> lift_io (if ended then guest_exit_code g else ret 1);
       _ \<leftarrow> check (ended \<and> code = 0) ''the launcher stops the guest in order'';
       there \<leftarrow> lift_io (stat_ok (''/dev/vduse/'' @ net_name));
       _ \<leftarrow> check (\<not> there) ''no VDUSE device is left'';
       s \<leftarrow> suite;
       if ns_x710 s then do {
         d \<leftarrow> lift_io (pci_driver net_guest_port);
         _ \<leftarrow> check (d = ''vfio-pci'') ''port 0 stays on vfio-pci'';
         give ()}
       else give ()}})"


subsection \<open>The suite\<close>

definition net_tests :: "net_suite test_case list" where
  "net_tests =
    [\<lparr>tc_name = ''device'', tc_about = ''the host interface has the exported address, MTU, features and speed'', tc_run = net_test_device\<rparr>,
     \<lparr>tc_name = ''traffic'', tc_about = ''pings and iperf3 pass both ways at MTU 9000 and 1500 with segmentation offloads'', tc_run = net_test_traffic\<rparr>,
     \<lparr>tc_name = ''link'', tc_about = ''the far end's link state reaches the host's carrier'', tc_run = net_test_link\<rparr>,
     \<lparr>tc_name = ''reattach'', tc_about = ''traffic passes after vdpa dev del and add'', tc_run = net_test_reattach\<rparr>,
     \<lparr>tc_name = ''kill'', tc_about = ''a guest killed under traffic is relaunched and traffic resumes'', tc_run = net_test_kill\<rparr>,
     \<lparr>tc_name = ''stop'', tc_about = ''a guest stopped after vdpa dev del destroys its device'', tc_run = net_test_stop\<rparr>]"

definition run_net_test :: "net_suite test_case \<Rightarrow> unit net" where
  "run_net_test t = do {
     s \<leftarrow> suite;
     ok \<leftarrow> rig_begin net_name (ns_out s) (tc_name t);
     if \<not> ok then give ()
     else do {
       _ \<leftarrow> change (\<lambda>s. s\<lparr>rg_guests := []\<rparr>);
       _ \<leftarrow> (if \<not> ns_x710 s then give ()
            else do {
              _ \<leftarrow> peer_x710 (''ip link set '' @ ns_peer_net s @ '' mtu '' @ show_nat net_mtu @ '' up'');
              give ()});
       _ \<leftarrow> tc_run t;
       ended \<leftarrow> lift_io ctx_ended;
       rig_end net_name (tc_name t) ended}}"

definition net_suite_run :: "int \<Rightarrow> (string \<Rightarrow> bool) \<Rightarrow> err option net" where
  "net_suite_run pid wanted = suite_run run_net_test net_tests pid wanted"

definition net_all :: "int \<Rightarrow> (string \<Rightarrow> bool) \<Rightarrow> err option net" where
  "net_all pid wanted = do {
     e \<leftarrow> net_setup;
     if e \<noteq> None then give e
     else do {
       r \<leftarrow> net_suite_run pid wanted;
       _ \<leftarrow> net_teardown;
       give r}}"

text \<open>What a second signal does, after which the program exits with status 1.\<close>

definition net_interrupted :: "unit net" where
  "net_interrupted = do {
     s \<leftarrow> suite;
     _ \<leftarrow> lift_io (for_each guest_kill (rg_guests s));
     _ \<leftarrow> lift_io (cleanup_dev net_name);
     _ \<leftarrow> net_teardown;
     _ \<leftarrow> lift_io (sys CloseTee);
     give ()}"

definition net_usage :: string where
  "net_usage = lines_of ([''usage: invirtio-test test-net [options]'', [],
     ''Test the VDUSE virtio-net backend against the host's virtio_net. Each test'',
     ''starts its own guest under the launcher and leaves no device behind. By'',
     ''default, the guest exports one end of a veth pair whose other end, in the'',
     ''guest, runs an iperf3 server. With -x710, the guest drives port 0 of the'',
     ''X710 through VFIO and exports it, and port 1, which is cabled to it, stays'',
     ''on the host's i40e in the network namespace vnet-peer as the far end. Build'',
     ''the guest with scripts/invirtio-build-guest.sh -t net-test. Every test'',
     ''checks that the guest's error counters stay at zero and that neither'',
     ''kernel logs a warning. The guests' consoles go to <test>/guest-<n>.log in'',
     ''the output directory. Run as root on the linux-host kernel, with iperf3,'',
     ''and with ethtool for -x710.'', [], ''Tests:''] @
     map (\<lambda>t. ''  '' @ pad_right 9 (tc_name t) @ '' '' @ tc_about t) net_tests)"

definition net_flags :: flag_set where
  "net_flags = [(''guest'', StringFlag), (''out'', StringFlag), (''x710'', BoolFlag), (''run'', StringFlag)]"

definition net_defaults :: "string \<Rightarrow> flag_values" where
  "net_defaults repo = Map.empty(''guest'' \<mapsto> path_join [repo, ''linux-uml/build-net-test''],
     ''out'' \<mapsto> path_join [repo, ''build/test-net''])"

definition new_net_suite :: "string \<Rightarrow> string \<Rightarrow> bool \<Rightarrow> net_suite" where
  "new_net_suite build out_dir x710 =
     \<lparr>ck_failures = [], rg_dir = [], rg_log_dir = [], rg_guests = [], rg_marks = [], ns_build = build,
      ns_out = out_dir, ns_x710 = x710, ns_host_addr = [], ns_peer_addr = [], ns_peer_net = [], ns_netdev = [],
      ns_far = None, ns_port_driver = []\<rparr>"

definition cmd_test_net :: "(string \<Rightarrow> (string \<Rightarrow> bool) res) \<Rightarrow> int \<Rightarrow> string list \<Rightarrow> outcome io" where
  "cmd_test_net compile pid args = do {
     repo \<leftarrow> repo_root;
     (case parse_flags net_flags (net_defaults repo) args of
        Inl n \<Rightarrow> usage_exit net_usage n
      | Inr (v, rest) \<Rightarrow>
          if rest \<noteq> [] then usage_exit net_usage 2
          else case compile (flag_string v ''run'') of
              Inl e \<Rightarrow> ret (Returned (Some e))
            | Inr wanted \<Rightarrow> as_test_root (do {
                p \<leftarrow> abs_path (flag_string v ''out'');
                (case p of
                   Inl e \<Rightarrow> ret (Returned (Some e))
                 | Inr dir \<Rightarrow> do {
                     r \<leftarrow> run_job (net_all pid wanted) (new_net_suite (flag_string v ''guest'') dir (flag_bool v ''x710''));
                     ret (Returned (fst r))})}))}"


subsection \<open>The report\<close>

lemma calls_far [intro!]:
  "calls_host (far_stop f)" "calls_host peer_on_host" "calls_host (must_argv argv)" "calls_host (restore_port d)"
  "calls_host (net_host x d)" "calls_host port_free" "calls_host release_port" "calls_host wait_interface"
  "calls_host (wait_carrier net on)" "calls_host (net_file net file)" "calls_host (show_link net)"
  unfolding far_stop_def stop_server_def peer_on_host_def must_argv_def restore_port_def net_host_def port_free_def
    release_port_def wait_interface_def find_interface_def first_interface_def wait_carrier_def net_file_def show_link_def
    Let_def
  by (intro calls_steps calls_known calls_host_reads calls_changes calls_print calls_and_then calls_holders)+

lemma calls_start_peer [intro!]: "calls_host (start_peer addr servers)"
proof -
  have "calls_host (start_servers f servers)" for f
    by (induction servers arbitrary: f) auto
  then show ?thesis unfolding start_peer_def Let_def
    by (intro calls_steps calls_known calls_host_reads calls_changes calls_far)
qed

text \<open>What a test leaves as it is: all but the checks and the guests.\<close>

definition net_frame :: "net_suite \<Rightarrow> net_suite" where
  "net_frame s = s\<lparr>ck_failures := [], rg_dir := [], rg_log_dir := [], rg_guests := [], rg_marks := []\<rparr>"

interpretation net_log: rig_log net_frame
  by unfold_locales (simp_all add: net_frame_def list_emb_append_mono)

lemma tells_net [intro!]:
  "net_log.tells net_start" "net_log.tells (net_configure net mtu)" "net_log.tells net_attach" "net_log.tells net_up" "net_log.tells (net_peer g c)" "net_log.tells (peer_x710 c)"
  "net_log.tells (net_ping g b)" "net_log.tells (show_slow g argv r)" "net_log.tells (net_iperf g n xs)" "net_log.tells (net_healthy g)"
  unfolding net_start_def net_configure_def net_attach_def net_up_def net_peer_def peer_x710_def net_ping_def
    show_slow_def net_iperf_def net_healthy_def Let_def
  by auto

lemma tells_checks [intro!]:
  "net_log.tells (ping_link_local g net)" "net_log.tells (check_grows c1 c2 n)" "net_log.tells (check_ping g b w)" "net_log.tells (check_carrier net on b w)"
  "net_log.tells (check_iperf g)" "net_log.tells kill_run" "net_log.tells (traffic_at g mtu runs)" "net_log.tells (traffic_mtus g net mtus)" "net_log.tells (net_reattach k g)"
proof -
  show at: "net_log.tells (traffic_at g mtu runs)" for g mtu runs
    by (induction g mtu runs rule: traffic_at.induct) auto
  show "net_log.tells (traffic_mtus g net mtus)"
    by (induction g net mtus rule: traffic_mtus.induct) (auto intro!: at)
  show ping: "net_log.tells (check_ping g b w)" for g b w unfolding check_ping_def by auto
  show "net_log.tells (net_reattach k g)"
    by (induction k) (auto simp: rig_detach_def)
qed (unfold ping_link_local_def check_grows_def check_carrier_def check_iperf_def kill_run_def, auto)

lemma tells_with [intro!]: "(\<And>g net. net_log.tells (k g net)) \<Longrightarrow> net_log.tells (with_net k)"
  unfolding with_net_def by auto

lemma tells_tests: "list_all (\<lambda>t. net_log.tells (tc_run t)) net_tests"
  unfolding net_tests_def list.pred_inject test_case.simps
    net_test_device_def net_test_traffic_def net_test_link_def net_test_reattach_def net_test_kill_def net_test_stop_def
    Let_def
  by (intro conjI) auto

interpretation net: test_suite subseq net_frame run_net_test net_tests
proof unfold_locales
  fix t assume "t \<in> set net_tests"
  then have "net_log.tells (tc_run t)" using tells_tests by (simp add: list_all_iff)
  then show "net_log.tells (run_net_test t)" unfolding run_net_test_def by auto
qed

end
