(* ===== verification/NetPeer.thy ===== *)
theory NetPeer
  imports NetTests
begin

text \<open>
  What the network tests leave at their far end: port 1 of the X710 is in a namespace only while the suite
  runs, and its link-down-on-close flag is what it was before.
\<close>

definition ns_add :: call where
  "ns_add = RunCmd [] 0 ''ip'' [''netns'', ''add'', net_peer_ns]"

definition stop_calls :: "far_end \<Rightarrow> call list" where
  "stop_calls f = concat (map (\<lambda>p. [GuestSignal p ''KILL'', GuestWait p 0]) (fe_servers f)) @
     [RunCmd [] 0 ''ip'' [''netns'', ''exec'', net_peer_ns, ''ip'', ''link'', ''set'', fe_net f, ''netns'', ''1''],
      RunCmd [] 0 ''ip'' [''netns'', ''del'', net_peer_ns]]"

definition flag_call :: "far_end \<Rightarrow> call" where
  "flag_call f = RunCmd [] 0 ''ethtool'' [''--set-priv-flags'', fe_net f, ''link-down-on-close'', fe_link_down f]"

text \<open>The servers that were started, and the flag that ethtool showed.\<close>

definition started :: "history \<Rightarrow> string list" where
  "started t = concat (map (\<lambda>(c, r). case c of StartProc a \<Rightarrow> if succeeded r then [datum r] else [] | _ \<Rightarrow> []) t)"

definition flag_of :: "far_end \<Rightarrow> history \<Rightarrow> bool" where
  "flag_of f t \<longleftrightarrow> (\<exists>r m. (RunCmd [] 0 ''ethtool'' [''--show-priv-flags'', fe_net f], r) \<in> set t \<and>
     find_groups link_down_re (nth_datum r 0) = Some m \<and> fe_link_down f = m 1)"

text \<open>
  The far end was stopped at the end of a history: its servers are killed, its port is moved out of the
  namespace and the namespace deleted, and then the flag is set as it was. No namespace is made after that.
\<close>

definition stopped :: "far_end \<Rightarrow> history \<Rightarrow> bool" where
  "stopped f t \<longleftrightarrow> (\<exists>u v w. map fst t = u @ stop_calls f @ v @ flag_call f # w \<and> ns_add \<notin> set (v @ w))"

fun is_start :: "call \<Rightarrow> bool" where
  "is_start (StartProc a) = True"
| "is_start c = False"

lemma started_simps [simp]:
  "started [] = []" "started ((c, r) # t) = (case c of StartProc a \<Rightarrow> if succeeded r then [datum r] else [] | _ \<Rightarrow> []) @ started t"
  "started (t @ u) = started t @ started u"
  by (simp_all add: started_def)

lemma started_none: "only (\<lambda>c. \<not> is_start c) t \<Longrightarrow> started t = []"
  by (induction t) (auto split: call.splits)

lemma stopped_append: "stopped f t \<Longrightarrow> stopped f (u @ t)"
  by (auto simp: stopped_def) (metis append.assoc)

lemma stopped_behind: "stopped f t \<Longrightarrow> only (\<lambda>c. c \<noteq> ns_add) u \<Longrightarrow> stopped f (t @ u)"
  unfolding stopped_def only_def list_all_iff by fastforce

lemma flag_of_append: "flag_of f t \<Longrightarrow> flag_of f (u @ t)" "flag_of f t \<Longrightarrow> flag_of f (t @ u)"
  by (auto simp: flag_of_def)

lemma run_argv_emits: "emits (run_argv (c # xs)) (\<lambda>x t. map fst t = [RunCmd [] 0 c xs])"
  unfolding run_argv_def list.case by (rule emits_mono [OF run_cmd_emits]) auto

lemma servers_stop: "emits (for_each stop_server ps) (\<lambda>_ t. map fst t = concat (map (\<lambda>p. [GuestSignal p ''KILL'', GuestWait p 0]) ps))"
proof (induction ps)
  case (Cons p ps)
  show ?case unfolding for_each.simps stop_server_def
    by (rule emits_bind [where P = "\<lambda>_ t. map fst t = [GuestSignal p ''KILL'', GuestWait p 0]"])
      (intro emits_sys_bind emits_ret, simp, rule emits_mono [OF Cons.IH [unfolded stop_server_def]], simp)
qed (auto intro!: emits_ret)

lemma looks_for_peer: "makes (\<lambda>c. c \<noteq> ns_add \<and> \<not> is_start c) peer_on_host"
  unfolding peer_on_host_def pci_netdev_def glob_names_def by (intro makes_steps) (simp_all add: ns_add_def)

lemma only_started: "map fst t = cs \<Longrightarrow> list_all (\<lambda>c. \<not> is_start c) cs \<Longrightarrow> started t = []"
  by (intro started_none) (force simp: only_def list_all_iff)

lemma far_stop_emits: "emits (far_stop f) (\<lambda>_ t. stopped f t \<and> started t = [])"
proof -
  let ?kill = "concat (map (\<lambda>p. [GuestSignal p ''KILL'', GuestWait p 0]) (fe_servers f))"
  let ?move = "RunCmd [] 0 ''ip'' [''netns'', ''exec'', net_peer_ns, ''ip'', ''link'', ''set'', fe_net f, ''netns'', ''1'']"
  let ?del = "RunCmd [] 0 ''ip'' [''netns'', ''del'', net_peer_ns]"
  have in_ns: "in_ns net_peer_ns xs = ''ip'' # ''netns'' # ''exec'' # net_peer_ns # xs" for xs
    by (simp add: in_ns_def net_peer_ns_def)
  have kills: "list_all (\<lambda>c. \<not> is_start c) ?kill" by (simp add: list_all_iff)
  have all: "stopped f (t @ t1 @ t2 @ t3 @ t4) \<and> started (t @ t1 @ t2 @ t3 @ t4) = []"
    if t: "map fst t = ?kill" "map fst t1 = [?move]" "map fst t2 = [?del]" "only (\<lambda>c. c \<noteq> ns_add \<and> \<not> is_start c) t3"
      "map fst t4 = [flag_call f]" for t t1 t2 t3 t4
  proof
    have "map fst (t @ t1 @ t2 @ t3 @ t4) = [] @ stop_calls f @ map fst t3 @ flag_call f # []"
      using t by (simp add: stop_calls_def)
    moreover have "ns_add \<notin> set (map fst t3 @ [])" using t(4) by (auto simp: only_def list_all_iff)
    ultimately show "stopped f (t @ t1 @ t2 @ t3 @ t4)" unfolding stopped_def by blast
    have "started t3 = []" using t(4) by (intro started_none) (auto elim: only_mono)
    with t kills show "started (t @ t1 @ t2 @ t3 @ t4) = []"
      by (simp add: only_started [OF t(1)] only_started [OF t(2)] only_started [OF t(3)] only_started [OF t(5)] flag_call_def)
  qed
  show ?thesis unfolding far_stop_def in_ns
  proof (intro emits_bind [OF servers_stop] emits_bind [OF run_argv_emits] emits_bind [OF run_cmd_emits]
        emits_bind [OF emits_only [OF looks_for_peer]] emits_ret, goal_cases)
    case (1 x t x1 t1 x2 t2 x3 t3 x4 t4)
    then show ?case using all [of t t1 t2 t3 t4] by (auto simp: flag_call_def simp del: started_simps)
  qed
qed

text \<open>What the start of the far end leaves.\<close>

definition peer_done :: "far_end res \<Rightarrow> history \<Rightarrow> bool" where
  "peer_done r t = (case r of
     Inl e \<Rightarrow> ns_add \<in> fst ` set t \<longrightarrow> (\<exists>f. stopped f t \<and> flag_of f t \<and> fe_servers f = started t)
   | Inr f \<Rightarrow> flag_of f t \<and> fe_servers f = started t)"

lemma start_servers_emits:
  "emits (start_servers f servers) (\<lambda>r t. case r of
     Inl e \<Rightarrow> stopped (f\<lparr>fe_servers := fe_servers f @ started t\<rparr>) t
   | Inr f' \<Rightarrow> f' = f\<lparr>fe_servers := fe_servers f @ started t\<rparr>)"
proof (induction servers arbitrary: f)
  case (Cons server rest)
  show ?case unfolding start_servers.simps
  proof (rule emits_ask_bind)
    fix r
    show "emits (case result r of Inl e \<Rightarrow> far_stop f \<bind> (\<lambda>_. ret (Inl e))
        | Inr pid \<Rightarrow> start_servers (f\<lparr>fe_servers := fe_servers f @ [pid]\<rparr>) rest)
      (\<lambda>x t. case x of Inl e \<Rightarrow> stopped (f\<lparr>fe_servers := fe_servers f @ started ((StartProc (server_argv server), r) # t)\<rparr>)
          ((StartProc (server_argv server), r) # t)
        | Inr f' \<Rightarrow> f' = f\<lparr>fe_servers := fe_servers f @ started ((StartProc (server_argv server), r) # t)\<rparr>)"
    proof (cases "succeeded r")
      case True
      then have p: "result r = Inr (datum r)" by (simp add: result_succeeded)
      show ?thesis unfolding p sum.case
        by (rule emits_mono [OF Cons.IH]) (use True stopped_append [of _ _ "[(StartProc (server_argv server), r)]"] in \<open>auto split: sum.splits\<close>)
    next
      case False
      then have p: "result r = Inl (the (fault_err r))" by (simp add: result_succeeded)
      show ?thesis unfolding p sum.case
        by (rule emits_bind [OF far_stop_emits], rule emits_ret)
          (use False stopped_append [of _ _ "[(StartProc (server_argv server), r)]"] in auto)
    qed
  qed
qed (auto intro!: emits_ret)

definition plain :: "call \<Rightarrow> bool" where
  "plain c \<longleftrightarrow> c \<noteq> ns_add \<and> \<not> is_start c"

lemma plain_cmd: "plain (RunCmd [] 0 ''ethtool'' xs)" "plain (RunCmd [] 0 ''ip'' (''netns'' # ''del'' # xs))" "plain Now" "plain (Sleep n)"
    "plain (Glob g)" "plain (RunCmd [] 0 ''nmcli'' xs)" "plain (RunCmd [] 0 ''busctl'' xs)"
  by (simp_all add: plain_def ns_add_def)

lemma plain_history: "only plain t \<Longrightarrow> started t = []" "only plain t \<Longrightarrow> ns_add \<notin> fst ` set t"
  by (auto intro!: started_none elim!: only_mono simp: plain_def) (auto simp: only_def list_all_iff plain_def)

lemma plain_release: "makes plain (release net)"
  unfolding release_def unmanaged_def without_supplicant_def system_supplicant_def append_Cons
  by (intro makes_steps makes_run plain_cmd)

lemma plain_looks: "makes plain peer_on_host" "makes plain (pci_netdev a)"
  unfolding peer_on_host_def pci_netdev_def glob_names_def by (intro makes_steps plain_cmd)+

lemma commands_no_start: "makes (\<lambda>c. \<not> is_start c) (first_error must_argv (peer_commands net addr))"
  unfolding must_argv_def by (intro makes_steps makes_run) simp

lemma start_peer_emits: "emits (start_peer addr servers) peer_done"
proof -
  have fails: "peer_done (Inl e) t" if "only plain t" for e t
    using plain_history(2) [OF that] by (simp add: peer_done_def)
  have fin: "peer_done r (t @ (RunCmd [] 0 ''ethtool'' [''--show-priv-flags'', net], x) # t1 @ t2 @ t3)"
    if t: "only plain t" "only plain t1" "only (\<lambda>c. \<not> is_start c) t2" and m: "find_groups link_down_re (nth_datum x 0) = Some m"
      and 3: "case r of Inl e \<Rightarrow> stopped (\<lparr>fe_net = net, fe_servers = started t3, fe_link_down = m 1\<rparr>) t3
        | Inr f' \<Rightarrow> f' = \<lparr>fe_net = net, fe_servers = started t3, fe_link_down = m 1\<rparr>" for r t t1 t2 t3 net m x
  proof -
    let ?h = "t @ (RunCmd [] 0 ''ethtool'' [''--show-priv-flags'', net], x) # t1 @ t2 @ t3"
    have s: "started ?h = started t3" using t by (simp add: plain_history started_none)
    have f: "flag_of \<lparr>fe_net = net, fe_servers = ps, fe_link_down = m 1\<rparr> ?h" for ps
      unfolding flag_of_def by (rule exI [of _ x], rule exI [of _ m]) (simp add: m)
    show ?thesis
    proof (cases r)
      case (Inl e)
      with 3 have "stopped \<lparr>fe_net = net, fe_servers = started t3, fe_link_down = m 1\<rparr> ?h"
        using stopped_append [of _ t3 "t @ (RunCmd [] 0 ''ethtool'' [''--show-priv-flags'', net], x) # t1 @ t2"] by simp
      with f s show ?thesis unfolding Inl peer_done_def sum.case by (metis far_end.select_convs(2))
    next
      case (Inr f')
      with 3 f s show ?thesis by (simp add: peer_done_def)
    qed
  qed
  have del: "emits (run_cmd ''ip'' [''netns'', ''del'', net_peer_ns]) (\<lambda>_. only plain)"
    and set_flag: "emits (must_run ''ethtool'' xs) (\<lambda>_. only plain)" for xs
    by (intro emits_only makes_run plain_cmd)+
  let ?f = "\<lambda>net m. \<lparr>fe_net = net, fe_servers = [], fe_link_down = m 1\<rparr>"
  have rest: "emits (case e of Some e \<Rightarrow> ret (Inl e) | None \<Rightarrow> release net \<bind> (\<lambda>_. first_error must_argv (peer_commands net addr) \<bind>
        (\<lambda>e. case e of Some e \<Rightarrow> far_stop (?f net m) \<bind> (\<lambda>_. ret (Inl e)) | None \<Rightarrow> start_servers (?f net m) servers)))
      (\<lambda>r u. peer_done r (t @ (RunCmd [] 0 ''ethtool'' [''--show-priv-flags'', net], x) # t1 @ u))"
    if t: "only plain t" "only plain t1" and m: "find_groups link_down_re (nth_datum x 0) = Some m" for e net t t1 m x
  proof (rule emits_option, goal_cases)
    case 1
    have after: "peer_done r (t @ (RunCmd [] 0 ''ethtool'' [''--show-priv-flags'', net], x) # t1 @ t2 @ t3 @ t4)"
      if "only plain t2" "only (\<lambda>c. \<not> is_start c) t3" and
        "case r of Inl e \<Rightarrow> stopped (\<lparr>fe_net = net, fe_servers = started t4, fe_link_down = m 1\<rparr>) t4
        | Inr f' \<Rightarrow> f' = \<lparr>fe_net = net, fe_servers = started t4, fe_link_down = m 1\<rparr>" for r t2 t3 t4
      using fin [of t "t1 @ t2" t3 x m net t4 r] t m that by simp
    show ?case
    proof (rule emits_bind [OF emits_only [OF plain_release]], rule emits_bind [OF emits_only [OF commands_no_start]],
        rule emits_option, goal_cases)
      case (1 y t2 z t3)
      show ?case
        by (rule emits_mono [OF start_servers_emits]) (use after [OF 1(1,2)] in \<open>auto split: sum.splits\<close>)
    next
      case (2 y t2 z t3 e)
      show ?case
        by (rule emits_bind [OF far_stop_emits], rule emits_ret) (use after [OF 2(1,2), of _ "Inl e"] in auto)
    qed
  next
    case (2 e)
    from t show ?case by (intro emits_ret fails) (simp add: plain_cmd)
  qed
  show ?thesis unfolding start_peer_def Let_def
  proof (rule emits_bind [OF del], rule emits_bind [OF emits_only [OF plain_looks(1)]],
      rule emits_bind [OF emits_only [OF plain_looks(2)]], rule emits_if, goal_cases)
    case (1 x t x1 t1 net t2)
    then show ?case by (intro emits_ret fails) simp
  next
    case (2 x t x1 t1 net t2)
    note before = 2
    show ?case
    proof (rule emits_bind [OF run_cmd_emits], rule emits_option, goal_cases)
      case (1 y u)
      from 1(1) have "only plain u" by (auto simp: plain_cmd)
      with before show ?case by (intro emits_ret fails) simp
    next
      case (2 y u m)
      then obtain r where u: "u = [(RunCmd [] 0 ''ethtool'' [''--show-priv-flags'', net], r)]"
          "find_groups link_down_re (nth_datum r 0) = Some m" by auto
      show ?case
      proof (rule emits_bind [OF set_flag], goal_cases)
        case (1 e t3)
        have "only plain (t @ t1 @ t2)" using before by simp
        from emits_mono [OF rest [OF this 1 u(2)]] show ?case by (simp add: u(1))
      qed
    qed
  qed
qed

text \<open>A run of the suite: the set-up, the tests and the teardown.\<close>

lemma plain_holders: "makes plain (holders_of dev pids fds)"
  unfolding makes_def by (rule emits_mono [OF holders_emits]) (auto elim!: only_mono simp: plain_def ns_add_def)

lemma plain_setup: "makes plain (net_host x d)" "makes plain port_free" "makes plain (pci_driver a)" "makes plain release_port"
    "makes plain (restore_port d)"
  unfolding net_host_def port_free_def release_port_def restore_port_def and_then_def need_tool_def modprobe_def
    tee_output_def pci_holders_def iommu_group_def pci_netdev_def glob_names_def pci_driver_def bind_vfio_def
    bind_native_def sysfs_write_def
  by (intro makes_steps makes_run plain_release plain_holders; simp add: plain_def ns_add_def)+

definition returned :: "history \<Rightarrow> bool" where
  "returned t \<longleftrightarrow> (ns_add \<in> fst ` set t \<longrightarrow> (\<exists>f. stopped f t \<and> flag_of f t))"

definition set_up :: "net_suite \<Rightarrow> err option \<Rightarrow> net_suite \<Rightarrow> history \<Rightarrow> bool" where
  "set_up s r s' t \<longleftrightarrow> ck_failures s' = ck_failures s \<and> ns_x710 s' = ns_x710 s \<and>
     (ns_x710 s \<longrightarrow> (if r = None then \<exists>f. ns_far s' = Some f \<and> flag_of f t else returned t))"

lemma returned_behind:
  assumes "only plain t" "returned u"
  shows "returned (t @ u)"
proof (cases "ns_add \<in> fst ` set u")
  case True
  with assms obtain f where "stopped f u" "flag_of f u" by (auto simp: returned_def)
  then have "stopped f (t @ u)" "flag_of f (t @ u)" by (simp_all add: stopped_append flag_of_append)
  then show ?thesis unfolding returned_def by blast
next
  case False
  with plain_history(2) [OF assms(1)] show ?thesis by (simp add: returned_def image_Un)
qed

lemma returned_plain: "only plain t \<Longrightarrow> returned t"
  using plain_history(2) [of t] by (simp add: returned_def)

lemma peer_done_error: "peer_done (Inl e) t \<Longrightarrow> returned t"
  by (auto simp: peer_done_def returned_def)

lemma setup_goes: "goes s net_setup (set_up s)"
  unfolding net_setup_def
proof (rule goes_suite_bind, rule goes_lift_bind [OF emits_only [OF plain_setup(1)]], rule goes_if, goal_cases)
  case (1 e t)
  then show ?case by (intro goes_give) (auto simp: set_up_def returned_plain)
next
  case (2 e t)
  note t = 2
  show ?case
  proof (rule goes_if, goal_cases)
    case 1
    then show ?case by (intro goes_change_bind goes_give) (auto simp: set_up_def)
  next
    case 2
    show ?case
    proof (rule goes_change_bind, rule goes_lift_bind [OF emits_only [OF plain_setup(2)]], rule goes_if, goal_cases)
      case (1 e1 t1)
      with t show ?case by (intro goes_give) (auto simp: set_up_def returned_plain)
    next
      case (2 e1 t1)
      note t1 = 2
      show ?case
      proof (rule goes_lift_bind [OF emits_only [OF plain_setup(3)]], rule goes_change_bind,
          rule goes_lift_bind [OF emits_only [OF plain_setup(4)]], rule goes_suite_bind,
          rule goes_lift_bind [OF start_peer_emits], rule goes_sum, goal_cases)
        case (1 d t2 x t3 r t4 e)
        then have "returned t4" by (auto intro: peer_done_error)
        with 1 t t1 returned_behind [of "t @ t1 @ t2 @ t3" t4] show ?case
          by (intro goes_give) (auto simp: set_up_def)
      next
        case (2 d t2 x t3 r t4 f)
        then have "flag_of f (t @ t1 @ t2 @ t3 @ t4)" by (simp add: peer_done_def flag_of_append)
        then show ?case by (intro goes_change_bind goes_give) (auto simp: set_up_def)
      qed
    qed
  qed
qed

lemma teardown_goes:
  "goes s net_teardown (\<lambda>_ s' t. ck_failures s' = ck_failures s \<and>
     (ns_x710 s \<longrightarrow> (case ns_far s of None \<Rightarrow> True | Some f \<Rightarrow> stopped f t)))"
  unfolding net_teardown_def
proof (rule goes_suite_bind, rule goes_if, rule goes_give, simp, goal_cases)
  case 1
  have "emits (case ns_far s of None \<Rightarrow> ret () | Some f \<Rightarrow> far_stop f) (\<lambda>_ t. case ns_far s of None \<Rightarrow> True | Some f \<Rightarrow> stopped f t)"
    by (cases "ns_far s") (auto intro!: emits_mono [OF far_stop_emits])
  then show ?case
  proof (rule goes_lift_bind, intro goes_change_bind goes_lift, goal_cases)
    case (1 x t)
    from emits_only [OF plain_setup(5)] show ?case
      by (rule emits_mono) (use 1 in \<open>auto split: option.splits intro!: stopped_behind elim!: only_mono simp: plain_def\<close>)
  qed
qed

lemma net_all_goes:
  assumes "ns_x710 s"
  shows "goes s (net_all pid wanted) (\<lambda>r s' t. returned t)"
  unfolding net_all_def
proof (rule goes_bind [OF setup_goes], rule goes_if, goal_cases)
  case (1 e s1 t1)
  with assms show ?case by (intro goes_give) (simp add: set_up_def)
next
  case (2 e s1 t1)
  then obtain f where f: "ns_far s1 = Some f" "flag_of f t1" "ns_x710 s1" using assms by (auto simp: set_up_def)
  show ?case unfolding net_suite_run_def
  proof (rule goes_bind [OF goes_does [OF net.suite_faithful [unfolded faithful_def]]], elim conjE exE,
      rule goes_bind [OF teardown_goes], rule goes_give, goal_cases)
    case (1 r s2 t2 fs u s3 t3)
    then have "ns_far s2 = Some f" "ns_x710 s2" using f(1,3) by (auto simp: net_frame_def dest: arg_cong [of _ _ ns_far] arg_cong [of _ _ ns_x710])
    with 1 have "stopped f (t1 @ t2 @ t3)" using stopped_append [of f t3 "t1 @ t2"] by simp
    with f(2) show ?case by (auto simp: returned_def flag_of_append)
  qed
qed



subsection \<open>The report\<close>

text \<open>
  The report of the network tests. On every host, the failures that a run has recorded are among those that
  it printed, in their order, and the run returns what the report says of them: no error only when nothing
  was recorded, and otherwise an error with their number. Only a set-up that fails returns another error,
  before any check.
\<close>

theorem net_report:
  "case run e (run_job (net_all pid wanted) (new_net_suite build out x710)) of ((r, s), t) \<Rightarrow>
     subseq (ck_failures s) (printed_failures t) \<and>
     (reports r (ck_failures s) \<or> r \<noteq> None \<and> ck_failures s = [])"
proof -
  let ?s = "new_net_suite build out x710"
  have "goes ?s (net_all pid wanted) (\<lambda>r s t. subseq (ck_failures s) (printed_failures t) \<and>
      (reports r (ck_failures s) \<or> r \<noteq> None \<and> ck_failures s = []))"
    unfolding net_all_def net_suite_run_def
  proof (rule goes_bind [OF setup_goes], rule goes_if, goal_cases)
    case (1 e s1 t1)
    then show ?case by (intro goes_give) (simp add: set_up_def new_net_suite_def)
  next
    case (2 e s1 t1)
    then have none: "ck_failures s1 = []" by (simp add: set_up_def new_net_suite_def)
    show ?case
    proof (rule goes_bind [OF goes_does [OF net.suite_faithful [unfolded faithful_def]]], elim conjE exE,
        rule goes_bind [OF teardown_goes], rule goes_give, goal_cases)
      case (1 r s2 t2 fs u s3 t3)
      with none show ?case by (simp add: subseq_drop_many subseq_rev_drop_many)
    qed
  qed
  moreover obtain r s t where r: "run e (run_job (net_all pid wanted) ?s) = ((r, s), t)" by (metis prod.exhaust)
  ultimately show ?thesis using emits_run [OF emits_goes r] by simp
qed

end
