(* ===== verification/WlanParse.thy ===== *)
theory WlanParse
  imports NetUtil
begin

text \<open>
  What cmd/invirtio-test/wlan.go reads of the commands iw: the bands and ciphers of \<open>iw phy info\<close> and the
  networks of \<open>iw scan\<close>. The maps of the code are association lists with each key once, and a band is
  known by its number while its section is read.
\<close>

subsection \<open>iw phy info\<close>

record wlan_band =
  wb_freqs :: "int list"
  wb_ht :: string
  wb_vht :: string
  wb_he :: bool

definition new_band :: wlan_band where
  "new_band = \<lparr>wb_freqs = [], wb_ht = [], wb_vht = [], wb_he = False\<rparr>"

definition hex_number :: re where
  "hex_number = Seq (Lit ''0x'') (some_of lower_hex)"

definition tab :: char where "tab = CHR 0x09"

definition phy_band_re :: re where
  "phy_band_re = seqs [text_begin, many re_space, Lit ''Band '', Grp 1 (some_of is_digit), Lit '':'']"

definition phy_freq_re :: re where
  "phy_freq_re = seqs [Lit ''* '', Grp 1 (some_of is_digit), maybe (Seq (Lit ''.'') (some_of is_digit)), Lit '' MHz ['',
     some_of is_digit, Lit '']'']"

definition phy_ht_re :: re where
  "phy_ht_re = seqs [text_begin, many re_space, Lit ''Capabilities: '', Grp 1 hex_number]"

definition phy_vht_re :: re where
  "phy_vht_re = seqs [Lit ''VHT Capabilities ('', Grp 1 hex_number, Lit '')'']"

definition phy_he_re :: re where
  "phy_he_re = seqs [Grp 1 (Or text_begin (Cls (\<lambda>c. c \<noteq> CHR ''E''))), Lit ''HE Iftypes:'', Star any_char, word_edge,
     Lit ''managed'', word_edge]"

definition cipher_line :: re where
  "cipher_line = seqs [some_of re_space, Lit ''* '', Star any_char, Lit [newline]]"

definition phy_cipher_re :: re where
  "phy_cipher_re = seqs [Lit (''Supported Ciphers:'' @ [newline]), Grp 1 (Seq cipher_line (Star cipher_line))]"

definition first_group :: "re \<Rightarrow> string \<Rightarrow> string option" where
  "first_group r s = map_option (\<lambda>m. m 1) (find_groups r s)"

text \<open>A line of the section of a band.\<close>

definition band_line :: "string \<Rightarrow> wlan_band \<Rightarrow> wlan_band" where
  "band_line line b =
     (let b = (case first_group phy_freq_re line of None \<Rightarrow> b | Some f \<Rightarrow> b\<lparr>wb_freqs := wb_freqs b @ [int_or_zero f]\<rparr>);
          b = (case first_group phy_ht_re line of None \<Rightarrow> b | Some c \<Rightarrow> if wb_ht b = [] then b\<lparr>wb_ht := c\<rparr> else b);
          b = (case first_group phy_vht_re line of None \<Rightarrow> b | Some c \<Rightarrow> b\<lparr>wb_vht := c\<rparr>)
      in if matches_string phy_he_re line then b\<lparr>wb_he := True\<rparr> else b)"

type_synonym bands = "(int \<times> wlan_band) list"

definition band_in :: "bands \<Rightarrow> int \<Rightarrow> wlan_band" where
  "band_in bs n = (case map_of bs n of None \<Rightarrow> new_band | Some b \<Rightarrow> b)"

definition phy_line :: "bands \<times> int option \<Rightarrow> string \<Rightarrow> bands \<times> int option" where
  "phy_line st line = (case st of (bs, cur) \<Rightarrow>
     (case first_group phy_band_re line of
        Some d \<Rightarrow> (AList.update (int_or_zero d) new_band bs, Some (int_or_zero d))
      | None \<Rightarrow>
          (let cur = (if has_prefix line [tab] \<and> \<not> has_prefix line [tab, tab] then None else cur)
           in case cur of
                None \<Rightarrow> (bs, None)
              | Some n \<Rightarrow> (AList.update n (band_line line (band_in bs n)) bs, Some n))))"

definition phy_ciphers :: "string \<Rightarrow> string list" where
  "phy_ciphers text =
     (case first_group phy_cipher_re text of
        None \<Rightarrow> []
      | Some g \<Rightarrow> sort (map (trim_of (\<lambda>c. c = tab \<or> c = CHR '' '' \<or> c = CHR ''*'')) (split_on newline (trim_space g))))"

definition parse_phy :: "string \<Rightarrow> bands \<times> string list" where
  "parse_phy text = (fst (foldl phy_line ([], None) (split_on newline text)), phy_ciphers text)"


subsection \<open>iw scan\<close>

definition addr_char :: "char \<Rightarrow> bool" where
  "addr_char c \<longleftrightarrow> lower_hex c \<or> c = CHR '':''"

definition scan_bss_re :: re where
  "scan_bss_re = seqs [text_begin, Lit ''BSS '', Grp 1 (seqs (replicate 17 (Cls addr_char)))]"

definition scan_freq_re :: re where
  "scan_freq_re = seqs [text_begin, some_of re_space, Lit ''freq: '', Grp 1 (some_of is_digit)]"

definition scan_ssid_re :: re where
  "scan_ssid_re = seqs [text_begin, some_of re_space, Lit ''SSID: '', Grp 1 (Star any_char)]"

type_synonym networks = "(string \<times> int) list"

definition scan_line :: "networks \<times> int \<Rightarrow> string \<Rightarrow> networks \<times> int" where
  "scan_line st line = (case st of (nets, freq) \<Rightarrow>
     if matches_string scan_bss_re line then (nets, 0)
     else case first_group scan_freq_re line of
         Some f \<Rightarrow> (nets, int_or_zero f)
       | None \<Rightarrow>
           (case first_group scan_ssid_re line of
              Some ssid \<Rightarrow> (AList.update ssid freq nets, freq)
            | None \<Rightarrow> (nets, freq)))"

definition parse_scan :: "string \<Rightarrow> networks" where
  "parse_scan text = fst (foldl scan_line ([], 0) (split_on newline text))"

definition band_of :: "int \<Rightarrow> string" where
  "band_of freq = (if freq < 3000 then ''2g'' else if freq < 5935 then ''5g'' else ''6g'')"


subsection \<open>What a scan finds\<close>

text \<open>A network as iw shows it: the lines of its address, its frequency and its name, among others.\<close>

record cell =
  cl_addr :: string
  cl_rest :: string
  cl_before :: "string list"
  cl_freq :: nat
  cl_frac :: string
  cl_between :: "string list"
  cl_ssid :: string
  cl_after :: "string list"

definition cell_lines :: "cell \<Rightarrow> string list" where
  "cell_lines c = (''BSS '' @ cl_addr c @ cl_rest c) # cl_before c @ (tab # ''freq: '' @ show_nat (cl_freq c) @ cl_frac c) #
     cl_between c @ (tab # ''SSID: '' @ cl_ssid c) # cl_after c"

definition other_line :: "string \<Rightarrow> bool" where
  "other_line l \<longleftrightarrow> newline \<notin> set l \<and> \<not> matches_string scan_bss_re l \<and> find_groups scan_freq_re l = None \<and>
     find_groups scan_ssid_re l = None"

definition cell_ok :: "cell \<Rightarrow> bool" where
  "cell_ok c \<longleftrightarrow> length (cl_addr c) = 17 \<and> list_all addr_char (cl_addr c) \<and> newline \<notin> set (cl_rest c) \<and>
     list_all other_line (cl_before c @ cl_between c @ cl_after c) \<and> in_int64 (int (cl_freq c)) \<and>
     newline \<notin> set (cl_frac c) \<and> (cl_frac c = [] \<or> \<not> is_digit (hd (cl_frac c))) \<and> newline \<notin> set (cl_ssid c)"

definition scan_text :: "cell list \<Rightarrow> string" where
  "scan_text cs = concat (map (\<lambda>l. l @ [newline]) (concat (map cell_lines cs)))"

lemma other_scan_line: "other_line l \<Longrightarrow> scan_line st l = st"
  by (cases st) (simp add: other_line_def scan_line_def first_group_def)

lemma other_scan_lines: "list_all other_line ls \<Longrightarrow> foldl scan_line st ls = st"
  by (induction ls) (simp_all add: other_scan_line)

lemma firsts_replicate:
  "length u = Suc n \<Longrightarrow> list_all f u \<Longrightarrow> firsts (seqs (replicate (Suc n) (Cls f))) (p, u @ t) ([], (past p u, t))"
proof (induction n arbitrary: u p)
  case 0
  then obtain c where "u = [c]" by (cases u) auto
  with 0 show ?case by (simp add: firsts_cls past_def)
next
  case (Suc n)
  then obtain c v where u: "u = c # v" "length v = Suc n" by (cases u) auto
  then have "v \<noteq> []" by auto
  have "firsts (Cls f) (p, c # v @ t) ([], (Some c, v @ t))" using Suc.prems u by (intro firsts_cls) simp
  moreover have "firsts (seqs (replicate (Suc n) (Cls f))) (Some c, v @ t) ([], (past (Some c) v, t))"
    using Suc u by simp
  ultimately have "firsts (Seq (Cls f) (seqs (replicate (Suc n) (Cls f)))) (p, c # v @ t) ([] @ [], (past (Some c) v, t))"
    by (rule firsts_seq)
  with \<open>v \<noteq> []\<close> show ?case by (simp add: u past_def)
qed

lemma bss_line:
  assumes "length a = 17" "list_all addr_char a"
  shows "scan_line (nets, freq) (''BSS '' @ a @ rest) = (nets, 0)"
proof -
  have "firsts (Grp 1 (seqs (replicate 17 (Cls addr_char)))) (past None ''BSS '', a @ rest) ([(1, a)], (past (past None ''BSS '') a, rest))"
    using firsts_replicate [of a 16 addr_char "past None ''BSS ''" rest] assms
    by (intro firsts_grp) (simp del: past_past)
  from firsts_anchored [OF firsts_seq [OF firsts_lit this]]
  have "firsts scan_bss_re (None, ''BSS '' @ a @ rest) ([] @ [(1, a)], (past (past None ''BSS '') a, rest))"
    by (simp add: scan_bss_re_def)
  from search_firsts [OF this] have "matches_string scan_bss_re (''BSS '' @ a @ rest)"
    unfolding matches_string_def by (simp only: not_None_eq) blast
  then show ?thesis by (simp add: scan_line_def)
qed

lemma no_bss: "\<not> matches_string scan_bss_re (tab # s)"
  by (simp add: matches_string_def scan_bss_re_def first_of_def search_anchored text_begin_def followed_def cut_prefix_def
      tab_def search_anchored [unfolded text_begin_def])

lemma indented: "firsts (some_of re_space) (None, [tab] @ t) ([], (past None [tab], t))" if "t \<noteq> []" "\<not> re_space (hd t)"
  using that by (intro firsts_some) (simp_all add: re_space_def tab_def)

lemma freq_line:
  assumes "in_int64 (int n)" "rest = [] \<or> \<not> is_digit (hd rest)"
  shows "scan_line (nets, freq) (tab # ''freq: '' @ show_nat n @ rest) = (nets, int n)"
proof -
  have "firsts (Grp 1 (some_of is_digit)) (past (past None [tab]) ''freq: '', show_nat n @ rest)
      ([(1, show_nat n)], (past (past (past None [tab]) ''freq: '') (show_nat n), rest))"
    using assms(2) show_nat_digits [of n] by (intro firsts_run) (auto simp: list_all_iff)
  from firsts_anchored [OF firsts_seq [OF indented firsts_seq [OF firsts_lit this]]]
  have "firsts scan_freq_re (None, [tab] @ ''freq: '' @ show_nat n @ rest)
      ([] @ [] @ [(1, show_nat n)], (past (past (past None [tab]) ''freq: '') (show_nat n), rest))"
    by (simp add: scan_freq_re_def re_space_def)
  from find_firsts [OF this] have "first_group scan_freq_re (tab # ''freq: '' @ show_nat n @ rest) = Some (show_nat n)"
    by (simp add: first_group_def)
  with assms(1) show ?thesis by (simp add: scan_line_def no_bss int_or_zero_show)
qed

lemma firsts_dots: "newline \<notin> set u \<Longrightarrow> firsts (Star any_char) (p, u @ []) ([], (past p u, []))"
  unfolding any_char_def many_def [symmetric] by (intro firsts_many) (auto simp: list_all_iff)

lemma no_freq: "find_groups scan_freq_re (tab # ''SSID: '' @ ssid) = None"
proof -
  define b where "b = Seq (Lit ''freq: '') (Grp 1 (some_of is_digit))"
  define r where "r = Seq (some_of re_space) b"
  have re: "scan_freq_re = Seq text_begin r" by (simp add: scan_freq_re_def r_def b_def)
  have "behind b re_space" by (auto simp: behind_def b_def re_space_def)
  from run_some [OF this, of "[tab]" "''SSID: '' @ ssid" None]
  have "matches r (None, tab # ''SSID: '' @ ssid) = []"
    by (simp add: r_def b_def re_space_def tab_def followed_def cut_prefix_def)
  then have "matches (Seq text_begin r) (None, tab # ''SSID: '' @ ssid) = []"
    by (simp add: text_begin_def followed_def)
  from search_skip [OF this] show ?thesis unfolding find_groups_def re by (simp only: search_anchored option.map)
qed

lemma ssid_line:
  assumes "newline \<notin> set ssid"
  shows "scan_line (nets, freq) (tab # ''SSID: '' @ ssid) = (AList.update ssid freq nets, freq)"
proof -
  have "firsts (Grp 1 (Star any_char)) (past (past None [tab]) ''SSID: '', ssid @ [])
      ([(1, ssid)], (past (past (past None [tab]) ''SSID: '') ssid, []))"
    using assms by (intro firsts_grp firsts_dots)
  from firsts_anchored [OF firsts_seq [OF indented firsts_seq [OF firsts_lit this]]]
  have "firsts scan_ssid_re (None, [tab] @ ''SSID: '' @ ssid @ [])
      ([] @ [] @ [(1, ssid)], (past (past (past None [tab]) ''SSID: '') ssid, []))"
    by (simp add: scan_ssid_re_def re_space_def)
  from find_firsts [OF this] have "first_group scan_ssid_re (tab # ''SSID: '' @ ssid) = Some ssid"
    by (simp add: first_group_def)
  moreover have "first_group scan_freq_re (tab # ''SSID: '' @ ssid) = None" by (simp add: first_group_def no_freq del: append.simps)
  ultimately show ?thesis by (simp add: scan_line_def no_bss)
qed

lemma cell_scan:
  assumes "cell_ok c"
  shows "foldl scan_line (nets, freq) (cell_lines c) = (AList.update (cl_ssid c) (int (cl_freq c)) nets, int (cl_freq c))"
  using assms
  by (simp add: cell_ok_def cell_lines_def bss_line [simplified] freq_line [simplified] ssid_line [simplified] other_scan_lines)

lemma cells_scan:
  "list_all cell_ok cs \<Longrightarrow> fst (foldl scan_line (nets, freq) (concat (map cell_lines cs))) =
    foldl (\<lambda>m c. AList.update (cl_ssid c) (int (cl_freq c)) m) nets cs"
  by (induction cs arbitrary: nets freq) (simp_all add: cell_scan)

lemma scan_text_lines: "\<forall>l\<in>set ls. newline \<notin> set l \<Longrightarrow> split_on newline (concat (map (\<lambda>l. l @ [newline]) ls)) = ls @ [[]]"
  by (induction ls) (simp_all add: split_on_append split_on_no_sep)

text \<open>
  C40 A scan is read in full: for networks as iw shows them, in any order, with any other lines about them and
  the frequency written with or without a fraction, \<open>parseScan\<close> gives each name the frequency of the last
  network that has it, and has no other name.
\<close>

theorem parse_scan_networks:
  assumes "list_all cell_ok cs"
  shows "map_of (parse_scan (scan_text cs)) = map_of (rev (map (\<lambda>c. (cl_ssid c, int (cl_freq c))) cs))"
proof -
  have "newline \<notin> set l" if "c \<in> set cs" "l \<in> set (cell_lines c)" for c l
  proof -
    from assms that(1) have c: "cell_ok c" by (auto simp: list_all_iff)
    have "newline \<notin> set s" if "list_all addr_char s \<or> list_all is_digit s" for s
      using that by (auto simp: list_all_iff addr_char_def lower_hex_def is_digit_def newline_def)
    with c show_nat_digits [of "cl_freq c"] have "newline \<notin> set (cl_addr c)" "newline \<notin> set (show_nat (cl_freq c))"
      by (auto simp: cell_ok_def)
    with c that(2) show ?thesis by (auto simp: cell_lines_def cell_ok_def other_line_def list_all_iff tab_def newline_def)
  qed
  then have "split_on newline (scan_text cs) = concat (map cell_lines cs) @ [[]]"
    unfolding scan_text_def by (intro scan_text_lines) auto
  moreover have "other_line []"
    by (simp add: other_line_def matches_string_def find_groups_def scan_bss_re_def scan_freq_re_def scan_ssid_re_def first_of_def
        followed_def cut_prefix_def some_of_def text_begin_def)
  ultimately have "parse_scan (scan_text cs) = foldl (\<lambda>m c. AList.update (cl_ssid c) (int (cl_freq c)) m) [] cs"
    using cells_scan [OF assms, of "[]" 0] by (simp add: parse_scan_def other_scan_line)
  also have "map_of \<dots> = map_of (rev (map (\<lambda>c. (cl_ssid c, int (cl_freq c))) cs))"
    by (induction cs rule: rev_induct) (simp_all add: update_conv')
  finally show ?thesis .
qed

text \<open>The networks of the test of the source.\<close>

definition sample_cells :: "cell list" where
  "sample_cells =
    [\<lparr>cl_addr = ''02:00:00:00:01:00'', cl_rest = ''(on wlan5)'', cl_before = [], cl_freq = 2412, cl_frac = [], cl_between = [],
       cl_ssid = ''hwsim-2g-open'', cl_after = []\<rparr>,
     \<lparr>cl_addr = ''02:00:00:00:02:00'', cl_rest = ''(on wlan5)'', cl_before = [], cl_freq = 5180, cl_frac = ''.0'', cl_between = [],
       cl_ssid = ''hwsim-5g-open'', cl_after = []\<rparr>]"

theorem parse_scan_networks_witness:
  "map_of (parse_scan (scan_text sample_cells)) ''hwsim-5g-open'' = Some 5180 \<and>
   map_of (parse_scan (scan_text sample_cells)) ''hwsim-6g-wpa3'' = None"
proof -
  have "list_all cell_ok sample_cells"
    by (simp add: sample_cells_def cell_ok_def addr_char_def lower_hex_def is_digit_def newline_def in_int64_def max_int64_def)
  from parse_scan_networks [OF this] show ?thesis by (simp add: sample_cells_def)
qed

text \<open>A band of the test of the source: its channel and capabilities.\<close>

lemma parse_phy_sample:
  "fst (parse_phy (concat (map (\<lambda>(n, l). replicate n tab @ l @ [newline])
     [(1, ''Band 2:''), (2, ''Capabilities: 0x2ff''), (2, ''VHT Capabilities (0x339071b2):''), (2, ''HE Iftypes: managed, AP''),
      (3, ''* 5180.0 MHz [36]''), (1, ''other''), (2, ''* 1 MHz [1]'')]))) =
   [(2, \<lparr>wb_freqs = [5180], wb_ht = ''0x2ff'', wb_vht = ''0x339071b2'', wb_he = True\<rparr>)]"
  by code_simp

end
