(* ===== verification/WlanTests.thy ===== *)
theory WlanTests
  imports Rig WlanParse
begin

text \<open>
  cmd/invirtio-test/wlan.go: the tests of the host's virtio_wlan with a guest that exports a radio of
  mac80211_hwsim. \<open>iw event\<close> writes to a pipe whose text the suite takes from the front, so the suite has,
  for each such process, how much of its output was consumed; of the output the complete lines count, as
  \<open>bufio.Scanner\<close> hands them over. An iperf3 run that goes on across the kill of the guest is one call where
  its result is taken. \<open>compile\<close> stands for \<open>regexp.Compile\<close>.
\<close>

definition wlan_name :: string where "wlan_name = ''vwlan-test''"
definition wlan_country :: string where "wlan_country = ''DE''"
definition wlan_server :: string where "wlan_server = ''192.168.100.1''"
definition wlan_passphrase :: string where "wlan_passphrase = ''invirtio-hwsim''"

definition wlan_networks :: "string list" where
  "wlan_networks = concat (map (\<lambda>band. map (\<lambda>kind. ''hwsim-'' @ band @ ''-'' @ kind)
     [''open'', ''wpa2'', ''wpa2-mfp'', ''wpa3-transition'']) [''2g'', ''5g'']) @ [''hwsim-6g-wpa3'']"

definition wlan_counters :: "string list" where
  "wlan_counters = [''cmd_timeouts'', ''bad_responses'', ''bad_events'', ''bad_bss'', ''bad_connect_results'', ''bad_rates'',
     ''scan_timeouts'', ''connect_timeouts'', ''bad_rx_frames'', ''tx_timeouts'', ''rx_post_errors'', ''eapol_timeouts'']"

definition wlan_guest_counters :: "string list" where
  "wlan_guest_counters = [''tx_invalid'', ''tx_spoofed'', ''tx_dropped'', ''rx_oversized'', ''rx_bad_buffers'']"

text \<open>The networks that wpa_supplicant joins, with the MFP setting and whether their keys are renewed.\<close>

definition wlan_wpa :: "(string \<times> nat \<times> bool) list" where
  "wlan_wpa = [(''hwsim-2g-wpa2'', 0, True), (''hwsim-2g-wpa2-mfp'', 2, False), (''hwsim-5g-wpa2'', 0, True),
     (''hwsim-5g-wpa2-mfp'', 2, False), (''hwsim-2g-wpa3-transition'', 1, False)]"

definition quote :: string where "quote = [CHR 0x22]"

definition wlan_udhcpc :: string where
  "wlan_udhcpc = lines_of [''#!/bin/sh'',
     ''[ '' @ quote @ ''$1'' @ quote @ '' = bound ] && ip addr add '' @ quote @ ''$ip/$mask'' @ quote @ '' dev '' @ quote @
       ''$interface'' @ quote,
     ''exit 0'']"

record wlan_suite = rig +
  ws_build :: string
  ws_out :: string
  ws_country :: string
  ws_procs :: "string list"
  ws_taken :: "(string \<times> nat) list"

type_synonym 'a wlan = "(wlan_suite, 'a) job"


subsection \<open>The country of the host\<close>

definition reg_country_re :: re where
  "reg_country_re = seqs [text_begin, Lit (''global'' @ [newline] @ ''country ''),
     Grp 1 (Or (Seq (Cls (\<lambda>c. 65 \<le> code c \<and> code c \<le> 90)) (Cls (\<lambda>c. 65 \<le> code c \<and> code c \<le> 90))) (Lit ''00'')), Lit '':'']"

definition global_part :: "string \<Rightarrow> string" where
  "global_part out =
     (if \<not> has_prefix out ''global'' then []
      else case index_of out [newline, newline] of None \<Rightarrow> out | Some i \<Rightarrow> take i out)"

definition global_regdom :: "string io" where
  "global_regdom = do {
     r \<leftarrow> run_cmd ''iw'' [''reg'', ''get''];
     ret (global_part (r_stdout r))}"

definition country_in :: "string \<Rightarrow> string" where
  "country_in part = (case first_group reg_country_re part of None \<Rightarrow> ''00'' | Some c \<Rightarrow> c)"

definition set_country :: "string \<Rightarrow> unit io" where
  "set_country c = do {
     _ \<leftarrow> run_cmd ''iw'' [''reg'', ''set'', c];
     ret ()}"

definition wlan_teardown :: "unit wlan" where
  "wlan_teardown = do {
     s \<leftarrow> suite;
     if ws_country s \<noteq> [] then lift_io (set_country (ws_country s)) else give ()}"

definition wlan_tools :: "string list" where
  "wlan_tools = [''iw'', ''wpa_supplicant'', ''wpa_cli'', ''iperf3'', ''busybox'', ''vdpa'', ''ip'', ''ping'']"

definition debugfs :: "err option io" where
  "debugfs = do {
     ok \<leftarrow> stat_ok ''/sys/kernel/debug/ieee80211'';
     ret (if ok then None else Some (Msg ''debugfs is not mounted at /sys/kernel/debug''))}"

definition wlan_host :: "string \<Rightarrow> err option io" where
  "wlan_host out_dir = and_then (first_error need_tool wlan_tools)
     (and_then (modprobe [''cfg80211'', ''vduse'', ''vdpa'', ''virtio_vdpa'', ''virtio_wlan''])
       (and_then debugfs
         (and_then (do_sys (MkdirAll out_dir 493))
           (and_then (tee_output (path_join [out_dir, ''test.log'']))
             (do_sys (WriteFile (path_join [out_dir, ''udhcpc.sh'']) wlan_udhcpc 493))))))"

definition permits_6ghz :: "bool io" where
  "permits_6ghz = do {
     p \<leftarrow> global_regdom;
     ret (str_contains p ''(5945 - '')}"

definition wlan_setup :: "err option wlan" where
  "wlan_setup = do {
     s \<leftarrow> suite;
     e \<leftarrow> lift_io (wlan_host (ws_out s));
     if e \<noteq> None then give e
     else do {
       p \<leftarrow> lift_io global_regdom;
       _ \<leftarrow> change (\<lambda>s. s\<lparr>ws_country := country_in p\<rparr>);
       _ \<leftarrow> lift_io (set_country wlan_country);
       ok \<leftarrow> lift_io (wait permits_6ghz 5000 100);
       if \<not> ok then do {
         _ \<leftarrow> wlan_teardown;
         give (Some (Msg (''setting the host's country to '' @ wlan_country @ '' does not permit 6 GHz'')))}
       else give None}}"


subsection \<open>Guests and counters\<close>

definition wlan_launch :: "wlan_suite \<Rightarrow> launch" where
  "wlan_launch s = \<lparr>l_build = ws_build s, l_type = ''wlan'', l_name = wlan_name, l_options = ''netdev=wlan0'',
     l_log_dir = rg_log_dir s, l_devices = [],
     l_args = [''mem=768M'', ''mac80211_hwsim.radios=4'', ''cfg80211.ieee80211_regdom='' @ wlan_country, ''init_shell''],
     l_cgroup = []\<rparr>"

definition wlan_ready :: "string \<Rightarrow> bool" where
  "wlan_ready l \<longleftrightarrow> str_contains l (wlan_name @ '': created wlan device'') \<and> str_contains l ''wlan-hwsim-init: ready''"

definition wlan_start :: "guest option wlan" where
  "wlan_start = do {
     s \<leftarrow> suite;
     launch_rig (wlan_launch s) wlan_ready ''creates the device and starts its access points''}"

definition wlan_dev :: string where
  "wlan_dev = path_join [''/sys/bus/vdpa/devices'', wlan_name]"

definition find_wiphy :: "string \<times> string \<Rightarrow> (bool \<times> string \<times> string) io" where
  "find_wiphy st = do {
     phys \<leftarrow> glob_names (path_join [wlan_dev, ''virtio*/ieee80211/*'']);
     nets \<leftarrow> glob_names (path_join [wlan_dev, ''virtio*/net/*'']);
     let st = (if phys \<noteq> [] \<and> nets \<noteq> [] then (path_base (hd phys), path_base (hd nets)) else st);
     ret (snd st \<noteq> [], st)}"

definition unblock :: "string \<Rightarrow> unit io" where
  "unblock phy = do {
     r \<leftarrow> sys (Glob (path_join [''/sys/class/ieee80211'', phy, ''rfkill*/soft'']));
     for_each (\<lambda>soft. do {_ \<leftarrow> sysfs_write soft ''0''; ret ()}) (if succeeded r then snd r else [])}"

definition wlan_attach :: "(string \<times> string) wlan" where
  "wlan_attach = do {
     e \<leftarrow> lift_io (attach_dev wlan_name);
     ok \<leftarrow> check (e = None) (''vdpa dev add attaches the device'' @ err_suffix e);
     if \<not> ok then give ([], [])
     else do {
       r \<leftarrow> lift_io (wait_loop find_wiphy 10000 100 ([], []));
       let (phy, net) = (case r of None \<Rightarrow> ([], []) | Some x \<Rightarrow> snd x);
       ok \<leftarrow> check (net \<noteq> []) ''virtio_wlan registers a wiphy and an interface'';
       if \<not> ok then give ([], [])
       else do {
         _ \<leftarrow> lift_io (release net);
         _ \<leftarrow> lift_io (unblock phy);
         _ \<leftarrow> host_run ''ip'' [''link'', ''set'', net, ''down''];
         give (phy, net)}}}"

definition wlan_up :: "(guest \<times> string \<times> string) option wlan" where
  "wlan_up = do {
     g \<leftarrow> wlan_start;
     (case g of
        None \<Rightarrow> give None
      | Some g \<Rightarrow> do {
          (phy, net) \<leftarrow> wlan_attach;
          if net = [] then give None
          else do {
            e \<leftarrow> lift_io (must_run ''ip'' [''link'', ''set'', net, ''up'']);
            ok \<leftarrow> check (e = None) (net @ '' comes up'' @ err_suffix e);
            give (if ok then Some (g, phy, net) else None)}})}"

definition wlan_counter :: "string \<Rightarrow> string \<Rightarrow> int io" where
  "wlan_counter phy n = do {
     s \<leftarrow> read_text (path_join [''/sys/kernel/debug/ieee80211'', phy, n]);
     ret (case parse_int64 s of None \<Rightarrow> - 1 | Some v \<Rightarrow> v)}"

text \<open>
  The rounds of \<open>wlanSettledCounter\<close>: the counter, the time since which it is the same and the end. A round
  sleeps 200 ms, so a clock that a sleep moves on is at the end after 50 rounds (\<open>settles\<close>).
\<close>

primrec settle :: "nat \<Rightarrow> string \<Rightarrow> string \<Rightarrow> int \<Rightarrow> int \<Rightarrow> int \<Rightarrow> int option io" where
  "settle 0 phy n v since stop = ret None"
| "settle (Suc k) phy n v since stop = do {
     t \<leftarrow> now;
     more \<leftarrow> (if t - since < millis 1000 then do {t \<leftarrow> now; ret (t < stop)} else ret False);
     if \<not> more then ret (Some v)
     else do {
       _ \<leftarrow> sys (Sleep 200);
       v' \<leftarrow> wlan_counter phy n;
       if v' \<noteq> v then do {
         since \<leftarrow> now;
         settle k phy n v' since stop}
       else settle k phy n v since stop}}"

definition settled_rounds :: "string \<Rightarrow> string \<Rightarrow> int option io" where
  "settled_rounds phy n = do {
     v \<leftarrow> wlan_counter phy n;
     since \<leftarrow> now;
     t \<leftarrow> now;
     settle 51 phy n v since (t + millis 10000)}"

definition settled_counter :: "string \<Rightarrow> string \<Rightarrow> int io" where
  "settled_counter phy n = do {
     r \<leftarrow> settled_rounds phy n;
     ret (case r of None \<Rightarrow> - 1 | Some v \<Rightarrow> v)}"

fun bad_of :: "string \<Rightarrow> string list \<Rightarrow> string list io" where
  "bad_of phy [] = ret []"
| "bad_of phy (n # ns) = do {
     v \<leftarrow> wlan_counter phy n;
     bad \<leftarrow> bad_of phy ns;
     ret ((if v \<noteq> 0 then [n @ '' '' @ show_int v] else []) @ bad)}"

definition wlan_healthy :: "guest \<Rightarrow> string \<Rightarrow> unit wlan" where
  "wlan_healthy g phy = do {
     bad \<leftarrow> lift_io (bad_of phy wlan_counters);
     _ \<leftarrow> check (bad = []) (''the driver's error counters are zero'' @ list_suffix ''but'' bad);
     t \<leftarrow> ask_counters g;
     let bad = counters_off wlan_guest_counters (parse_counters t);
     _ \<leftarrow> check (counter_list t \<noteq> [] \<and> bad = []) (''the backend's error counters are zero'' @ list_suffix ''but'' bad);
     give ()}"

text \<open>The output of a command of the guest comes to hold a text. The closure asks the same guest, which counts its markers.\<close>

definition says :: "string \<Rightarrow> string \<Rightarrow> guest \<Rightarrow> (bool \<times> guest) io" where
  "says cmd what g = do {
     (out, g) \<leftarrow> guest_output g cmd 10000;
     ret (str_contains out what, g)}"

definition guest_says :: "guest \<Rightarrow> string \<Rightarrow> string \<Rightarrow> bool wlan" where
  "guest_says g cmd what = do {
     s \<leftarrow> suite;
     r \<leftarrow> lift_io (wait_loop (says cmd what) 5000 500 (g\<lparr>g_marks := marks_of s g\<rparr>));
     (case r of
        None \<Rightarrow> give False
      | Some (ok, g) \<Rightarrow> do {
          _ \<leftarrow> change (set_marks g);
          give ok})}"

definition wlan_carrier :: "string \<Rightarrow> bool io" where
  "wlan_carrier net = do {
     c \<leftarrow> read_text (path_join [''/sys/class/net'', net, ''carrier'']);
     ret (c = ''1'')}"

subsection \<open>Events\<close>

text \<open>The complete lines of the output, each without a carriage return at its end.\<close>

definition scanned :: "string \<Rightarrow> string" where
  "scanned out = concat (map (\<lambda>l. trim_suffix l [CHR 0x0D] @ [newline]) (butlast (split_on newline out)))"

definition events_text :: "string \<Rightarrow> string io" where
  "events_text pid = do {
     r \<leftarrow> sys (ProcOutput pid);
     ret (scanned (datum r))}"

definition taken :: "wlan_suite \<Rightarrow> string \<Rightarrow> nat" where
  "taken s pid = (case map_of (ws_taken s) pid of None \<Rightarrow> 0 | Some n \<Rightarrow> n)"

text \<open>One look at the events: what was found, and how much of the text was consumed up to its end.\<close>

definition look :: "re \<Rightarrow> string \<Rightarrow> string \<times> nat \<Rightarrow> (bool \<times> string \<times> nat) io" where
  "look r pid st = (case st of (ev, n) \<Rightarrow> do {
     text \<leftarrow> events_text pid;
     let rest = drop n text;
     ret (case find_index r rest of
        None \<Rightarrow> (False, ev, n)
      | Some (i, j) \<Rightarrow> (True, take (j - i) (drop i rest), n + j))})"

definition wait_event :: "string \<Rightarrow> re \<Rightarrow> nat \<Rightarrow> string wlan" where
  "wait_event pid r timeout = do {
     s \<leftarrow> suite;
     x \<leftarrow> lift_io (wait_loop (look r pid) timeout 100 ([], taken s pid));
     (case x of
        None \<Rightarrow> give []
      | Some (_, ev, n) \<Rightarrow> do {
          _ \<leftarrow> change (\<lambda>s. s\<lparr>ws_taken := AList.update pid n (ws_taken s)\<rparr>);
          give ev})}"

definition count_events :: "string \<Rightarrow> re \<Rightarrow> nat wlan" where
  "count_events pid r = do {
     s \<leftarrow> suite;
     text \<leftarrow> lift_io (events_text pid);
     give (count_matches r (drop (taken s pid) text))}"

definition track :: "string \<Rightarrow> unit wlan" where
  "track pid = change (\<lambda>s. s\<lparr>ws_procs := ws_procs s @ [pid]\<rparr>)"

text \<open>The events while a test goes on, whose process is killed when it returns.\<close>

definition start_events :: "string option wlan" where
  "start_events = do {
     p \<leftarrow> lift_io (ask (StartProc [''iw'', ''event'']));
     ok \<leftarrow> check (\<not> isl p) (''iw event starts'' @ err_suffix (case p of Inl e \<Rightarrow> Some e | Inr p \<Rightarrow> None));
     (case p of
        Inl _ \<Rightarrow> give None
      | Inr pid \<Rightarrow> do {
          _ \<leftarrow> change (\<lambda>s. s\<lparr>ws_taken := AList.update pid 0 (ws_taken s)\<rparr>);
          _ \<leftarrow> track pid;
          give (Some pid)})}"

definition with_events :: "(string \<Rightarrow> unit wlan) \<Rightarrow> unit wlan" where
  "with_events k = do {
     e \<leftarrow> start_events;
     (case e of
        None \<Rightarrow> give ()
      | Some pid \<Rightarrow> do {
          _ \<leftarrow> k pid;
          lift_io (stop_server pid)})}"

definition phy_number :: re where
  "phy_number = seqs [Lit '' (phy #'', some_of is_digit, Lit ''): '']"

definition connect_re :: "string \<Rightarrow> re" where
  "connect_re net = seqs [Lit net, phy_number,
     Grp 1 (Or (Lit ''connected to'') (Or (Lit ''failed to connect'') (Lit ''timed out''))), Star any_char]"

definition disconnect_re :: "string \<Rightarrow> re" where
  "disconnect_re net = seqs [Lit net, phy_number, Lit ''disconnected'']"

definition wlan_connect :: "string \<Rightarrow> string \<Rightarrow> string \<Rightarrow> string wlan" where
  "wlan_connect pid net ssid = do {
     r \<leftarrow> host_run ''iw'' [''dev'', net, ''connect'', ssid];
     if \<not> run_ok r then give (''iw connect failed: '' @ trim_space (run_output r))
     else do {
       ev \<leftarrow> wait_event pid (connect_re net) 40000;
       give (if ev = [] then ''no connection event'' else ev)}}"


subsection \<open>Traffic\<close>

definition lease :: "string \<Rightarrow> bool wlan" where
  "lease net = do {
     s \<leftarrow> suite;
     r \<leftarrow> rig_run 60000 [''busybox'', ''udhcpc'', ''-i'', net, ''-f'', ''-n'', ''-q'', ''-t'', ''5'', ''-T'', ''2'', ''-s'',
       path_join [ws_out s, ''udhcpc.sh'']];
     a \<leftarrow> host_run ''ip'' [''-4'', ''-br'', ''addr'', ''show'', net];
     let addr = str_fields (r_stdout a);
     ok \<leftarrow> check (run_ok r \<and> length addr > 2) (net @ '' gets a DHCP lease'' @ list_suffix ''of'' (drop (min 2 (length addr)) addr));
     if \<not> ok then do {
       _ \<leftarrow> lift_io (print (run_output r));
       give False}
     else give True}"

definition is_retried :: "err option \<Rightarrow> bool" where
  "is_retried e = (case e of None \<Rightarrow> False
     | Some e \<Rightarrow> str_contains (err_text e) ''refused'' \<or> str_contains (err_text e) ''reset'')"

primrec iperf_tries :: "nat \<Rightarrow> string list \<Rightarrow> iperf \<times> err option \<Rightarrow> (iperf \<times> err option) wlan" where
  "iperf_tries 0 argv res = give res"
| "iperf_tries (Suc k) argv res = do {
     r \<leftarrow> rig_run 30000 argv;
     let res = parse_iperf (r_stdout r);
     if \<not> is_retried (snd res) then give res
     else do {
       _ \<leftarrow> lift_io (sys (Sleep 1000));
       iperf_tries k argv res}}"

definition flush_addr :: "string \<Rightarrow> unit wlan" where
  "flush_addr net = do {
     _ \<leftarrow> host_run ''ip'' [''-4'', ''addr'', ''flush'', ''dev'', net];
     give ()}"

definition wlan_iperf :: "guest \<Rightarrow> string \<Rightarrow> bool \<Rightarrow> unit wlan" where
  "wlan_iperf g net back = do {
     res \<leftarrow> iperf_tries 5 ([''iperf3'', ''-c'', wlan_server, ''--bind-dev'', net, ''-t'', ''3'', ''-J''] @
       (if back then [''-R''] else [])) (no_iperf, None);
     ok \<leftarrow> check (snd res = None \<and> flt_less zero (received_bps (fst res)))
       (''iperf3 '' @ (if back then ''from'' else ''to'') @ '' the guest: '' @
        show_float 0 (flt_div (received_bps (fst res)) (float_of 1000000)) @ '' Mb/s'' @ err_suffix (snd res));
     if ok then give ()
     else do {
       out \<leftarrow> ask_guest g ''pidof iperf3; cat /tmp/iperf3.log'' 10000;
       say out}}"

definition wlan_traffic :: "guest \<Rightarrow> string \<Rightarrow> unit wlan" where
  "wlan_traffic g net = do {
     on \<leftarrow> lift_io (wlan_carrier net);
     _ \<leftarrow> check on (net @ '' has carrier while connected'');
     ok \<leftarrow> lease net;
     if \<not> ok then give ()
     else do {
       r \<leftarrow> rig_run 60000 [''ping'', ''-c'', ''5'', ''-i'', ''0.2'', ''-W'', ''2'', ''-I'', net, wlan_server];
       let n = p_received (fst (parse_ping (run_output r)));
       _ \<leftarrow> check (run_ok r \<and> n = 5) (''ping '' @ wlan_server @ '' gets 5 replies: '' @ show_int n);
       _ \<leftarrow> each (wlan_iperf g net) [False, True];
       flush_addr net}}"


subsection \<open>The wiphy\<close>

definition show_list :: "string list \<Rightarrow> string" where
  "show_list xs = ''['' @ join_with '' '' xs @ '']''"

definition show_ints :: "int list \<Rightarrow> string" where
  "show_ints ns = show_list (map show_int ns)"

definition check_band :: "bands \<Rightarrow> bands \<Rightarrow> int \<Rightarrow> unit wlan" where
  "check_band host guest n = do {
     ok \<leftarrow> check (map_of guest n \<noteq> None \<and> map_of host n \<noteq> None) (''band '' @ show_int n @ '' is on both wiphys'');
     if \<not> ok then give ()
     else (let gb = band_in guest n; hb = band_in host n in do {
       _ \<leftarrow> check (show_ints (wb_freqs hb) = show_ints (wb_freqs gb))
         (''band '' @ show_int n @ '' has the guest's '' @ show_nat (length (wb_freqs gb)) @ '' channels'');
       _ \<leftarrow> check (wb_ht hb = wb_ht gb \<and> wb_vht hb = wb_vht gb \<and> wb_he hb = wb_he gb)
         (''band '' @ show_int n @ '' has the guest's HT '' @ wb_ht gb @ '', VHT '' @ wb_vht gb @ '' and HE '' @ show_bool (wb_he gb));
       give ()})}"

definition wlan_is_up :: "guest \<Rightarrow> bool wlan" where
  "wlan_is_up g = do {
     out \<leftarrow> ask_guest g ''cat /sys/class/net/wlan0/flags'' 10000;
     give (case parse_hex32 (trim_prefix (find_string hex_number out) ''0x'') of None \<Rightarrow> False | Some v \<Rightarrow> odd v)}"

definition check_flag :: "guest \<Rightarrow> string \<Rightarrow> string \<Rightarrow> unit wlan" where
  "check_flag g net state = do {
     r \<leftarrow> host_run ''ip'' [''link'', ''set'', net, state];
     ok \<leftarrow> (if run_ok r then do {u \<leftarrow> wlan_is_up g; give (u = (state = ''up''))} else give False);
     _ \<leftarrow> check ok (''bringing '' @ net @ '' '' @ state @ '' brings the guest's wlan0 '' @ state @ '' '' @ r_stderr r);
     give ()}"

fun power_save :: "guest \<Rightarrow> string \<Rightarrow> bool \<Rightarrow> string list \<Rightarrow> bool wlan" where
  "power_save g net ok [] = give ok"
| "power_save g net ok (state # states) = do {
     r \<leftarrow> host_run ''iw'' [''dev'', net, ''set'', ''power_save'', state];
     ok \<leftarrow> (if ok \<and> run_ok r then guest_says g ''iw dev wlan0 get power_save'' (''Power save: '' @ state) else give False);
     power_save g net ok states}"

fun countries :: "guest \<Rightarrow> bool \<Rightarrow> string list \<Rightarrow> bool wlan" where
  "countries g ok [] = give ok"
| "countries g ok (c # cs) = do {
     _ \<leftarrow> lift_io (set_country c);
     ok \<leftarrow> (if ok then guest_says g ''iw reg get'' (''country '' @ c @ '':'') else give False);
     countries g ok cs}"

definition no_stale :: "string \<Rightarrow> unit wlan" where
  "no_stale phy = do {
     v \<leftarrow> lift_io (wlan_counter phy ''stale_events'');
     _ \<leftarrow> check (v = 0) ''the guest reports no stale event'';
     give ()}"

definition check_wiphy :: "guest \<Rightarrow> string \<Rightarrow> unit wlan" where
  "check_wiphy g phy = do {
     r \<leftarrow> host_run ''iw'' [''phy'', phy, ''info''];
     let (host, host_ciphers) = parse_phy (r_stdout r);
     out \<leftarrow> ask_guest g ''iw phy $(cat /sys/class/net/wlan0/phy80211/name) info'' 10000;
     let (guest, guest_ciphers) = parse_phy out;
     let nums = sort (map fst host);
     _ \<leftarrow> check (show_ints nums = ''[1 2 4]'') (''the wiphy has the 2.4, 5 and 6 GHz bands: '' @ show_ints nums);
     _ \<leftarrow> each (check_band host guest) [1, 2, 4];
     _ \<leftarrow> check (host_ciphers \<noteq> [] \<and> show_list host_ciphers = show_list guest_ciphers)
       (''the wiphy has the guest's ciphers: '' @ show_list host_ciphers);
     give ()}"

definition test_addr :: string where "test_addr = ''02:11:22:33:44:55''"

definition wlan_test_wiphy :: "unit wlan" where
  "wlan_test_wiphy = do {
     g \<leftarrow> wlan_start;
     (case g of
        None \<Rightarrow> give ()
      | Some g \<Rightarrow> do {
          (phy, net) \<leftarrow> wlan_attach;
          if net = [] then give ()
          else do {
            _ \<leftarrow> check_wiphy g phy;
            _ \<leftarrow> check_flag g net ''up'';
            _ \<leftarrow> check_flag g net ''down'';
            orig \<leftarrow> lift_io (read_text (path_join [''/sys/class/net'', net, ''address'']));
            r \<leftarrow> host_run ''ip'' [''link'', ''set'', net, ''address'', test_addr];
            ok \<leftarrow> (if run_ok r then guest_says g ''cat /sys/class/net/wlan0/address'' test_addr else give False);
            _ \<leftarrow> check ok (''setting '' @ net @ '''s address sets the guest's '' @ r_stderr r);
            _ \<leftarrow> host_run ''ip'' [''link'', ''set'', net, ''address'', orig];
            _ \<leftarrow> host_run ''ip'' [''link'', ''set'', net, ''up''];
            ok \<leftarrow> power_save g net True [''off'', ''on''];
            _ \<leftarrow> check ok ''power save on the host turns it off and on in the guest'';
            _ \<leftarrow> host_run ''ip'' [''link'', ''set'', net, ''down''];
            ok \<leftarrow> countries g True [''GB'', wlan_country];
            _ \<leftarrow> check ok ''the host's country reaches the guest'';
            _ \<leftarrow> wlan_healthy g phy;
            no_stale phy}})}"

subsection \<open>Connections\<close>

definition no_result :: cmd_result where
  "no_result = \<lparr>r_stdout = [], r_stderr = [], r_code = 0, timed_out = False, r_err = None\<rparr>"

definition scan_failed :: "cmd_result \<Rightarrow> networks wlan" where
  "scan_failed r = do {
     _ \<leftarrow> say (''iw scan returned '' @ show_int (r_code r) @ '': '' @ trim_space (r_stderr r));
     give []}"

text \<open>The attempts that are left, the scans so far that found nothing, and the last result.\<close>

primrec scan_tries :: "nat \<Rightarrow> string \<Rightarrow> nat \<Rightarrow> cmd_result \<Rightarrow> networks wlan" where
  "scan_tries 0 net misses r = scan_failed r"
| "scan_tries (Suc k) net misses r = do {
     ended \<leftarrow> lift_io ctx_ended;
     if ended then scan_failed r
     else do {
       r \<leftarrow> lift_io (run_timeout 40000 ''iw'' [''dev'', net, ''scan'']);
       if parse_scan (r_stdout r) \<noteq> [] then give (parse_scan (r_stdout r))
       else (let misses = (if str_contains (r_stderr r) ''(-16)'' then misses else misses + 1) in
         if \<not> str_contains (r_stderr r) ''(-16)'' \<and> misses = 3 then scan_failed r
         else do {
           _ \<leftarrow> lift_io (sys (Sleep 1000));
           scan_tries k net misses r})}}"

definition wlan_scan :: "string \<Rightarrow> networks wlan" where
  "wlan_scan net = scan_tries 20 net 0 no_result"

definition missing_networks :: "networks \<Rightarrow> string list" where
  "missing_networks ns = filter (\<lambda>ssid. map_of ns ssid = None) wlan_networks"

definition wrong_networks :: "networks \<Rightarrow> string list" where
  "wrong_networks ns = concat (map (\<lambda>ssid. case map_of ns ssid of
       None \<Rightarrow> []
     | Some f \<Rightarrow> if band_of f \<noteq> split_on (CHR ''-'') ssid ! 1 then [ssid @ '' '' @ show_int f @ '' MHz''] else []) wlan_networks)"

definition not_connected :: "string \<Rightarrow> bool io" where
  "not_connected net = do {
     r \<leftarrow> run_cmd ''iw'' [''dev'', net, ''link''];
     ret (str_contains (r_stdout r) ''Not connected'')}"

definition carrier_lost :: "string \<Rightarrow> bool io" where
  "carrier_lost net = do {
     on \<leftarrow> wlan_carrier net;
     if on then ret False else not_connected net}"

text \<open>The open networks, with the number of disconnections that the host asked for.\<close>

fun open_networks :: "guest \<Rightarrow> string \<Rightarrow> string \<Rightarrow> nat \<Rightarrow> string list \<Rightarrow> nat wlan" where
  "open_networks g pid net n [] = give n"
| "open_networks g pid net n (ssid # rest) = do {
     ev \<leftarrow> wlan_connect pid net ssid;
     link \<leftarrow> host_run ''iw'' [''dev'', net, ''link''];
     ok \<leftarrow> check (str_contains ev ''connected to'' \<and> str_contains (r_stdout link) (''SSID: '' @ ssid))
       (''connecting to '' @ ssid @ '': '' @ ev);
     if \<not> ok then open_networks g pid net n rest
     else do {
       sta \<leftarrow> host_run ''iw'' [''dev'', net, ''station'', ''dump''];
       _ \<leftarrow> check (str_contains (r_stdout sta) ''signal:'') ''station dump shows the access point's signal'';
       _ \<leftarrow> wlan_traffic g net;
       _ \<leftarrow> host_run ''iw'' [''dev'', net, ''disconnect''];
       ev \<leftarrow> wait_event pid (disconnect_re net) 10000;
       lost \<leftarrow> (if ev \<noteq> [] then lift_io (carrier_lost net) else give False);
       _ \<leftarrow> check lost (''disconnecting from '' @ ssid @ '' drops the carrier'');
       open_networks g pid net (n + 1) rest}}"

definition with_wlan :: "(guest \<Rightarrow> string \<Rightarrow> string \<Rightarrow> unit wlan) \<Rightarrow> unit wlan" where
  "with_wlan k = do {
     r \<leftarrow> wlan_up;
     (case r of None \<Rightarrow> give () | Some (g, phy, net) \<Rightarrow> k g phy net)}"

definition wlan_test_connect :: "unit wlan" where
  "wlan_test_connect = with_wlan (\<lambda>g phy net. do {
     ns \<leftarrow> wlan_scan net;
     _ \<leftarrow> check (missing_networks ns = []) (''a scan finds the guest's networks'' @ list_suffix ''but'' (missing_networks ns));
     _ \<leftarrow> check (wrong_networks ns = []) (''each network is on its band'' @ list_suffix ''but'' (wrong_networks ns));
     with_events (\<lambda>pid. do {
       n \<leftarrow> open_networks g pid net 0 [''hwsim-2g-open'', ''hwsim-5g-open''];
       ev \<leftarrow> wlan_connect pid net ''hwsim-missing'';
       _ \<leftarrow> check (str_contains ev ''failed to connect'' \<or> str_contains ev ''timed out'')
         (''connecting to a missing network fails: '' @ ev);
       ev \<leftarrow> wlan_connect pid net ''hwsim-2g-open'';
       _ \<leftarrow> check (str_contains ev ''connected to'') (''connecting to hwsim-2g-open again: '' @ ev);
       _ \<leftarrow> wlan_healthy g phy;
       stale \<leftarrow> lift_io (settled_counter phy ''stale_events'');
       _ \<leftarrow> check (stale = int n)
         (''the guest reports the '' @ show_nat n @ '' disconnections as stale events: '' @ show_int stale);
       give ()})})"


subsection \<open>wpa_supplicant\<close>

definition wpa_state_re :: re where
  "wpa_state_re = seqs [line_begin, Lit ''wpa_state='', Grp 1 (some_of re_word)]"

definition wpa_state :: "string \<Rightarrow> string \<Rightarrow> string io" where
  "wpa_state net ctrl = do {
     r \<leftarrow> run_cmd ''wpa_cli'' [''-p'', ctrl, ''-i'', net, ''status''];
     ret (case first_group wpa_state_re (r_stdout r) of None \<Rightarrow> [] | Some w \<Rightarrow> w)}"

definition completed :: "string \<Rightarrow> string \<Rightarrow> bool io" where
  "completed net ctrl = do {
     w \<leftarrow> wpa_state net ctrl;
     ret (w = ''COMPLETED'')}"

definition wpa_conf :: "string \<Rightarrow> string \<Rightarrow> nat \<Rightarrow> string" where
  "wpa_conf ctrl ssid mfp = lines_of [''ctrl_interface='' @ ctrl, ''network={'',
     tab # ''ssid='' @ quote @ ssid @ quote, tab # ''psk='' @ quote @ wlan_passphrase @ quote,
     tab # ''key_mgmt='' @ (if mfp = 2 then ''WPA-PSK WPA-PSK-SHA256'' else ''WPA-PSK''),
     tab # ''ieee80211w='' @ show_nat mfp, ''}'']"

text \<open>\<open>strings.Count\<close> of a text that is not empty: its occurrences that do not overlap.\<close>

definition count_text :: "string \<Rightarrow> string \<Rightarrow> nat" where
  "count_text s what = count_matches (Lit what) s"

text \<open>The end of wpa_supplicant, whatever became of the test.\<close>

definition stop_supplicant :: "string \<Rightarrow> string \<Rightarrow> string \<Rightarrow> unit wlan" where
  "stop_supplicant pid net ssid = do {
     _ \<leftarrow> lift_io (sys (GuestSignal pid ''TERM''));
     r \<leftarrow> lift_io (sys (GuestWait pid 10000));
     _ \<leftarrow> (if succeeded r then give () else lift_io (stop_server pid));
     _ \<leftarrow> lift_io (wait (not_connected net) 10000 200);
     lost \<leftarrow> lift_io (carrier_lost net);
     _ \<leftarrow> check lost (''stopping wpa_supplicant disconnects from '' @ ssid);
     give ()}"

definition joined_again :: "string \<Rightarrow> string \<Rightarrow> string \<Rightarrow> bool io" where
  "joined_again net ctrl log_file = do {
     l \<leftarrow> read_text log_file;
     if count_text l ''CTRL-EVENT-CONNECTED'' \<ge> 2 then completed net ctrl else ret False}"

definition reset_line :: string where
  "reset_line = ''mount -t debugfs none /sys/kernel/debug; echo 1 > '' @
     ''/sys/kernel/debug/ieee80211/$(cat /sys/class/net/wlan0/phy80211/name)/reset && echo reset-'' @ [CHR 0x27, CHR 0x27] @ ''done''"

definition wpa_reset :: "guest \<Rightarrow> string \<Rightarrow> string \<Rightarrow> string \<Rightarrow> string \<Rightarrow> unit wlan" where
  "wpa_reset g net ssid ctrl log_file = do {
     said \<leftarrow> ask_guest g reset_line 10000;
     again \<leftarrow> lift_io (wait (joined_again net ctrl log_file) 30000 200);
     _ \<leftarrow> check (str_contains said ''reset-done'' \<and> again)
       (''wpa_supplicant joins '' @ ssid @ '' again after the guest's radio restarts'');
     give ()}"

text \<open>The negotiations so far of a network that renews its keys.\<close>

definition wpa_rekeys :: "string \<Rightarrow> string \<Rightarrow> string \<Rightarrow> string \<Rightarrow> nat wlan" where
  "wpa_rekeys net ssid ctrl log_file = do {
     _ \<leftarrow> lift_io (sys (Sleep 8000));
     l \<leftarrow> lift_io (read_text log_file);
     _ \<leftarrow> lift_io (wait (completed net ctrl) 5000 200);
     let negotiated = count_text l ''WPA: Key negotiation completed'';
     ok \<leftarrow> (if negotiated \<ge> 2 \<and> str_contains l ''WPA: Group rekeying completed'' then lift_io (completed net ctrl) else give False);
     _ \<leftarrow> check ok (ssid @ '' renews its pairwise and group keys'');
     give negotiated}"

definition wpa_joined :: "guest \<Rightarrow> string \<Rightarrow> string \<Rightarrow> string \<Rightarrow> string \<Rightarrow> bool \<Rightarrow> bool \<Rightarrow> unit wlan" where
  "wpa_joined g net ssid ctrl log_file rekeys reset = do {
     _ \<leftarrow> (if reset then wpa_reset g net ssid ctrl log_file else give ());
     negotiated \<leftarrow> (if rekeys then wpa_rekeys net ssid ctrl log_file else give 0);
     _ \<leftarrow> wlan_traffic g net;
     _ \<leftarrow> (if rekeys then do {
            l \<leftarrow> lift_io (read_text log_file);
            _ \<leftarrow> check (count_text l ''WPA: Key negotiation completed'' > negotiated)
              (ssid @ '' renews its pairwise key during the traffic'');
            _ \<leftarrow> lift_io (sys (Sleep 5000));
            give ()} else give ());
     if reset then give ()
     else do {
       l \<leftarrow> lift_io (read_text log_file);
       _ \<leftarrow> check (count_text l ''CTRL-EVENT-CONNECTED'' = 1 \<and> \<not> str_contains l ''CTRL-EVENT-DISCONNECTED'')
         (ssid @ '' stays connected throughout'');
       give ()}}"

definition wpa_session :: "guest \<Rightarrow> string \<Rightarrow> string \<Rightarrow> string \<Rightarrow> string \<Rightarrow> string \<Rightarrow> bool \<Rightarrow> bool \<Rightarrow> unit wlan" where
  "wpa_session g pid net ssid ctrl log_file rekeys reset = do {
     joined \<leftarrow> lift_io (wait (completed net ctrl) 30000 200);
     ok \<leftarrow> check joined (''wpa_supplicant joins '' @ ssid);
     _ \<leftarrow> (if \<not> ok then do {
            l \<leftarrow> lift_io (read_text log_file);
            say (tail_of 3000 l)}
          else wpa_joined g net ssid ctrl log_file rekeys reset);
     stop_supplicant pid net ssid}"

definition wlan_join :: "guest \<Rightarrow> string \<Rightarrow> string \<Rightarrow> nat \<Rightarrow> bool \<Rightarrow> bool \<Rightarrow> unit wlan" where
  "wlan_join g net ssid mfp rekeys reset = do {
     s \<leftarrow> suite;
     let ctrl = path_join [rg_dir s, ''wpa''];
     let conf = path_join [rg_dir s, ''wpa_supplicant.conf''];
     let log_file = path_join [rg_dir s, ''wpa-'' @ ssid @ ''.log''];
     e \<leftarrow> lift_io (do_sys (WriteFile conf (wpa_conf ctrl ssid mfp) 384));
     ok \<leftarrow> check (e = None) ''the wpa_supplicant configuration is written'';
     if \<not> ok then give ()
     else do {
       e \<leftarrow> lift_io (do_sys (OpenCreate log_file 438));
       ok \<leftarrow> check (e = None) (''the wpa_supplicant log is made'' @ err_suffix e);
       if \<not> ok then give ()
       else do {
         p \<leftarrow> lift_io (ask (StartProc [''wpa_supplicant'', ''-i'', net, ''-D'', ''nl80211'', ''-c'', conf]));
         _ \<leftarrow> lift_io (sys (CloseFile log_file));
         ok \<leftarrow> check (\<not> isl p) (''wpa_supplicant starts'' @ err_suffix (case p of Inl e \<Rightarrow> Some e | Inr p \<Rightarrow> None));
         (case p of
            Inl _ \<Rightarrow> give ()
          | Inr pid \<Rightarrow> do {
              _ \<leftarrow> track pid;
              wpa_session g pid net ssid ctrl log_file rekeys reset})}}}"

text \<open>Each network, until a signal.\<close>

fun join_all :: "guest \<Rightarrow> string \<Rightarrow> (string \<times> nat \<times> bool) list \<Rightarrow> bool wlan" where
  "join_all g net [] = give True"
| "join_all g net ((ssid, mfp, rekeys) # ws) = do {
     ended \<leftarrow> lift_io ctx_ended;
     if ended then give False
     else do {
       _ \<leftarrow> wlan_join g net ssid mfp rekeys False;
       join_all g net ws}}"

definition control_port :: "string \<Rightarrow> unit wlan" where
  "control_port phy = do {
     sent \<leftarrow> lift_io (wlan_counter phy ''control_port_frames'');
     received \<leftarrow> (if sent > 0 then lift_io (wlan_counter phy ''control_port_rx_frames'') else give 0);
     _ \<leftarrow> check (sent > 0 \<and> received > 0) ''wpa_supplicant sends and receives EAPOL frames through the control port'';
     give ()}"

definition wlan_test_wpa :: "unit wlan" where
  "wlan_test_wpa = with_wlan (\<lambda>g phy net. with_events (\<lambda>pid. do {
     before \<leftarrow> lift_io (settled_counter phy ''stale_events'');
     go_on \<leftarrow> join_all g net wlan_wpa;
     if \<not> go_on then give ()
     else do {
       _ \<leftarrow> control_port phy;
       after \<leftarrow> lift_io (settled_counter phy ''stale_events'');
       local \<leftarrow> count_events pid (Seq (disconnect_re net) (Lit '' (local request)''));
       _ \<leftarrow> check (wrap64 (after - before) \<ge> int local)
         (''the guest reports the '' @ show_nat local @ '' disconnections that wpa_supplicant asked for'');
       _ \<leftarrow> wlan_healthy g phy;
       t \<leftarrow> ask_counters g;
       _ \<leftarrow> check (at_key (parse_counters t) ''tx_chained'' > 0)
         ''the backend completes control port frames once they are sent'';
       give ()}}))"

definition wlan_test_reset :: "unit wlan" where
  "wlan_test_reset = with_wlan (\<lambda>g phy net. do {
     _ \<leftarrow> wlan_join g net ''hwsim-5g-wpa2-mfp'' 2 False True;
     wlan_healthy g phy})"

subsection \<open>The end of a device\<close>

definition wlan_left :: "string \<Rightarrow> string \<Rightarrow> bool io" where
  "wlan_left phy net = do {
     p \<leftarrow> stat_ok (path_join [''/sys/class/ieee80211'', phy]);
     if p then ret True else stat_ok (path_join [''/sys/class/net'', net])}"

definition check_connect :: "string \<Rightarrow> string \<Rightarrow> string \<Rightarrow> bool wlan" where
  "check_connect pid net what = do {
     ev \<leftarrow> wlan_connect pid net ''hwsim-2g-open'';
     check (str_contains ev ''connected to'') (what @ '': '' @ ev)}"

definition wlan_again :: "guest \<Rightarrow> unit wlan" where
  "wlan_again g = do {
     (phy, net) \<leftarrow> wlan_attach;
     if net = [] then give ()
     else do {
       _ \<leftarrow> host_run ''ip'' [''link'', ''set'', net, ''up''];
       with_events (\<lambda>pid. do {
         ok \<leftarrow> check_connect pid net ''connecting to hwsim-2g-open after attaching again'';
         _ \<leftarrow> (if ok then wlan_traffic g net else give ());
         wlan_healthy g phy})}}"

definition wlan_test_remove :: "unit wlan" where
  "wlan_test_remove = with_wlan (\<lambda>g phy net. do {
     e \<leftarrow> start_events;
     (case e of
        None \<Rightarrow> give ()
      | Some pid \<Rightarrow> do {
          ev \<leftarrow> wlan_connect pid net ''hwsim-2g-open'';
          _ \<leftarrow> lift_io (stop_server pid);
          ok \<leftarrow> check (str_contains ev ''connected to'') (''connecting to hwsim-2g-open: '' @ ev);
          if \<not> ok then give ()
          else do {
            _ \<leftarrow> wlan_healthy g phy;
            ok \<leftarrow> rig_detach wlan_name;
            if \<not> ok then give ()
            else do {
              there \<leftarrow> lift_io (wlan_left phy net);
              _ \<leftarrow> check (\<not> there) ''removing a connected device removes the wiphy and the interface'';
              wlan_again g}}})})"

text \<open>\<open>Duration.Seconds\<close> of a time in nanoseconds.\<close>

definition seconds :: "int \<Rightarrow> float" where
  "seconds d = (let s = (if d < 0 then - ((- d) div 1000000000) else d div 1000000000)
     in flt_add (float_of s) (flt_div (float_of (d - s * 1000000000)) (float_of 1000000000)))"

text \<open>An operation and the time that it took.\<close>

definition timed :: "'a wlan \<Rightarrow> ('a \<times> int) wlan" where
  "timed m = do {
     t \<leftarrow> lift_io now;
     x \<leftarrow> m;
     t' \<leftarrow> lift_io now;
     give (x, t' - t)}"

text \<open>Whether a condition of the test holds and the carrier is lost, with so many timeouts of commands.\<close>

definition timeouts_are :: "string \<Rightarrow> int \<Rightarrow> bool io" where
  "timeouts_are phy n = do {
     v \<leftarrow> wlan_counter phy ''cmd_timeouts'';
     ret (v = n)}"

definition ended_with :: "string \<Rightarrow> string \<Rightarrow> string \<Rightarrow> int \<Rightarrow> bool io" where
  "ended_with ev phy net n =
     (if ev = [] then ret False
      else do {
        on \<leftarrow> wlan_carrier net;
        if on then ret False else timeouts_are phy n})"

definition kill_traffic :: "string \<Rightarrow> cmd_result wlan" where
  "kill_traffic net = rig_run 120000 [''iperf3'', ''-c'', wlan_server, ''--bind-dev'', net, ''-t'', ''60'']"

definition kill_connected :: "guest \<Rightarrow> string \<Rightarrow> string \<Rightarrow> string \<Rightarrow> unit wlan" where
  "kill_connected g phy net pid = do {
     _ \<leftarrow> wlan_healthy g phy;
     _ \<leftarrow> lift_io (sys (Sleep 3000));
     uml \<leftarrow> lift_io (uml_pid (int_or_zero (g_pid g)));
     ok \<leftarrow> check (uml > 0) ''the guest's UML process is found'';
     if \<not> ok then do {_ \<leftarrow> kill_traffic net; give ()}
     else do {
       _ \<leftarrow> lift_io (sys (GuestSignal (show_int uml) ''KILL''));
       (ev, took) \<leftarrow> timed (wait_event pid (disconnect_re net) 30000);
       _ \<leftarrow> kill_traffic net;
       ok \<leftarrow> lift_io (ended_with ev phy net 1);
       _ \<leftarrow> check ok (''killing the guest during traffic ends the connection after '' @ show_float 1 (seconds took) @ '' s'');
       _ \<leftarrow> lift_io (guest_wait g 30000);
       _ \<leftarrow> host_run ''ip'' [''link'', ''set'', net, ''down''];
       (r, took) \<leftarrow> timed (host_run ''ip'' [''link'', ''set'', net, ''up'']);
       ok \<leftarrow> (if \<not> run_ok r \<and> took < millis 1000 then lift_io (timeouts_are phy 1) else give False);
       _ \<leftarrow> check ok ''the broken device fails commands at once'';
       _ \<leftarrow> lift_io (vdpa_remove wlan_name True);
       there \<leftarrow> lift_io (wlan_left phy net);
       _ \<leftarrow> check (\<not> there) ''the broken device can be removed'';
       give ()}}"

definition wlan_test_kill :: "unit wlan" where
  "wlan_test_kill = with_wlan (\<lambda>g phy net. with_events (\<lambda>pid. do {
     ev \<leftarrow> wlan_connect pid net ''hwsim-2g-open'';
     leased \<leftarrow> (if str_contains ev ''connected to'' then lease net else give False);
     ok \<leftarrow> check leased (''connecting to hwsim-2g-open: '' @ ev);
     _ \<leftarrow> (if ok then kill_connected g phy net pid else give ());
     flush_addr net}))"

definition wlan_test_gone :: "unit wlan" where
  "wlan_test_gone = with_wlan (\<lambda>g phy net. with_events (\<lambda>pid. do {
     ok \<leftarrow> check_connect pid net ''connecting to hwsim-2g-open'';
     if \<not> ok then give ()
     else do {
       _ \<leftarrow> ask_guest g ''iw dev wlan0 del'' 10000;
       ev \<leftarrow> wait_event pid (disconnect_re net) 5000;
       ok \<leftarrow> lift_io (ended_with ev phy net 0);
       _ \<leftarrow> check ok ''removing the guest's interface ends the host's connection at once'';
       _ \<leftarrow> host_run ''ip'' [''link'', ''set'', net, ''down''];
       (r, took) \<leftarrow> timed (host_run ''ip'' [''link'', ''set'', net, ''up'']);
       ok \<leftarrow> (if \<not> run_ok r \<and> took < millis 2000 then lift_io (timeouts_are phy 0) else give False);
       _ \<leftarrow> check ok ''the device then fails commands without a timeout'';
       (_, took) \<leftarrow> timed (lift_io (vdpa_remove wlan_name False));
       there \<leftarrow> lift_io (stat_ok (path_join [''/sys/class/net'', net]));
       _ \<leftarrow> check (\<not> there \<and> took < millis 5000) (''the device is removed in '' @ show_float 1 (seconds took) @ '' s'');
       give ()}}))"


subsection \<open>The suite\<close>

definition wlan_tests :: "wlan_suite test_case list" where
  "wlan_tests =
    [\<lparr>tc_name = ''wiphy'', tc_about = ''the wiphy has the guest's bands and ciphers, and the interface's state and settings reach the guest'', tc_run = wlan_test_wiphy\<rparr>,
     \<lparr>tc_name = ''connect'', tc_about = ''a scan finds every network on its band, and open networks pass traffic'', tc_run = wlan_test_connect\<rparr>,
     \<lparr>tc_name = ''wpa'', tc_about = ''wpa_supplicant joins WPA2 and WPA3 networks, renews keys and passes traffic'', tc_run = wlan_test_wpa\<rparr>,
     \<lparr>tc_name = ''reset'', tc_about = ''wpa_supplicant joins again after the guest's radio restarts'', tc_run = wlan_test_reset\<rparr>,
     \<lparr>tc_name = ''remove'', tc_about = ''a connected device is removed and attached again'', tc_run = wlan_test_remove\<rparr>,
     \<lparr>tc_name = ''kill'', tc_about = ''a guest killed under traffic ends the connection, and the broken device fails fast'', tc_run = wlan_test_kill\<rparr>,
     \<lparr>tc_name = ''gone'', tc_about = ''removing the guest's interface ends the connection, and the device fails without a timeout'', tc_run = wlan_test_gone\<rparr>]"

definition run_wlan_test :: "wlan_suite test_case \<Rightarrow> unit wlan" where
  "run_wlan_test t = do {
     s \<leftarrow> suite;
     ok \<leftarrow> rig_begin wlan_name (ws_out s) (tc_name t);
     if \<not> ok then give ()
     else do {
       _ \<leftarrow> change (\<lambda>s. s\<lparr>rg_guests := []\<rparr>);
       _ \<leftarrow> change (\<lambda>s. s\<lparr>ws_procs := []\<rparr>);
       _ \<leftarrow> tc_run t;
       rig_end wlan_name (tc_name t) True}}"

definition wlan_suite_run :: "int \<Rightarrow> (string \<Rightarrow> bool) \<Rightarrow> err option wlan" where
  "wlan_suite_run pid wanted = suite_run run_wlan_test wlan_tests pid wanted"

definition wlan_all :: "int \<Rightarrow> (string \<Rightarrow> bool) \<Rightarrow> err option wlan" where
  "wlan_all pid wanted = do {
     e \<leftarrow> wlan_setup;
     if e \<noteq> None then give e
     else do {
       r \<leftarrow> wlan_suite_run pid wanted;
       _ \<leftarrow> wlan_teardown;
       give r}}"

text \<open>What a second signal does, after which the program exits with status 1.\<close>

definition kill_proc :: "string \<Rightarrow> unit io" where
  "kill_proc pid = do {_ \<leftarrow> sys (GuestSignal pid ''KILL''); ret ()}"

definition wlan_interrupted :: "unit wlan" where
  "wlan_interrupted = do {
     s \<leftarrow> suite;
     _ \<leftarrow> lift_io (for_each guest_kill (rg_guests s));
     _ \<leftarrow> lift_io (for_each kill_proc (ws_procs s));
     _ \<leftarrow> lift_io (cleanup_dev wlan_name);
     _ \<leftarrow> wlan_teardown;
     _ \<leftarrow> lift_io (sys CloseTee);
     give ()}"

definition wlan_usage :: string where
  "wlan_usage = lines_of ([''usage: invirtio-test test-wlan [options]'', [],
     ''Test the host's virtio_wlan against a guest that exports a mac80211_hwsim'',
     ''radio and runs access points on three others, with a DHCP server and an'',
     ''iperf3 server behind them. Each test starts its own guest under the'',
     ''launcher and leaves no device behind. The host's country is set to DE for'',
     ''the 6 GHz band and restored afterwards. Build the guest with'',
     ''scripts/invirtio-build-guest.sh -t wlan-test. Every test checks that the'',
     ''driver's and the guest's error counters stay at zero and that neither'',
     ''kernel logs a warning. The guests' consoles go to <test>/guest-<n>.log in'',
     ''the output directory. Run as root on the linux-host kernel, with iw,'',
     ''wpa_supplicant, iperf3 and busybox, and with debugfs mounted.'', [], ''Tests:''] @
     map (\<lambda>t. ''  '' @ pad_right 8 (tc_name t) @ '' '' @ tc_about t) wlan_tests)"

definition wlan_flags :: flag_set where
  "wlan_flags = map (\<lambda>n. (n, StringFlag)) [''guest'', ''out'', ''run'']"

definition wlan_defaults :: "string \<Rightarrow> flag_values" where
  "wlan_defaults repo = Map.empty(''guest'' \<mapsto> path_join [repo, ''linux-uml/build-wlan-test''],
     ''out'' \<mapsto> path_join [repo, ''build/test-wlan''])"

definition new_wlan_suite :: "string \<Rightarrow> string \<Rightarrow> wlan_suite" where
  "new_wlan_suite build out_dir =
     \<lparr>ck_failures = [], rg_dir = [], rg_log_dir = [], rg_guests = [], rg_marks = [], ws_build = build,
      ws_out = out_dir, ws_country = [], ws_procs = [], ws_taken = []\<rparr>"

definition cmd_test_wlan :: "(string \<Rightarrow> (string \<Rightarrow> bool) res) \<Rightarrow> int \<Rightarrow> string list \<Rightarrow> outcome io" where
  "cmd_test_wlan compile pid args = do {
     repo \<leftarrow> repo_root;
     (case parse_flags wlan_flags (wlan_defaults repo) args of
        Inl n \<Rightarrow> usage_exit wlan_usage n
      | Inr (v, rest) \<Rightarrow>
          if rest \<noteq> [] then usage_exit wlan_usage 2
          else case compile (flag_string v ''run'') of
              Inl e \<Rightarrow> ret (Returned (Some e))
            | Inr wanted \<Rightarrow> as_test_root (do {
                p \<leftarrow> abs_path (flag_string v ''out'');
                (case p of
                   Inl e \<Rightarrow> ret (Returned (Some e))
                 | Inr dir \<Rightarrow> do {
                     r \<leftarrow> run_job (wlan_all pid wanted) (new_wlan_suite (flag_string v ''guest'') dir);
                     ret (Returned (fst r))})}))}"

end
