(* ===== verification/WlanCountry.thy ===== *)
theory WlanCountry
  imports WlanTests
begin

text \<open>
  What the WiFi tests leave: the report, the country of the host, the events that were consumed, and the
  end of the wait for a counter.
\<close>

subsection \<open>The report\<close>

lemma calls_settle [intro!]: "calls_host (wlan_counter phy n)" "calls_host (settle k phy n v since stop)" "calls_host (settled_rounds phy n)" "calls_host (settled_counter phy n)"
    "calls_host (bad_of phy ns)"
proof -
  show c: "calls_host (wlan_counter phy n)" for n
    unfolding wlan_counter_def by (intro calls_steps calls_known)
  show s: "calls_host (settle k phy n v since stop)" for k v since stop
    by (induction k arbitrary: v since stop) (auto simp: c)
  show "calls_host (settled_rounds phy n)" "calls_host (settled_counter phy n)"
    unfolding settled_counter_def settled_rounds_def by (intro calls_steps c s)+
  show "calls_host (bad_of phy ns)"
    by (induction ns) (auto simp: c)
qed

lemma calls_wlan [intro!]:
  "calls_host global_regdom" "calls_host (set_country c)" "calls_host (wlan_host d)" "calls_host permits_6ghz" "calls_host (find_wiphy st)"
  "calls_host (unblock phy)" "calls_host (says cmd what g)" "calls_host (wlan_carrier net)" "calls_host (events_text pid)"
  "calls_host (look r pid st')" "calls_host (stop_server pid)" "calls_host (not_connected net)" "calls_host (carrier_lost net)"
  "calls_host (completed net ctrl)" "calls_host (joined_again net ctrl l)" "calls_host (wlan_left phy net)"
  "calls_host (timeouts_are phy m)" "calls_host (ended_with ev phy net m)"
  unfolding global_regdom_def set_country_def wlan_host_def permits_6ghz_def find_wiphy_def unblock_def says_def wlan_carrier_def
    events_text_def look_def stop_server_def not_connected_def carrier_lost_def completed_def wpa_state_def joined_again_def
    wlan_left_def timeouts_are_def ended_with_def debugfs_def Let_def
  by (intro calls_steps calls_known calls_changes calls_and_then calls_settle)+

text \<open>What a test leaves as it is: all but the checks, the guests, the processes and the events.\<close>

definition wlan_frame :: "wlan_suite \<Rightarrow> wlan_suite" where
  "wlan_frame s = s\<lparr>ck_failures := [], rg_dir := [], rg_log_dir := [], rg_guests := [], rg_marks := [], ws_procs := [], ws_taken := []\<rparr>"

interpretation wlan_log: rig_log wlan_frame
  by unfold_locales (simp_all add: wlan_frame_def list_emb_append_mono)

lemma tells_taken [intro!]: "wlan_log.tells (change (\<lambda>s. s\<lparr>ws_taken := f s\<rparr>))" "wlan_log.tells (change (\<lambda>s. s\<lparr>ws_procs := h s\<rparr>))"
  by (rule wlan_log.logged_change, simp add: wlan_frame_def)+

lemma tells_wlan [intro!]:
  "wlan_log.tells wlan_start" "wlan_log.tells wlan_attach" "wlan_log.tells wlan_up" "wlan_log.tells (wlan_healthy g phy)"
  "wlan_log.tells (guest_says g cmd what)" "wlan_log.tells (wait_event pid r timeout)" "wlan_log.tells (count_events pid r)"
  "wlan_log.tells (track pid)" "wlan_log.tells start_events" "wlan_log.tells (wlan_connect pid net ssid)" "wlan_log.tells (lease net)"
  "wlan_log.tells (flush_addr net)"
  unfolding wlan_start_def wlan_attach_def wlan_up_def wlan_healthy_def guest_says_def wait_event_def count_events_def track_def
    start_events_def wlan_connect_def lease_def flush_addr_def Let_def
  by auto

lemma tells_traffic [intro!]:
  "wlan_log.tells (iperf_tries k argv res)" "wlan_log.tells (wlan_iperf g net b)" "wlan_log.tells (wlan_traffic g net)"
proof -
  show t: "wlan_log.tells (iperf_tries k argv res)" for k argv res
    by (induction k arbitrary: res) (simp_all only: iperf_tries.simps Let_def, intro wlan_log.logged_give,
      intro wlan_log.logged_bind wlan_log.logged_if wlan_log.logged_give wlan_log.tells_rig wlan_log.tells_host calls_host_sys)
  show i: "wlan_log.tells (wlan_iperf g net b)" for b
    unfolding wlan_iperf_def by (auto intro!: t)
  show "wlan_log.tells (wlan_traffic g net)"
    unfolding wlan_traffic_def Let_def by (auto intro!: i)
qed

lemma tells_with_wlan [intro!]:
  "(\<And>g phy net. wlan_log.tells (k g phy net)) \<Longrightarrow> wlan_log.tells (with_wlan k)"
  "(\<And>pid. wlan_log.tells (m pid)) \<Longrightarrow> wlan_log.tells (with_events m)"
  unfolding with_wlan_def with_events_def by auto

lemma tells_timed [intro!]: "wlan_log.tells m \<Longrightarrow> wlan_log.tells (timed m)"
  unfolding timed_def by auto

lemma tells_wiphy [intro!]:
  "wlan_log.tells (check_band host guest n)" "wlan_log.tells (wlan_is_up g)" "wlan_log.tells (check_flag g net state)"
  "wlan_log.tells (power_save g net ok states)" "wlan_log.tells (countries g ok cs)" "wlan_log.tells (no_stale phy)"
  "wlan_log.tells (check_wiphy g phy)"
proof -
  show b: "wlan_log.tells (check_band host guest n)" for host guest n
    unfolding check_band_def Let_def by auto
  show u: "wlan_log.tells (wlan_is_up g)" unfolding wlan_is_up_def by auto
  show "wlan_log.tells (check_flag g net state)" unfolding check_flag_def by (auto intro!: u)
  show "wlan_log.tells (power_save g net ok states)"
    by (induction g net ok states rule: power_save.induct) auto
  show "wlan_log.tells (countries g ok cs)"
    by (induction g ok cs rule: countries.induct) auto
  show "wlan_log.tells (no_stale phy)" unfolding no_stale_def by auto
  show "wlan_log.tells (check_wiphy g phy)" unfolding check_wiphy_def Let_def by (auto intro!: b)
qed

lemma tells_connections [intro!]:
  "wlan_log.tells (scan_tries k net misses r)" "wlan_log.tells (wlan_scan net)" "wlan_log.tells (open_networks g pid net n ssids)"
proof -
  show "wlan_log.tells (scan_tries k net misses r)" for k misses r
    by (induction k arbitrary: misses r) (auto simp: scan_failed_def Let_def)
  then show "wlan_log.tells (wlan_scan net)" unfolding wlan_scan_def .
  show "wlan_log.tells (open_networks g pid net n ssids)"
    by (induction g pid net n ssids rule: open_networks.induct) auto
qed

lemma tells_supplicant [intro!]:
  "wlan_log.tells (stop_supplicant pid net ssid)" "wlan_log.tells (wpa_reset g net ssid ctrl l)" "wlan_log.tells (wpa_rekeys net ssid ctrl l)"
  "wlan_log.tells (wpa_joined g net ssid ctrl l rekeys reset)" "wlan_log.tells (wpa_session g pid net ssid ctrl l rekeys reset)"
  "wlan_log.tells (wlan_join g net ssid mfp rekeys reset)" "wlan_log.tells (join_all g net ws)" "wlan_log.tells (control_port phy)"
proof -
  show st: "wlan_log.tells (stop_supplicant pid net ssid)" for g net pid ssid unfolding stop_supplicant_def by auto
  show re: "wlan_log.tells (wpa_reset g net ssid ctrl l)" for g net ssid ctrl l unfolding wpa_reset_def by auto
  show rk: "wlan_log.tells (wpa_rekeys net ssid ctrl l)" for g net ssid ctrl l unfolding wpa_rekeys_def Let_def by auto
  show jo: "wlan_log.tells (wpa_joined g net ssid ctrl l rekeys reset)" for g net ssid ctrl l rekeys reset
    unfolding wpa_joined_def by (auto intro!: re rk)
  show se: "wlan_log.tells (wpa_session g pid net ssid ctrl l rekeys reset)" for pid g net ssid ctrl l rekeys reset
    unfolding wpa_session_def by (auto intro!: jo st)
  show wj: "wlan_log.tells (wlan_join g net ssid mfp rekeys reset)" for g net ssid mfp rekeys reset
    unfolding wlan_join_def Let_def by (auto intro!: se)
  show "wlan_log.tells (join_all g net ws)"
    by (induction g net ws rule: join_all.induct) (auto intro!: wj)
  show "wlan_log.tells (control_port phy)" unfolding control_port_def by auto
qed

lemma tells_ends [intro!]:
  "wlan_log.tells (check_connect pid net what)" "wlan_log.tells (wlan_again g)" "wlan_log.tells (kill_traffic net)"
  "wlan_log.tells (kill_connected g phy net pid)"
  unfolding kill_connected_def wlan_again_def check_connect_def kill_traffic_def
  by auto

lemma tells_wlan_tests: "list_all (\<lambda>t. wlan_log.tells (tc_run t)) wlan_tests"
  unfolding wlan_tests_def list.pred_inject test_case.simps
    wlan_test_wiphy_def wlan_test_connect_def wlan_test_wpa_def wlan_test_reset_def wlan_test_remove_def wlan_test_kill_def
    wlan_test_gone_def Let_def
  by (intro conjI) auto

interpretation wlan: test_suite subseq wlan_frame run_wlan_test wlan_tests
proof unfold_locales
  fix t assume "t \<in> set wlan_tests"
  then have "wlan_log.tells (tc_run t)" using tells_wlan_tests by (simp add: list_all_iff)
  then show "wlan_log.tells (run_wlan_test t)" unfolding run_wlan_test_def by auto
qed


subsection \<open>The country\<close>

text \<open>The countries that a history sets, and the one that the host had before.\<close>

fun sets_country :: "call \<Rightarrow> string list" where
  "sets_country (RunCmd d n p xs) = (if p = ''iw'' \<and> take 2 xs = [''reg'', ''set''] then drop 2 xs else [])"
| "sets_country c = []"

definition countries_set :: "history \<Rightarrow> string list" where
  "countries_set t = concat (map (\<lambda>(c, r). sets_country c) t)"

definition had_country :: "string \<Rightarrow> history \<Rightarrow> bool" where
  "had_country c t \<longleftrightarrow> (\<exists>u x v. t = u @ (RunCmd [] 0 ''iw'' [''reg'', ''get''], x) # v \<and> countries_set u = [] \<and>
     c = country_in (global_part (nth_datum x 0)))"

definition country_left :: "history \<Rightarrow> bool" where
  "country_left t \<longleftrightarrow> countries_set t = [] \<or> had_country (last (countries_set t)) t"

lemma countries_set_simps [simp]:
  "countries_set [] = []" "countries_set ((c, r) # t) = sets_country c @ countries_set t"
  "countries_set (t @ u) = countries_set t @ countries_set u"
  by (simp_all add: countries_set_def)

lemma countries_none: "only (\<lambda>c. sets_country c = []) t \<Longrightarrow> countries_set t = []"
  by (induction t) auto

lemma had_country_append: "had_country c t \<Longrightarrow> had_country c (t @ u)"
  unfolding had_country_def by fastforce

lemma country_in_some: "country_in part \<noteq> []"
proof (cases "find_groups reg_country_re part")
  case (Some m)
  have "m 1 \<noteq> []"
    using Some unfolding reg_country_re_def seqs.simps text_begin_def
  proof (rule group_not_empty)
    fix d k k'
    assume "(d, k') \<in> set (matches (Or (Seq (Cls (\<lambda>c. 65 \<le> code c \<and> code c \<le> 90)) (Cls (\<lambda>c. 65 \<le> code c \<and> code c \<le> 90))) (Lit ''00'')) k)"
    then show "d = []" by (auto simp: followed_iff split: list.splits if_splits option.splits)
  qed simp
  with Some show ?thesis by (simp add: country_in_def first_group_def)
qed (simp add: country_in_def first_group_def)

abbreviation no_country :: "call \<Rightarrow> bool" where
  "no_country \<equiv> \<lambda>c. sets_country c = []"

lemma no_country_calls:
  "makes no_country (need_tool w)" "makes no_country (modprobe ms)" "makes no_country debugfs" "makes no_country (tee_output p)"
  "makes no_country permits_6ghz" "makes no_country (wait permits_6ghz a b)"
proof -
  show p: "makes no_country permits_6ghz"
    unfolding permits_6ghz_def global_regdom_def by (intro makes_steps makes_run) simp
  show "makes no_country (wait permits_6ghz a b)" by (intro makes_wait p) simp_all
  show "makes no_country (need_tool w)" "makes no_country debugfs" "makes no_country (tee_output p)"
    unfolding need_tool_def debugfs_def tee_output_def by (intro makes_steps makes_run; simp)+
  show "makes no_country (modprobe ms)"
    unfolding modprobe_def by (intro makes_run) simp
qed

lemma no_country_setup: "makes no_country (wlan_host d)"
  unfolding wlan_host_def and_then_def by (intro makes_steps no_country_calls) simp_all

definition country_kept :: "wlan_suite \<Rightarrow> err option \<Rightarrow> wlan_suite \<Rightarrow> history \<Rightarrow> bool" where
  "country_kept s r s' t \<longleftrightarrow> ck_failures s' = ck_failures s \<and>
     (if r = None then ws_country s' \<noteq> [] \<and> had_country (ws_country s') t else country_left t)"

lemma set_country_emits: "emits (set_country c) (\<lambda>_ t. countries_set t = [c])"
  unfolding set_country_def by (rule emits_bind [OF run_cmd_emits]) auto

lemma country_teardown: "goes s wlan_teardown (\<lambda>_ s' t. s' = s \<and> (ws_country s \<noteq> [] \<longrightarrow> countries_set t = [ws_country s]))"
  unfolding wlan_teardown_def
  by (intro goes_suite_bind goes_if goes_lift goes_give) (auto intro!: emits_mono [OF set_country_emits])

lemma country_setup: "goes s wlan_setup (country_kept s)"
  unfolding wlan_setup_def
proof (rule goes_suite_bind, rule goes_lift_bind [OF emits_only [OF no_country_setup]], rule goes_if, goal_cases)
  case (1 e t)
  then show ?case by (intro goes_give) (auto simp: country_kept_def country_left_def countries_none)
next
  case (2 e t)
  note t = 2
  have reg: "emits global_regdom (\<lambda>p u. \<exists>x. u = [(RunCmd [] 0 ''iw'' [''reg'', ''get''], x)] \<and> p = global_part (nth_datum x 0))"
    unfolding global_regdom_def by (rule emits_bind [OF run_cmd_emits]) auto
  show ?case
  proof (rule goes_lift_bind [OF reg], elim exE conjE, rule goes_change_bind, rule goes_lift_bind [OF set_country_emits],
      rule goes_lift_bind [OF emits_only [OF no_country_calls(6)]], rule goes_if, goal_cases)
    case (1 p t1 x u t2 ok t3)
    then have had: "had_country (country_in p) (t @ t1 @ t2 @ t3 @ v)" for v
      unfolding had_country_def by (intro exI [of _ t] exI [of _ x] exI [of _ "t2 @ t3 @ v"]) (simp add: countries_none t)
    show ?case
    proof (rule goes_bind [OF country_teardown], rule goes_give, goal_cases)
      case (1 y s2 t4)
      then have "countries_set t4 = [country_in p]" by (simp add: country_in_some)
      with had [of t4] 1 show ?case by (simp add: country_kept_def country_left_def)
    qed
  next
    case (2 p t1 x u t2 ok t3)
    then have "had_country (country_in p) (t @ t1 @ t2 @ t3)"
      unfolding had_country_def by (intro exI [of _ t] exI [of _ x] exI [of _ "t2 @ t3"]) (simp add: countries_none t)
    then show ?case by (intro goes_give) (simp add: country_kept_def country_in_some)
  qed
qed

lemma country_frame: "wlan_frame s2 = wlan_frame s1 \<Longrightarrow> ws_country s2 = ws_country s1"
  by (auto simp: wlan_frame_def dest: arg_cong [of _ _ ws_country])

lemma wlan_all_goes:
  assumes "ck_failures s = []"
  shows "goes s (wlan_all pid wanted) (\<lambda>r s' t. country_left t \<and> subseq (ck_failures s') (printed_failures t) \<and>
    (reports r (ck_failures s') \<or> r \<noteq> None \<and> ck_failures s' = []))"
  unfolding wlan_all_def
proof (rule goes_bind [OF country_setup], rule goes_if, goal_cases)
  case (1 e s1 t1)
  with assms show ?case by (intro goes_give) (simp add: country_kept_def)
next
  case (2 e s1 t1)
  then have c: "ws_country s1 \<noteq> []" "had_country (ws_country s1) t1" "ck_failures s1 = []"
    using assms by (simp_all add: country_kept_def)
  show ?case unfolding wlan_suite_run_def
  proof (rule goes_bind [OF goes_does [OF wlan.suite_faithful [unfolded faithful_def]]], elim conjE exE,
      rule goes_bind [OF country_teardown], rule goes_give, goal_cases)
    case (1 r s2 t2 fs u s3 t3)
    then have "ws_country s2 = ws_country s1" by (blast intro: country_frame)
    with 1 c have "countries_set t3 = [ws_country s1]" by simp
    moreover have "had_country (ws_country s1) (t1 @ t2 @ t3)" using c(2) by (rule had_country_append)
    ultimately have "country_left (t1 @ t2 @ t3)" by (simp add: country_left_def)
    with 1 c show ?case by (simp add: subseq_drop_many subseq_rev_drop_many)
  qed
qed


text \<open>
  The report of the WiFi tests. On every host, the failures that a run has recorded are among those that it
  printed, in their order, and the run returns what the report says of them: no error only when nothing was
  recorded, and otherwise an error with their number. Only a set-up that fails returns another error,
  before any check.
\<close>

theorem wlan_report:
  "case run e (run_job (wlan_all pid wanted) (new_wlan_suite build out)) of ((r, s), t) \<Rightarrow>
     subseq (ck_failures s) (printed_failures t) \<and>
     (reports r (ck_failures s) \<or> r \<noteq> None \<and> ck_failures s = [])"
proof -
  let ?s = "new_wlan_suite build out"
  have "ck_failures ?s = []" by (simp add: new_wlan_suite_def)
  moreover obtain r s t where r: "run e (run_job (wlan_all pid wanted) ?s) = ((r, s), t)" by (metis prod.exhaust)
  ultimately show ?thesis using emits_run [OF emits_goes [OF wlan_all_goes] r] by (simp add: r)
qed


subsection \<open>Events\<close>

text \<open>A wait whose condition keeps its state until it holds.\<close>

definition held_last :: "('s \<Rightarrow> history \<Rightarrow> bool) \<Rightarrow> 's \<Rightarrow> (bool \<times> 's) option \<Rightarrow> history \<Rightarrow> bool" where
  "held_last P s x t \<longleftrightarrow> (case x of None \<Rightarrow> True | Some (b, s') \<Rightarrow> if b then \<exists>u h. t = u @ h \<and> P s' h else s' = s)"

lemma held_last_more:
  assumes "held_last P s x t"
  shows "held_last P s x (u @ t)"
proof -
  have more: "\<exists>v h. u @ t = v @ h \<and> P y h" if "t = v @ h" "P y h" for y v h
    using that by (intro exI [of _ "u @ v"] exI [of _ h]) simp
  show ?thesis
  proof (cases x)
    case (Some y)
    with assms more show ?thesis by (cases y) (auto simp: held_last_def split: if_splits simp del: append_assoc)
  qed (simp add: held_last_def)
qed

lemma held_last_now: "(if fst x then P (snd x) h else snd x = s) \<Longrightarrow> held_last P s (Some x) h"
  unfolding held_last_def by (cases x) (auto intro: exI [of _ "[]"])

lemma wait_keeps:
  assumes "emits (cond s) (\<lambda>x h. if fst x then P (snd x) h else snd x = s)"
  shows "emits (wait_rounds k cond stop pause s) (held_last P s)"
proof (induction k)
  case (Suc k)
  show ?case unfolding wait_rounds.simps
  proof (rule emits_now_bind, rule emits_if, goal_cases)
    case (1 r)
    show ?case
    proof (rule emits_bind [OF assms], rule emits_if, goal_cases)
      case (1 x h)
      then show ?case using held_last_more [OF held_last_now, of x P h s "[(Now, r)]"] by (intro emits_ret) simp
    next
      case (2 x h)
      then have x: "snd x = s" by simp
      show ?case unfolding x
      proof (rule emits_sys_bind, rule emits_mono [OF Suc.IH])
        fix y t q
        assume "held_last P s y t"
        from held_last_more [OF this, of "(Now, r) # h @ [(Sleep pause, q)]"]
        show "held_last P s y ((Now, r) # h @ (Sleep pause, q) # t)" by simp
      qed
    qed
  next
    case (2 r)
    show ?case
    proof (rule emits_bind [OF assms], rule emits_ret)
      fix x h
      assume "if fst x then P (snd x) h else snd x = s"
      then have "held_last P s (Some x) h" by (rule held_last_now)
      from held_last_more [OF this, of "[(Now, r)]"] show "held_last P s (Some x) ((Now, r) # h @ [])" by simp
    qed
  qed
qed (simp add: emits_ret held_last_def)

definition saw :: "string \<Rightarrow> re \<Rightarrow> nat \<Rightarrow> string \<times> nat \<Rightarrow> history \<Rightarrow> bool" where
  "saw pid r n x h \<longleftrightarrow> (\<exists>y i j. h = [(ProcOutput pid, y)] \<and> find_index r (drop n (scanned (datum y))) = Some (i, j) \<and>
     x = (take (j - i) (drop i (drop n (scanned (datum y)))), n + j))"

lemma look_emits: "emits (look r pid (ev, n)) (\<lambda>x h. if fst x then saw pid r n (snd x) h else snd x = (ev, n))"
  unfolding look_def events_text_def saw_def
  by (auto intro!: emits_steps split: option.splits simp: Let_def)

text \<open>
  An event that a test waits for is one that was not consumed before, and it is consumed with all that is
  before it: what is found is a match of the expression in the events of the process after what was taken, and
  the next wait looks behind it. A wait that finds nothing consumes nothing.
\<close>

theorem event_taken:
  "case run e (run_job (wait_event pid r timeout) s) of ((ev, s'), t) \<Rightarrow>
     ev = [] \<and> taken s' pid = taken s pid \<or>
     (\<exists>u h. t = u @ h \<and> saw pid r (taken s pid) (ev, taken s' pid) h)"
proof -
  let ?s = "([], taken s pid)"
  have loop: "emits (wait_loop (look r pid) timeout 100 ?s) (held_last (saw pid r (taken s pid)) ?s)"
    unfolding wait_loop_def
  proof (rule emits_now_bind)
    fix z
    from wait_keeps [of "look r pid" ?s "saw pid r (taken s pid)", OF look_emits]
    show "emits (wait_rounds (timeout div 100 + 2) (look r pid) (time_of z + millis timeout) 100 ?s)
        (\<lambda>x t. held_last (saw pid r (taken s pid)) ?s x ((Now, z) # t))"
      by (rule emits_mono) (use held_last_more [of _ _ _ _ "[(Now, z)]"] in simp)
  qed
  have "goes s (wait_event pid r timeout) (\<lambda>ev s' t. ev = [] \<and> taken s' pid = taken s pid \<or>
      (\<exists>u h. t = u @ h \<and> saw pid r (taken s pid) (ev, taken s' pid) h))"
    unfolding wait_event_def
  proof (rule goes_suite_bind, rule goes_lift_bind [OF loop], rule goes_option, goal_cases)
    case (1 x t)
    then show ?case by (intro goes_give) simp
  next
    case (2 x t y)
    obtain b ev n where y: "y = (b, ev, n)" by (cases y)
    have k: "map_of (AList.update pid n (ws_taken s)) pid = Some n" by (simp add: update_conv')
    show ?case unfolding y prod.case
      by (intro goes_change_bind goes_give) (use 2 y k in \<open>auto simp: held_last_def taken_def [of "s\<lparr>ws_taken := m\<rparr>" for m] split: if_splits\<close>)
  qed
  moreover obtain x s' t where x: "run e (run_job (wait_event pid r timeout) s) = ((x, s'), t)" by (metis prod.exhaust)
  ultimately show ?thesis using emits_run [OF emits_goes x] by (simp add: x)
qed


subsection \<open>The counter that settles\<close>

definition settled_in :: "int \<Rightarrow> nat \<Rightarrow> int option \<Rightarrow> history \<Rightarrow> bool" where
  "settled_in stop k x h \<longleftrightarrow> (\<forall>t t'. clock t h = Some t' \<longrightarrow> stop \<le> t + int k * millis 200 \<longrightarrow> x \<noteq> None)"

lemma settled_inI:
  "(\<And>t t'. clock t h = Some t' \<Longrightarrow> stop \<le> t + int k * millis 200 \<Longrightarrow> x \<noteq> None) \<Longrightarrow> settled_in stop k x h"
  by (auto simp: settled_in_def)

lemma settled_some: "settled_in stop k (Some v) h"
  by (simp add: settled_in_def)

lemma settled_later:
  assumes "settled_in stop k x u"
  shows "settled_in stop (Suc k) x (h @ (Sleep 200, r) # v @ u)"
proof (rule settled_inI)
  fix t t'
  assume c: "clock t (h @ (Sleep 200, r) # v @ u) = Some t'" and e: "stop \<le> t + int (Suc k) * millis 200"
  from c obtain t1 t2 where t: "clock t h = Some t1" "clock (t1 + millis 200) v = Some t2" "clock t2 u = Some t'"
    by (auto simp: clock_append bind_eq_Some_conv)
  from clock_le [OF t(1)] clock_le [OF t(2)] e have "stop \<le> t2 + int k * millis 200" by (simp add: algebra_simps)
  with assms t(3) show "x \<noteq> None" by (auto simp: settled_in_def)
qed

lemma settled_first: "time_of q < stop \<Longrightarrow> settled_in stop 0 x ((Now, r) # (Now, q) # h)"
  by (rule settled_inI) (auto split: if_splits)

lemma more_emits: "emits (if b then do {t \<leftarrow> now; ret (t < stop)} else ret False)
    (\<lambda>m u. m \<longrightarrow> (\<exists>q. u = [(Now, q)] \<and> time_of q < stop))"
  by (intro emits_if emits_now_bind emits_ret) auto

lemma settle_step:
  assumes rest: "\<And>v since. emits (settle k phy n v since stop) R"
    and over: "\<And>v h. Q (Some v) h"
    and round: "\<And>x r q s u w. R x w \<Longrightarrow> time_of q < stop \<Longrightarrow> Q x ([(Now, r), (Now, q)] @ (Sleep 200, s) # u @ w)"
  shows "emits (settle (Suc k) phy n v since stop) Q"
  unfolding settle.simps
proof (rule emits_now_bind, rule emits_bind [OF more_emits], rule emits_if, goal_cases)
  case (1 r m u)
  then show ?case by (intro emits_ret over)
next
  case (2 r m u)
  then obtain q where u: "u = [(Now, q)]" "time_of q < stop" by auto
  have counter: "emits (wlan_counter phy n) (\<lambda>_ _. True)" using calls_settle(1) by (simp add: calls_host_def)
  show ?case
  proof (rule emits_sys_bind, rule emits_bind [OF counter], rule emits_if, goal_cases)
    case (1 s v' h)
    show ?case
    proof (rule emits_now_bind, rule emits_mono [OF rest])
      fix z x w
      assume "R x w"
      from round [OF this u(2), of r s "h @ [(Now, z)]"]
      show "Q x ((Now, r) # u @ (Sleep 200, s) # h @ (Now, z) # w)" by (simp add: u(1))
    qed
  next
    case (2 s v' h)
    from round [OF _ u(2), of _ _ r s h] show ?case by (intro emits_mono [OF rest]) (simp add: u(1))
  qed
qed

lemma settle_ends: "emits (settle (Suc k) phy n v since stop) (settled_in stop k)"
proof (induction k arbitrary: v since)
  case 0
  have "emits (settle 0 phy n v since stop) (\<lambda>_ _. True)" for v since by (simp add: emits_ret)
  then show ?case by (rule settle_step) (simp_all add: settled_some settled_first)
next
  case (Suc k)
  show ?case by (rule settle_step [OF Suc.IH]) (rule settled_some, rule settled_later)
qed

text \<open>\<open>wlanSettledCounter\<close> returns, on every host whose clock moves on while it sleeps.\<close>

lemma settled_counter_returns: "emits (settled_rounds phy n) (\<lambda>x h. clock t h \<noteq> None \<longrightarrow> x \<noteq> None)"
proof -
  have counter: "emits (wlan_counter phy n) (\<lambda>_ _. True)" using calls_settle(1) by (simp add: calls_host_def)
  show ?thesis unfolding settled_rounds_def
  proof (rule emits_bind [OF counter], rule emits_now_bind, rule emits_now_bind)
    fix v u r q
    have five: "51 = Suc 50" by simp
    show "emits (settle 51 phy n v (time_of r) (time_of q + millis 10000))
        (\<lambda>x h. clock t (u @ (Now, r) # (Now, q) # h) \<noteq> None \<longrightarrow> x \<noteq> None)"
      unfolding five
    proof (rule emits_mono [OF settle_ends])
      fix x h
      assume "settled_in (time_of q + millis 10000) 50 x h"
      then show "clock t (u @ (Now, r) # (Now, q) # h) \<noteq> None \<longrightarrow> x \<noteq> None"
        by (auto simp: settled_in_def millis_def clock_append bind_eq_Some_conv split: if_splits)
    qed
  qed
qed

end
