(* ===== verification/FloatText.thy ===== *)
theory FloatText
  imports Floats Json
begin

text \<open>
  How encoding/json writes a \<open>float64\<close>, with \<open>strconv.AppendFloat\<close> and the fewest digits that are read back
  as the number, and that what was written is read back. 17 digits are always enough.
\<close>

subsection \<open>The shortest digits\<close>

text \<open>The decimal point: the number \<open>n / d\<close> has this many digits before it, or zeros after it if negative.\<close>

primrec zeros_after :: "nat \<Rightarrow> nat \<Rightarrow> nat \<Rightarrow> nat" where
  "zeros_after 0 n d = 0"
| "zeros_after (Suc k) n d = (if d \<le> n then 0 else Suc (zeros_after k (10 * n) d))"

definition dec_point :: "nat \<Rightarrow> nat \<Rightarrow> int" where
  "dec_point n d = (if d \<le> n then int (length (show_nat (n div d))) else - int (zeros_after 324 (10 * n) d))"

text \<open>The decimals next to a number, in units of \<open>10 ^ e\<close>: the nearest one first.\<close>

definition near_decimals :: "nat \<Rightarrow> nat \<Rightarrow> int \<Rightarrow> nat list" where
  "near_decimals n d e =
     (let n' = (if e < 0 then n * 10 ^ nat (- e) else n); d' = (if e < 0 then d else d * 10 ^ nat e)
      in [half_even n' d', n' div d', n' div d' + 1])"

definition try_digits :: "float \<Rightarrow> int \<Rightarrow> nat option" where
  "try_digits x e = find (\<lambda>c. decimal_float False c e = x) (near_decimals (nat (numer x)) (denom x) e)"

fun first_digits :: "float \<Rightarrow> int list \<Rightarrow> nat \<times> int" where
  "first_digits x [] = (0, 0)"
| "first_digits x (e # es) = (case try_digits x e of Some c \<Rightarrow> (c, e) | None \<Rightarrow> first_digits x es)"

definition shortest :: "float \<Rightarrow> nat \<times> int" where
  "shortest x = (let k = dec_point (nat (numer x)) (denom x) in first_digits x (map (\<lambda>p. k - int p) [1..<18]))"

text \<open>The digits without zeros at the end, and where the decimal point is.\<close>

definition digits_of :: "float \<Rightarrow> string \<times> int" where
  "digits_of x = (case shortest x of (c, e) \<Rightarrow>
     (trim_right_of (\<lambda>ch. ch = CHR ''0'') (show_nat c), int (length (show_nat c)) + e))"


subsection \<open>The text\<close>

text \<open>The digits before and after the point, and the exponent.\<close>

definition float_parts :: "bool \<Rightarrow> string \<times> int \<Rightarrow> string \<times> string \<times> int option" where
  "float_parts small_or_large p = (case p of (ds, dp) \<Rightarrow>
     if small_or_large then ([hd ds], tl ds, Some (dp - 1))
     else if dp \<le> 0 then (''0'', replicate (nat (- dp)) (CHR ''0'') @ ds, None)
     else if int (length ds) \<le> dp then (ds @ replicate (nat dp - length ds) (CHR ''0''), [], None)
     else (take (nat dp) ds, drop (nat dp) ds, None))"

definition exp_text :: "int \<Rightarrow> string" where
  "exp_text e = CHR ''e'' # (if e < 0 then CHR ''-'' # show_nat (nat (- e)) else CHR ''+'' # pad_zeros 2 (show_nat (nat e)))"

definition parts_text :: "string \<times> string \<times> int option \<Rightarrow> string" where
  "parts_text p = (case p of (ip, fp, e) \<Rightarrow>
     ip @ (if fp = [] then [] else CHR ''.'' # fp) @ (case e of None \<Rightarrow> [] | Some e \<Rightarrow> exp_text e))"

definition text_of :: "float \<Rightarrow> string" where
  "text_of x = parts_text (float_parts
     (flt_less x (decimal_float False 1 (- 6)) \<or> \<not> flt_less x (decimal_float False 1 21)) (digits_of x))"

definition json_float :: "float \<Rightarrow> string" where
  "json_float x = (case x of Flt m e \<Rightarrow>
     if m = 0 then ''0'' else if m < 0 then CHR ''-'' # text_of (Flt (- m) e) else text_of x)"


subsection \<open>17 digits are enough\<close>

lemma power_int_less_exp: "(2 :: real) powi a < 2 powi b \<Longrightarrow> a < b"
  using power_int_increasing [of b a "2 :: real"] by force

lemma float_exp_eqI:
  assumes n: "0 < n" "0 < d" and e: "- 1074 \<le> e" and top: "real n / real d < 2 powi (e + 53)"
    and low: "2 powi (e + 52) \<le> real n / real d \<or> e = - 1074"
  shows "float_exp n d = e"
proof (rule ccontr)
  define f where "f = float_exp n d"
  have f: "real n / real d < 2 powi (f + 53)" "2 powi (f + 52) \<le> real n / real d \<or> f = - 1074" "- 1074 \<le> f"
    using float_exp_top [OF n] float_exp_low [OF n] by (simp_all add: f_def) (simp add: float_exp_def Let_def)
  assume "float_exp n d \<noteq> e"
  then consider "f < e" | "e < f" by (fastforce simp: f_def)
  then show False
  proof cases
    case 1
    with low f(3) have "2 powi (e + 52) \<le> real n / real d" by auto
    with f(1) have "(2 :: real) powi (e + 52) < 2 powi (f + 53)" by linarith
    then have "e + 52 < f + 53" by (rule power_int_less_exp)
    with 1 show False by simp
  next
    case 2
    with f e have "2 powi (f + 52) \<le> real n / real d" by auto
    with top have "(2 :: real) powi (f + 52) < 2 powi (e + 53)" by linarith
    then have "f + 52 < e + 53" by (rule power_int_less_exp)
    with 2 show False by simp
  qed
qed

lemma round_float_mant:
  assumes n: "0 < n" "0 < d" and e: "float_exp n d = e" and h: "\<bar>real n / real d - real h * 2 powi e\<bar> < 2 powi e / 2"
  shows "round_float False n d = normal (int h) e"
proof -
  define N D where "N = (if 0 \<le> e then n else n * 2 ^ nat (- e))" and "D = (if 0 \<le> e then d * 2 ^ nat e else d)"
  have q: "real n / real d = (real N / real D) * 2 powi e"
    using n by (simp add: N_def D_def power_int_nat)
  have "0 < D" using n by (simp add: D_def)
  have "\<bar>(real N / real D - real h) * 2 powi e\<bar> < 1 / 2 * 2 powi e" using h unfolding q by (simp add: left_diff_distrib)
  then have "\<bar>real N / real D - real h\<bar> * 2 powi e < 1 / 2 * 2 powi e" by (simp add: abs_mult)
  then have "\<bar>real N / real D - real h\<bar> < 1 / 2" by (rule mult_right_less_imp_less) simp
  with half_even_real [OF \<open>0 < D\<close>, of N] have "\<bar>real (half_even N D) - real h\<bar> < 1" by linarith
  then have "half_even N D = h" by linarith
  then show ?thesis using n e by (simp add: round_float_mantissa N_def D_def Let_def)
qed

lemma power_ten: "(10 :: real) powi k = (if 0 \<le> k then 10 ^ nat k else 1 / 10 ^ nat (- k))"
  by (simp add: power_int_def inverse_eq_divide power_divide)

text \<open>A quotient that is nearer to a number than one part in 2 * 10 ^ 16 is rounded to it.\<close>

lemma near_rounds:
  assumes x: "flt_ok (Flt m e)" "0 < m" and n: "0 < n" "0 < d"
    and near: "\<bar>real n / real d - val (Flt m e)\<bar> \<le> val (Flt m e) / (2 * 10 ^ 16)"
  shows "round_float False n d = Flt m e"
proof -
  define h where "h = nat m"
  define y where "y = real n / real d"
  have v: "val (Flt m e) = real h * 2 powi e" and hm: "int h = m" using x(2) by (simp_all add: val_def h_def)
  have ok: "- 1074 \<le> e" "h < 2 ^ 53" "0 < h" "2 ^ 52 \<le> h \<or> e = - 1074" using x by (auto simp: flt_ok_def h_def)
  have "real h < real (2 ^ 53)" using ok(2) by (simp only: of_nat_less_iff)
  then have rh: "real h < 2 ^ 53" by simp
  have p: "0 < (2 :: real) powi e" by simp
  have close: "\<bar>y - real h * 2 powi e\<bar> < 2 powi e / 2 - 2 powi e / 100"
  proof -
    define H z where "H = real h * 2 powi e" and "z = (2 :: real) powi e"
    have "H < 9007199254740992 * z" unfolding H_def z_def using rh p by (intro mult_strict_right_mono) simp_all
    moreover have "\<bar>y - H\<bar> \<le> H / 20000000000000000" using near v by (simp add: y_def H_def)
    ultimately show ?thesis unfolding H_def [symmetric] unfolding z_def [symmetric] by linarith
  qed
  then have close2: "\<bar>y - real h * 2 powi e\<bar> < 2 powi e / 2" using p by linarith
  have top: "y < 2 powi (e + 53)"
  proof -
    have "real (h + 1) \<le> real (2 ^ 53)" using ok(2) by (simp only: of_nat_le_iff)
    then have "real (h + 1) * 2 powi e \<le> 2 ^ 53 * 2 powi e" using p by (intro mult_right_mono) simp_all
    moreover have "y < real (h + 1) * 2 powi e" using close p unfolding of_nat_add of_nat_1 distrib_right mult_1 by linarith
    ultimately have "y < 2 ^ 53 * 2 powi e" by (rule less_le_trans [rotated])
    then show ?thesis by (simp add: power_int_add)
  qed
  show ?thesis
  proof (cases "2 powi (e + 52) \<le> y \<or> e = - 1074")
    case True
    then have "float_exp n d = e" using top ok(1) by (intro float_exp_eqI [OF n]) (simp_all add: y_def)
    then have "round_float False n d = normal (int h) e"
      using close2 by (intro round_float_mant [OF n]) (simp_all only: y_def)
    then show ?thesis using rh ok(2) x(2) hm by (simp add: normal_def)
  next
    case False
    then have low: "y < 2 ^ 52 * 2 powi e" and e: "- 1074 < e" "2 ^ 52 \<le> h" using ok by (auto simp: power_int_add)
    have "real (2 ^ 52) \<le> real h" using e(2) by (simp only: of_nat_le_iff)
    then have "2 ^ 52 \<le> real h" by simp
    have h: "h = 2 ^ 52"
    proof (rule ccontr)
      assume "h \<noteq> 2 ^ 52"
      with e(2) have "real (2 ^ 52 + 1) \<le> real h" by (simp only: of_nat_le_iff)
      then have "(2 ^ 52 + 1) * 2 powi e \<le> real h * 2 powi e" using p by (intro mult_right_mono) simp_all
      then have "4503599627370496 * 2 powi e + 2 powi e \<le> real h * 2 powi e" by (simp add: distrib_right)
      moreover have "y < 4503599627370496 * 2 powi e" using low by simp
      ultimately show False using close p by linarith
    qed
    have half: "(2 :: real) powi (e - 1) = 2 powi e / 2" by (simp add: power_int_diff)
    have near2: "\<bar>y - real (2 ^ 53 :: nat) * 2 powi (e - 1)\<bar> < 2 powi (e - 1) / 2"
    proof -
      have "\<bar>y - real h * 2 powi e\<bar> \<le> 2 ^ 52 * 2 powi e / (2 * 10 ^ 16)" using near v h by (simp add: y_def)
      also have "\<dots> < 2 powi (e - 1) / 2" unfolding half using p by simp
      finally show ?thesis unfolding half h by simp
    qed
    have "float_exp n d = e - 1"
    proof (rule float_exp_eqI [OF n])
      have "(2 :: real) powi (e - 1 + 53) = 2 ^ 52 * 2 powi e" "(2 :: real) powi (e - 1 + 52) = 2 ^ 51 * 2 powi e"
        using power_int_add [of "2 :: real" e 52] power_int_add [of "2 :: real" e 51] by (simp_all add: add.commute)
      note pow = this
      show "real n / real d < 2 powi (e - 1 + 53)" unfolding y_def [symmetric] pow by (rule low)
      have "real h * 2 powi e = 4503599627370496 * 2 powi e" using h by simp
      then have "2251799813685248 * 2 powi e \<le> y" using close p by linarith
      then show "2 powi (e - 1 + 52) \<le> real n / real d \<or> e - 1 = - 1074" unfolding y_def [symmetric] pow by simp
    qed (use e in simp)
    then have "round_float False n d = normal (int (2 ^ 53)) (e - 1)"
      using near2 by (intro round_float_mant [OF n]) (simp_all add: y_def)
    then show ?thesis using h hm by (simp add: normal_def)
  qed
qed

lemma decimal_float_near:
  assumes "flt_ok (Flt m e)" "0 < m" "0 < c"
    and "\<bar>real c * 10 powi k - val (Flt m e)\<bar> \<le> val (Flt m e) / (2 * 10 ^ 16)"
  shows "decimal_float False c k = Flt m e"
  using assms unfolding decimal_float_def power_ten by (auto intro!: near_rounds split: if_splits)

text \<open>Quotients that are equal are rounded alike, and so are decimals.\<close>

lemma half_even_mult: "0 < c \<Longrightarrow> half_even (c * n) (c * d) = half_even n d"
proof -
  assume "0 < c"
  then have "2 * (c * (n mod d)) < c * d \<longleftrightarrow> 2 * (n mod d) < d" "2 * (c * (n mod d)) = c * d \<longleftrightarrow> 2 * (n mod d) = d"
    using mult_less_cancel1 [of c "2 * (n mod d)" d] mult_cancel1 [of c "2 * (n mod d)" d] by (auto simp: algebra_simps)
  with \<open>0 < c\<close> show ?thesis by (simp add: half_even_def Let_def)
qed

lemma round_float_mult:
  assumes "0 < c" "0 < d"
  shows "round_float neg (c * n) (c * d) = round_float neg n d"
proof (cases "n = 0")
  case False
  have q: "real (c * n) / real (c * d) = real n / real d" using assms by simp
  have e: "float_exp (c * n) (c * d) = float_exp n d"
    using float_exp_top [of n d] float_exp_low [of n d] assms False
    by (intro float_exp_eqI) (simp_all only: q, simp_all, simp add: float_exp_def Let_def)
  have "half_even (c * n) (c * d * 2 ^ k) = half_even n (d * 2 ^ k)" "half_even (c * n * 2 ^ k) (c * d) = half_even (n * 2 ^ k) d" for k
    using half_even_mult [OF assms(1)] by (simp_all add: mult.assoc)
  with False assms show ?thesis by (simp add: round_float_def e Let_def)
qed (simp add: round_float_def)

lemma round_float_ratio:
  assumes "n * d' = n' * d" "0 < d" "0 < d'"
  shows "round_float neg n d = round_float neg n' d'"
  using round_float_mult [of d' d neg n] round_float_mult [of d d' neg n'] assms by (simp add: mult.commute)

lemma decimal_float_shift: "decimal_float neg (n * 10 ^ j) (k - int j) = decimal_float neg n k"
proof -
  consider "0 \<le> k - int j" | "k < 0" | "0 \<le> k" "k - int j < 0" by linarith
  then show ?thesis
  proof cases
    case 1
    then have "nat k = j + nat (k - int j)" by linarith
    with 1 show ?thesis by (simp add: decimal_float_def power_add ac_simps)
  next
    case 2
    then have "nat (int j - k) = j + nat (- k)" by linarith
    with 2 round_float_mult [of "10 ^ j" "10 ^ nat (- k)" neg n] show ?thesis
      by (simp add: decimal_float_def power_add ac_simps)
  next
    case 3
    then have "j = nat k + nat (int j - k)" by linarith
    then have "(10 :: nat) ^ j = 10 ^ nat k * 10 ^ nat (int j - k)" by (metis power_add)
    with 3 round_float_mult [of "10 ^ nat (int j - k)" 1 neg "n * 10 ^ nat k"] show ?thesis
      by (simp add: decimal_float_def ac_simps)
  qed
qed

lemma round_float_neg: "round_float True n d = (case round_float False n d of Flt m e \<Rightarrow> Flt (- m) e)"
  by (auto simp: round_float_def normal_def Let_def)

lemma decimal_float_neg: "decimal_float True n k = (case decimal_float False n k of Flt m e \<Rightarrow> Flt (- m) e)"
  by (simp add: decimal_float_def round_float_neg)

text \<open>How many digits a number has.\<close>

lemma show_nat_top: "n < 10 ^ length (show_nat n)"
  using digits_val_less [OF show_nat_digits, of n] by (simp add: digits_val_show)

lemma show_nat_low: "0 < n \<Longrightarrow> 10 ^ (length (show_nat n) - 1) \<le> n"
proof (induction n rule: show_nat.induct)
  case (1 n)
  show ?case
  proof (cases "n < 10")
    case True
    with 1 show ?thesis by (subst show_nat.simps) simp
  next
    case False
    with 1 have "10 ^ (length (show_nat (n div 10)) - 1) \<le> n div 10" by simp
    then have "10 * 10 ^ (length (show_nat (n div 10)) - 1) \<le> 10 * (n div 10)" by simp
    moreover have "0 < length (show_nat (n div 10))" by simp
    then have "10 * 10 ^ (length (show_nat (n div 10)) - 1) = (10 :: nat) ^ length (show_nat (n div 10))"
      by (metis Suc_pred' power_Suc)
    ultimately show ?thesis using False by (subst show_nat.simps) simp
  qed
qed

lemma show_nat_short: "n < 10 ^ k \<Longrightarrow> 0 < k \<Longrightarrow> length (show_nat n) \<le> k"
proof (cases "n = 0")
  case False
  assume k: "n < 10 ^ k" "0 < k"
  have "(10 :: nat) ^ (length (show_nat n) - 1) < 10 ^ k" using show_nat_low [of n] False k(1) by linarith
  then have "length (show_nat n) - 1 < k" by (rule power_less_imp_less_exp [rotated]) simp
  then show ?thesis by linarith
qed (simp add: show_nat_0)

text \<open>The decimal point of a number: where it is, and that the fuel is enough.\<close>

lemma zeros_after_spec:
  assumes "n < 10 * d" "d \<le> 10 ^ k * n"
  shows "d \<le> 10 ^ zeros_after k n d * n \<and> 10 ^ zeros_after k n d * n < 10 * d \<and> zeros_after k n d \<le> k"
  using assms
proof (induction k arbitrary: n)
  case (Suc k)
  show ?case
  proof (cases "d \<le> n")
    case False
    have "10 * n < 10 * d" "d \<le> 10 ^ k * (10 * n)" using False Suc.prems by simp_all
    from Suc.IH [OF this] False show ?thesis by simp
  qed (use Suc.prems in simp)
qed simp

lemma dec_point_spec:
  assumes n: "0 < n" "0 < d" and d: "d \<le> 10 ^ 324 * n" and top: "n < 10 ^ 309 * d"
  shows "10 powi (dec_point n d - 1) \<le> real n / real d" "real n / real d < 10 powi dec_point n d"
    "- 324 \<le> dec_point n d" "dec_point n d \<le> 309"
proof -
  define k where "k = dec_point n d"
  have "10 powi (k - 1) \<le> real n / real d \<and> real n / real d < 10 powi k \<and> - 324 \<le> k \<and> k \<le> 309"
  proof (cases "d \<le> n")
    case True
    define q l where "q = n div d" and "l = length (show_nat q)"
    have q: "0 < q" "0 < l" using True n by (simp_all add: q_def l_def div_greater_zero_iff)
    have "q * d \<le> n" unfolding q_def by simp
    have "n < (q + 1) * d" using n unfolding q_def by (metis Suc_eq_plus1 dividend_less_div_times mult.commute mult_Suc_right add.commute)
    have "10 ^ (l - 1) * d \<le> n" using show_nat_low [OF q(1)] \<open>q * d \<le> n\<close> unfolding l_def by (meson le_trans mult_le_mono1)
    then have "real (10 ^ (l - 1) * d) \<le> real n" by (simp only: of_nat_le_iff)
    then have lo: "10 ^ (l - 1) \<le> real n / real d" using n by (simp add: le_divide_eq)
    have "q + 1 \<le> 10 ^ l" using show_nat_top [of q] by (simp add: l_def)
    then have "n < 10 ^ l * d" using \<open>n < (q + 1) * d\<close> by (meson less_le_trans mult_le_mono1)
    then have "real n < real (10 ^ l * d)" by (simp only: of_nat_less_iff)
    then have hi: "real n / real d < 10 ^ l" using n by (simp add: divide_less_eq)
    have "q < 10 ^ 309" using top n unfolding q_def by (simp add: div_less_iff_less_mult)
    then have "l \<le> 309" unfolding l_def by (rule show_nat_short) simp
    moreover have k: "k = int l" using True by (simp add: k_def dec_point_def l_def q_def)
    moreover have "(10 :: real) powi (k - 1) = 10 ^ (l - 1)" "(10 :: real) powi k = 10 ^ l"
      using q(2) by (simp_all add: k power_ten nat_diff_distrib)
    ultimately show ?thesis using lo hi by simp
  next
    case False
    define z where "z = zeros_after 324 (10 * n) d"
    have "10 * n < 10 * d" using False by simp
    moreover have "d \<le> 10 ^ 324 * (10 * n)" using d by (rule order_trans) (intro mult_left_mono; simp)
    ultimately have z: "d \<le> 10 ^ z * (10 * n)" "10 ^ z * (10 * n) < 10 * d" "z \<le> 324"
      unfolding z_def by (blast dest: zeros_after_spec)+
    have k: "k = - int z" using False by (simp add: k_def dec_point_def z_def)
    have "real d \<le> real (10 ^ z * (10 * n))" "real (10 ^ z * n) < real d"
      using z by (simp_all only: of_nat_le_iff of_nat_less_iff)
    moreover have pow: "(10 :: real) powi (k - 1) = 1 / (10 * 10 ^ z)" "(10 :: real) powi k = 1 / 10 ^ z"
      by (simp_all add: k power_ten nat_add_distrib)
    ultimately have "10 powi (k - 1) \<le> real n / real d" "real n / real d < 10 powi k"
      using n unfolding pow by (simp_all add: divide_le_eq le_divide_eq divide_less_eq less_divide_eq mult.commute mult.left_commute)
    with z(3) show ?thesis by (simp add: k)
  qed
  then show "10 powi (dec_point n d - 1) \<le> real n / real d" "real n / real d < 10 powi dec_point n d"
    "- 324 \<le> dec_point n d" "dec_point n d \<le> 309" by (simp_all add: k_def)
qed

text \<open>A positive number that is not too large, as a quotient.\<close>

definition plain_float :: "float \<Rightarrow> bool" where
  "plain_float x = (flt_ok x \<and> \<not> too_large x \<and> (case x of Flt m e \<Rightarrow> 0 < m))"

lemma plain_quotient:
  assumes "plain_float x"
  defines "n \<equiv> nat (numer x)" and "d \<equiv> denom x"
  shows "val x = real n / real d" "0 < n" "0 < d" "d \<le> 10 ^ 324 * n" "n < 10 ^ 309 * d"
proof -
  obtain m e where x: "x = Flt m e" by (cases x)
  have ok: "0 < m" "- 1074 \<le> e" "int (bitlen (nat m)) + e \<le> 1024"
    using assms(1) by (auto simp: plain_float_def x flt_ok_def too_large_def)
  show n: "0 < n" using ok(1) by (simp add: n_def numer_def x)
  show d: "0 < d" unfolding d_def by (rule denom_pos)
  have "0 \<le> numer x" using ok(1) by (simp add: numer_def x)
  then show v: "val x = real n / real d" by (simp add: val_quotient n_def d_def)
  have "(2 :: nat) ^ nat (- e) \<le> 2 ^ 1074" using ok(2) by (intro power_increasing) simp_all
  moreover have "(1 :: nat) \<le> 2 ^ 1074" by simp
  ultimately have "d \<le> 2 ^ 1074" by (simp only: d_def denom_def x float.case simp_thms split: if_split)
  also have "\<dots> \<le> (10 :: nat) ^ 324" by simp
  also have "\<dots> \<le> 10 ^ 324 * n" using n by simp
  finally show "d \<le> 10 ^ 324 * n" .
  define b where "b = bitlen (nat m)"
  have "nat m < 2 ^ b" using bitlen_bounds [of "nat m"] ok(1) by (simp add: b_def)
  then have "real (nat m) < real (2 ^ b)" by (simp only: of_nat_less_iff)
  then have "of_int m < (2 :: real) powi int b" using ok(1) by simp
  then have "val x < 2 powi int b * 2 powi e" unfolding x val_def by (simp add: mult_strict_right_mono)
  also have "\<dots> = 2 powi (int b + e)" by (simp add: power_int_add)
  also have "\<dots> \<le> 2 powi 1024" using ok(3) by (intro power_int_increasing) (simp_all add: b_def)
  also have "\<dots> < 10 ^ 309" by simp
  finally have "real n < real (10 ^ 309 * d)" unfolding v using d by (simp add: divide_less_eq)
  then show "n < 10 ^ 309 * d" by (simp only: of_nat_less_iff)
qed

lemma half_even_next: "half_even n d \<le> n div d + 1"
  by (simp add: half_even_def Let_def)

text \<open>The decimals next to a quotient: how near the first one is, and how long they are.\<close>

lemma near_decimals_spec:
  fixes e :: int
  assumes "0 < d"
  obtains h where "near_decimals n d e \<noteq> []" "hd (near_decimals n d e) = h"
    "\<bar>real h * 10 powi e - real n / real d\<bar> \<le> 10 powi e / 2"
    "\<And>c p. c \<in> set (near_decimals n d e) \<Longrightarrow> real n / real d < 10 powi (e + int p) \<Longrightarrow> c \<le> 10 ^ p"
proof -
  define N D where "N = (if e < 0 then n * 10 ^ nat (- e) else n)" and "D = (if e < 0 then d else d * 10 ^ nat e)"
  have ds: "near_decimals n d e = [half_even N D, N div D, N div D + 1]" by (simp add: near_decimals_def N_def D_def Let_def)
  have D: "0 < D" using assms by (simp add: D_def)
  have q: "real n / real d = (real N / real D) * 10 powi e"
    using assms by (simp add: N_def D_def power_ten)
  have "\<bar>real (half_even N D) - real N / real D\<bar> * 10 powi e \<le> 1 / 2 * 10 powi e"
    using half_even_real [OF D] by (intro mult_right_mono) simp_all
  moreover have "real (half_even N D) * 10 powi e - real n / real d = (real (half_even N D) - real N / real D) * 10 powi e"
    unfolding q by (simp only: left_diff_distrib)
  ultimately have 1: "\<bar>real (half_even N D) * 10 powi e - real n / real d\<bar> \<le> 10 powi e / 2" by (simp add: abs_mult)
  have 2: "c \<le> 10 ^ p" if "c \<in> set (near_decimals n d e)" "real n / real d < 10 powi (e + int p)" for c p
  proof -
    have "real N / real D * 10 powi e < 10 ^ p * 10 powi e" using that(2) unfolding q by (simp add: power_int_add mult.commute)
    then have "real N / real D < 10 ^ p" by (rule mult_right_less_imp_less) simp
    then have "real N < real (10 ^ p * D)" using D by (simp add: divide_less_eq)
    then have "N < 10 ^ p * D" by (simp only: of_nat_less_iff)
    then have "N div D < 10 ^ p" using D by (simp add: div_less_iff_less_mult)
    with that(1) half_even_next [of N D] show ?thesis by (auto simp: ds)
  qed
  show ?thesis by (rule that [of "half_even N D"]) (use ds 1 2 in auto)
qed

lemma first_digits_spec:
  "\<exists>e\<in>set es. try_digits x e \<noteq> None \<Longrightarrow> \<exists>c e. first_digits x es = (c, e) \<and> e \<in> set es \<and> try_digits x e = Some c"
  by (induction es) (auto split: option.split)

lemma try_digits_SomeD:
  "try_digits x e = Some c \<Longrightarrow> decimal_float False c e = x \<and> c \<in> set (near_decimals (nat (numer x)) (denom x) e)"
  unfolding try_digits_def by (auto simp: find_Some_iff)

lemma decimal_float_zero: "decimal_float neg 0 e = Flt 0 0"
  by (simp add: decimal_float_def round_float_def)

theorem shortest_rounds:
  assumes "plain_float x"
  obtains c e where "shortest x = (c, e)" "decimal_float False c e = x" "0 < c"
    "- 341 \<le> int (length (show_nat c)) + e" "int (length (show_nat c)) + e \<le> 310"
proof -
  define n d where "n = nat (numer x)" and "d = denom x"
  note q = plain_quotient [OF assms, folded n_def d_def]
  define k where "k = dec_point n d"
  note k = dec_point_spec [OF q(2-5), folded k_def]
  obtain m f where x: "x = Flt m f" by (cases x)
  have m: "flt_ok (Flt m f)" "0 < m" using assms by (auto simp: plain_float_def x)
  have "try_digits x (k - 17) \<noteq> None"
  proof -
    obtain h where h: "near_decimals n d (k - 17) \<noteq> []" "hd (near_decimals n d (k - 17)) = h"
      "\<bar>real h * 10 powi (k - 17) - real n / real d\<bar> \<le> 10 powi (k - 17) / 2"
      using near_decimals_spec [OF q(3)] by metis
    define z where "z = (10 :: real) powi (k - 17)"
    have "10 powi (k - 1) = z * 10 ^ 16" using power_int_add [of "10 :: real" "k - 17" 16] by (simp add: z_def)
    then have low: "10000000000000000 * z \<le> val x" using k(1) q(1) by simp
    have z: "0 < z" by (simp add: z_def)
    have close: "\<bar>real h * z - val x\<bar> \<le> z / 2" using h(3) q(1) by (simp add: z_def)
    then have "0 < real h * z" using low z by linarith
    then have "0 < h" using z by (simp add: zero_less_mult_iff)
    moreover have "\<bar>real h * z - val x\<bar> \<le> val x / 20000000000000000" using close low by linarith
    then have "\<bar>real h * 10 powi (k - 17) - val (Flt m f)\<bar> \<le> val (Flt m f) / (2 * 10 ^ 16)" by (simp add: x z_def)
    ultimately have "decimal_float False h (k - 17) = x" using decimal_float_near [OF m] by (simp add: x)
    then show ?thesis using h(1,2) unfolding try_digits_def n_def [symmetric] d_def [symmetric]
      by (cases "near_decimals n d (k - 17)") auto
  qed
  moreover have "k - 17 \<in> set (map (\<lambda>p. k - int p) [1..<18])"
    unfolding set_map set_upt by (rule image_eqI [of _ _ 17]) simp_all
  ultimately have "\<exists>e\<in>set (map (\<lambda>p. k - int p) [1..<18]). try_digits x e \<noteq> None" by blast
  from first_digits_spec [OF this] obtain c e where ce: "first_digits x (map (\<lambda>p. k - int p) [1..<18]) = (c, e)"
    "e \<in> (\<lambda>p. k - int p) ` {1..<18}" "try_digits x e = Some c"
    unfolding set_map set_upt by blast
  then obtain p where p: "e = k - int p" "p \<in> {1..<18}" by blast
  have c: "shortest x = (c, k - int p)" "1 \<le> p" "p < 18" "try_digits x (k - int p) = Some c"
    using ce(1,3) p by (simp_all only: shortest_def Let_def n_def [symmetric] d_def [symmetric] k_def [symmetric] atLeastLessThan_iff)
  from try_digits_SomeD [OF c(4)] have r: "decimal_float False c (k - int p) = x" "c \<in> set (near_decimals n d (k - int p))"
    by (simp_all add: n_def d_def)
  have "0 < c" using r(1) m(2) by (cases c) (auto simp: decimal_float_zero x)
  have "real n / real d < 10 powi (k - int p + int p)" using k(2) by simp
  with r(2) have "c \<le> 10 ^ p" using near_decimals_spec [OF q(3), of n "k - int p"] by metis
  then have "c < 10 ^ Suc p" by (rule le_less_trans) simp
  then have "length (show_nat c) \<le> Suc p" by (rule show_nat_short) simp
  moreover have "1 \<le> length (show_nat c)" by (simp add: Suc_le_eq)
  ultimately show ?thesis using that [OF c(1) r(1) \<open>0 < c\<close>] c(2,3) k(3,4) by linarith
qed


subsection \<open>Reading the text\<close>

lemma exponent_digits: "list_all is_digit ds \<Longrightarrow> digits_val 0 ds < 10000 \<Longrightarrow> exponent ds = int (digits_val 0 ds)"
proof (induction ds rule: rev_induct)
  case (snoc c ds)
  then have "digits_val 0 ds < 10000" by (simp add: digits_val_append)
  with snoc show ?case by (simp add: exponent_def digits_val_append)
qed (simp add: exponent_def)

lemma zero_digit: "is_digit (CHR ''0'')" "digit_val (CHR ''0'') = 0"
  by (simp_all add: is_digit_def digit_val_def)

lemma digits_val_zeros: "digits_val 0 (replicate k (CHR ''0'') @ ds) = digits_val 0 ds"
  by (induction k) (simp_all add: zero_digit)

lemma digits_val_shift: "digits_val 0 (ds @ replicate k (CHR ''0'')) = digits_val 0 ds * 10 ^ k"
proof (induction k)
  case (Suc k)
  have "ds @ replicate (Suc k) (CHR ''0'') = (ds @ replicate k (CHR ''0'')) @ [CHR ''0'']"
    by (simp add: replicate_append_same)
  then show ?case using Suc by (simp only: digits_val_append) (simp add: zero_digit)
qed simp

lemma padded_digits: "list_all is_digit (pad_zeros k (show_nat n))" "digits_val 0 (pad_zeros k (show_nat n)) = n"
    "pad_zeros k (show_nat n) \<noteq> []"
  using show_nat_digits [of n] by (auto simp: pad_zeros_def digits_val_zeros list_all_iff zero_digit)

lemma read_exponent_text: "\<bar>e\<bar> < 10000 \<Longrightarrow> read_exponent (exp_text e) = Some e"
  using exponent_digits [OF show_nat_digits, of "nat (- e)"] exponent_digits [OF padded_digits(1), of 2 "nat e"]
    show_nat_digits [of "nat (- e)"] padded_digits [of 2 "nat e"]
  by (simp add: read_exponent_def exp_text_def)

definition exp_of :: "int option \<Rightarrow> int" where
  "exp_of e = (case e of None \<Rightarrow> 0 | Some e \<Rightarrow> e)"

lemma read_decimal_parts:
  assumes "list_all is_digit ip" "list_all is_digit fp" "ip \<noteq> []" "\<bar>exp_of e\<bar> < 10000"
  shows "read_decimal ((if neg then ''-'' else []) @ parts_text (ip, fp, e)) = Some (neg, digits_val 0 (ip @ fp), exp_of e - int (length fp))"
proof -
  define ex where "ex = (case e of None \<Rightarrow> [] | Some e \<Rightarrow> exp_text e)"
  have ex: "ex = [] \<or> (hd ex = CHR ''e'')" "read_exponent ex = Some (exp_of e)"
    using assms(4) by (cases e; simp add: ex_def exp_of_def read_exponent_text; simp add: exp_text_def read_exponent_def)+
  have nd: "\<not> is_digit (CHR ''e'')" "\<not> is_digit (CHR ''.'')" by (simp_all add: is_digit_def)
  define u where "u = (if fp = [] then [] else CHR ''.'' # fp) @ ex"
  have u: "takeWhile is_digit (ip @ u) = ip" "dropWhile is_digit (ip @ u) = u"
    using assms(1) ex(1) nd by (auto simp: u_def list_all_iff takeWhile_append2 dropWhile_append2 takeWhile_eq_Nil_iff dropWhile_eq_self_iff hd_append)
  have f: "takeWhile is_digit (fp @ ex) = fp" "dropWhile is_digit (fp @ ex) = ex"
    using assms(2) ex(1) nd by (auto simp: list_all_iff takeWhile_append2 dropWhile_append2 takeWhile_eq_Nil_iff dropWhile_eq_self_iff)
  obtain c cs where ip: "ip = c # cs" using assms(3) by (cases ip) auto
  have c: "c \<noteq> CHR ''-''" "c \<noteq> CHR ''+''" using assms(1) digit_not_sign [of c] by (auto simp: ip)
  define t where "t = ip @ u"
  have t: "parts_text (ip, fp, e) = t" by (simp add: parts_text_def t_def u_def ex_def)
  have hd: "t \<noteq> []" "hd t \<noteq> CHR ''-''" "hd t \<noteq> CHR ''+''" using c by (simp_all add: t_def ip)
  have ut: "takeWhile is_digit t = ip" "dropWhile is_digit t = u" using u by (simp_all only: t_def)
  show ?thesis unfolding t
  proof (cases "fp = []")
    case True
    then have "u = ex" "\<not> (ex \<noteq> [] \<and> hd ex = CHR ''.'')" using ex(1) by (auto simp: u_def)
    with True hd ut assms(3) ex(2) show "read_decimal ((if neg then ''-'' else []) @ t) = Some (neg, digits_val 0 (ip @ fp), exp_of e - int (length fp))"
      by (cases neg; cases "ex = []"; simp add: read_decimal_def Let_def del: dropWhile_eq_Nil_conv takeWhile_eq_all_conv)
  next
    case False
    then have "u = CHR ''.'' # fp @ ex" by (simp add: u_def)
    with False hd ut f assms(3) ex(2) show "read_decimal ((if neg then ''-'' else []) @ t) = Some (neg, digits_val 0 (ip @ fp), exp_of e - int (length fp))"
      by (cases neg; simp add: read_decimal_def Let_def del: dropWhile_eq_Nil_conv takeWhile_eq_all_conv)
  qed
qed

lemma digits_of_spec:
  assumes "plain_float x"
  obtains ds dp where "digits_of x = (ds, dp)" "list_all is_digit ds" "ds \<noteq> []" "hd ds \<noteq> CHR ''0''"
    "decimal_float False (digits_val 0 ds) (dp - int (length ds)) = x" "\<bar>dp\<bar> < 400"
proof -
  obtain c e where c: "shortest x = (c, e)" "decimal_float False c e = x" "0 < c"
    "- 341 \<le> int (length (show_nat c)) + e" "int (length (show_nat c)) + e \<le> 310"
    by (rule shortest_rounds [OF assms])
  define ds where "ds = trim_right_of (\<lambda>ch. ch = CHR ''0'') (show_nat c)"
  obtain t where t: "show_nat c = ds @ t" "\<forall>x\<in>set t. x = CHR ''0''"
    using trim_right_of_suffix [of "show_nat c" "\<lambda>ch. ch = CHR ''0''"] by (auto simp: ds_def)
  then have z: "show_nat c = ds @ replicate (length t) (CHR ''0'')" by (metis replicate_eqI)
  have v: "c = digits_val 0 ds * 10 ^ length t" using digits_val_shift [of ds "length t"] digits_val_show [of c] by (simp flip: z)
  have "ds \<noteq> []"
  proof
    assume "ds = []"
    with v c(3) show False by simp
  qed
  moreover have "hd ds \<noteq> CHR ''0''" using show_nat_zero [of c] c(3) t(1) \<open>ds \<noteq> []\<close> by auto
  moreover have "list_all is_digit ds" using show_nat_digits [of c] t(1) by simp
  moreover have "digits_of x = (ds, int (length (show_nat c)) + e)" by (simp add: digits_of_def c(1) ds_def)
  moreover have "decimal_float False (digits_val 0 ds) (int (length (show_nat c)) + e - int (length ds)) = x"
    using decimal_float_shift [of False "digits_val 0 ds" "length t" "int (length t) + e"] c(2) t(1) by (simp flip: v)
  ultimately show ?thesis using that c(4,5) by simp
qed

text \<open>The parts of the text are those of the digits, with zeros around them.\<close>

lemma float_parts_spec:
  assumes ds: "list_all is_digit ds" "ds \<noteq> []" "hd ds \<noteq> CHR ''0''" and p: "float_parts b (ds, dp) = (ip, fp, e)"
  shows "list_all is_digit ip" "list_all is_digit fp" "ip \<noteq> []" "hd ip \<noteq> CHR ''0'' \<or> ip = ''0''"
    "\<bar>exp_of e\<bar> \<le> \<bar>dp\<bar> + 1"
    "decimal_float neg (digits_val 0 (ip @ fp)) (exp_of e - int (length fp)) = decimal_float neg (digits_val 0 ds) (dp - int (length ds))"
proof -
  consider (exp) "ip = [hd ds]" "fp = tl ds" "e = Some (dp - 1)"
    | (small) "dp \<le> 0" "ip = ''0''" "fp = replicate (nat (- dp)) (CHR ''0'') @ ds" "e = None"
    | (large) "int (length ds) \<le> dp" "ip = ds @ replicate (nat dp - length ds) (CHR ''0'')" "fp = []" "e = None"
    | (mid) "0 < dp" "dp < int (length ds)" "ip = take (nat dp) ds" "fp = drop (nat dp) ds" "e = None"
    using p by (auto simp: float_parts_def split: if_splits)
  then have "list_all is_digit ip \<and> list_all is_digit fp \<and> ip \<noteq> [] \<and> (hd ip \<noteq> CHR ''0'' \<or> ip = ''0'') \<and> \<bar>exp_of e\<bar> \<le> \<bar>dp\<bar> + 1 \<and>
    decimal_float neg (digits_val 0 (ip @ fp)) (exp_of e - int (length fp)) = decimal_float neg (digits_val 0 ds) (dp - int (length ds))"
  proof cases
    case exp
    obtain c cs where "ds = c # cs" using ds(2) by (cases ds) auto
    with exp ds show ?thesis by (auto simp: exp_of_def algebra_simps)
  next
    case small
    then have "digits_val 0 (ip @ fp) = digits_val 0 ds" using digits_val_zeros [of "Suc (nat (- dp))" ds] by simp
    with small ds(1) show ?thesis by (auto simp: exp_of_def zero_digit list_all_iff)
  next
    case large
    have "digits_val 0 (ip @ fp) = digits_val 0 ds * 10 ^ (nat dp - length ds)" using large digits_val_shift by simp
    moreover have "decimal_float neg (digits_val 0 ds * 10 ^ (nat dp - length ds)) 0 = decimal_float neg (digits_val 0 ds) (dp - int (length ds))"
      using decimal_float_shift [of neg "digits_val 0 ds" "nat dp - length ds" "dp - int (length ds)"] large(1) by (simp add: of_nat_diff)
    ultimately show ?thesis using large ds by (auto simp: exp_of_def zero_digit list_all_iff)
  next
    case mid
    then have "nat dp \<noteq> 0" "int (length fp) = int (length ds) - dp" by (simp_all add: of_nat_diff)
    moreover have "hd (take (nat dp) ds) = hd ds" using mid by simp
    ultimately show ?thesis using mid ds by (auto simp: exp_of_def list_all_iff dest: in_set_takeD in_set_dropD)
  qed
  then show "list_all is_digit ip" "list_all is_digit fp" "ip \<noteq> []" "hd ip \<noteq> CHR ''0'' \<or> ip = ''0''" "\<bar>exp_of e\<bar> \<le> \<bar>dp\<bar> + 1"
    "decimal_float neg (digits_val 0 (ip @ fp)) (exp_of e - int (length fp)) = decimal_float neg (digits_val 0 ds) (dp - int (length ds))"
    by simp_all
qed

lemma text_of_parts:
  assumes "plain_float x"
  obtains ip fp e where "text_of x = parts_text (ip, fp, e)" "list_all is_digit ip" "list_all is_digit fp" "ip \<noteq> []"
    "hd ip \<noteq> CHR ''0'' \<or> ip = ''0''" "\<bar>exp_of e\<bar> < 10000"
    "\<And>neg. decimal_float neg (digits_val 0 (ip @ fp)) (exp_of e - int (length fp)) = (if neg then case x of Flt m e \<Rightarrow> Flt (- m) e else x)"
proof -
  obtain ds dp where d: "digits_of x = (ds, dp)" "list_all is_digit ds" "ds \<noteq> []" "hd ds \<noteq> CHR ''0''"
    "decimal_float False (digits_val 0 ds) (dp - int (length ds)) = x" "\<bar>dp\<bar> < 400"
    by (rule digits_of_spec [OF assms])
  define b where "b = (flt_less x (decimal_float False 1 (- 6)) \<or> \<not> flt_less x (decimal_float False 1 21))"
  obtain ip fp e where p: "float_parts b (ds, dp) = (ip, fp, e)" by (cases "float_parts b (ds, dp)") auto
  note s = float_parts_spec [OF d(2-4) p]
  have "text_of x = parts_text (ip, fp, e)" by (simp only: text_of_def d(1) p b_def [symmetric])
  moreover have "\<bar>exp_of e\<bar> < 10000" using s(5) d(6) by linarith
  moreover have "decimal_float neg (digits_val 0 (ip @ fp)) (exp_of e - int (length fp)) = (if neg then case x of Flt m e \<Rightarrow> Flt (- m) e else x)" for neg
    unfolding s(6) using d(5) by (cases neg) (simp_all add: decimal_float_neg)
  ultimately show ?thesis using that s(1-4) by simp
qed

text \<open>What is written is the number that is read, and a number of JSON.\<close>

lemma json_float_parts:
  assumes "double x"
  obtains neg ip fp e where "json_float x = (if neg then ''-'' else []) @ parts_text (ip, fp, e)" "list_all is_digit ip"
    "list_all is_digit fp" "ip \<noteq> []" "hd ip \<noteq> CHR ''0'' \<or> ip = ''0''" "\<bar>exp_of e\<bar> < 10000"
    "decimal_float neg (digits_val 0 (ip @ fp)) (exp_of e - int (length fp)) = x"
proof -
  obtain m e where x: "x = Flt m e" by (cases x)
  consider "m = 0" | "m < 0" | "0 < m" by linarith
  then show ?thesis
  proof cases
    case 1
    with assms have "e = 0" by (auto simp: double_def flt_ok_def x)
    with 1 show ?thesis
      using that [of False "''0''" "[]" None] by (simp add: json_float_def x parts_text_def exp_of_def zero_digit decimal_float_zero)
  next
    case 2
    have "plain_float (Flt (- m) e)" using assms 2 by (auto simp: plain_float_def double_def flt_ok_def too_large_def x)
    then obtain ip fp f where p: "text_of (Flt (- m) e) = parts_text (ip, fp, f)" "list_all is_digit ip" "list_all is_digit fp" "ip \<noteq> []"
      "hd ip \<noteq> CHR ''0'' \<or> ip = ''0''" "\<bar>exp_of f\<bar> < 10000"
      "\<And>neg. decimal_float neg (digits_val 0 (ip @ fp)) (exp_of f - int (length fp)) = (if neg then case Flt (- m) e of Flt m e \<Rightarrow> Flt (- m) e else Flt (- m) e)"
      by (rule text_of_parts) blast
    show ?thesis by (rule that [of True ip fp f]) (use p 2 in \<open>simp_all add: json_float_def x\<close>)
  next
    case 3
    then have "plain_float x" using assms by (simp add: plain_float_def double_def x)
    then obtain ip fp f where p: "text_of x = parts_text (ip, fp, f)" "list_all is_digit ip" "list_all is_digit fp" "ip \<noteq> []"
      "hd ip \<noteq> CHR ''0'' \<or> ip = ''0''" "\<bar>exp_of f\<bar> < 10000"
      "\<And>neg. decimal_float neg (digits_val 0 (ip @ fp)) (exp_of f - int (length fp)) = (if neg then case x of Flt m e \<Rightarrow> Flt (- m) e else x)"
      by (rule text_of_parts) blast
    show ?thesis by (rule that [of False ip fp f]) (use p 3 in \<open>simp_all add: json_float_def x\<close>)
  qed
qed

theorem json_float_reads:
  assumes "double x"
  shows "parse_float (json_float x) = Number x"
proof -
  obtain neg ip fp e where p: "json_float x = (if neg then ''-'' else []) @ parts_text (ip, fp, e)" "list_all is_digit ip"
    "list_all is_digit fp" "ip \<noteq> []" "\<bar>exp_of e\<bar> < 10000"
    "decimal_float neg (digits_val 0 (ip @ fp)) (exp_of e - int (length fp)) = x"
    by (rule json_float_parts [OF assms])
  show ?thesis
    unfolding parse_float_def p(1) read_decimal_parts [OF p(2-5)] using assms p(6) by (simp add: double_def Let_def)
qed

lemma take_digits_run:
  assumes "list_all is_digit ds" "ds \<noteq> []" "r = [] \<or> \<not> is_digit (hd r)"
  shows "take_digits (ds @ r) = Some (ds, r)"
proof -
  have "takeWhile is_digit (ds @ r) = ds" "dropWhile is_digit (ds @ r) = r"
    using assms by (auto simp: list_all_iff takeWhile_append2 dropWhile_append2 takeWhile_eq_Nil_iff dropWhile_eq_self_iff)
  with assms(2) show ?thesis by (simp add: take_digits_def)
qed

definition num_exp :: "int option \<Rightarrow> string" where
  "num_exp e = (case e of None \<Rightarrow> [] | Some e \<Rightarrow> exp_text e)"

lemma read_num_parts:
  assumes ip: "list_all is_digit ip" "ip \<noteq> []" "hd ip \<noteq> CHR ''0'' \<or> ip = ''0''" and fp: "list_all is_digit fp" and r: "delim r"
  shows "read_num ((if neg then ''-'' else []) @ parts_text (ip, fp, e) @ r) = Some ((if neg then ''-'' else []) @ parts_text (ip, fp, e), r)"
proof -
  have nd: "\<not> is_digit (CHR ''e'')" "\<not> is_digit (CHR ''.'')" by (simp_all add: is_digit_def)
  have dr: "r = [] \<or> \<not> is_digit (hd r)" "r = [] \<or> hd r \<notin> {CHR ''.'', CHR ''e'', CHR ''E''}"
    using r by (auto simp: delim_def newline_def is_digit_def)
  obtain c cs where c: "ip = c # cs" using ip(2) by (cases ip) auto
  have sign: "c \<noteq> CHR ''-''" using ip(1) digit_not_sign [of c] by (auto simp: c)
  define x where "x = num_exp e"
  have xr: "x = [] \<or> hd x = CHR ''e''" by (auto simp: x_def num_exp_def exp_text_def split: option.split)
  define f where "f = (if fp = [] then [] else CHR ''.'' # fp)"
  have t: "parts_text (ip, fp, e) = ip @ f @ x" by (simp add: parts_text_def f_def x_def num_exp_def)
  have f: "f @ x @ r = [] \<or> \<not> is_digit (hd (f @ x @ r))" using xr dr(1) nd by (auto simp: f_def hd_append)
  have 1: "take_digits (ip @ f @ x @ r) = Some (ip, f @ x @ r)" using ip(1,2) f by (rule take_digits_run)
  have 2: "(if hd ip = CHR ''0'' then (''0'', tl (ip @ f @ x @ r)) else (ip, f @ x @ r)) = (ip, f @ x @ r)"
    using ip(3) by (auto simp: c)
  have 3: "(case f @ x @ r of c # t \<Rightarrow> if c = CHR ''.'' then map_option (\<lambda>(d, u). (c # d, u)) (take_digits t) else Some ([], f @ x @ r)
      | [] \<Rightarrow> Some ([], f @ x @ r)) = Some (f, x @ r)"
  proof (cases "fp = []")
    case True
    then show ?thesis using xr dr(2) by (cases x; cases r) (auto simp: f_def)
  next
    case False
    have "x @ r = [] \<or> \<not> is_digit (hd (x @ r))" using xr dr(1) nd by (auto simp: hd_append)
    with False fp show ?thesis by (simp add: f_def take_digits_run)
  qed
  have 4: "(case x @ r of c # t \<Rightarrow> if c = CHR ''e'' \<or> c = CHR ''E'' then
        let (es, t2) = (case t of d # u \<Rightarrow> if d = CHR ''+'' \<or> d = CHR ''-'' then ([d], u) else ([], t) | [] \<Rightarrow> ([], t))
        in map_option (\<lambda>(d, u). (sg @ ip @ f @ c # es @ d, u)) (take_digits t2)
      else Some (sg @ ip @ f, x @ r) | [] \<Rightarrow> Some (sg @ ip @ f, x @ r)) = Some (sg @ ip @ f @ x, r)" for sg
    using dr take_digits_run [OF show_nat_digits show_nat_not_Nil dr(1)] take_digits_run [OF padded_digits(1,3) dr(1)]
    by (cases e; cases r) (auto simp: x_def num_exp_def exp_text_def)
  have num: "(case s of c # t \<Rightarrow> if c = CHR ''-'' then ([c], t) else ([], s) | [] \<Rightarrow> ([], s)) = (sg, ip @ f @ x @ r) \<Longrightarrow>
      read_num s = Some (sg @ ip @ f @ x, r)" for s sg
    unfolding read_num_def Let_def
    using 1 2 3 4 [of sg, unfolded Let_def] by simp
  show ?thesis unfolding t using num [of "(if neg then ''-'' else []) @ ip @ f @ x @ r" "if neg then ''-'' else []"] sign by (simp add: c)
qed

lemma num_ok_float: "double x \<Longrightarrow> num_ok (json_float x)"
proof -
  assume x: "double x"
  obtain neg ip fp e where p: "json_float x = (if neg then ''-'' else []) @ parts_text (ip, fp, e)" "list_all is_digit ip"
    "list_all is_digit fp" "ip \<noteq> []" "hd ip \<noteq> CHR ''0'' \<or> ip = ''0''"
    by (rule json_float_parts [OF x])
  have "read_num (json_float x @ r) = Some (json_float x, r)" if "delim r" for r
    using read_num_parts [OF p(2,4,5,3) that, of neg e] unfolding p(1) by simp
  moreover have "\<exists>c cs. json_float x = c # cs \<and> (is_digit c \<or> c = CHR ''-'')"
    using p(2,4) unfolding p(1) by (cases ip) (auto simp: parts_text_def)
  ultimately show ?thesis by (simp add: num_ok_def)
qed

end
