(* ===== verification/Figures.thy ===== *)
theory Figures
  imports Rig FloatText "HOL-Library.Multiset"
begin

text \<open>
  What the benchmarks of cmd/invirtio-test share: the median of their figures, the columns of their
  summaries, and how their results are written to results.json and read back. A Go map is a list of its
  entries in the order of their keys, in which encoding/json writes it, and a nil map or slice is empty where
  the code does not tell them apart.
\<close>

subsection \<open>Medians\<close>

fun flt_insert :: "float \<Rightarrow> float list \<Rightarrow> float list" where
  "flt_insert x [] = [x]"
| "flt_insert x (y # ys) = (if flt_less y x then y # flt_insert x ys else x # y # ys)"

fun flt_sort :: "float list \<Rightarrow> float list" where
  "flt_sort [] = []"
| "flt_sort (x # xs) = flt_insert x (flt_sort xs)"

definition bench_median :: "float list \<Rightarrow> float" where
  "bench_median xs =
     (if xs = [] then zero
      else let s = flt_sort xs; n = length s
           in if odd n then s ! (n div 2) else flt_div (flt_add (s ! (n div 2 - 1)) (s ! (n div 2))) (float_of 2))"

definition flt_min :: "float \<Rightarrow> float \<Rightarrow> float" where
  "flt_min x y = (if flt_less y x then y else x)"

definition flt_max :: "float \<Rightarrow> float \<Rightarrow> float" where
  "flt_max x y = (if flt_less x y then y else x)"


subsection \<open>Columns\<close>

definition pad_left :: "nat \<Rightarrow> string \<Rightarrow> string" where
  "pad_left w s = spaces (w - length s) @ s"

text \<open>A name from outside is padded by its runes.\<close>

definition pad_name :: "nat \<Rightarrow> string \<Rightarrow> string" where
  "pad_name w s = s @ spaces (w - length (runes_of (bytes_of s)))"

definition column :: "nat \<Rightarrow> nat \<Rightarrow> float \<Rightarrow> string" where
  "column w prec x = pad_left w (show_float prec x)"


subsection \<open>Results as JSON\<close>

type_synonym 'a go_map = "(string \<times> 'a) list"

fun map_put :: "string \<Rightarrow> 'a \<Rightarrow> 'a go_map \<Rightarrow> 'a go_map" where
  "map_put k v [] = [(k, v)]"
| "map_put k v (m # ms) = (if fst m < k then m # map_put k v ms else if fst m = k then (k, v) # ms else (k, v) # m # ms)"

definition map_from :: "(string \<times> 'a) list \<Rightarrow> 'a go_map" where
  "map_from kvs = foldl (\<lambda>m (k, v). map_put k v m) [] kvs"

definition map_get :: "'a \<Rightarrow> 'a go_map \<Rightarrow> string \<Rightarrow> 'a" where
  "map_get none m k = (case map_of m k of None \<Rightarrow> none | Some v \<Rightarrow> v)"

text \<open>Texts of values, and members of an object, of which those with \<open>omitempty\<close> may be left out.\<close>

definition int_json :: "int \<Rightarrow> json" where
  "int_json n = JNum (show_int n)"

definition float_json :: "float \<Rightarrow> json" where
  "float_json x = JNum (json_float x)"

definition map_json :: "('a \<Rightarrow> json) \<Rightarrow> 'a go_map \<Rightarrow> json" where
  "map_json f m = JObj (map (\<lambda>(k, v). (k, f v)) m)"

definition slice_json :: "('a \<Rightarrow> json) \<Rightarrow> 'a list \<Rightarrow> json" where
  "slice_json f xs = (if xs = [] then JNull else JArr (map f xs))"

definition unless :: "bool \<Rightarrow> string \<times> json \<Rightarrow> (string \<times> json) list" where
  "unless b m = (if b then [] else [m])"

text \<open>The fields of a struct by their keys, and the decoding of a member into its field.\<close>

definition set_member :: "(string \<times> ('a \<Rightarrow> json \<Rightarrow> 'a option)) list \<Rightarrow> 'a \<Rightarrow> string \<times> json \<Rightarrow> 'a option" where
  "set_member fs a m = (case map_of fs (to_lower (fst m)) of None \<Rightarrow> Some a | Some f \<Rightarrow> f a (snd m))"

definition set_fields :: "(string \<times> ('a \<Rightarrow> json \<Rightarrow> 'a option)) list \<Rightarrow> 'a \<Rightarrow> json \<Rightarrow> 'a option" where
  "set_fields fs = set_struct (set_member fs)"

definition set_bool :: "bool \<Rightarrow> json \<Rightarrow> bool option" where
  "set_bool old v = (case v of JBool b \<Rightarrow> Some b | JNull \<Rightarrow> Some old | _ \<Rightarrow> None)"

text \<open>Each value of a map is decoded over a zero value.\<close>

definition set_map :: "('a \<Rightarrow> json \<Rightarrow> 'a option) \<Rightarrow> 'a \<Rightarrow> 'a go_map \<Rightarrow> json \<Rightarrow> 'a go_map option" where
  "set_map f none old v = (case v of
      JNull \<Rightarrow> Some []
    | JObj ms \<Rightarrow> fold_opt (\<lambda>m (k, v). map_option (\<lambda>x. map_put k x m) (f none v)) old ms
    | _ \<Rightarrow> None)"

text \<open>A map that the code tells from a nil map.\<close>

definition set_opt_map :: "('a \<Rightarrow> json \<Rightarrow> 'a option) \<Rightarrow> 'a \<Rightarrow> 'a go_map option \<Rightarrow> json \<Rightarrow> 'a go_map option option" where
  "set_opt_map f none old v = (if v = JNull then Some None
     else map_option Some (set_map f none (case old of None \<Rightarrow> [] | Some m \<Rightarrow> m) v))"

definition unmarshal_with :: "('a \<Rightarrow> json \<Rightarrow> 'a option) \<Rightarrow> 'a \<Rightarrow> string \<Rightarrow> 'a option" where
  "unmarshal_with f none s = (case read_json s of None \<Rightarrow> None | Some v \<Rightarrow> f none v)"

text \<open>What is written to results.json, and the decoding error, of which only that there is one is modelled.\<close>

definition json_file :: "json \<Rightarrow> string" where
  "json_file v = show_json 0 v @ [newline]"

definition decode_error :: err where
  "decode_error = Msg ''json: the results cannot be decoded''"


subsection \<open>Medians of figures\<close>

lemma flt_insert_key: "flt_insert x ys = insort_key val x ys"
  by (induction ys) (auto simp: flt_less_val)

lemma flt_sort_key: "flt_sort xs = sort_key val xs"
  by (induction xs) (simp_all add: flt_insert_key)

lemma mset_flt_sort [simp]: "mset (flt_sort xs) = mset xs"
proof (induction xs)
  case (Cons x xs)
  have "mset (flt_insert x ys) = add_mset x (mset ys)" for ys by (induction ys) auto
  with Cons show ?case by simp
qed simp

lemma length_flt_sort [simp]: "length (flt_sort xs) = length xs" and set_flt_sort [simp]: "set (flt_sort xs) = set xs"
  by (simp_all add: flt_sort_key)

lemma sorted_flt_sort [simp]: "sorted (map val (flt_sort xs))"
  by (simp add: flt_sort_key)

text \<open>A float64 is its value.\<close>

lemma flt_ok_cases:
  assumes "flt_ok x"
  obtains "x = Flt 0 0" | m e where "x = Flt m e" "m \<noteq> 0" "\<bar>m\<bar> < 2 ^ 53" "- 1074 \<le> e" "2 ^ 52 \<le> \<bar>m\<bar> \<or> e = - 1074"
  using assms by (cases x) (auto simp: flt_ok_def)

lemma mantissa_unique:
  assumes "of_int m * 2 powi e = (of_int n * 2 powi f :: real)" "m \<noteq> 0" "e \<le> f" "\<bar>m\<bar> < 2 ^ 53" "2 ^ 52 \<le> \<bar>n\<bar> \<or> f = - 1074" "- 1074 \<le> e"
  shows "m = n \<and> e = f"
proof -
  define k where "k = nat (f - e)"
  have "(2 :: real) powi f = 2 powi e * 2 ^ k"
    using assms(3) by (simp add: k_def power_int_add flip: power_int_of_nat) (simp flip: power_int_add)
  with assms(1) have "(of_int m :: real) = of_int (n * 2 ^ k)" by simp
  then have m: "m = n * 2 ^ k" by (simp only: of_int_eq_iff)
  have "k = 0"
  proof (rule ccontr)
    assume "k \<noteq> 0"
    then have "f \<noteq> - 1074" using assms(6) by (auto simp: k_def)
    with assms(5) have "2 ^ 52 \<le> \<bar>n\<bar>" by simp
    moreover have "2 \<le> (2 :: int) ^ k" using \<open>k \<noteq> 0\<close> self_le_power [of 2 k] by (simp add: Suc_leI)
    ultimately have "2 ^ 52 * 2 \<le> \<bar>n\<bar> * (2 :: int) ^ k" by (intro mult_mono) auto
    then show False using assms(4) by (simp add: m abs_mult)
  qed
  then show ?thesis using m assms(3) by (simp add: k_def)
qed

lemma val_inj:
  assumes "flt_ok x" "flt_ok y" "val x = val y"
  shows "x = y"
  using assms(1)
proof (cases rule: flt_ok_cases)
  case 1
  with assms(2,3) show ?thesis by (cases rule: flt_ok_cases) (auto simp: val_def)
next
  case (2 m e)
  note x = this
  from assms(2) show ?thesis
  proof (cases rule: flt_ok_cases)
    case 1
    with x assms(3) show ?thesis by (auto simp: val_def)
  next
    case (2 n f)
    have v: "of_int m * 2 powi e = (of_int n * 2 powi f :: real)" using assms(3) by (simp add: val_def x(1) 2(1))
    consider "e \<le> f" | "f \<le> e" by linarith
    then have "m = n \<and> e = f"
    proof cases
      case 1
      then show ?thesis using mantissa_unique [OF v] x 2 by auto
    next
      assume "f \<le> e"
      then show ?thesis using mantissa_unique [OF v [symmetric]] x 2 by auto
    qed
    then show ?thesis by (simp add: x(1) 2(1))
  qed
qed

lemma double_normal:
  assumes "2 ^ 52 \<le> m" "m < 2 ^ 53" "- 1074 \<le> e" "e \<le> 971"
  shows "double (Flt m e)"
proof -
  have "2 ^ (bitlen (nat m) - 1) \<le> nat m" "nat m < 2 ^ 53" using bitlen_bounds [of "nat m"] assms(1,2) by auto
  then have "(2 :: nat) ^ (bitlen (nat m) - 1) < 2 ^ 53" by linarith
  then have "bitlen (nat m) - 1 < 53" by (rule power_less_imp_less_exp [rotated]) simp
  then show ?thesis using assms by (auto simp: double_def flt_ok_def too_large_def)
qed

text \<open>The order of the repetitions does not count.\<close>

lemma flt_sort_mset:
  assumes "mset xs = mset ys" "list_all flt_ok xs"
  shows "flt_sort xs = flt_sort ys"
proof -
  have s: "set xs = set ys" using assms(1) by (rule mset_eq_setD)
  have "mset (map val (flt_sort xs)) = mset (map val (flt_sort ys))" using assms(1) by simp
  then have "map val (flt_sort xs) = map val (flt_sort ys)" by (metis properties_for_sort sorted_flt_sort)
  moreover have "inj_on val (set (flt_sort xs) \<union> set (flt_sort ys))"
    using assms(2) by (auto intro!: inj_onI val_inj simp: list_all_iff s)
  ultimately show ?thesis by (simp add: inj_on_map_eq_map)
qed

lemma bench_median_mset:
  assumes "mset xs = mset ys" "list_all flt_ok xs"
  shows "bench_median xs = bench_median ys"
  unfolding bench_median_def flt_sort_mset [OF assms] using assms(1) by (metis length_flt_sort list.size(3) mset_zero_iff size_mset)

text \<open>At most half of the elements of a sorted list are before its middle, and at most half behind it.\<close>

lemma filter_before:
  assumes s: "sorted (ks :: real list)" "i < length ks"
  shows "length (filter (\<lambda>k. k < ks ! i) ks) \<le> i"
proof -
  have "{j. j < length ks \<and> ks ! j < ks ! i} \<subseteq> {..<i}"
    using s by (auto simp: sorted_iff_nth_mono not_less [symmetric])
  then show ?thesis using card_mono [of "{..<i}"] by (simp add: length_filter_conv_card)
qed

lemma filter_behind:
  assumes s: "sorted (ks :: real list)" "i < length ks"
  shows "length (filter (\<lambda>k. ks ! i < k) ks) \<le> length ks - Suc i"
proof -
  have "{j. j < length ks \<and> ks ! i < ks ! j} \<subseteq> {i<..<length ks}"
    using s by (auto simp: sorted_iff_nth_mono) (meson leI le_less_trans less_irrefl)
  then show ?thesis using card_mono [of "{i<..<length ks}"] by (simp add: length_filter_conv_card)
qed

lemma count_sorted: "length (filter (\<lambda>x. P (val x)) (flt_sort xs)) = length (filter (\<lambda>x. P (val x)) xs)"
  by (metis mset_filter mset_flt_sort size_mset)

lemma sort_split:
  assumes "i < length xs"
  shows "length (filter (\<lambda>x. flt_less x (flt_sort xs ! i)) xs) \<le> i"
    "length (filter (\<lambda>x. flt_less (flt_sort xs ! i) x) xs) \<le> length xs - Suc i"
  using filter_before [OF sorted_flt_sort, of i xs] filter_behind [OF sorted_flt_sort, of i xs] assms
    count_sorted [where P = "\<lambda>k. k < val (flt_sort xs ! i)"] count_sorted [where P = "\<lambda>k. val (flt_sort xs ! i) < k"]
  by (simp_all add: flt_less_val filter_map comp_def)


subsection \<open>Reading what was written\<close>

text \<open>
  What is written of a type, and decoded over its zero value: the values that are read back are the ones that
  were written. The laws give those of slices and of maps of it, and of a file.
\<close>

definition map_ok :: "('a \<Rightarrow> bool) \<Rightarrow> 'a go_map \<Rightarrow> bool" where
  "map_ok ok m \<longleftrightarrow> sorted_wrt (<) (map fst m) \<and> list_all (\<lambda>(k, v). text_ok k \<and> ok v) m"

lemma map_put_last: "list_all (\<lambda>m. fst m < k) ms \<Longrightarrow> map_put k v ms = ms @ [(k, v)]"
  by (induction ms) auto

lemma members_ok_iff: "members_ok ms \<longleftrightarrow> list_all (\<lambda>(k, v). text_ok k \<and> json_ok v) ms"
  by (induction ms) auto

lemma elems_ok_iff: "elems_ok vs \<longleftrightarrow> list_all json_ok vs"
  by (induction vs) auto

lemma members_ok_unless [simp]: "members_ok (unless b m) \<longleftrightarrow> b \<or> text_ok (fst m) \<and> json_ok (snd m)"
  by (cases m) (simp add: unless_def)

locale codec =
  fixes none :: 'a and decode :: "'a \<Rightarrow> json \<Rightarrow> 'a option" and encode :: "'a \<Rightarrow> json" and ok :: "'a \<Rightarrow> bool"
  assumes decodes: "ok x \<Longrightarrow> decode none (encode x) = Some x"
    and encodes: "ok x \<Longrightarrow> json_ok (encode x)"
begin

lemma items: "list_all ok xs \<Longrightarrow> set_items decode none [] (map encode xs) = Some xs"
  by (induction xs) (simp_all add: decodes)

lemma slice: "list_all ok xs \<Longrightarrow> set_slice decode none [] (slice_json encode xs) = Some xs"
  by (simp add: set_slice_def slice_json_def items)

lemma slice_ok: "list_all ok xs \<Longrightarrow> json_ok (slice_json encode xs)"
  by (auto simp: slice_json_def elems_ok_iff list_all_iff encodes)

lemma entries:
  assumes "list_all (\<lambda>(k, v). ok v) m" "sorted_wrt (<) (map fst (old @ m))"
  shows "fold_opt (\<lambda>m (k, v). map_option (\<lambda>x. map_put k x m) (decode none v)) old (map (\<lambda>(k, v). (k, encode v)) m) = Some (old @ m)"
  using assms
proof (induction m arbitrary: old)
  case (Cons e m)
  obtain k x where e: "e = (k, x)" by fastforce
  have "map_put k x old = old @ [(k, x)]" using Cons.prems(2) by (intro map_put_last) (auto simp: e sorted_wrt_append list_all_iff)
  with Cons.IH [of "old @ [(k, x)]"] Cons.prems show ?case by (simp add: e decodes)
qed simp

lemma entries_all: "map_ok ok m \<Longrightarrow> set_map decode none [] (map_json encode m) = Some m"
  using entries [of m "[]"] by (auto simp: map_ok_def set_map_def map_json_def list_all_iff)

lemma entries_ok: "map_ok ok m \<Longrightarrow> json_ok (map_json encode m)"
  by (auto simp: map_ok_def map_json_def members_ok_iff list_all_iff encodes)

lemma from_file: "ok x \<Longrightarrow> unmarshal_with decode none (json_file (encode x)) = Some x"
  by (simp add: unmarshal_with_def json_file_def read_show_json encodes decodes)

end

interpretation int_codec: codec "0 :: int" set_int64 int_json in_int64
  by unfold_locales (simp_all add: set_int64_def int_json_def parse_show_int)

interpretation float_codec: codec zero set_float float_json double
  by unfold_locales (simp_all add: set_float_def float_json_def json_float_reads num_ok_float)

interpretation string_codec: codec "[]" set_string JStr text_ok
  by unfold_locales (simp_all add: set_string_def)

text \<open>A struct is decoded member by member.\<close>

lemma set_fields_simps [simp]:
  "set_fields fs a (JObj []) = Some a"
  "set_fields fs a (JObj (m # ms)) = (case set_member fs a m of None \<Rightarrow> None | Some b \<Rightarrow> set_fields fs b (JObj ms))"
  by (simp_all add: set_fields_def set_struct_def split: option.split)

lemma set_fields_unless:
  "set_fields fs a (JObj (unless b m @ ms)) = (if b then set_fields fs a (JObj ms) else set_fields fs a (JObj (m # ms)))"
  "set_fields fs a (JObj (unless b m)) = (if b then Some a else set_fields fs a (JObj [m]))"
  by (simp_all add: unless_def)

text \<open>A value read over the one that it had, which no value but null leaves.\<close>

lemma set_simple [simp]:
  "set_string old (JStr s) = Some s" "set_bool c (JBool b) = Some b"
  "in_int64 n \<Longrightarrow> set_int64 n0 (int_json n) = Some n" "double x \<Longrightarrow> set_float x0 (float_json x) = Some x"
  by (simp_all add: set_string_def set_bool_def set_int64_def int_json_def parse_show_int set_float_def float_json_def json_float_reads)

lemma json_simple [simp]: "json_ok (int_json n)" "double x \<Longrightarrow> json_ok (float_json x)" "int_json n \<noteq> JNull" "float_json x \<noteq> JNull"
  "map_json f m \<noteq> JNull"
  by (simp_all add: int_json_def float_json_def num_ok_float map_json_def)


subsection \<open>The median\<close>



end
