(* ===== verification/BlkBench.thy ===== *)
theory BlkBench
  imports Figures
begin

text \<open>
  cmd/invirtio-test/blkbench.go: fio against null_blk on the host, behind qemu-storage-daemon and behind a
  guest, and the summary of its results. A target's runs are appended to it while its jobs run; the model
  returns it as it is when they end, as the code's \<open>return t, s.runNative(&t)\<close> does with the order of
  evaluation that the compiler has.
\<close>

definition bench_name :: string where "bench_name = ''vblk-bench''"
definition bench_qsd_name :: string where "bench_qsd_name = ''vblk-qsd''"

record bench_job =
  bj_name :: string
  bj_rw :: string
  bj_bs :: string
  bj_depth :: nat

definition bench_jobs :: "bench_job list" where
  "bench_jobs = map (\<lambda>(n, rw, bs, d). \<lparr>bj_name = n, bj_rw = rw, bj_bs = bs, bj_depth = d\<rparr>)
    [(''lat-qd1'', ''randread'', ''4k'', 1), (''iops-qd32'', ''randread'', ''4k'', 32), (''iops-qd128'', ''randread'', ''4k'', 128),
     (''seqread-128k'', ''read'', ''128k'', 8), (''seqread-1m'', ''read'', ''1m'', 8),
     (''seqwrite-128k'', ''write'', ''128k'', 8), (''seqwrite-1m'', ''write'', ''1m'', 8)]"

definition bench_counters :: "string list" where
  "bench_counters = [''kicks'', ''kick_irqs'', ''requests'', ''injected'', ''suppressed'', ''bad_requests'', ''inject_errors'',
     ''dropped_kicks'', ''polled'', ''poll_timeouts'']"

record bench_run =
  br_job :: string
  br_rep :: int
  br_iops :: float
  br_bw :: float
  br_mean :: float
  br_p50 :: float
  br_p99 :: float
  br_p999 :: float
  br_ios :: float
  br_time :: float
  br_user :: int
  br_sys :: int
  br_ticks :: bool
  br_counters :: "int go_map option"

record bench_target =
  bt_name :: string
  bt_kind :: string
  bt_options :: string
  bt_runs :: "bench_run list"

record bench_results =
  rs_host :: "string go_map"
  rs_targets :: "bench_target list"

record blk_bench =
  bb_out :: string
  bb_guest :: string
  bb_fio_cpu :: string
  bb_dev_cpus :: "string list"
  bb_irq_cpu :: int
  bb_reps :: int
  bb_runtime :: int
  bb_ramp :: int
  bb_jobs :: "bench_job list"


subsection \<open>The figures of a run\<close>

text \<open>A counter of a queue, such as \<open>q1_kicks\<close>, without its queue.\<close>

definition queue_less :: "string \<Rightarrow> string" where
  "queue_less k =
     (case index_of k ''_'' of
        None \<Rightarrow> k
      | Some i \<Rightarrow> if 0 < i \<and> hd k = CHR ''q'' \<and> parse_int64 (take (i - 1) (tl k)) \<noteq> None then drop (i + 1) k else k)"

definition counter_sum :: "string \<Rightarrow> string \<Rightarrow> int" where
  "counter_sum dump c = wrap64 (sum_list (map snd (filter (\<lambda>(k, v). queue_less k = c) (counter_list dump))))"

definition counter_delta :: "string \<Rightarrow> string \<Rightarrow> int go_map" where
  "counter_delta before after = map_from (map (\<lambda>c. (c, wrap64 (counter_sum after c - counter_sum before c))) bench_counters)"

record fio_side =
  fs_bytes :: float
  fs_iops :: float
  fs_bw :: float
  fs_ios :: float
  fs_mean :: float
  fs_percentile :: "float go_map"

record fio_job =
  fj_read :: fio_side
  fj_write :: fio_side
  fj_runtime :: float

definition no_side :: fio_side where
  "no_side = \<lparr>fs_bytes = zero, fs_iops = zero, fs_bw = zero, fs_ios = zero, fs_mean = zero, fs_percentile = []\<rparr>"

definition no_fio_job :: fio_job where
  "no_fio_job = \<lparr>fj_read = no_side, fj_write = no_side, fj_runtime = zero\<rparr>"

definition set_lat :: "fio_side \<Rightarrow> json \<Rightarrow> fio_side option" where
  "set_lat = set_fields [(''mean'', \<lambda>s v. map_option (\<lambda>x. s\<lparr>fs_mean := x\<rparr>) (set_float (fs_mean s) v))]"

definition set_clat :: "fio_side \<Rightarrow> json \<Rightarrow> fio_side option" where
  "set_clat = set_fields
     [(''percentile'', \<lambda>s v. map_option (\<lambda>x. s\<lparr>fs_percentile := x\<rparr>) (set_map set_float zero (fs_percentile s) v))]"

definition set_side :: "fio_side \<Rightarrow> json \<Rightarrow> fio_side option" where
  "set_side = set_fields
    [(''io_bytes'', \<lambda>s v. map_option (\<lambda>x. s\<lparr>fs_bytes := x\<rparr>) (set_float (fs_bytes s) v)),
     (''iops'', \<lambda>s v. map_option (\<lambda>x. s\<lparr>fs_iops := x\<rparr>) (set_float (fs_iops s) v)),
     (''bw_bytes'', \<lambda>s v. map_option (\<lambda>x. s\<lparr>fs_bw := x\<rparr>) (set_float (fs_bw s) v)),
     (''total_ios'', \<lambda>s v. map_option (\<lambda>x. s\<lparr>fs_ios := x\<rparr>) (set_float (fs_ios s) v)),
     (''lat_ns'', set_lat), (''clat_ns'', set_clat)]"

definition set_fio_job :: "fio_job \<Rightarrow> json \<Rightarrow> fio_job option" where
  "set_fio_job = set_fields
    [(''read'', \<lambda>j v. map_option (\<lambda>x. j\<lparr>fj_read := x\<rparr>) (set_side (fj_read j) v)),
     (''write'', \<lambda>j v. map_option (\<lambda>x. j\<lparr>fj_write := x\<rparr>) (set_side (fj_write j) v)),
     (''job_runtime'', \<lambda>j v. map_option (\<lambda>x. j\<lparr>fj_runtime := x\<rparr>) (set_float (fj_runtime j) v))]"

definition unmarshal_fio :: "string \<Rightarrow> fio_job list option" where
  "unmarshal_fio = unmarshal_with (set_fields [(''jobs'', \<lambda>js v. set_slice set_fio_job no_fio_job js v)]) []"

definition no_run :: bench_run where
  "no_run = \<lparr>br_job = [], br_rep = 0, br_iops = zero, br_bw = zero, br_mean = zero, br_p50 = zero, br_p99 = zero,
     br_p999 = zero, br_ios = zero, br_time = zero, br_user = 0, br_sys = 0, br_ticks = False, br_counters = None\<rparr>"

definition parse_fio :: "string \<Rightarrow> bench_run res" where
  "parse_fio data =
     (case unmarshal_fio data of
        None \<Rightarrow> Inl decode_error
      | Some [] \<Rightarrow> Inl (Msg ''no jobs in fio's output'')
      | Some (j # _) \<Rightarrow>
          (let side = (if flt_zero (fs_bytes (fj_read j)) then fj_write j else fj_read j);
               p = map_get zero (fs_percentile side)
           in Inr (no_run\<lparr>br_iops := fs_iops side, br_bw := fs_bw side, br_mean := fs_mean side,
                br_p50 := p ''50.000000'', br_p99 := p ''99.000000'', br_p999 := p ''99.900000'',
                br_ios := fs_ios side, br_time := fj_runtime j\<rparr>)))"


subsection \<open>results.json\<close>

definition bench_run_json :: "bench_run \<Rightarrow> json" where
  "bench_run_json r = JObj
    ([(''job'', JStr (br_job r)), (''rep'', int_json (br_rep r)), (''iops'', float_json (br_iops r)),
      (''bw_bytes'', float_json (br_bw r)), (''lat_mean_ns'', float_json (br_mean r)), (''clat_p50_ns'', float_json (br_p50 r)),
      (''clat_p99_ns'', float_json (br_p99 r)), (''clat_p999_ns'', float_json (br_p999 r)),
      (''total_ios'', float_json (br_ios r)), (''job_runtime_ms'', float_json (br_time r))] @
     unless (br_user r = 0) (''user_ticks'', int_json (br_user r)) @
     unless (br_sys r = 0) (''sys_ticks'', int_json (br_sys r)) @
     [(''has_ticks'', JBool (br_ticks r))] @
     (case br_counters r of None \<Rightarrow> [] | Some cs \<Rightarrow> unless (cs = []) (''counters'', map_json int_json cs)))"

definition bench_target_json :: "bench_target \<Rightarrow> json" where
  "bench_target_json t = JObj
    ([(''name'', JStr (bt_name t)), (''kind'', JStr (bt_kind t))] @ unless (bt_options t = []) (''options'', JStr (bt_options t)) @
     [(''runs'', slice_json bench_run_json (bt_runs t))])"

definition bench_results_json :: "bench_results \<Rightarrow> json" where
  "bench_results_json r = JObj [(''host'', map_json JStr (rs_host r)), (''targets'', slice_json bench_target_json (rs_targets r))]"

definition set_bench_run :: "bench_run \<Rightarrow> json \<Rightarrow> bench_run option" where
  "set_bench_run = set_fields
    [(''job'', \<lambda>r v. map_option (\<lambda>x. r\<lparr>br_job := x\<rparr>) (set_string (br_job r) v)),
     (''rep'', \<lambda>r v. map_option (\<lambda>x. r\<lparr>br_rep := x\<rparr>) (set_int64 (br_rep r) v)),
     (''iops'', \<lambda>r v. map_option (\<lambda>x. r\<lparr>br_iops := x\<rparr>) (set_float (br_iops r) v)),
     (''bw_bytes'', \<lambda>r v. map_option (\<lambda>x. r\<lparr>br_bw := x\<rparr>) (set_float (br_bw r) v)),
     (''lat_mean_ns'', \<lambda>r v. map_option (\<lambda>x. r\<lparr>br_mean := x\<rparr>) (set_float (br_mean r) v)),
     (''clat_p50_ns'', \<lambda>r v. map_option (\<lambda>x. r\<lparr>br_p50 := x\<rparr>) (set_float (br_p50 r) v)),
     (''clat_p99_ns'', \<lambda>r v. map_option (\<lambda>x. r\<lparr>br_p99 := x\<rparr>) (set_float (br_p99 r) v)),
     (''clat_p999_ns'', \<lambda>r v. map_option (\<lambda>x. r\<lparr>br_p999 := x\<rparr>) (set_float (br_p999 r) v)),
     (''total_ios'', \<lambda>r v. map_option (\<lambda>x. r\<lparr>br_ios := x\<rparr>) (set_float (br_ios r) v)),
     (''job_runtime_ms'', \<lambda>r v. map_option (\<lambda>x. r\<lparr>br_time := x\<rparr>) (set_float (br_time r) v)),
     (''user_ticks'', \<lambda>r v. map_option (\<lambda>x. r\<lparr>br_user := x\<rparr>) (set_int64 (br_user r) v)),
     (''sys_ticks'', \<lambda>r v. map_option (\<lambda>x. r\<lparr>br_sys := x\<rparr>) (set_int64 (br_sys r) v)),
     (''has_ticks'', \<lambda>r v. map_option (\<lambda>x. r\<lparr>br_ticks := x\<rparr>) (set_bool (br_ticks r) v)),
     (''counters'', \<lambda>r v. map_option (\<lambda>x. r\<lparr>br_counters := x\<rparr>) (set_opt_map set_int64 0 (br_counters r) v))]"

definition no_target :: bench_target where
  "no_target = \<lparr>bt_name = [], bt_kind = [], bt_options = [], bt_runs = []\<rparr>"

definition set_bench_target :: "bench_target \<Rightarrow> json \<Rightarrow> bench_target option" where
  "set_bench_target = set_fields
    [(''name'', \<lambda>t v. map_option (\<lambda>x. t\<lparr>bt_name := x\<rparr>) (set_string (bt_name t) v)),
     (''kind'', \<lambda>t v. map_option (\<lambda>x. t\<lparr>bt_kind := x\<rparr>) (set_string (bt_kind t) v)),
     (''options'', \<lambda>t v. map_option (\<lambda>x. t\<lparr>bt_options := x\<rparr>) (set_string (bt_options t) v)),
     (''runs'', \<lambda>t v. map_option (\<lambda>x. t\<lparr>bt_runs := x\<rparr>) (set_slice set_bench_run no_run (bt_runs t) v))]"

definition set_bench_results :: "bench_results \<Rightarrow> json \<Rightarrow> bench_results option" where
  "set_bench_results = set_fields
    [(''host'', \<lambda>r v. map_option (\<lambda>x. r\<lparr>rs_host := x\<rparr>) (set_map set_string [] (rs_host r) v)),
     (''targets'', \<lambda>r v. map_option (\<lambda>x. r\<lparr>rs_targets := x\<rparr>) (set_slice set_bench_target no_target (rs_targets r) v))]"

definition read_bench_results :: "string \<Rightarrow> bench_results option" where
  "read_bench_results = unmarshal_with set_bench_results \<lparr>rs_host = [], rs_targets = []\<rparr>"

definition bench_save :: "blk_bench \<Rightarrow> bench_results \<Rightarrow> err option io" where
  "bench_save b r = do_sys (WriteFile (path_join [bb_out b, ''results.json'']) (json_file (bench_results_json r)) 420)"

subsection \<open>The summary\<close>

text \<open>A number that the host information has, or 0. Its texts are those of getconf and of integers.\<close>

definition host_number :: "string go_map \<Rightarrow> string \<Rightarrow> float" where
  "host_number h k = (case parse_float (map_get [] h k) of Number x \<Rightarrow> x | _ \<Rightarrow> zero)"

definition summary_jobs :: "bench_results \<Rightarrow> string list" where
  "summary_jobs r = foldl (\<lambda>js n. if n \<in> set js then js else js @ [n]) [] (map br_job (concat (map bt_runs (rs_targets r))))"

definition thousand :: float where "thousand = float_of 1000"
definition million :: float where "million = float_of 1000000"
definition mebi :: float where "mebi = float_of 1048576"

text \<open>The CPU time per I/O of a run, in microseconds. The ticks also cover the ramp.\<close>

definition cpu_per_io :: "float \<Rightarrow> float \<Rightarrow> bench_run \<Rightarrow> int \<Rightarrow> float" where
  "cpu_per_io hz ramp r ticks =
     (let ios = flt_div (flt_mult (br_ios r) (flt_add (br_time r) (flt_mult thousand ramp))) (br_time r)
      in flt_div (flt_div (flt_mult million (float_of ticks)) hz) ios)"

definition has_cpu_time :: "bench_run \<Rightarrow> bool" where
  "has_cpu_time r \<longleftrightarrow> br_ticks r \<and> flt_less zero (br_ios r) \<and> flt_less zero (br_time r)"

text \<open>The spread of the IOPS in percent of their median.\<close>

definition bench_spread :: "float list \<Rightarrow> float" where
  "bench_spread xs =
     (if flt_less zero (bench_median xs)
      then flt_div (flt_mult (float_of 100) (flt_sub (foldl flt_max (hd xs) xs) (foldl flt_min (hd xs) xs))) (bench_median xs)
      else zero)"

definition summary_row :: "float \<Rightarrow> float \<Rightarrow> string \<Rightarrow> bench_target \<Rightarrow> string" where
  "summary_row hz ramp job t =
     (let rs = filter (\<lambda>r. br_job r = job) (bt_runs t);
          iops = map br_iops rs;
          us = (\<lambda>f. bench_median (map (\<lambda>r. flt_div (f r) thousand) rs));
          timed = filter has_cpu_time rs;
          usr = map (\<lambda>r. cpu_per_io hz ramp r (br_user r)) timed;
          sys = map (\<lambda>r. cpu_per_io hz ramp r (br_sys r)) timed
      in if rs = [] then []
         else ''  '' @ pad_name 12 (bt_name t) @ '' '' @ column 9 0 (bench_median iops) @ '' '' @
              column 6 1 (bench_spread iops) @ ''%'' @ '' '' @
              column 8 0 (bench_median (map (\<lambda>r. flt_div (br_bw r) mebi) rs)) @ '' '' @
              column 8 1 (us br_mean) @ '' '' @ column 8 1 (us br_p50) @ '' '' @ column 8 1 (us br_p99) @
              (if usr = [] then []
               else '' '' @ column 8 2 (bench_median (map2 flt_add usr sys)) @ '' '' @ column 7 2 (bench_median usr) @ '' '' @
                 column 7 2 (bench_median sys)) @ [newline])"

definition summary_head :: string where
  "summary_head = ''  '' @ pad_right 12 ''target'' @ concat (map (\<lambda>(w, s). '' '' @ pad_left w s)
     [(9, ''IOPS''), (7, ''spread''), (8, ''MiB/s''), (8, ''mean''), (8, ''p50''), (8, ''p99''), (8, ''cpu/io''), (7, ''usr''), (7, ''sys'')])"

text \<open>The medians of a target's counters, for a target whose first run has some.\<close>

definition counters_row :: "bench_target \<Rightarrow> string \<Rightarrow> string" where
  "counters_row t job =
     ''  '' @ pad_name 14 job @ concat (map (\<lambda>c. '' '' @ column 13 0 (bench_median
       (map (\<lambda>r. float_of (map_get 0 (case br_counters r of None \<Rightarrow> [] | Some m \<Rightarrow> m) c))
         (filter (\<lambda>r. br_job r = job) (bt_runs t))))) bench_counters) @ [newline]"

definition counters_part :: "string list \<Rightarrow> bench_target \<Rightarrow> string" where
  "counters_part jobs t =
     (if bt_runs t = [] \<or> br_counters (hd (bt_runs t)) = None then []
      else [newline] @ bt_name t @ '' counters summed over the queues, median over the repetitions'' @ [newline] @
        ''  '' @ pad_right 14 ''job'' @ concat (map (\<lambda>c. '' '' @ pad_left 13 c) bench_counters) @ [newline] @
        concat (map (counters_row t) jobs))"

definition bench_summary :: "bench_results \<Rightarrow> string" where
  "bench_summary r =
     (let hz = host_number (rs_host r) ''clk_tck''; hz = (if flt_zero hz then float_of 100 else hz);
          ramp = host_number (rs_host r) ''ramp''; jobs = summary_jobs r
      in concat (map (\<lambda>job. job @ [newline] @ summary_head @ [newline] @
           concat (map (summary_row hz ramp job) (rs_targets r)) @ [newline]) jobs) @
         lines_of [''Times are in microseconds. cpu/io is the device process's CPU time per'', ''I/O, split into user and system time.''] @
         concat (map (counters_part jobs) (rs_targets r)))"


subsection \<open>Running fio\<close>

text \<open>The guest's dump, which is also written to a file.\<close>

definition dump_guest :: "guest option \<Rightarrow> string \<Rightarrow> (string \<times> guest option) io" where
  "dump_guest g path =
     (case g of
        None \<Rightarrow> ret ([], None)
      | Some g \<Rightarrow> do {
          (out, g) \<leftarrow> guest_output g ''cat /proc/vduse_guest'' 10000;
          _ \<leftarrow> sys (WriteFile path out 420);
          ret (out, Some g)})"

definition fio_args :: "blk_bench \<Rightarrow> string \<Rightarrow> bench_job \<Rightarrow> string \<Rightarrow> string list" where
  "fio_args b dev j out =
     [''-c'', bb_fio_cpu b, ''fio'', ''--name='' @ bj_name j, ''--filename='' @ dev, ''--rw='' @ bj_rw j, ''--bs='' @ bj_bs j,
      ''--iodepth='' @ show_nat (bj_depth j), ''--direct=1'', ''--ioengine=io_uring'', ''--time_based'',
      ''--runtime='' @ show_int (bb_runtime b), ''--ramp_time='' @ show_int (bb_ramp b), ''--norandommap'', ''--randrepeat=0'',
      ''--output-format=json'', ''--output='' @ out]"

definition process_time :: "int \<Rightarrow> (int \<times> int) io" where
  "process_time pid = (if pid > 0 then process_ticks pid else ret (0, 0))"

definition fio_failed :: "string \<Rightarrow> string \<Rightarrow> err" where
  "fio_failed name what = Msg (''fio '' @ name @ '': '' @ what)"

text \<open>One repetition of a job. A dump that did not arrive leaves the run without counters.\<close>

definition run_fio :: "blk_bench \<Rightarrow> string \<Rightarrow> string \<Rightarrow> int \<Rightarrow> guest option \<Rightarrow> nat \<Rightarrow> bench_job \<Rightarrow> (bench_run res \<times> guest option) io" where
  "run_fio b dir dev pid g rep j = (let name = bj_name j @ ''-'' @ show_nat rep; out = path_join [dir, name @ ''.json''] in do {
     (before, g) \<leftarrow> dump_guest g (path_join [dir, name @ ''.before'']);
     t0 \<leftarrow> process_time pid;
     r \<leftarrow> run_context dir (nat ((bb_runtime b + bb_ramp b + 60) * 1000)) ''taskset'' (fio_args b dev j out);
     if \<not> run_ok r then ret (Inl (fio_failed name (trim_space (run_output r))), g)
     else do {
       data \<leftarrow> ask (ReadFile out);
       (case data of
          Inl e \<Rightarrow> ret (Inl e, g)
        | Inr data \<Rightarrow>
            (case parse_fio data of
               Inl e \<Rightarrow> ret (Inl (fio_failed name (err_text e)), g)
             | Inr br \<Rightarrow> do {
                 let br = br\<lparr>br_job := bj_name j, br_rep := int rep\<rparr>;
                 t1 \<leftarrow> process_time pid;
                 let br = (if pid > 0 then br\<lparr>br_user := wrap64 (fst t1 - fst t0), br_sys := wrap64 (snd t1 - snd t0), br_ticks := True\<rparr> else br);
                 (after, g') \<leftarrow> dump_guest g (path_join [dir, name @ ''.after'']);
                 let br = (if g \<noteq> None \<and> before \<noteq> [] \<and> after \<noteq> [] then br\<lparr>br_counters := Some (counter_delta before after)\<rparr> else br);
                 ret (Inr br, g')}))}})"

fun run_fios :: "blk_bench \<Rightarrow> string \<Rightarrow> string \<Rightarrow> int \<Rightarrow> guest option \<Rightarrow> bench_target \<Rightarrow> (nat \<times> bench_job) list \<Rightarrow> (bench_target \<times> err option) io" where
  "run_fios b dir dev pid g t [] = ret (t, None)"
| "run_fios b dir dev pid g t ((rep, j) # rest) = do {
     (r, g) \<leftarrow> run_fio b dir dev pid g rep j;
     (case r of
        Inl e \<Rightarrow> ret (t, Some e)
      | Inr br \<Rightarrow> do {
          _ \<leftarrow> println (''  '' @ pad_right 14 (bj_name j) @ '' rep '' @ show_nat rep @ '': '' @ column 9 0 (br_iops br) @ '' IOPS, '' @
                 column 8 1 (flt_div (br_bw br) mebi) @ '' MiB/s'');
          run_fios b dir dev pid g (t\<lparr>bt_runs := bt_runs t @ [br]\<rparr>) rest})}"

definition run_bench_jobs :: "blk_bench \<Rightarrow> bench_target \<Rightarrow> string \<Rightarrow> int \<Rightarrow> guest option \<Rightarrow> (bench_target \<times> err option) io" where
  "run_bench_jobs b t dev pid g = (let dir = path_join [bb_out b, bt_name t] in do {
     _ \<leftarrow> sys (RemoveAll dir);
     e \<leftarrow> do_sys (MkdirAll dir 493);
     if e \<noteq> None then ret (t, e)
     else do {
       _ \<leftarrow> sysfs_write (path_join [''/sys/block'', path_base dev, ''queue/scheduler'']) ''none'';
       run_fios b dir dev pid g t (List.product [1..<nat (bb_reps b) + 1] (bb_jobs b))}})"

text \<open>The disk that the host made, for the last look also when it is not there yet.\<close>

definition find_disk :: "string \<Rightarrow> string \<Rightarrow> (bool \<times> string) io" where
  "find_disk name dev = do {
     blocks \<leftarrow> glob_names (path_join [''/sys/bus/vdpa/devices'', name, ''virtio*/block/*'']);
     (case blocks of
        [] \<Rightarrow> ret (False, dev)
      | b # _ \<Rightarrow> do {
          there \<leftarrow> stat_ok (''/dev/'' @ b);
          ret (there, ''/dev/'' @ b)})}"

definition bench_attach :: "blk_bench \<Rightarrow> string \<Rightarrow> string res io" where
  "bench_attach b name = do {
     e \<leftarrow> attach_dev name;
     (case e of
        Some e \<Rightarrow> ret (Inl e)
      | None \<Rightarrow> do {
          r \<leftarrow> wait_loop (find_disk name) 30000 200 [];
          (case r of
             Some (True, dev) \<Rightarrow> do {
               _ \<leftarrow> run_cmd ''udevadm'' [''settle''];
               e \<leftarrow> place_irqs name (bb_irq_cpu b);
               ret (case e of Some e \<Rightarrow> Inl e | None \<Rightarrow> Inr dev)}
           | _ \<Rightarrow> ret (Inl (Msg ''the host made no block device'')))})}"


subsection \<open>Targets\<close>

definition unload_null_blk :: "unit io" where
  "unload_null_blk = do {_ \<leftarrow> run_cmd ''modprobe'' [''-r'', ''null_blk'']; ret ()}"

definition run_native :: "blk_bench \<Rightarrow> bench_target \<Rightarrow> (bench_target \<times> err option) io" where
  "run_native b t = do {
     _ \<leftarrow> unload_null_blk;
     e \<leftarrow> must_run ''modprobe'' [''null_blk'', ''nr_devices=1'', ''gb=1'', ''hw_queue_depth=256'',
       ''submit_queues='' @ show_nat (length (bb_dev_cpus b)), ''memory_backed=0''];
     if e \<noteq> None then ret (t, e)
     else do {
       made \<leftarrow> wait (stat_ok ''/dev/nullb0'') 30000 200;
       r \<leftarrow> (if \<not> made then ret (t, Some (Msg ''null_blk made no /dev/nullb0'')) else run_bench_jobs b t ''/dev/nullb0'' 0 None);
       _ \<leftarrow> unload_null_blk;
       ret r}}"

definition cpu_list :: "blk_bench \<Rightarrow> string" where
  "cpu_list b = join_with '','' (bb_dev_cpus b)"

definition qsd_argv :: "blk_bench \<Rightarrow> string list" where
  "qsd_argv b = [''taskset'', ''-c'', cpu_list b, ''qemu-storage-daemon'',
     ''--blockdev'', ''driver=null-co,node-name=null0,size=1073741824,read-zeroes=off'',
     ''--export'', ''type=vduse-blk,id=exp0,node-name=null0,name='' @ bench_qsd_name @ '',writable=on,num-queues='' @
       show_nat (length (bb_dev_cpus b)) @ '',queue-size=256'']"

definition attach_and_run :: "blk_bench \<Rightarrow> bench_target \<Rightarrow> string \<Rightarrow> (string \<Rightarrow> (bench_target \<times> err option) io) \<Rightarrow> (bench_target \<times> err option) io" where
  "attach_and_run b t name k = do {
     d \<leftarrow> bench_attach b name;
     (case d of Inl e \<Rightarrow> ret (t, Some e) | Inr dev \<Rightarrow> k dev)}"

definition stop_qsd :: "string \<Rightarrow> unit io" where
  "stop_qsd pid = do {
     _ \<leftarrow> vdpa_remove bench_qsd_name False;
     _ \<leftarrow> sys (GuestSignal pid ''TERM'');
     _ \<leftarrow> sys (GuestWait pid 0);
     cleanup_dev bench_qsd_name}"

definition run_qsd :: "blk_bench \<Rightarrow> bench_target \<Rightarrow> (bench_target \<times> err option) io" where
  "run_qsd b t = do {
     there \<leftarrow> sys (LookPath ''qemu-storage-daemon'');
     if \<not> succeeded there then do {
       _ \<leftarrow> println ''skipped: qemu-storage-daemon is not installed'';
       ret (t, None)}
     else do {
       let log = path_join [bb_out b, bt_name t @ ''.log''];
       e \<leftarrow> do_sys (OpenCreate log 438);
       if e \<noteq> None then ret (t, e)
       else do {
         p \<leftarrow> ask (StartProc (qsd_argv b));
         r \<leftarrow> (case p of
            Inl e \<Rightarrow> ret (t, Some e)
          | Inr pid \<Rightarrow> do {
              made \<leftarrow> wait (vduse_exists bench_qsd_name) 30000 200;
              r \<leftarrow> (if \<not> made then ret (t, Some (Msg ''qemu-storage-daemon made no VDUSE device''))
                   else attach_and_run b t bench_qsd_name (\<lambda>dev. run_bench_jobs b t dev (int_or_zero pid) None));
              _ \<leftarrow> stop_qsd pid;
              ret r});
         _ \<leftarrow> sys (CloseFile log);
         ret r}}}"

definition uml_argv :: "blk_bench \<Rightarrow> string list" where
  "uml_argv b = (let n = show_nat (length (bb_dev_cpus b)) in
     [path_join [bb_guest b, ''linux''], ''mem=512M'', ''ncpus='' @ n, ''cpu_pin='' @ cpu_list b,
      ''null_blk.nr_devices=1'', ''null_blk.gb=1'', ''null_blk.hw_queue_depth=256'', ''null_blk.submit_queues='' @ n,
      ''null_blk.memory_backed=0''])"

definition bench_device :: string where
  "bench_device = ''vduse_guest.device=blk,'' @ bench_name @ '',disk=/dev/nullb0''"

definition more_options :: "bench_target \<Rightarrow> string" where
  "more_options t = (if bt_options t \<noteq> [] then '','' @ bt_options t else [])"

definition bench_initrd :: "blk_bench \<Rightarrow> string" where
  "bench_initrd b = path_join [bb_guest b, ''initramfs/initramfs.cpio'']"

definition bench_sandbox_argv :: "string \<Rightarrow> string \<Rightarrow> blk_bench \<Rightarrow> bench_target \<Rightarrow> string list" where
  "bench_sandbox_argv repo logs b t =
     [path_join [repo, ''build/invirtio-launch''], ''-u'', ''nobody'', ''-t'', ''20'', ''-l'', ''1024'', ''-i'', bench_initrd b,
      ''-e'', ''blk,'' @ bench_name @ '',log='' @ path_join [logs, ''inflight'']] @ uml_argv b @ [bench_device @ more_options t]"

text \<open>The pid whose CPU time counts: the guest's own, or its UML process under the launcher.\<close>

definition device_pid :: "bench_target \<Rightarrow> guest \<Rightarrow> int res io" where
  "device_pid t g =
     (if bt_kind t = ''sandbox'' then do {
        pid \<leftarrow> uml_pid (int_or_zero (g_pid g));
        ret (if pid = 0 then Inl (Msg ''cannot find the guest's UML process'') else Inr pid)}
      else ret (Inr (int_or_zero (g_pid g))))"

definition stop_bench_guest :: "guest \<Rightarrow> unit io" where
  "stop_bench_guest g = do {
     _ \<leftarrow> vdpa_remove bench_name False;
     _ \<leftarrow> end_guest_of g;
     cleanup_dev bench_name}"

definition measure_guest :: "blk_bench \<Rightarrow> bench_target \<Rightarrow> guest \<Rightarrow> (bench_target \<times> err option) io" where
  "measure_guest b t g = do {
     up \<leftarrow> wait_text g (bench_name @ '': created'') 60000;
     if \<not> up then ret (t, Some (Msg (''the guest did not create its device, see '' @ g_path g)))
     else attach_and_run b t bench_name (\<lambda>dev. do {
       pid \<leftarrow> device_pid t g;
       (case pid of Inl e \<Rightarrow> ret (t, Some e) | Inr pid \<Rightarrow> run_bench_jobs b t dev pid (Some g))})}"

definition run_with_guest :: "blk_bench \<Rightarrow> bench_target \<Rightarrow> string list \<Rightarrow> (bench_target \<times> err option) io" where
  "run_with_guest b t argv = do {
     r \<leftarrow> start_guest_proc (path_join [bb_out b, bt_name t @ ''.guest.log'']) argv;
     (case r of
        Inl e \<Rightarrow> ret (t, Some e)
      | Inr g \<Rightarrow> do {
          r \<leftarrow> measure_guest b t g;
          _ \<leftarrow> stop_bench_guest g;
          ret r})}"

definition run_guest_target :: "blk_bench \<Rightarrow> bench_target \<Rightarrow> (bench_target \<times> err option) io" where
  "run_guest_target b t =
     (if bt_kind t = ''uml'' then do {
        let log = path_join [bb_out b, bt_name t @ ''.inflight''];
        r \<leftarrow> run_with_guest b t (uml_argv b @ [''umid='' @ bench_name, ''seccomp=on'', ''initrd='' @ bench_initrd b,
          bench_device @ '',log='' @ log @ more_options t]);
        _ \<leftarrow> sys (Remove log);
        ret r}
      else do {
        logs \<leftarrow> make_log_dir bench_name;
        (case logs of
           Inl e \<Rightarrow> ret (t, Some e)
         | Inr logs \<Rightarrow> do {
             repo \<leftarrow> repo_root;
             r \<leftarrow> run_with_guest b t (bench_sandbox_argv repo logs b t);
             _ \<leftarrow> sys (RemoveAll logs);
             ret r})})"

text \<open>A target is a kind, a name that is its kind if it has none, and options.\<close>

definition split3 :: "string \<Rightarrow> string list" where
  "split3 s = (let ps = split_on (CHR '':'') s in if length ps \<le> 3 then ps else take 2 ps @ [join_with '':'' (drop 2 ps)])"

definition parse_target :: "string \<Rightarrow> bench_target" where
  "parse_target spec =
     (let ps = split3 spec
      in \<lparr>bt_name = (if length ps > 1 \<and> ps ! 1 \<noteq> [] then ps ! 1 else hd ps), bt_kind = hd ps,
          bt_options = (if length ps > 2 then ps ! 2 else []), bt_runs = []\<rparr>)"

definition check_target :: "bench_target list \<Rightarrow> bench_target \<Rightarrow> err option" where
  "check_target others t =
     (if CHR ''/'' \<in> set (bt_name t) \<or> CHR '' '' \<in> set (bt_name t)
        then Some (Msg (''the name '' @ go_quote (bt_name t) @ '' has a slash or a space''))
      else if bt_name t \<in> set (map bt_name others) then Some (Msg (''two targets are named '' @ bt_name t))
      else None)"

definition run_target :: "blk_bench \<Rightarrow> bench_target list \<Rightarrow> string \<Rightarrow> (bench_target \<times> err option) io" where
  "run_target b others spec = (let t = parse_target spec in
     if check_target others t \<noteq> None then ret (t, check_target others t)
     else do {
       _ \<leftarrow> println (''== '' @ bt_name t);
       if bt_kind t = ''native'' then run_native b t
       else if bt_kind t = ''qsd'' then run_qsd b t
       else if bt_kind t = ''uml'' \<or> bt_kind t = ''sandbox'' then run_guest_target b t
       else ret (t, Some (Msg (''unknown target kind '' @ go_quote (bt_kind t))))})"

text \<open>The targets one after the other, of which the results are saved after each.\<close>

fun run_targets :: "blk_bench \<Rightarrow> bench_results \<Rightarrow> string list \<Rightarrow> (bench_results \<times> err option) io" where
  "run_targets b r [] = ret (r, None)"
| "run_targets b r (spec # specs) = do {
     ended \<leftarrow> ctx_ended;
     if ended then ret (r, Some (Msg ''stopped by a signal''))
     else do {
       (t, e) \<leftarrow> run_target b (rs_targets r) spec;
       (case e of
          Some e \<Rightarrow> ret (r, Some (Msg (spec @ '': '' @ err_text e)))
        | None \<Rightarrow> do {
            let r = r\<lparr>rs_targets := rs_targets r @ [t]\<rparr>;
            e \<leftarrow> bench_save b r;
            if e \<noteq> None then ret (r, e) else run_targets b r specs})}}"

definition bench_cleanup :: "unit io" where
  "bench_cleanup = do {
     _ \<leftarrow> cleanup_dev bench_name;
     _ \<leftarrow> cleanup_dev bench_qsd_name;
     unload_null_blk}"

text \<open>A summary is printed and written beside the results.\<close>

definition print_summary :: "string \<Rightarrow> string \<Rightarrow> err option io" where
  "print_summary dir s = do {
     _ \<leftarrow> print s;
     do_sys (WriteFile (path_join [dir, ''summary.txt'']) s 420)}"

definition measure_targets :: "blk_bench \<Rightarrow> string go_map \<Rightarrow> string list \<Rightarrow> err option io" where
  "measure_targets b host specs = do {
     (r, e) \<leftarrow> run_targets b \<lparr>rs_host = host, rs_targets = []\<rparr> specs;
     e \<leftarrow> (if e \<noteq> None then ret e else print_summary (bb_out b) (bench_summary r));
     _ \<leftarrow> bench_cleanup;
     ret e}"


subsection \<open>The commands\<close>

text \<open>What the results say of the host and of the source of the guest's kernel.\<close>

definition run_trimmed :: "string \<Rightarrow> string list \<Rightarrow> string io" where
  "run_trimmed c args = do {r \<leftarrow> run_cmd c args; ret (trim_space (r_stdout r))}"

definition linux_uml :: "string io" where
  "linux_uml = do {
     repo \<leftarrow> repo_root;
     let uml = path_join [repo, ''linux-uml/linux''];
     s \<leftarrow> run_trimmed ''git'' [''-C'', uml, ''log'', ''-1'', ''--format=%h %s''];
     d \<leftarrow> run_cmd ''git'' [''-C'', uml, ''diff'', ''--quiet'', ''HEAD''];
     ret (if run_ok d then s else s @ '' (with uncommitted changes)'')}"

definition config_options :: "string \<Rightarrow> string" where
  "config_options data = join_with '' '' (concat (map (\<lambda>l. concat (map (\<lambda>o'. if has_prefix l o' then [l] else [])
     [''CONFIG_SMP='', ''CONFIG_NR_CPUS='', ''CONFIG_PROVE_LOCKING='', ''CONFIG_LOCKDEP=''])) (split_on newline data)))"

definition bench_host_info :: "blk_bench \<Rightarrow> string go_map io" where
  "bench_host_info b = do {
     uname \<leftarrow> run_trimmed ''uname'' [''-a''];
     governor \<leftarrow> read_text (''/sys/devices/system/cpu/cpu'' @ hd (bb_dev_cpus b) @ ''/cpufreq/scaling_governor'');
     boost \<leftarrow> read_text ''/sys/devices/system/cpu/cpufreq/boost'';
     tck \<leftarrow> run_trimmed ''getconf'' [''CLK_TCK''];
     fio \<leftarrow> run_trimmed ''fio'' [''--version''];
     uml \<leftarrow> linux_uml;
     config \<leftarrow> ask (ReadFile (path_join [bb_guest b, ''.config'']));
     ret (map_from ([(''uname'', uname), (''governor'', governor), (''boost'', boost), (''clk_tck'', tck), (''fio_cpu'', bb_fio_cpu b),
       (''dev_cpus'', cpu_list b), (''irq_cpu'', show_int (bb_irq_cpu b)), (''reps'', show_int (bb_reps b)),
       (''runtime'', show_int (bb_runtime b)), (''ramp'', show_int (bb_ramp b)), (''fio'', fio), (''linux-uml'', uml)] @
       (case config of Inl _ \<Rightarrow> [] | Inr data \<Rightarrow> [(''guest_config'', config_options data)])))}"

text \<open>A device of an earlier run is not touched.\<close>

fun none_left :: "string list \<Rightarrow> err option io" where
  "none_left [] = ret None"
| "none_left (n # ns) = do {
     there \<leftarrow> vduse_exists n;
     if there then ret (Some (Msg (''/dev/vduse/'' @ n @ '' exists, perhaps from an earlier run, so remove it first'')))
     else none_left ns}"

definition bench_log :: "string \<Rightarrow> err option io" where
  "bench_log dir = and_then (do_sys (MkdirAll dir 493)) (tee_output (path_join [dir, ''bench.log'']))"

definition blk_bench_host :: "blk_bench \<Rightarrow> err option io" where
  "blk_bench_host b = and_then (bench_log (bb_out b)) (and_then (modprobe [''vduse'', ''vdpa'', ''virtio_vdpa'', ''virtio_blk''])
     (do {_ \<leftarrow> sys UnlimitMemlock; none_left [bench_name, bench_qsd_name]}))"

definition run_blk_bench :: "blk_bench \<Rightarrow> string list \<Rightarrow> err option io" where
  "run_blk_bench b specs = and_then (blk_bench_host b) (do {
     host \<leftarrow> bench_host_info b;
     measure_targets b host specs})"

definition bench_job_list :: "string list" where
  "bench_job_list = map (\<lambda>j. ''  '' @ pad_right 14 (bj_name j) @ '' '' @ bj_rw j @ '' of '' @ bj_bs j @ '' blocks at depth '' @
     show_nat (bj_depth j)) bench_jobs"

definition bench_usage :: string where
  "bench_usage = lines_of ([''usage: invirtio-test bench-blk [options] <target>...'', [],
     ''Benchmark VirtIO block devices with fio against the host's null_blk. Each'',
     ''target is one of:'',
     ''  native                         null_blk on the host'',
     ''  qsd                            qemu-storage-daemon exporting a null-co node'',
     ''                                 with its vduse-blk export'',
     ''  uml[:<name>[:<options>]]       a UML guest run as root, exporting its own'',
     ''                                 null_blk through VDUSE. <options> are added'',
     ''                                 to the device's, such as bounce=guest'',
     ''  sandbox[:<name>[:<options>]]   the same guest under the launcher's sandbox'', [],
     ''Every target serves a 1 GiB disk with 512-byte blocks and the none'',
     ''scheduler, with one queue per guest CPU (one by default) of 256 entries.'',
     ''fio runs on -fio-cpu, the guest's CPUs on -dev-cpus, and VDUSE injects each'',
     ''queue's interrupts from a kworker on -irq-cpu, or, with -1, from where'',
     ''VDUSE's default puts it. Each job runs -reps times for -runtime seconds after'',
     ''a -ramp of one second. The guest is built with'',
     ''scripts/invirtio-build-guest.sh -t blk-bench.'', [],
     ''The output directory gets fio's JSON for each run, the guest's'',
     ''/proc/vduse_guest before and after it, results.json and the summary, which'',
     ''bench-blk-summary prints again. cpu/io is the device process's CPU time per'',
     ''I/O: the UML process, the VMM's for qsd. Run as root on the linux-host'',
     ''kernel, with fio.'', [], ''Jobs:''] @ bench_job_list)"

definition bench_flags :: flag_set where
  "bench_flags = [(''guest'', StringFlag), (''out'', StringFlag), (''fio-cpu'', StringFlag), (''dev-cpus'', StringFlag),
     (''irq-cpu'', IntFlag), (''reps'', IntFlag), (''runtime'', IntFlag), (''ramp'', IntFlag), (''jobs'', StringFlag)]"

definition bench_defaults :: "string \<Rightarrow> flag_values" where
  "bench_defaults repo = Map.empty(''guest'' \<mapsto> path_join [repo, ''linux-uml/build-blk-bench''],
     ''out'' \<mapsto> path_join [repo, ''build/bench-blk''], ''fio-cpu'' \<mapsto> ''2'', ''dev-cpus'' \<mapsto> ''4'', ''irq-cpu'' \<mapsto> ''3'',
     ''reps'' \<mapsto> ''3'', ''runtime'' \<mapsto> ''5'', ''ramp'' \<mapsto> ''1'')"

definition new_blk_bench :: "flag_values \<Rightarrow> string \<Rightarrow> blk_bench" where
  "new_blk_bench v dir = \<lparr>bb_out = dir, bb_guest = flag_string v ''guest'', bb_fio_cpu = flag_string v ''fio-cpu'',
     bb_dev_cpus = split_on (CHR '','') (flag_string v ''dev-cpus''), bb_irq_cpu = flag_int v ''irq-cpu'',
     bb_reps = flag_int v ''reps'', bb_runtime = flag_int v ''runtime'', bb_ramp = flag_int v ''ramp'',
     bb_jobs = filter (\<lambda>j. str_contains (bj_name j) (flag_string v ''jobs'')) bench_jobs\<rparr>"

definition cmd_bench_blk :: "string list \<Rightarrow> outcome io" where
  "cmd_bench_blk args = do {
     repo \<leftarrow> repo_root;
     (case parse_flags bench_flags (bench_defaults repo) args of
        Inl n \<Rightarrow> usage_exit bench_usage n
      | Inr (v, specs) \<Rightarrow>
          if specs = [] then usage_exit bench_usage 2
          else as_test_root (do {
            p \<leftarrow> abs_path (flag_string v ''out'');
            (case p of
               Inl e \<Rightarrow> ret (Returned (Some e))
             | Inr dir \<Rightarrow> do {
                 e \<leftarrow> run_blk_bench (new_blk_bench v dir) specs;
                 ret (Returned e)})}))}"

text \<open>The summary of the results in a directory.\<close>

definition summary_command :: "string \<Rightarrow> (string \<Rightarrow> string option) \<Rightarrow> string list \<Rightarrow> outcome io" where
  "summary_command text summary args = with_flags [] text args (\<lambda>v rest.
     if length rest \<noteq> 1 then usage_exit text 2
     else do {
       data \<leftarrow> ask (ReadFile (path_join [hd rest, ''results.json'']));
       (case data of
          Inl e \<Rightarrow> ret (Returned (Some e))
        | Inr data \<Rightarrow>
            (case summary data of
               None \<Rightarrow> ret (Returned (Some decode_error))
             | Some s \<Rightarrow> do {
                 _ \<leftarrow> print s;
                 ret (Returned None)}))})"

definition cmd_bench_blk_summary :: "string list \<Rightarrow> outcome io" where
  "cmd_bench_blk_summary = summary_command
     (lines_of [''usage: invirtio-test bench-blk-summary <output dir>'', [], ''Print the summary of a bench-blk run from its results.json.''])
     (\<lambda>data. map_option bench_summary (read_bench_results data))"


subsection \<open>What was written is read\<close>

text \<open>The results that a benchmark has: texts that are UTF-8, integers that fit, and finite figures.\<close>

definition bench_run_ok :: "bench_run \<Rightarrow> bool" where
  "bench_run_ok r \<longleftrightarrow> text_ok (br_job r) \<and> in_int64 (br_rep r) \<and>
     list_all double [br_iops r, br_bw r, br_mean r, br_p50 r, br_p99 r, br_p999 r, br_ios r, br_time r] \<and>
     in_int64 (br_user r) \<and> in_int64 (br_sys r) \<and>
     (case br_counters r of None \<Rightarrow> True | Some m \<Rightarrow> m \<noteq> [] \<and> map_ok in_int64 m)"

definition bench_target_ok :: "bench_target \<Rightarrow> bool" where
  "bench_target_ok t \<longleftrightarrow> text_ok (bt_name t) \<and> text_ok (bt_kind t) \<and> text_ok (bt_options t) \<and> list_all bench_run_ok (bt_runs t)"

definition bench_results_ok :: "bench_results \<Rightarrow> bool" where
  "bench_results_ok r \<longleftrightarrow> map_ok text_ok (rs_host r) \<and> list_all bench_target_ok (rs_targets r)"

lemma set_map_counters: "map_ok in_int64 m \<Longrightarrow> set_opt_map set_int64 0 None (map_json int_json m) = Some (Some m)"
  by (simp add: set_opt_map_def int_codec.entries_all)

lemma run_decodes: "bench_run_ok r \<Longrightarrow> set_bench_run no_run (bench_run_json r) = Some r"
  by (cases r; cases "br_counters r")
    (simp_all add: set_bench_run_def bench_run_json_def set_fields_unless bench_run_ok_def no_run_def set_member_def
      to_lower_def lower_char_def set_map_counters)

lemmas decode_simps = set_fields_unless set_member_def to_lower_def lower_char_def

lemma run_encodes: "bench_run_ok r \<Longrightarrow> json_ok (bench_run_json r)"
  by (cases r; cases "br_counters r")
    (auto simp: bench_run_json_def bench_run_ok_def int_codec.entries_ok intro!: ascii_text_ok)

interpretation run_codec: codec no_run set_bench_run bench_run_json bench_run_ok
  by unfold_locales (simp_all add: run_decodes run_encodes)

interpretation target_codec: codec no_target set_bench_target bench_target_json bench_target_ok
proof unfold_locales
  fix t assume t: "bench_target_ok t"
  then show "set_bench_target no_target (bench_target_json t) = Some t"
    by (cases t) (simp add: set_bench_target_def bench_target_json_def no_target_def bench_target_ok_def run_codec.slice decode_simps)
  from t show "json_ok (bench_target_json t)"
    by (auto simp: bench_target_json_def bench_target_ok_def run_codec.slice_ok intro!: ascii_text_ok)
qed

definition no_results :: bench_results where
  "no_results = \<lparr>rs_host = [], rs_targets = []\<rparr>"

interpretation results_codec: codec no_results set_bench_results bench_results_json bench_results_ok
proof unfold_locales
  fix r assume r: "bench_results_ok r"
  then show "set_bench_results no_results (bench_results_json r) = Some r"
    by (cases r) (simp add: set_bench_results_def bench_results_json_def no_results_def bench_results_ok_def
      target_codec.slice string_codec.entries_all decode_simps)
  from r show "json_ok (bench_results_json r)"
    by (auto simp: bench_results_json_def bench_results_ok_def target_codec.slice_ok string_codec.entries_ok intro!: ascii_text_ok)
qed

text \<open>The results of the block benchmark are read back as they were written.\<close>

lemma bench_results_read:
  assumes "bench_results_ok r"
  shows "read_bench_results (json_file (bench_results_json r)) = Some r"
  using results_codec.from_file [OF assms] by (simp add: read_bench_results_def no_results_def)

definition sample_bench_results :: bench_results where
  "sample_bench_results = \<lparr>rs_host = [(''clk_tck'', ''100''), (''ramp'', ''1'')],
     rs_targets = [\<lparr>bt_name = ''uml'', bt_kind = ''uml'', bt_options = ''bounce=guest'',
       bt_runs = [no_run\<lparr>br_job := ''lat-qd1'', br_rep := 1, br_iops := Flt 6871947673600000 (- 38), br_user := 3, br_ticks := True,
         br_counters := Some [(''kicks'', 7)]\<rparr>]\<rparr>]\<rparr>"

lemma sample_bench_ok: "bench_results_ok sample_bench_results"
proof -
  have "double (Flt 6871947673600000 (- 38))" by (rule double_normal) simp_all
  then show ?thesis
    by (simp add: sample_bench_results_def bench_results_ok_def bench_target_ok_def bench_run_ok_def no_run_def map_ok_def
      ascii_text_ok in_int64_def max_int64_def)
qed


subsection \<open>fio's report\<close>

text \<open>A job of fio's report: the figures of both directions, beside members that are not taken.\<close>

definition fio_side_json :: "fio_side \<Rightarrow> json" where
  "fio_side_json s = JObj [(''io_bytes'', float_json (fs_bytes s)), (''bw_bytes'', float_json (fs_bw s)), (''iops'', float_json (fs_iops s)),
     (''runtime'', int_json 5000), (''total_ios'', float_json (fs_ios s)),
     (''lat_ns'', JObj [(''min'', int_json 0), (''mean'', float_json (fs_mean s))]),
     (''clat_ns'', JObj [(''percentile'', map_json float_json (fs_percentile s))])]"

definition fio_job_json :: "fio_job \<Rightarrow> json" where
  "fio_job_json j = JObj [(''jobname'', JStr ''job''), (''error'', int_json 0), (''read'', fio_side_json (fj_read j)),
     (''write'', fio_side_json (fj_write j)), (''job_runtime'', float_json (fj_runtime j))]"

definition fio_report :: "fio_job list \<Rightarrow> json" where
  "fio_report js = JObj [(''timestamp'', int_json 0), (''jobs'', slice_json fio_job_json js)]"

definition side_ok :: "fio_side \<Rightarrow> bool" where
  "side_ok s \<longleftrightarrow> list_all double [fs_bytes s, fs_iops s, fs_bw s, fs_ios s, fs_mean s] \<and> map_ok double (fs_percentile s)"

definition fio_job_ok :: "fio_job \<Rightarrow> bool" where
  "fio_job_ok j \<longleftrightarrow> side_ok (fj_read j) \<and> side_ok (fj_write j) \<and> double (fj_runtime j)"

interpretation side_codec: codec no_side set_side fio_side_json side_ok
proof unfold_locales
  fix s assume s: "side_ok s"
  then show "set_side no_side (fio_side_json s) = Some s"
    by (cases s) (simp add: set_side_def set_lat_def set_clat_def fio_side_json_def no_side_def side_ok_def float_codec.entries_all decode_simps)
  from s show "json_ok (fio_side_json s)"
    by (auto simp: fio_side_json_def side_ok_def float_codec.entries_ok intro!: ascii_text_ok)
qed

interpretation fio_codec: codec no_fio_job set_fio_job fio_job_json fio_job_ok
proof unfold_locales
  fix j assume j: "fio_job_ok j"
  then show "set_fio_job no_fio_job (fio_job_json j) = Some j"
    by (cases j) (simp add: set_fio_job_def fio_job_json_def no_fio_job_def fio_job_ok_def side_codec.decodes decode_simps)
  from j show "json_ok (fio_job_json j)"
    by (auto simp: fio_job_json_def fio_job_ok_def side_codec.encodes intro!: ascii_text_ok)
qed

lemma fio_report_read:
  assumes "list_all fio_job_ok js"
  shows "unmarshal_fio (json_file (fio_report js)) = Some js"
proof -
  have "json_ok (fio_report js)"
    by (auto simp: fio_report_def fio_codec.slice_ok [OF assms] intro!: ascii_text_ok)
  then have "read_json (json_file (fio_report js)) = Some (fio_report js)"
    unfolding json_file_def by (rule read_show_json) simp
  then show ?thesis
    by (simp add: unmarshal_fio_def unmarshal_with_def fio_report_def fio_codec.slice [OF assms] decode_simps)
qed

definition active_side :: "fio_job \<Rightarrow> fio_side" where
  "active_side j = (if flt_zero (fs_bytes (fj_read j)) then fj_write j else fj_read j)"

text \<open>
  C32 The figures of a run are those of the direction that did I/O in the first job of fio's report, its mean
  latency and the percentiles that it reports among them, and of the job's run time.
\<close>

theorem parse_fio_figures:
  assumes "list_all fio_job_ok (j # js)"
  shows "\<exists>r. parse_fio (json_file (fio_report (j # js))) = Inr r \<and>
    br_iops r = fs_iops (active_side j) \<and> br_bw r = fs_bw (active_side j) \<and> br_mean r = fs_mean (active_side j) \<and>
    br_ios r = fs_ios (active_side j) \<and> br_time r = fj_runtime j \<and>
    br_p50 r = map_get zero (fs_percentile (active_side j)) ''50.000000'' \<and>
    br_p99 r = map_get zero (fs_percentile (active_side j)) ''99.000000'' \<and>
    br_p999 r = map_get zero (fs_percentile (active_side j)) ''99.900000''"
  unfolding parse_fio_def fio_report_read [OF assms] active_side_def
  by (simp add: Let_def no_run_def)

definition sample_side :: fio_side where
  "sample_side = no_side\<lparr>fs_bytes := Flt 6871947673600000 (- 38), fs_iops := Flt 6871947673600000 (- 38),
     fs_percentile := [(''50.000000'', zero), (''99.000000'', Flt 6871947673600000 (- 38))]\<rparr>"

theorem parse_fio_figures_witness:
  "\<exists>r. parse_fio (json_file (fio_report [\<lparr>fj_read = no_side, fj_write = sample_side, fj_runtime = zero\<rparr>])) = Inr r \<and>
    br_iops r = Flt 6871947673600000 (- 38) \<and> br_p99 r = Flt 6871947673600000 (- 38)"
proof -
  have "double (Flt 6871947673600000 (- 38))" by (rule double_normal) simp_all
  then have ok: "list_all fio_job_ok [\<lparr>fj_read = no_side, fj_write = sample_side, fj_runtime = zero\<rparr>]"
    by (simp add: fio_job_ok_def side_ok_def no_side_def sample_side_def map_ok_def ascii_text_ok)
  have "active_side \<lparr>fj_read = no_side, fj_write = sample_side, fj_runtime = zero\<rparr> = sample_side"
    by (simp add: active_side_def no_side_def flt_zero_def zero_def)
  with parse_fio_figures [OF ok] show ?thesis by (force simp: sample_side_def map_get_def)
qed

end
