(* ===== verification/NetBench.thy ===== *)
theory NetBench
  imports BlkBench NetTests WlanTests
begin

text \<open>
  cmd/invirtio-test/netbench.go: iperf3, netperf and ping between the two ports of an X710, with one of them
  on the host's i40e or behind a guest, and the summary of the results. The iperf3 run that loads the link
  during a ping is one call where the ping waits for its end. The rate of the clock's ticks, which the
  program asks for when it starts, is an argument. A ping figure beyond float64 is the error that the results
  cannot be encoded with, where the code meets it when it saves them.
\<close>

definition net_bench_name :: string where "net_bench_name = ''vnet-bench''"
definition net_native_ns :: string where "net_native_ns = ''vnet-native''"
definition bench_host_addr :: string where "bench_host_addr = ''10.71.0.1''"
definition bench_peer_addr :: string where "bench_peer_addr = ''10.71.0.2''"

text \<open>A job, what it runs, and the metrics that the summary shows.\<close>

datatype net_load = TcpLoad bool nat | UdpLoad bool | RoundTrips string | PingLoad bool

record net_job =
  nj_name :: string
  nj_about :: string
  nj_metrics :: "string list"
  nj_run :: net_load

definition net_jobs :: "net_job list" where
  "net_jobs = map (\<lambda>(n, a, ms, l). \<lparr>nj_name = n, nj_about = a, nj_metrics = ms, nj_run = l\<rparr>)
    [(''tcp-tx-1'', ''TCP to the far end, one stream'', [''gbps'', ''retransmits''], TcpLoad False 1),
     (''tcp-tx-4'', ''TCP to the far end, four streams'', [''gbps'', ''retransmits''], TcpLoad False 4),
     (''tcp-rx-1'', ''TCP from the far end, one stream'', [''gbps'', ''retransmits''], TcpLoad True 1),
     (''tcp-rx-4'', ''TCP from the far end, four streams'', [''gbps'', ''retransmits''], TcpLoad True 4),
     (''udp64-tx'', ''64-byte UDP datagrams to the far end at an unlimited rate'', [''sent_kpps'', ''received_kpps'', ''loss_pct''], UdpLoad False),
     (''udp64-rx'', ''64-byte UDP datagrams from the far end at an unlimited rate'', [''sent_kpps'', ''received_kpps'', ''loss_pct''], UdpLoad True),
     (''tcp-rr'', ''netperf TCP_RR with 1-byte messages'', [''tps'', ''mean_us'', ''p99_us''], RoundTrips ''TCP_RR''),
     (''udp-rr'', ''netperf UDP_RR with 1-byte messages'', [''tps'', ''mean_us'', ''p99_us''], RoundTrips ''UDP_RR''),
     (''ping-idle'', ''ping round trips on an idle link'', [''avg_us'', ''max_us'', ''mdev_us''], PingLoad False),
     (''ping-load'', ''ping round trips during a TCP stream'', [''avg_us'', ''max_us'', ''mdev_us''], PingLoad True)]"

record net_run =
  nr_job :: string
  nr_rep :: int
  nr_metrics :: "float go_map"
  nr_host :: float
  nr_uml :: float
  nr_guest :: float
  nr_has_guest :: bool

record net_target =
  nt_name :: string
  nt_runs :: "net_run list"
  nt_counters :: "int go_map"
  nt_memory :: "guest_mem option"

record net_results =
  nx_host :: "string go_map"
  nx_targets :: "net_target list"

record net_bench =
  nb_out :: string
  nb_mem :: string
  nb_build :: string
  nb_reps :: int
  nb_seconds :: int
  nb_jobs :: "net_job list"

text \<open>The guest whose CPU use and memory are measured, with its UML process and its cgroup's figures.\<close>

record watched =
  wd_guest :: guest
  wd_uml :: int
  wd_mem :: guest_mem


subsection \<open>CPU use\<close>

record cpu_meter =
  cm_busy :: int
  cm_total :: int
  cm_uml :: int
  cm_ticks :: "int \<times> int"
  cm_start :: int

definition start_meter :: "int \<Rightarrow> cpu_meter io" where
  "start_meter uml = do {
     t \<leftarrow> now;
     (busy, total) \<leftarrow> host_cpu;
     ticks \<leftarrow> (if uml > 0 then process_ticks uml else ret (0, 0));
     ret \<lparr>cm_busy = busy, cm_total = total, cm_uml = uml, cm_ticks = ticks, cm_start = t\<rparr>}"

definition stop_meter :: "float \<Rightarrow> cpu_meter \<Rightarrow> (float \<times> float) io" where
  "stop_meter hz m = do {
     (busy, total) \<leftarrow> host_cpu;
     host \<leftarrow> (if total > cm_total m then do {
         n \<leftarrow> online_cpus;
         ret (flt_mult (flt_div (float_of (wrap64 (busy - cm_busy m))) (float_of (wrap64 (total - cm_total m)))) (float_of (int n)))}
       else ret zero);
     if cm_uml m > 0 then do {
       t \<leftarrow> process_ticks (cm_uml m);
       n \<leftarrow> now;
       ret (host, flt_div (flt_div (float_of (wrap64 (fst t + snd t - fst (cm_ticks m) - snd (cm_ticks m)))) hz)
         (seconds (n - cm_start m)))}
     else ret (host, zero)}"

definition clock_ticks :: "float io" where
  "clock_ticks = do {
     s \<leftarrow> run_trimmed ''getconf'' [''CLK_TCK''];
     ret (case parse_float s of Number x \<Rightarrow> if flt_zero x then float_of 100 else x | _ \<Rightarrow> float_of 100)}"

definition guest_cpu :: "guest \<Rightarrow> ((int \<times> int) \<times> guest) io" where
  "guest_cpu g = do {
     (out, g) \<leftarrow> guest_output g ''head -1 /proc/stat'' 10000;
     ret (parse_cpu_line (trim_space out), g)}"

definition sample_memory :: "watched \<Rightarrow> watched io" where
  "sample_memory w = do {
     (out, g) \<leftarrow> guest_output (wd_guest w) ''cat /proc/meminfo'' 10000;
     ret (w\<lparr>wd_guest := g, wd_mem := sample_guest out (wd_mem w)\<rparr>)}"

subsection \<open>Jobs\<close>

definition net_run_in :: "net_bench \<Rightarrow> string \<Rightarrow> int \<Rightarrow> string list \<Rightarrow> cmd_result io" where
  "net_run_in b ns secs argv = (let argv = in_ns ns argv in run_context (nb_out b) (nat (secs * 1000)) (hd argv) (tl argv))"

definition bench_iperf :: "net_bench \<Rightarrow> string \<Rightarrow> string list \<Rightarrow> (iperf \<times> err option) io" where
  "bench_iperf b ns args = do {
     r \<leftarrow> net_run_in b ns (nb_seconds b + 60) ([''iperf3'', ''-c'', bench_peer_addr, ''-J'', ''-t'', show_int (nb_seconds b)] @ args);
     ret (parse_iperf (r_stdout r))}"

definition tcp_metrics :: "iperf \<Rightarrow> float go_map" where
  "tcp_metrics r = map_from [(''gbps'', flt_div (received_bps r) (float_of 1000000000)), (''retransmits'', float_of (retransmits r))]"

definition net_bench_tcp :: "bool \<Rightarrow> nat \<Rightarrow> net_bench \<Rightarrow> string \<Rightarrow> float go_map res io" where
  "net_bench_tcp back streams b ns = do {
     (r, e) \<leftarrow> bench_iperf b ns ([''-P'', show_nat streams] @ (if back then [''-R''] else []));
     ret (case e of Some e \<Rightarrow> Inl e | None \<Rightarrow> Inr (tcp_metrics r))}"

definition udp_metrics :: "iperf \<Rightarrow> float go_map res" where
  "udp_metrics r =
     (if \<not> flt_less zero (ip_seconds r) \<or> ip_packets r \<le> 0 then Inl (Msg ''iperf3 reported no datagrams'')
      else (let kpps = (\<lambda>n. flt_div (flt_div (float_of n) (ip_seconds r)) thousand)
            in Inr (map_from [(''sent_kpps'', kpps (ip_packets r)),
                 (''received_kpps'', kpps (wrap64 (ip_packets r - lost_packets r))),
                 (''loss_pct'', flt_div (flt_mult (float_of 100) (float_of (lost_packets r))) (float_of (ip_packets r)))])))"

definition net_bench_udp :: "bool \<Rightarrow> net_bench \<Rightarrow> string \<Rightarrow> float go_map res io" where
  "net_bench_udp back b ns = do {
     (r, e) \<leftarrow> bench_iperf b ns ([''-u'', ''-b'', ''0'', ''-l'', ''64''] @ (if back then [''-R''] else []));
     ret (case e of Some e \<Rightarrow> Inl e | None \<Rightarrow> udp_metrics r)}"

text \<open>The last line of netperf's output.\<close>

definition netperf_failed :: "string \<Rightarrow> err" where
  "netperf_failed text = Msg (''netperf printed '' @ go_quote (trim_space text))"

definition parse_netperf :: "string \<Rightarrow> string \<Rightarrow> float go_map res" where
  "parse_netperf out text =
     (case map (\<lambda>s. parse_float (trim_space s)) (split_on (CHR '','') (last (split_on newline (trim_space out)))) of
        [Number tps, Number mean, Number p99] \<Rightarrow> Inr (map_from [(''tps'', tps), (''mean_us'', mean), (''p99_us'', p99)])
      | _ \<Rightarrow> Inl (netperf_failed text))"

definition net_bench_rr :: "string \<Rightarrow> net_bench \<Rightarrow> string \<Rightarrow> float go_map res io" where
  "net_bench_rr test b ns = do {
     r \<leftarrow> net_run_in b ns (nb_seconds b + 60) [''netperf'', ''-H'', bench_peer_addr, ''-t'', test,
       ''-l'', show_int (nb_seconds b), ''-P'', ''0'', ''--'', ''-r'', ''1,1'', ''-o'', ''THROUGHPUT,MEAN_LATENCY,P99_LATENCY''];
     ret (parse_netperf (r_stdout r) (run_output r))}"

definition beyond_json :: err where
  "beyond_json = Msg ''json: unsupported value: +Inf''"

definition ping_metrics :: "string \<Rightarrow> float go_map res" where
  "ping_metrics out = (case parse_ping out of (p, ok) \<Rightarrow>
     if \<not> ok \<or> p_received p = 0 then Inl (Msg (''ping printed '' @ go_quote (trim_space out)))
     else (case (p_avg p, p_max p, p_mdev p) of
         (Some avg, Some most, Some mdev) \<Rightarrow>
           Inr (map_from [(''avg_us'', flt_mult avg thousand), (''max_us'', flt_mult most thousand), (''mdev_us'', flt_mult mdev thousand)])
       | _ \<Rightarrow> Inl beyond_json))"

definition net_bench_ping :: "bool \<Rightarrow> net_bench \<Rightarrow> string \<Rightarrow> float go_map res io" where
  "net_bench_ping load b ns = do {
     _ \<leftarrow> (if load then do {_ \<leftarrow> sys (Sleep 2000); ret ()} else ret ());
     r \<leftarrow> net_run_in b ns 60 [''ping'', ''-q'', ''-c'', ''100'', ''-i'', ''0.05'', bench_peer_addr];
     let m = ping_metrics (run_output r);
     _ \<leftarrow> (if load then do {_ \<leftarrow> net_run_in b ns 120 [''iperf3'', ''-c'', bench_peer_addr, ''-t'', ''60'']; ret ()} else ret ());
     ret m}"

definition run_net_job :: "net_load \<Rightarrow> net_bench \<Rightarrow> string \<Rightarrow> float go_map res io" where
  "run_net_job l = (case l of
      TcpLoad back streams \<Rightarrow> net_bench_tcp back streams
    | UdpLoad back \<Rightarrow> net_bench_udp back
    | RoundTrips test \<Rightarrow> net_bench_rr test
    | PingLoad load \<Rightarrow> net_bench_ping load)"

definition net_format :: "net_job \<Rightarrow> net_run \<Rightarrow> string" where
  "net_format j r = join_with '', '' (map (\<lambda>k. k @ '' '' @ show_float 2 (map_get zero (nr_metrics r) k)) (nj_metrics j) @
     [''host_cpus '' @ show_float 2 (nr_host r)] @
     (if nr_has_guest r then [''uml_cpus '' @ show_float 2 (nr_uml r), ''guest_busy '' @ show_float 2 (nr_guest r)] else []))"

text \<open>How busy the guest's CPU was, and the memory that it used, around a run.\<close>

definition watch_before :: "watched option \<Rightarrow> ((int \<times> int) \<times> watched option) io" where
  "watch_before w = (case w of
      None \<Rightarrow> ret ((0, 0), None)
    | Some w \<Rightarrow> do {
        (t, g) \<leftarrow> guest_cpu (wd_guest w);
        ret (t, Some (w\<lparr>wd_guest := g\<rparr>))})"

definition guest_share :: "int \<times> int \<Rightarrow> int \<times> int \<Rightarrow> float" where
  "guest_share t0 t1 =
     (if snd t1 > snd t0 \<and> snd t0 > 0
      then flt_div (float_of (wrap64 (fst t1 - fst t0))) (float_of (wrap64 (snd t1 - snd t0))) else zero)"

definition watch_after :: "int \<times> int \<Rightarrow> watched option \<Rightarrow> net_run \<Rightarrow> (net_run \<times> watched option) io" where
  "watch_after t0 w r = (case w of
      None \<Rightarrow> ret (r, None)
    | Some w \<Rightarrow> do {
        (t1, g) \<leftarrow> guest_cpu (wd_guest w);
        w \<leftarrow> sample_memory (w\<lparr>wd_guest := g\<rparr>);
        ret (r\<lparr>nr_guest := guest_share t0 t1, nr_has_guest := True\<rparr>, Some w)})"

definition uml_of :: "watched option \<Rightarrow> int" where
  "uml_of w = (case w of None \<Rightarrow> 0 | Some w \<Rightarrow> wd_uml w)"

definition net_run_once :: "net_bench \<Rightarrow> float \<Rightarrow> string \<Rightarrow> watched option \<Rightarrow> net_job \<Rightarrow> nat \<Rightarrow> (net_run res \<times> watched option) io" where
  "net_run_once b hz ns w j rep = do {
     let r = \<lparr>nr_job = nj_name j, nr_rep = int rep, nr_metrics = [], nr_host = zero, nr_uml = zero, nr_guest = zero, nr_has_guest = False\<rparr>;
     (t0, w) \<leftarrow> watch_before w;
     meter \<leftarrow> start_meter (uml_of w);
     m \<leftarrow> run_net_job (nj_run j) b ns;
     (host, uml) \<leftarrow> stop_meter hz meter;
     (r, w) \<leftarrow> watch_after t0 w (r\<lparr>nr_host := host, nr_uml := uml\<rparr>);
     ret (case m of Inl e \<Rightarrow> Inl (Msg (nj_name j @ '': '' @ err_text e)) | Inr m \<Rightarrow> Inr (r\<lparr>nr_metrics := m\<rparr>), w)}"

fun run_net_jobs :: "net_bench \<Rightarrow> float \<Rightarrow> string \<Rightarrow> watched option \<Rightarrow> net_run list \<Rightarrow> (net_job \<times> nat) list \<Rightarrow>
    (net_run list res \<times> watched option) io" where
  "run_net_jobs b hz ns w rs [] = ret (Inr rs, w)"
| "run_net_jobs b hz ns w rs ((j, rep) # rest) = do {
     ended \<leftarrow> ctx_ended;
     if ended then ret (Inl (Msg ''stopped by a signal''), w)
     else do {
       (r, w) \<leftarrow> net_run_once b hz ns w j rep;
       (case r of
          Inl e \<Rightarrow> ret (Inl e, w)
        | Inr r \<Rightarrow> do {
            _ \<leftarrow> println (''  '' @ nj_name j @ '' '' @ show_nat rep @ '': '' @ net_format j r);
            run_net_jobs b hz ns w (rs @ [r]) rest})}}"

definition net_schedule :: "net_bench \<Rightarrow> (net_job \<times> nat) list" where
  "net_schedule b = List.product (nb_jobs b) [1..<nat (nb_reps b) + 1]"


subsection \<open>Targets\<close>

definition new_net_target :: "string \<Rightarrow> net_target" where
  "new_net_target name = \<lparr>nt_name = name, nt_runs = [], nt_counters = [], nt_memory = None\<rparr>"

definition carrier_in :: "string \<Rightarrow> string \<Rightarrow> bool io" where
  "carrier_in ns net = wait (do {
     r \<leftarrow> run_argv (in_ns ns [''cat'', ''/sys/class/net/'' @ net @ ''/carrier'']);
     ret (trim_space (r_stdout r) = ''1'')}) 30000 200"

definition no_carrier :: "string \<Rightarrow> err" where
  "no_carrier net = Msg (net @ '' has no carrier'')"

definition native_commands :: "string \<Rightarrow> string list list" where
  "native_commands port =
     [[''ip'', ''netns'', ''add'', net_native_ns], [''ip'', ''link'', ''set'', port, ''netns'', net_native_ns],
      in_ns net_native_ns [''ip'', ''link'', ''set'', port, ''mtu'', show_nat net_mtu, ''up''],
      in_ns net_native_ns [''ip'', ''addr'', ''add'', bench_host_addr @ ''/24'', ''dev'', port]]"

definition delete_native :: "unit io" where
  "delete_native = do {_ \<leftarrow> run_cmd ''ip'' [''netns'', ''del'', net_native_ns]; ret ()}"

definition measure_native :: "net_bench \<Rightarrow> float \<Rightarrow> string \<Rightarrow> net_target \<Rightarrow> net_target res io" where
  "measure_native b hz port t = do {
     e \<leftarrow> first_error must_argv (native_commands port);
     (case e of
        Some e \<Rightarrow> ret (Inl e)
      | None \<Rightarrow> do {
          on \<leftarrow> carrier_in net_native_ns port;
          if \<not> on then ret (Inl (no_carrier port))
          else do {
            (rs, _) \<leftarrow> run_net_jobs b hz net_native_ns None (nt_runs t) (net_schedule b);
            ret (case rs of Inl e \<Rightarrow> Inl e | Inr rs \<Rightarrow> Inr (t\<lparr>nt_runs := rs\<rparr>))}})}"

definition run_net_native :: "net_bench \<Rightarrow> float \<Rightarrow> net_target \<Rightarrow> net_target res io" where
  "run_net_native b hz t = do {
     d \<leftarrow> pci_driver net_guest_port;
     e \<leftarrow> (if d \<noteq> ''i40e'' then bind_native net_guest_port else ret None);
     (case e of
        Some e \<Rightarrow> ret (Inl e)
      | None \<Rightarrow> do {
          port \<leftarrow> wait_netdev net_guest_port 10000;
          if port = [] then ret (Inl (Msg (net_guest_port @ '' has no interface on the host'')))
          else do {
            _ \<leftarrow> release port;
            _ \<leftarrow> delete_native;
            r \<leftarrow> measure_native b hz port t;
            _ \<leftarrow> run_argv (in_ns net_native_ns [''ip'', ''link'', ''set'', port, ''netns'', ''1'']);
            _ \<leftarrow> delete_native;
            ret r}})}"

subsection \<open>The guest\<close>

text \<open>The interface that the last look found, which the closure keeps.\<close>

definition find_bench_interface :: "string \<Rightarrow> string \<Rightarrow> (bool \<times> string) io" where
  "find_bench_interface name net = do {
     nets \<leftarrow> host_interfaces name;
     let net = (case nets of [] \<Rightarrow> net | n # _ \<Rightarrow> n);
     ret (net \<noteq> [], net)}"

definition bench_interface :: "string \<Rightarrow> string io" where
  "bench_interface name = do {
     r \<leftarrow> wait_loop (find_bench_interface name) 30000 100 [];
     ret (case r of None \<Rightarrow> [] | Some x \<Rightarrow> snd x)}"

definition guest_silent :: err where
  "guest_silent = Msg ''the guest did not create its device, see guest.log''"

definition no_uml :: err where
  "no_uml = Msg ''cannot find the guest's UML process''"

text \<open>The interface of a guest's device, with its address and carrier.\<close>

definition guest_interface :: "guest \<Rightarrow> string res io" where
  "guest_interface g = do {
     up \<leftarrow> wait_text g (net_bench_name @ '': created'') 120000;
     if \<not> up then ret (Inl guest_silent)
     else do {
       e \<leftarrow> attach_dev net_bench_name;
       (case e of
          Some e \<Rightarrow> ret (Inl e)
        | None \<Rightarrow> do {
            net \<leftarrow> bench_interface net_bench_name;
            if net = [] then ret (Inl (Msg ''the host got no interface''))
            else do {
              _ \<leftarrow> release net;
              _ \<leftarrow> place_irqs net_bench_name (- 1);
              e \<leftarrow> first_error must_argv
                [[''ip'', ''link'', ''set'', net, ''mtu'', show_nat net_mtu, ''up''],
                 [''ip'', ''addr'', ''replace'', bench_host_addr @ ''/24'', ''dev'', net]];
              (case e of
                 Some e \<Rightarrow> ret (Inl e)
               | None \<Rightarrow> do {
                   on \<leftarrow> carrier_in [] net;
                   ret (if on then Inr net else Inl (no_carrier net))})}})}}"

definition no_memory :: "string \<Rightarrow> guest_mem" where
  "no_memory mem = \<lparr>mem_arg = mem, peak_bytes = 0, current_bytes = 0, anon_bytes = 0, file_bytes = 0, shmem_bytes = 0,
     kernel_bytes = 0, guest_total = 0, guest_peak_used = 0\<rparr>"

text \<open>A guest is watched from its first sample on, once its UML process is found.\<close>

definition watch_guest :: "string \<Rightarrow> guest \<Rightarrow> int \<Rightarrow> watched io" where
  "watch_guest mem g uml = sample_memory \<lparr>wd_guest = g, wd_uml = uml, wd_mem = no_memory mem\<rparr>"

definition shell_ready :: "guest \<Rightarrow> (bool \<times> guest) io" where
  "shell_ready g = do {
     (out, g) \<leftarrow> guest_output g ''echo shell-ready'' 30000;
     ret (str_contains out ''shell-ready'', g)}"

text \<open>The cgroup's figures, which are printed with the samples.\<close>

definition memory_of :: "string \<Rightarrow> watched \<Rightarrow> guest_mem res io" where
  "memory_of cg w = do {
     (m, e) \<leftarrow> read_cgroup cg (wd_mem w);
     (case e of
        Some e \<Rightarrow> ret (Inl e)
      | None \<Rightarrow> do {
          _ \<leftarrow> println (''  memory: '' @ mem_summary m);
          ret (Inr m)})}"

definition finish_net_guest :: "string \<Rightarrow> watched \<Rightarrow> net_target \<Rightarrow> net_target res io" where
  "finish_net_guest cg w t = do {
     (out, g) \<leftarrow> guest_output (wd_guest w) ''cat /proc/vduse_guest'' 10000;
     m \<leftarrow> memory_of cg w;
     ret (case m of Inl e \<Rightarrow> Inl e | Inr m \<Rightarrow> Inr (t\<lparr>nt_counters := map_from (counter_list out), nt_memory := Some m\<rparr>))}"

definition measure_net_guest :: "net_bench \<Rightarrow> float \<Rightarrow> string \<Rightarrow> net_target \<Rightarrow> guest \<Rightarrow> net_target res io" where
  "measure_net_guest b hz cg t g = do {
     net \<leftarrow> guest_interface g;
     (case net of
        Inl e \<Rightarrow> ret (Inl e)
      | Inr net \<Rightarrow> do {
          uml \<leftarrow> uml_pid (int_or_zero (g_pid g));
          if uml = 0 then ret (Inl no_uml)
          else do {
            (ready, g) \<leftarrow> shell_ready g;
            if \<not> ready then ret (Inl (Msg ''the guest's shell does not answer, see guest.log''))
            else do {
              w \<leftarrow> watch_guest (nb_mem b) g uml;
              (rs, w) \<leftarrow> run_net_jobs b hz [] (Some w) (nt_runs t) (net_schedule b);
              (case (rs, w) of
                 (Inr rs, Some w) \<Rightarrow> finish_net_guest cg w (t\<lparr>nt_runs := rs\<rparr>)
               | (Inl e, _) \<Rightarrow> ret (Inl e)
               | (Inr rs, None) \<Rightarrow> ret (Inr (t\<lparr>nt_runs := rs\<rparr>)))}}})}"

text \<open>A guest in a cgroup of its own, which is removed after it with its directory of logs.\<close>

definition end_bench_guest :: "string \<Rightarrow> guest \<Rightarrow> unit io" where
  "end_bench_guest name g = do {
     there \<leftarrow> guest_running g;
     _ \<leftarrow> vdpa_remove name (\<not> there);
     _ \<leftarrow> end_guest_of g;
     cleanup_dev name}"

definition with_guest_in :: "string \<Rightarrow> string \<Rightarrow> (string \<Rightarrow> string \<Rightarrow> launch) \<Rightarrow> (string \<Rightarrow> guest \<Rightarrow> 'a res io) \<Rightarrow> 'a res io" where
  "with_guest_in name out_dir l k = do {
     logs \<leftarrow> make_log_dir name;
     (case logs of
        Inl e \<Rightarrow> ret (Inl e)
      | Inr logs \<Rightarrow> do {
          cg \<leftarrow> make_cgroup name;
          r \<leftarrow> (case cg of
             Inl e \<Rightarrow> ret (Inl e)
           | Inr cg \<Rightarrow> do {
               g \<leftarrow> launch_guest (path_join [out_dir, ''guest.log'']) (l logs cg);
               r \<leftarrow> (case g of
                  Inl e \<Rightarrow> ret (Inl e)
                | Inr g \<Rightarrow> do {
                    r \<leftarrow> k cg g;
                    _ \<leftarrow> end_bench_guest name g;
                    ret r});
               _ \<leftarrow> remove_cgroup cg;
               ret r});
          _ \<leftarrow> sys (RemoveAll logs);
          ret r})}"

definition net_bench_launch :: "net_bench \<Rightarrow> string \<Rightarrow> string \<Rightarrow> launch" where
  "net_bench_launch b logs cg = \<lparr>l_build = nb_build b, l_type = ''net'', l_name = net_bench_name,
     l_options = ''netdev=eth0,mtu='' @ show_nat net_mtu, l_log_dir = logs, l_devices = [net_guest_port],
     l_args = [''mem='' @ nb_mem b], l_cgroup = cg\<rparr>"

definition run_net_guest :: "net_bench \<Rightarrow> float \<Rightarrow> net_target \<Rightarrow> net_target res io" where
  "run_net_guest b hz t = do {
     _ \<leftarrow> release_port;
     with_guest_in net_bench_name (nb_out b) (net_bench_launch b) (\<lambda>cg g. measure_net_guest b hz cg t g)}"

subsection \<open>results.json\<close>

definition memory_json :: "guest_mem \<Rightarrow> json" where
  "memory_json m = JObj [(''mem'', JStr (mem_arg m)), (''peak_bytes'', int_json (peak_bytes m)), (''current_bytes'', int_json (current_bytes m)),
     (''anon_bytes'', int_json (anon_bytes m)), (''file_bytes'', int_json (file_bytes m)), (''shmem_bytes'', int_json (shmem_bytes m)),
     (''kernel_bytes'', int_json (kernel_bytes m)), (''guest_total_bytes'', int_json (guest_total m)),
     (''guest_peak_used_bytes'', int_json (guest_peak_used m))]"

definition memory_member :: "guest_mem option \<Rightarrow> (string \<times> json) list" where
  "memory_member m = (case m of None \<Rightarrow> [] | Some m \<Rightarrow> [(''memory'', memory_json m)])"

definition net_run_json :: "net_run \<Rightarrow> json" where
  "net_run_json r = JObj
    ([(''job'', JStr (nr_job r)), (''rep'', int_json (nr_rep r)), (''metrics'', map_json float_json (nr_metrics r)),
      (''host_cpus'', float_json (nr_host r))] @
     unless (flt_zero (nr_uml r)) (''uml_cpus'', float_json (nr_uml r)) @
     unless (flt_zero (nr_guest r)) (''guest_busy'', float_json (nr_guest r)) @
     [(''has_guest'', JBool (nr_has_guest r))])"

definition net_target_json :: "net_target \<Rightarrow> json" where
  "net_target_json t = JObj
    ([(''name'', JStr (nt_name t)), (''runs'', slice_json net_run_json (nt_runs t))] @
     unless (nt_counters t = []) (''counters'', map_json int_json (nt_counters t)) @ memory_member (nt_memory t))"

definition net_results_json :: "net_results \<Rightarrow> json" where
  "net_results_json r = JObj [(''host'', map_json JStr (nx_host r)), (''targets'', slice_json net_target_json (nx_targets r))]"

definition set_memory :: "guest_mem \<Rightarrow> json \<Rightarrow> guest_mem option" where
  "set_memory = set_fields
    [(''mem'', \<lambda>m v. map_option (\<lambda>x. m\<lparr>mem_arg := x\<rparr>) (set_string (mem_arg m) v)),
     (''peak_bytes'', \<lambda>m v. map_option (\<lambda>x. m\<lparr>peak_bytes := x\<rparr>) (set_int64 (peak_bytes m) v)),
     (''current_bytes'', \<lambda>m v. map_option (\<lambda>x. m\<lparr>current_bytes := x\<rparr>) (set_int64 (current_bytes m) v)),
     (''anon_bytes'', \<lambda>m v. map_option (\<lambda>x. m\<lparr>anon_bytes := x\<rparr>) (set_int64 (anon_bytes m) v)),
     (''file_bytes'', \<lambda>m v. map_option (\<lambda>x. m\<lparr>file_bytes := x\<rparr>) (set_int64 (file_bytes m) v)),
     (''shmem_bytes'', \<lambda>m v. map_option (\<lambda>x. m\<lparr>shmem_bytes := x\<rparr>) (set_int64 (shmem_bytes m) v)),
     (''kernel_bytes'', \<lambda>m v. map_option (\<lambda>x. m\<lparr>kernel_bytes := x\<rparr>) (set_int64 (kernel_bytes m) v)),
     (''guest_total_bytes'', \<lambda>m v. map_option (\<lambda>x. m\<lparr>guest_total := x\<rparr>) (set_int64 (guest_total m) v)),
     (''guest_peak_used_bytes'', \<lambda>m v. map_option (\<lambda>x. m\<lparr>guest_peak_used := x\<rparr>) (set_int64 (guest_peak_used m) v))]"

text \<open>A pointer to a struct, which null sets to nil.\<close>

definition set_opt :: "('a \<Rightarrow> json \<Rightarrow> 'a option) \<Rightarrow> 'a \<Rightarrow> 'a option \<Rightarrow> json \<Rightarrow> 'a option option" where
  "set_opt f none old v = (if v = JNull then Some None
     else map_option Some (f (case old of None \<Rightarrow> none | Some x \<Rightarrow> x) v))"

definition no_net_run :: net_run where
  "no_net_run = \<lparr>nr_job = [], nr_rep = 0, nr_metrics = [], nr_host = zero, nr_uml = zero, nr_guest = zero, nr_has_guest = False\<rparr>"

definition set_net_run :: "net_run \<Rightarrow> json \<Rightarrow> net_run option" where
  "set_net_run = set_fields
    [(''job'', \<lambda>r v. map_option (\<lambda>x. r\<lparr>nr_job := x\<rparr>) (set_string (nr_job r) v)),
     (''rep'', \<lambda>r v. map_option (\<lambda>x. r\<lparr>nr_rep := x\<rparr>) (set_int64 (nr_rep r) v)),
     (''metrics'', \<lambda>r v. map_option (\<lambda>x. r\<lparr>nr_metrics := x\<rparr>) (set_map set_float zero (nr_metrics r) v)),
     (''host_cpus'', \<lambda>r v. map_option (\<lambda>x. r\<lparr>nr_host := x\<rparr>) (set_float (nr_host r) v)),
     (''uml_cpus'', \<lambda>r v. map_option (\<lambda>x. r\<lparr>nr_uml := x\<rparr>) (set_float (nr_uml r) v)),
     (''guest_busy'', \<lambda>r v. map_option (\<lambda>x. r\<lparr>nr_guest := x\<rparr>) (set_float (nr_guest r) v)),
     (''has_guest'', \<lambda>r v. map_option (\<lambda>x. r\<lparr>nr_has_guest := x\<rparr>) (set_bool (nr_has_guest r) v))]"

definition set_net_target :: "net_target \<Rightarrow> json \<Rightarrow> net_target option" where
  "set_net_target = set_fields
    [(''name'', \<lambda>t v. map_option (\<lambda>x. t\<lparr>nt_name := x\<rparr>) (set_string (nt_name t) v)),
     (''runs'', \<lambda>t v. map_option (\<lambda>x. t\<lparr>nt_runs := x\<rparr>) (set_slice set_net_run no_net_run (nt_runs t) v)),
     (''counters'', \<lambda>t v. map_option (\<lambda>x. t\<lparr>nt_counters := x\<rparr>) (set_map set_int64 0 (nt_counters t) v)),
     (''memory'', \<lambda>t v. map_option (\<lambda>x. t\<lparr>nt_memory := x\<rparr>) (set_opt set_memory (no_memory []) (nt_memory t) v))]"

definition set_net_results :: "net_results \<Rightarrow> json \<Rightarrow> net_results option" where
  "set_net_results = set_fields
    [(''host'', \<lambda>r v. map_option (\<lambda>x. r\<lparr>nx_host := x\<rparr>) (set_map set_string [] (nx_host r) v)),
     (''targets'', \<lambda>r v. map_option (\<lambda>x. r\<lparr>nx_targets := x\<rparr>) (set_slice set_net_target (new_net_target []) (nx_targets r) v))]"

definition read_net_results :: "string \<Rightarrow> net_results option" where
  "read_net_results = unmarshal_with set_net_results \<lparr>nx_host = [], nx_targets = []\<rparr>"

definition net_save :: "net_bench \<Rightarrow> net_results \<Rightarrow> err option io" where
  "net_save b r = do_sys (WriteFile (path_join [nb_out b, ''results.json'']) (json_file (net_results_json r)) 420)"


subsection \<open>The summary\<close>

text \<open>The medians of a target's runs of a job, if it has some.\<close>

definition net_row :: "net_job \<Rightarrow> net_target \<Rightarrow> string list" where
  "net_row j t =
     (let rs = filter (\<lambda>r. nr_job r = nj_name j) (nt_runs t);
          med = (\<lambda>f. bench_median (map f rs))
      in if rs = [] then []
         else [''  '' @ pad_name 8 (nt_name t) @ concat (map (\<lambda>k. '' '' @ column 13 2 (med (\<lambda>r. map_get zero (nr_metrics r) k))) (nj_metrics j)) @
           '' '' @ column 9 2 (med nr_host) @
           (if list_ex nr_has_guest rs then '' '' @ column 8 2 (med nr_uml) @ '' '' @ column 10 2 (med nr_guest) else [])])"

definition net_part :: "net_results \<Rightarrow> net_job \<Rightarrow> string" where
  "net_part r j =
     (let rows = concat (map (net_row j) (nx_targets r))
      in if rows = [] then []
         else nj_name j @ '': '' @ nj_about j @ [newline] @ ''  '' @ pad_right 8 ''target'' @
           concat (map (\<lambda>k. '' '' @ pad_left 13 k) (nj_metrics j)) @
           '' '' @ pad_left 9 ''host_cpus'' @ '' '' @ pad_left 8 ''uml_cpus'' @ '' '' @ pad_left 10 ''guest_busy'' @ [newline] @
           join_with [newline] rows @ [newline, newline])"

definition net_summary :: "net_results \<Rightarrow> string" where
  "net_summary r = concat (map (net_part r) net_jobs) @
     lines_of [''Each value is the median over the repetitions. host_cpus is how many of'',
       ''the host's CPUs were busy, uml_cpus the guest's UML process's share of'',
       ''them, and guest_busy how busy the guest's own CPU was.''] @
     concat (map (\<lambda>t. case nt_memory t of None \<Rightarrow> []
       | Some m \<Rightarrow> [newline] @ nt_name t @ '' memory, '' @ mem_summary m @ [newline]) (nx_targets r))"


subsection \<open>The commands\<close>

definition net_host_info :: "net_bench \<Rightarrow> string go_map io" where
  "net_host_info b = do {
     uname \<leftarrow> run_trimmed ''uname'' [''-a''];
     tck \<leftarrow> run_trimmed ''getconf'' [''CLK_TCK''];
     v \<leftarrow> run_cmd ''iperf3'' [''--version''];
     uml \<leftarrow> linux_uml;
     ret (map_from [(''uname'', uname), (''clk_tck'', tck), (''reps'', show_int (nb_reps b)), (''time'', show_int (nb_seconds b)),
       (''iperf3'', hd (split_on newline (r_stdout v))), (''linux-uml'', uml)])}"

definition run_net_target :: "net_bench \<Rightarrow> float \<Rightarrow> string \<Rightarrow> net_target res io" where
  "run_net_target b hz name = do {
     _ \<leftarrow> println (''== '' @ name);
     (if name = ''native'' then run_net_native b hz (new_net_target name) else run_net_guest b hz (new_net_target name))}"

fun run_net_targets :: "net_bench \<Rightarrow> float \<Rightarrow> net_results \<Rightarrow> string list \<Rightarrow> (net_results \<times> err option) io" where
  "run_net_targets b hz r [] = ret (r, None)"
| "run_net_targets b hz r (name # rest) = do {
     ended \<leftarrow> ctx_ended;
     if ended then ret (r, Some (Msg ''stopped by a signal''))
     else do {
       t \<leftarrow> run_net_target b hz name;
       (case t of
          Inl e \<Rightarrow> ret (r, Some (Msg (name @ '': '' @ err_text e)))
        | Inr t \<Rightarrow> do {
            let r = r\<lparr>nx_targets := nx_targets r @ [t]\<rparr>;
            e \<leftarrow> net_save b r;
            if e \<noteq> None then ret (r, e) else run_net_targets b hz r rest})}}"

definition net_bench_cleanup :: "far_end \<Rightarrow> string \<Rightarrow> unit io" where
  "net_bench_cleanup f driver = do {
     _ \<leftarrow> cleanup_dev net_bench_name;
     _ \<leftarrow> delete_native;
     _ \<leftarrow> far_stop f;
     restore_port driver}"

definition measure_net :: "net_bench \<Rightarrow> float \<Rightarrow> string \<Rightarrow> string go_map \<Rightarrow> string list \<Rightarrow> err option io" where
  "measure_net b hz driver host targets = do {
     far \<leftarrow> start_peer bench_peer_addr [''iperf3'', ''netserver''];
     (case far of
        Inl e \<Rightarrow> ret (Some e)
      | Inr f \<Rightarrow> do {
          (r, e) \<leftarrow> run_net_targets b hz \<lparr>nx_host = host, nx_targets = []\<rparr> targets;
          e \<leftarrow> (if e \<noteq> None then ret e else print_summary (nb_out b) (net_summary r));
          _ \<leftarrow> net_bench_cleanup f driver;
          ret e})}"

text \<open>A device of an earlier run is not touched, nor a card that a guest has.\<close>

definition card_free :: "string \<Rightarrow> err option io" where
  "card_free addr = do {
     pids \<leftarrow> pci_holders addr;
     ret (case pids of [] \<Rightarrow> None
       | p # _ \<Rightarrow> Some (Msg (addr @ '' is in use by process '' @ show_int p @ '', stop its guest first'')))}"

definition net_bench_tools :: "string list" where
  "net_bench_tools = [''iperf3'', ''netperf'', ''netserver'', ''ethtool'', ''vdpa'', ''ping'']"

definition net_bench_host :: "net_bench \<Rightarrow> err option io" where
  "net_bench_host b = and_then (bench_log (nb_out b)) (and_then (first_error need_tool net_bench_tools)
     (and_then (modprobe [''vduse'', ''vdpa'', ''virtio_vdpa'', ''virtio_net'', ''vfio-pci'', ''i40e''])
       (and_then (none_left [net_bench_name]) (card_free net_guest_port))))"

definition run_net_bench :: "net_bench \<Rightarrow> float \<Rightarrow> string list \<Rightarrow> err option io" where
  "run_net_bench b hz targets = and_then (net_bench_host b) (do {
     driver \<leftarrow> pci_driver net_guest_port;
     host \<leftarrow> net_host_info b;
     measure_net b hz driver host targets})"

definition net_job_list :: "string list" where
  "net_job_list = map (\<lambda>j. ''  '' @ pad_right 10 (nj_name j) @ '' '' @ nj_about j) net_jobs"

definition net_bench_usage :: string where
  "net_bench_usage = lines_of ([''usage: invirtio-test bench-net [options] [<target>...]'', [],
     ''Benchmark the VDUSE virtio-net backend on the X710, whose two ports are'',
     ''cabled to each other. Port 1 stays on the host's i40e in the network'',
     ''namespace vnet-peer, with iperf3 and netserver, as the far end. Each target'',
     ''is one of:'',
     ''  native   port 0 on the host's i40e, in the namespace vnet-native'',
     ''  guest    port 0 driven by a guest under the launcher through VFIO and'',
     ''           exported to the host's virtio_net'', [],
     ''The default runs both. Both ports have an MTU of 9000. Each job runs -reps'',
     ''times, and each throughput job for -time seconds. A job's CPU use is the'',
     ''number of the host's CPUs that were busy, and with the guest, the share of'',
     ''them that its UML process took and how busy the guest's own CPU was. The'',
     ''guest runs with -mem in a cgroup of its own, as invirtio's guests do, and'',
     ''the results record the cgroup's peak memory and the most memory that the'',
     ''guest itself used between jobs. Build the guest with scripts/invirtio-build-guest.sh -t net-bench. The output'',
     ''directory gets results.json and the summary, which bench-net-summary prints'',
     ''again. Run as root on the linux-host kernel, with iperf3, netperf and'',
     ''ethtool.'', [], ''Jobs:''] @ net_job_list)"

definition net_bench_flags :: flag_set where
  "net_bench_flags = [(''guest'', StringFlag), (''out'', StringFlag), (''reps'', IntFlag), (''time'', IntFlag),
     (''mem'', StringFlag), (''jobs'', StringFlag)]"

definition net_bench_defaults :: "string \<Rightarrow> flag_values" where
  "net_bench_defaults repo = Map.empty(''guest'' \<mapsto> path_join [repo, ''linux-uml/build-net-bench''],
     ''out'' \<mapsto> path_join [repo, ''build/bench-net''], ''reps'' \<mapsto> ''3'', ''time'' \<mapsto> ''10'', ''mem'' \<mapsto> ''256M'')"

definition new_net_bench :: "flag_values \<Rightarrow> string \<Rightarrow> net_bench" where
  "new_net_bench v dir = \<lparr>nb_out = dir, nb_mem = flag_string v ''mem'', nb_build = flag_string v ''guest'',
     nb_reps = flag_int v ''reps'', nb_seconds = flag_int v ''time'',
     nb_jobs = filter (\<lambda>j. str_contains (nj_name j) (flag_string v ''jobs'')) net_jobs\<rparr>"

text \<open>Both targets without an argument. Another name than theirs is an error of usage.\<close>

definition card_targets :: "string list \<Rightarrow> string list option" where
  "card_targets args = (let ts = (if args = [] then [''native'', ''guest''] else args)
     in if list_all (\<lambda>t. t = ''native'' \<or> t = ''guest'') ts then Some ts else None)"

definition cmd_bench_net :: "string list \<Rightarrow> outcome io" where
  "cmd_bench_net args = do {
     hz \<leftarrow> clock_ticks;
     repo \<leftarrow> repo_root;
     (case parse_flags net_bench_flags (net_bench_defaults repo) args of
        Inl n \<Rightarrow> usage_exit net_bench_usage n
      | Inr (v, rest) \<Rightarrow>
          (case card_targets rest of
             None \<Rightarrow> usage_exit net_bench_usage 2
           | Some targets \<Rightarrow> as_test_root (do {
               p \<leftarrow> abs_path (flag_string v ''out'');
               (case p of
                  Inl e \<Rightarrow> ret (Returned (Some e))
                | Inr dir \<Rightarrow> do {
                    e \<leftarrow> run_net_bench (new_net_bench v dir) hz targets;
                    ret (Returned e)})})))}"

definition cmd_bench_net_summary :: "string list \<Rightarrow> outcome io" where
  "cmd_bench_net_summary = summary_command
     (lines_of [''usage: invirtio-test bench-net-summary <output dir>'', [], ''Print the summary of a bench-net run from its results.json.''])
     (\<lambda>data. map_option net_summary (read_net_results data))"


subsection \<open>What was written is read\<close>

definition memory_ok :: "guest_mem \<Rightarrow> bool" where
  "memory_ok m \<longleftrightarrow> text_ok (mem_arg m) \<and> list_all in_int64 [peak_bytes m, current_bytes m, anon_bytes m, file_bytes m, shmem_bytes m,
     kernel_bytes m, guest_total m, guest_peak_used m]"

definition net_run_ok :: "net_run \<Rightarrow> bool" where
  "net_run_ok r \<longleftrightarrow> text_ok (nr_job r) \<and> in_int64 (nr_rep r) \<and> map_ok double (nr_metrics r) \<and>
     double (nr_host r) \<and> double (nr_uml r) \<and> double (nr_guest r)"

definition net_target_ok :: "net_target \<Rightarrow> bool" where
  "net_target_ok t \<longleftrightarrow> text_ok (nt_name t) \<and> list_all net_run_ok (nt_runs t) \<and> map_ok in_int64 (nt_counters t) \<and>
     pred_option memory_ok (nt_memory t)"

definition net_results_ok :: "net_results \<Rightarrow> bool" where
  "net_results_ok r \<longleftrightarrow> map_ok text_ok (nx_host r) \<and> list_all net_target_ok (nx_targets r)"

interpretation memory_codec: codec "no_memory []" set_memory memory_json memory_ok
proof unfold_locales
  fix m assume m: "memory_ok m"
  then show "set_memory (no_memory []) (memory_json m) = Some m"
    by (cases m) (simp add: set_memory_def memory_json_def no_memory_def memory_ok_def decode_simps)
  from m show "json_ok (memory_json m)" by (auto simp: memory_json_def memory_ok_def intro!: ascii_text_ok)
qed

lemma zero_figure: "double x \<Longrightarrow> flt_zero x \<longleftrightarrow> x = zero"
  by (cases x) (auto simp: double_def flt_ok_def flt_zero_def zero_def)

interpretation net_run_codec: codec no_net_run set_net_run net_run_json net_run_ok
proof unfold_locales
  fix r assume r: "net_run_ok r"
  then show "set_net_run no_net_run (net_run_json r) = Some r"
    by (cases r) (simp add: set_net_run_def net_run_json_def no_net_run_def net_run_ok_def float_codec.entries_all zero_figure
      decode_simps)
  from r show "json_ok (net_run_json r)"
    by (auto simp: net_run_json_def net_run_ok_def float_codec.entries_ok intro!: ascii_text_ok)
qed

text \<open>The memory is the last member of its target, or none.\<close>

lemma members_memory: "members_ok (memory_member m) \<longleftrightarrow> (case m of None \<Rightarrow> True | Some m \<Rightarrow> json_ok (memory_json m))"
  by (auto simp: memory_member_def intro!: ascii_text_ok split: option.split)

lemma set_memory_member:
  "pred_option memory_ok m \<Longrightarrow> set_opt set_memory (no_memory []) None (memory_json (the m)) = Some m \<or> m = None"
  by (cases m) (simp_all add: set_opt_def memory_codec.decodes, simp add: memory_json_def)

interpretation net_target_codec: codec "new_net_target []" set_net_target net_target_json net_target_ok
proof unfold_locales
  fix t assume t: "net_target_ok t"
  then show "set_net_target (new_net_target []) (net_target_json t) = Some t"
    using set_memory_member [of "nt_memory t"]
    by (cases t; cases "nt_memory t") (simp_all add: set_net_target_def net_target_json_def new_net_target_def net_target_ok_def
      net_run_codec.slice int_codec.entries_all memory_member_def decode_simps)
  from t show "json_ok (net_target_json t)"
    by (cases "nt_memory t") (auto simp: net_target_json_def net_target_ok_def members_memory net_run_codec.slice_ok
      int_codec.entries_ok memory_codec.encodes intro!: ascii_text_ok)
qed

definition no_net_results :: net_results where
  "no_net_results = \<lparr>nx_host = [], nx_targets = []\<rparr>"

interpretation net_results_codec: codec no_net_results set_net_results net_results_json net_results_ok
proof unfold_locales
  fix r assume r: "net_results_ok r"
  then show "set_net_results no_net_results (net_results_json r) = Some r"
    by (cases r) (simp add: set_net_results_def net_results_json_def no_net_results_def net_results_ok_def
      net_target_codec.slice string_codec.entries_all decode_simps)
  from r show "json_ok (net_results_json r)"
    by (auto simp: net_results_json_def net_results_ok_def net_target_codec.slice_ok string_codec.entries_ok intro!: ascii_text_ok)
qed

text \<open>
  The results of the network benchmark are read back as they were written, with the metrics, the CPU use, the
  guest's counters and its memory.
\<close>

lemma net_results_read:
  assumes "net_results_ok r"
  shows "read_net_results (json_file (net_results_json r)) = Some r"
  using net_results_codec.from_file [OF assms] by (simp add: read_net_results_def no_net_results_def)

definition sample_net_results :: net_results where
  "sample_net_results = \<lparr>nx_host = [(''reps'', ''3'')], nx_targets = [\<lparr>nt_name = ''guest'',
     nt_runs = [no_net_run\<lparr>nr_job := ''tcp-tx-1'', nr_rep := 1, nr_metrics := [(''gbps'', Flt 6871947673600000 (- 38))]\<rparr>],
     nt_counters = [(''tx_packets'', 12)], nt_memory = Some (no_memory ''256M'')\<rparr>]\<rparr>"

lemma sample_net_ok: "net_results_ok sample_net_results"
proof -
  have "double (Flt 6871947673600000 (- 38))" by (rule double_normal) simp_all
  then show ?thesis
    by (simp add: sample_net_results_def net_results_ok_def net_target_ok_def net_run_ok_def no_net_run_def map_ok_def
      memory_ok_def no_memory_def ascii_text_ok in_int64_def max_int64_def)
qed

end
