(* ===== verification/WlanBench.thy ===== *)
theory WlanBench
  imports NetBench
begin

text \<open>
  cmd/invirtio-test/wlanbench.go: iperf3 and ping through a WiFi card on its host driver and behind a guest,
  and the summary of the results. The download that loads the radio during the last ping is one call, or some
  with their pauses, where the ping waits for its end. The results with a ping figure beyond float64 cannot be
  encoded, which the code ignores.
\<close>

definition wlan_bench_name :: string where "wlan_bench_name = ''vwlan-bench''"
definition wlan_bench_ns :: string where "wlan_bench_ns = ''wlan-bench''"
definition wlan_bench_port :: nat where "wlan_bench_port = 5299"

definition wlan_bench_udhcpc :: string where
  "wlan_bench_udhcpc = lines_of
    [''#!/bin/sh'', ''case \"$1\" in'', ''bound|renew)'',
     CHR 0x09 # ''ip addr flush dev \"$interface\"'',
     CHR 0x09 # ''ip addr add \"$ip/$mask\" dev \"$interface\"'',
     CHR 0x09 # ''[ -n \"$router\" ] && ip route replace default via \"${router%% *}\"'',
     CHR 0x09 # '';;'', ''esac'', ''exit 0'']"

record radio_run =
  rr_dir :: string
  rr_rep :: int
  rr_mbps :: float
  rr_retransmits :: int
  rr_host :: float
  rr_uml :: float

record radio_target =
  rt_name :: string
  rt_link :: "string go_map"
  rt_runs :: "radio_run list"
  rt_idle :: ping
  rt_loaded :: ping
  rt_memory :: "guest_mem option"

record radio_results =
  rx_host :: "string go_map"
  rx_targets :: "radio_target list"

record radio_bench =
  rb_out :: string
  rb_build :: string
  rb_card :: string
  rb_conf :: string
  rb_server :: string
  rb_no_server :: bool
  rb_reps :: int
  rb_seconds :: int
  rb_mem :: string


subsection \<open>The processes of a measurement\<close>

definition in_radio :: "string list \<Rightarrow> string list" where
  "in_radio argv = in_ns wlan_bench_ns argv"

definition start_logged :: "string \<Rightarrow> string list \<Rightarrow> string res io" where
  "start_logged path argv = do {
     e \<leftarrow> do_sys (OpenCreate path 438);
     (case e of
        Some e \<Rightarrow> ret (Inl e)
      | None \<Rightarrow> do {
          p \<leftarrow> ask (StartProc argv);
          _ \<leftarrow> sys (CloseFile path);
          ret p})}"

definition stop_proc :: "string \<Rightarrow> unit io" where
  "stop_proc pid = do {
     _ \<leftarrow> sys (GuestSignal pid ''TERM'');
     r \<leftarrow> sys (GuestWait pid 10000);
     if succeeded r then ret () else stop_server pid}"

text \<open>What goes on while a process runs, which is stopped after it.\<close>

definition with_proc :: "string \<Rightarrow> string list \<Rightarrow> 'a res io \<Rightarrow> 'a res io" where
  "with_proc path argv m = do {
     p \<leftarrow> start_logged path argv;
     (case p of
        Inl e \<Rightarrow> ret (Inl e)
      | Inr pid \<Rightarrow> do {
          r \<leftarrow> m;
          _ \<leftarrow> stop_proc pid;
          ret r})}"

text \<open>The configuration without the control interfaces that it has, of which each is a line.\<close>

definition without_ctrl :: "string \<Rightarrow> string" where
  "without_ctrl s = (let ls = split_on newline s
     in concat (map (\<lambda>l. l @ [newline]) (filter (\<lambda>l. \<not> has_prefix l ''ctrl_interface='') (butlast ls))) @ last ls)"

definition bench_conf :: "string \<Rightarrow> string \<Rightarrow> string" where
  "bench_conf ctrl data = ''ctrl_interface='' @ ctrl @ [newline] @ without_ctrl data"

text \<open>The wiphy and the interface under a device, once both are there.\<close>

definition look_wiphy :: "string \<Rightarrow> string \<times> string \<Rightarrow> (bool \<times> string \<times> string) io" where
  "look_wiphy dir old = do {
     phys \<leftarrow> glob_names (path_join [dir, ''ieee80211/*'']);
     nets \<leftarrow> glob_names (path_join [dir, ''net/*'']);
     (case (phys, nets) of
        (phy # _, net # _) \<Rightarrow> ret (net \<noteq> [], phy, net)
      | _ \<Rightarrow> ret (False, [], []))}"

definition bench_wiphy :: "string \<Rightarrow> (string \<times> string) io" where
  "bench_wiphy dir = do {
     r \<leftarrow> wait_loop (look_wiphy dir) 30000 100 ([], []);
     (case r of
        Some (True, _) \<Rightarrow> do {
          _ \<leftarrow> run_cmd ''udevadm'' [''settle''];
          r \<leftarrow> look_wiphy dir ([], []);
          ret (snd r)}
      | Some (False, x) \<Rightarrow> ret x
      | None \<Rightarrow> ret ([], []))}"


subsection \<open>Measurements\<close>

definition radio_joined :: "string \<Rightarrow> string \<Rightarrow> bool io" where
  "radio_joined ctrl net = wait (do {
     r \<leftarrow> run_argv (in_radio [''wpa_cli'', ''-p'', ctrl, ''-i'', net, ''status'']);
     ret (str_contains (r_stdout r) ''wpa_state=COMPLETED'')}) 30000 200"

definition radio_lease :: "radio_bench \<Rightarrow> string \<Rightarrow> err option io" where
  "radio_lease b net = do {
     r \<leftarrow> run_argv (in_radio [''busybox'', ''udhcpc'', ''-i'', net, ''-f'', ''-n'', ''-q'', ''-t'', ''5'', ''-T'', ''2'',
       ''-s'', path_join [rb_out b, ''udhcpc.sh'']]);
     ret (if run_ok r then None else Some (Msg (''no DHCP lease: '' @ trim_space (run_output r))))}"

text \<open>The lines of \<open>iw link\<close> with a key and a value.\<close>

definition link_entries :: "string \<Rightarrow> string go_map" where
  "link_entries out = map_from (concat (map (\<lambda>l. case cut (trim_space l) '': '' of (k, v, ok) \<Rightarrow>
     if ok then [(k, v)] else []) (split_on newline out)))"

definition radio_link :: "string \<Rightarrow> string go_map io" where
  "radio_link net = do {
     r \<leftarrow> run_argv (in_radio [''iw'', ''dev'', net, ''link'']);
     ret (link_entries (r_stdout r))}"

definition radio_run_in :: "string \<Rightarrow> int \<Rightarrow> string list \<Rightarrow> cmd_result io" where
  "radio_run_in dir secs argv = (let argv = in_radio argv in run_context dir (nat (secs * 1000)) (hd argv) (tl argv))"

definition radio_ping :: "radio_bench \<Rightarrow> string \<Rightarrow> int \<Rightarrow> (ping \<times> err option) io" where
  "radio_ping b dir n = do {
     r \<leftarrow> radio_run_in dir (n + 60) [''ping'', ''-q'', ''-c'', show_int n, ''-i'', ''0.2'', ''-W'', ''2'', rb_server b];
     ret (case parse_ping (run_output r) of (p, ok) \<Rightarrow>
       (p, if ok then None else Some (Msg (''ping printed '' @ go_quote (trim_space (run_output r))))))}"

text \<open>The server stops listening for a moment between runs.\<close>

definition was_refused :: "err option \<Rightarrow> bool" where
  "was_refused e = (case e of None \<Rightarrow> False | Some e \<Rightarrow> str_contains (err_text e) ''refused'')"

primrec radio_tries :: "nat \<Rightarrow> string \<Rightarrow> int \<Rightarrow> string list \<Rightarrow> iperf \<times> err option \<Rightarrow> (iperf \<times> err option) io" where
  "radio_tries 0 dir secs argv res = ret res"
| "radio_tries (Suc k) dir secs argv res = do {
     r \<leftarrow> radio_run_in dir secs argv;
     let res = parse_iperf (r_stdout r);
     if \<not> was_refused (snd res) then ret res
     else do {
       _ \<leftarrow> sys (Sleep 1000);
       radio_tries k dir secs argv res}}"

definition radio_iperf :: "radio_bench \<Rightarrow> string \<Rightarrow> bool \<Rightarrow> (iperf \<times> err option) io" where
  "radio_iperf b dir back = radio_tries 5 dir (rb_seconds b + 60)
     ([''iperf3'', ''-c'', rb_server b, ''-p'', show_nat wlan_bench_port, ''-t'', show_int (rb_seconds b), ''-J''] @
      (if back then [''-R''] else [])) (no_iperf, None)"

definition direction :: "bool \<Rightarrow> string" where
  "direction back = (if back then ''download'' else ''upload'')"

definition radio_once :: "radio_bench \<Rightarrow> float \<Rightarrow> string \<Rightarrow> int \<Rightarrow> nat \<Rightarrow> bool \<Rightarrow> radio_run res io" where
  "radio_once b hz dir uml rep back = do {
     meter \<leftarrow> start_meter uml;
     (res, e) \<leftarrow> radio_iperf b dir back;
     (host, cpus) \<leftarrow> stop_meter hz meter;
     ret (case e of
         Some e \<Rightarrow> Inl (Msg (direction back @ '': '' @ err_text e))
       | None \<Rightarrow> Inr \<lparr>rr_dir = direction back, rr_rep = int rep, rr_mbps = flt_div (received_bps res) million,
           rr_retransmits = retransmits res, rr_host = host, rr_uml = cpus\<rparr>)}"

definition sample_watched :: "watched option \<Rightarrow> watched option io" where
  "sample_watched w = (case w of None \<Rightarrow> ret None | Some w \<Rightarrow> do {w \<leftarrow> sample_memory w; ret (Some w)})"

fun radio_runs :: "radio_bench \<Rightarrow> float \<Rightarrow> string \<Rightarrow> watched option \<Rightarrow> radio_run list \<Rightarrow> (nat \<times> bool) list \<Rightarrow>
    (radio_run list res \<times> watched option) io" where
  "radio_runs b hz dir w rs [] = ret (Inr rs, w)"
| "radio_runs b hz dir w rs ((rep, back) # rest) = do {
     ended \<leftarrow> ctx_ended;
     if ended then ret (Inl (Msg ''stopped by a signal''), w)
     else do {
       r \<leftarrow> radio_once b hz dir (uml_of w) rep back;
       (case r of
          Inl e \<Rightarrow> ret (Inl e, w)
        | Inr r \<Rightarrow> do {
            _ \<leftarrow> println (''  '' @ rr_dir r @ '' '' @ show_nat rep @ '': '' @ show_float 1 (rr_mbps r) @ '' Mb/s, host_cpus '' @
                   show_float 2 (rr_host r) @ '', uml_cpus '' @ show_float 2 (rr_uml r));
            w \<leftarrow> sample_watched w;
            radio_runs b hz dir w (rs @ [r]) rest})}}"

text \<open>The round trips under load are measured during one more download.\<close>

definition loaded_ping :: "radio_bench \<Rightarrow> string \<Rightarrow> (ping \<times> err option) io" where
  "loaded_ping b dir = do {
     _ \<leftarrow> sys (Sleep 1000);
     r \<leftarrow> radio_ping b dir (max 1 ((rb_seconds b - 2) * 5));
     _ \<leftarrow> radio_iperf b dir True;
     ret r}"

definition radio_figures :: "radio_bench \<Rightarrow> float \<Rightarrow> string \<Rightarrow> string \<Rightarrow> watched option \<Rightarrow> radio_target \<Rightarrow> (radio_target \<times> watched option) res io" where
  "radio_figures b hz dir net w t = do {
     l \<leftarrow> radio_link net;
     let t = t\<lparr>rt_link := l\<rparr>;
     (p, e) \<leftarrow> radio_ping b dir 50;
     if e \<noteq> None then ret (Inl (the e))
     else do {
       (rs, w) \<leftarrow> radio_runs b hz dir w (rt_runs t) (List.product [1..<nat (rb_reps b) + 1] [False, True]);
       (case rs of
          Inl e \<Rightarrow> ret (Inl e)
        | Inr rs \<Rightarrow> do {
            (q, e) \<leftarrow> loaded_ping b dir;
            ret (case e of Some e \<Rightarrow> Inl e | None \<Rightarrow> Inr (t\<lparr>rt_idle := p, rt_runs := rs, rt_loaded := q\<rparr>, w))})}}"

definition radio_session :: "radio_bench \<Rightarrow> float \<Rightarrow> string \<Rightarrow> string \<Rightarrow> string \<Rightarrow> watched option \<Rightarrow> radio_target \<Rightarrow>
    (radio_target \<times> watched option) res io" where
  "radio_session b hz dir ctrl net w t = do {
     joined \<leftarrow> radio_joined ctrl net;
     if \<not> joined then ret (Inl (Msg (''wpa_supplicant did not join the network, see '' @ path_join [dir, ''wpa_supplicant.log''])))
     else do {
       e \<leftarrow> radio_lease b net;
       (case e of Some e \<Rightarrow> ret (Inl e) | None \<Rightarrow> radio_figures b hz dir net w t)}}"

text \<open>The network is joined with a control interface of the benchmark's own.\<close>

definition radio_network :: "radio_bench \<Rightarrow> float \<Rightarrow> string \<Rightarrow> string \<Rightarrow> watched option \<Rightarrow> radio_target \<Rightarrow>
    (radio_target \<times> watched option) res io" where
  "radio_network b hz dir net w t = do {
     data \<leftarrow> ask (ReadFile (rb_conf b));
     (case data of
        Inl e \<Rightarrow> ret (Inl e)
      | Inr data \<Rightarrow> do {
          let ctrl = path_join [dir, ''wpa''];
          let conf = path_join [dir, ''wpa_supplicant.conf''];
          e \<leftarrow> do_sys (WriteFile conf (bench_conf ctrl data) 384);
          (case e of
             Some e \<Rightarrow> ret (Inl e)
           | None \<Rightarrow> with_proc (path_join [dir, ''wpa_supplicant.log''])
               (in_radio [''wpa_supplicant'', ''-i'', net, ''-D'', ''nl80211'', ''-c'', conf])
               (radio_session b hz dir ctrl net w t))})}"

definition radio_served :: "radio_bench \<Rightarrow> float \<Rightarrow> string \<Rightarrow> string \<Rightarrow> watched option \<Rightarrow> radio_target \<Rightarrow>
    (radio_target \<times> watched option) res io" where
  "radio_served b hz dir net w t =
     (if rb_no_server b then radio_network b hz dir net w t
      else with_proc (path_join [dir, ''iperf3-server.log''])
        [''iperf3'', ''-s'', ''-B'', rb_server b, ''-p'', show_nat wlan_bench_port] (radio_network b hz dir net w t))"

definition radio_commands :: "string \<Rightarrow> string \<Rightarrow> string list list" where
  "radio_commands phy net =
     [[''ip'', ''netns'', ''add'', wlan_bench_ns], [''iw'', ''phy'', phy, ''set'', ''netns'', ''name'', wlan_bench_ns],
      in_radio [''ip'', ''link'', ''set'', ''lo'', ''up''], in_radio [''ip'', ''link'', ''set'', net, ''up'']]"

definition delete_radio :: "unit io" where
  "delete_radio = do {_ \<leftarrow> run_cmd ''ip'' [''netns'', ''del'', wlan_bench_ns]; ret ()}"

definition return_radio :: "string \<Rightarrow> string \<Rightarrow> unit io" where
  "return_radio phy net = do {
     _ \<leftarrow> run_argv (in_radio [''iw'', ''phy'', phy, ''set'', ''netns'', ''1'']);
     _ \<leftarrow> delete_radio;
     _ \<leftarrow> run_cmd ''nmcli'' [''device'', ''set'', net, ''managed'', ''yes''];
     ret ()}"

definition measure_radio :: "radio_bench \<Rightarrow> float \<Rightarrow> string \<Rightarrow> string \<Rightarrow> watched option \<Rightarrow> radio_target \<Rightarrow>
    (radio_target \<times> watched option) res io" where
  "measure_radio b hz phy net w t = (let dir = path_join [rb_out b, rt_name t] in do {
     _ \<leftarrow> sys (MkdirAll dir 493);
     _ \<leftarrow> release net;
     _ \<leftarrow> unblock phy;
     _ \<leftarrow> delete_radio;
     e \<leftarrow> first_error must_argv (radio_commands phy net);
     r \<leftarrow> (case e of Some e \<Rightarrow> ret (Inl e) | None \<Rightarrow> radio_served b hz dir net w t);
     _ \<leftarrow> return_radio phy net;
     ret r})"


subsection \<open>Targets\<close>

definition new_radio_target :: "string \<Rightarrow> radio_target" where
  "new_radio_target name = \<lparr>rt_name = name, rt_link = [], rt_runs = [], rt_idle = no_ping, rt_loaded = no_ping, rt_memory = None\<rparr>"

definition run_radio_native :: "radio_bench \<Rightarrow> float \<Rightarrow> radio_target \<Rightarrow> radio_target res io" where
  "run_radio_native b hz t = do {
     e \<leftarrow> bind_native (rb_card b);
     (case e of
        Some e \<Rightarrow> ret (Inl e)
      | None \<Rightarrow> do {
          (phy, net) \<leftarrow> bench_wiphy (pci_path (rb_card b) []);
          if net = [] then do {
            d \<leftarrow> pci_driver (rb_card b);
            ret (Inl (Msg (rb_card b @ CHR 0x27 # ''s driver '' @ go_quote d @ '' made no wiphy'')))}
          else do {
            r \<leftarrow> measure_radio b hz phy net None t;
            ret (map_sum id fst r)}})}"

definition guest_wiphy :: "guest \<Rightarrow> (string \<times> string) res io" where
  "guest_wiphy g = do {
     up \<leftarrow> wait_text g (wlan_bench_name @ '': created'') 120000;
     if \<not> up then ret (Inl guest_silent)
     else do {
       e \<leftarrow> attach_dev wlan_bench_name;
       (case e of
          Some e \<Rightarrow> ret (Inl e)
        | None \<Rightarrow> do {
            r \<leftarrow> sys (Glob (path_join [''/sys/bus/vdpa/devices'', wlan_bench_name, ''virtio*'']));
            (case (if succeeded r then snd r else []) of
               [] \<Rightarrow> ret (Inl (Msg ''virtio_vdpa made no virtio device''))
             | dev # _ \<Rightarrow> do {
                 (phy, net) \<leftarrow> bench_wiphy dev;
                 ret (if net = [] then Inl (Msg ''virtio_wlan made no wiphy'') else Inr (phy, net))})})}}"

definition finish_radio_guest :: "string \<Rightarrow> radio_target \<times> watched option \<Rightarrow> radio_target res io" where
  "finish_radio_guest cg r = (case r of
      (t, None) \<Rightarrow> ret (Inr t)
    | (t, Some w) \<Rightarrow> do {
        w \<leftarrow> sample_memory w;
        m \<leftarrow> memory_of cg w;
        ret (map_sum id (\<lambda>m. t\<lparr>rt_memory := Some m\<rparr>) m)})"

definition measure_radio_guest :: "radio_bench \<Rightarrow> float \<Rightarrow> string \<Rightarrow> radio_target \<Rightarrow> guest \<Rightarrow> radio_target res io" where
  "measure_radio_guest b hz cg t g = do {
     dev \<leftarrow> guest_wiphy g;
     (case dev of
        Inl e \<Rightarrow> ret (Inl e)
      | Inr (phy, net) \<Rightarrow> do {
          uml \<leftarrow> uml_pid (int_or_zero (g_pid g));
          if uml = 0 then ret (Inl no_uml)
          else do {
            w \<leftarrow> watch_guest (rb_mem b) g uml;
            r \<leftarrow> measure_radio b hz phy net (Some w) t;
            (case r of Inl e \<Rightarrow> ret (Inl e) | Inr r \<Rightarrow> finish_radio_guest cg r)}})}"

definition radio_launch :: "radio_bench \<Rightarrow> string \<Rightarrow> string \<Rightarrow> launch" where
  "radio_launch b logs cg = \<lparr>l_build = rb_build b, l_type = ''wlan'', l_name = wlan_bench_name, l_options = [],
     l_log_dir = logs, l_devices = [rb_card b], l_args = [''mem='' @ rb_mem b], l_cgroup = cg\<rparr>"

definition run_radio_guest :: "radio_bench \<Rightarrow> float \<Rightarrow> radio_target \<Rightarrow> radio_target res io" where
  "run_radio_guest b hz t = with_guest_in wlan_bench_name (rb_out b) (radio_launch b) (\<lambda>cg g. measure_radio_guest b hz cg t g)"

subsection \<open>results.json\<close>

text \<open>The figures of a ping, of which infinity has no JSON. A struct without tags has its fields' names.\<close>

definition ping_json :: "ping \<Rightarrow> json option" where
  "ping_json p = (case (p_loss p, p_min p, p_avg p, p_max p, p_mdev p) of
      (Some loss, Some least, Some avg, Some most, Some mdev) \<Rightarrow>
        Some (JObj [(''Received'', int_json (p_received p)), (''Loss'', float_json loss), (''Min'', float_json least),
          (''Avg'', float_json avg), (''Max'', float_json most), (''Mdev'', float_json mdev)])
    | _ \<Rightarrow> None)"

definition radio_run_json :: "radio_run \<Rightarrow> json" where
  "radio_run_json r = JObj
    ([(''dir'', JStr (rr_dir r)), (''rep'', int_json (rr_rep r)), (''mbps'', float_json (rr_mbps r)),
      (''retransmits'', int_json (rr_retransmits r)), (''host_cpus'', float_json (rr_host r))] @
     unless (flt_zero (rr_uml r)) (''uml_cpus'', float_json (rr_uml r)))"

definition radio_target_json :: "radio_target \<Rightarrow> json option" where
  "radio_target_json t = (case (ping_json (rt_idle t), ping_json (rt_loaded t)) of
      (Some idle, Some loaded) \<Rightarrow> Some (JObj
        ([(''name'', JStr (rt_name t)), (''link'', map_json JStr (rt_link t)), (''runs'', slice_json radio_run_json (rt_runs t)),
          (''ping_idle'', idle), (''ping_loaded'', loaded)] @ memory_member (rt_memory t)))
    | _ \<Rightarrow> None)"

definition radio_results_json :: "radio_results \<Rightarrow> json option" where
  "radio_results_json r = (if None \<in> radio_target_json ` set (rx_targets r) then None
     else Some (JObj [(''host'', map_json JStr (rx_host r)),
       (''targets'', slice_json (\<lambda>t. the (radio_target_json t)) (rx_targets r))]))"

text \<open>The error of the encoder is ignored, which leaves only the newline.\<close>

definition radio_file :: "radio_results \<Rightarrow> string" where
  "radio_file r = (case radio_results_json r of None \<Rightarrow> [newline] | Some v \<Rightarrow> json_file v)"

definition set_figure :: "float option \<Rightarrow> json \<Rightarrow> float option option" where
  "set_figure old v = (if v = JNull then Some old else map_option Some (set_float zero v))"

definition set_ping :: "ping \<Rightarrow> json \<Rightarrow> ping option" where
  "set_ping = set_fields
    [(''received'', \<lambda>p v. map_option (\<lambda>x. p\<lparr>p_received := x\<rparr>) (set_int64 (p_received p) v)),
     (''loss'', \<lambda>p v. map_option (\<lambda>x. p\<lparr>p_loss := x\<rparr>) (set_figure (p_loss p) v)),
     (''min'', \<lambda>p v. map_option (\<lambda>x. p\<lparr>p_min := x\<rparr>) (set_figure (p_min p) v)),
     (''avg'', \<lambda>p v. map_option (\<lambda>x. p\<lparr>p_avg := x\<rparr>) (set_figure (p_avg p) v)),
     (''max'', \<lambda>p v. map_option (\<lambda>x. p\<lparr>p_max := x\<rparr>) (set_figure (p_max p) v)),
     (''mdev'', \<lambda>p v. map_option (\<lambda>x. p\<lparr>p_mdev := x\<rparr>) (set_figure (p_mdev p) v))]"

definition no_radio_run :: radio_run where
  "no_radio_run = \<lparr>rr_dir = [], rr_rep = 0, rr_mbps = zero, rr_retransmits = 0, rr_host = zero, rr_uml = zero\<rparr>"

definition set_radio_run :: "radio_run \<Rightarrow> json \<Rightarrow> radio_run option" where
  "set_radio_run = set_fields
    [(''dir'', \<lambda>r v. map_option (\<lambda>x. r\<lparr>rr_dir := x\<rparr>) (set_string (rr_dir r) v)),
     (''rep'', \<lambda>r v. map_option (\<lambda>x. r\<lparr>rr_rep := x\<rparr>) (set_int64 (rr_rep r) v)),
     (''mbps'', \<lambda>r v. map_option (\<lambda>x. r\<lparr>rr_mbps := x\<rparr>) (set_float (rr_mbps r) v)),
     (''retransmits'', \<lambda>r v. map_option (\<lambda>x. r\<lparr>rr_retransmits := x\<rparr>) (set_int64 (rr_retransmits r) v)),
     (''host_cpus'', \<lambda>r v. map_option (\<lambda>x. r\<lparr>rr_host := x\<rparr>) (set_float (rr_host r) v)),
     (''uml_cpus'', \<lambda>r v. map_option (\<lambda>x. r\<lparr>rr_uml := x\<rparr>) (set_float (rr_uml r) v))]"

definition set_radio_target :: "radio_target \<Rightarrow> json \<Rightarrow> radio_target option" where
  "set_radio_target = set_fields
    [(''name'', \<lambda>t v. map_option (\<lambda>x. t\<lparr>rt_name := x\<rparr>) (set_string (rt_name t) v)),
     (''link'', \<lambda>t v. map_option (\<lambda>x. t\<lparr>rt_link := x\<rparr>) (set_map set_string [] (rt_link t) v)),
     (''runs'', \<lambda>t v. map_option (\<lambda>x. t\<lparr>rt_runs := x\<rparr>) (set_slice set_radio_run no_radio_run (rt_runs t) v)),
     (''ping_idle'', \<lambda>t v. map_option (\<lambda>x. t\<lparr>rt_idle := x\<rparr>) (set_ping (rt_idle t) v)),
     (''ping_loaded'', \<lambda>t v. map_option (\<lambda>x. t\<lparr>rt_loaded := x\<rparr>) (set_ping (rt_loaded t) v)),
     (''memory'', \<lambda>t v. map_option (\<lambda>x. t\<lparr>rt_memory := x\<rparr>) (set_opt set_memory (no_memory []) (rt_memory t) v))]"

definition set_radio_results :: "radio_results \<Rightarrow> json \<Rightarrow> radio_results option" where
  "set_radio_results = set_fields
    [(''host'', \<lambda>r v. map_option (\<lambda>x. r\<lparr>rx_host := x\<rparr>) (set_map set_string [] (rx_host r) v)),
     (''targets'', \<lambda>r v. map_option (\<lambda>x. r\<lparr>rx_targets := x\<rparr>) (set_slice set_radio_target (new_radio_target []) (rx_targets r) v))]"

definition read_radio_results :: "string \<Rightarrow> radio_results option" where
  "read_radio_results = unmarshal_with set_radio_results \<lparr>rx_host = [], rx_targets = []\<rparr>"


subsection \<open>The summary\<close>

definition show_figure :: "nat \<Rightarrow> float option \<Rightarrow> string" where
  "show_figure prec x = (case x of None \<Rightarrow> ''+Inf'' | Some x \<Rightarrow> show_float prec x)"

definition radio_row :: "radio_target \<Rightarrow> bool \<Rightarrow> string" where
  "radio_row t back =
     (let rs = filter (\<lambda>r. rr_dir r = direction back) (rt_runs t); mbps = map rr_mbps rs
      in if rs = [] then []
         else ''  '' @ pad_right 9 (direction back) @ '' '' @ column 8 1 (bench_median mbps) @ '' '' @
           column 8 1 (foldl flt_min (hd mbps) mbps) @ '' '' @ column 8 1 (foldl flt_max (hd mbps) mbps) @ '' '' @
           column 9 2 (bench_median (map rr_host rs)) @ '' '' @ column 8 2 (bench_median (map rr_uml rs)) @ [newline])"

definition ping_row :: "string \<Rightarrow> ping \<Rightarrow> string" where
  "ping_row name p = ''  ping '' @ pad_right 6 name @ '' avg '' @ show_figure 2 (p_avg p) @ '' ms, max '' @
     show_figure 2 (p_max p) @ '' ms, mdev '' @ show_figure 2 (p_mdev p) @ '' ms, loss '' @ show_figure 0 (p_loss p) @ ''%'' @ [newline]"

definition radio_part :: "radio_target \<Rightarrow> string" where
  "radio_part t = (let l = map_get [] (rt_link t) in
     rt_name t @ '': '' @ l ''freq'' @ '' MHz, '' @ l ''SSID'' @ '', tx '' @ l ''tx bitrate'' @ '', rx '' @ l ''rx bitrate'' @ [newline] @
     ''  '' @ pad_right 9 [] @ '' '' @ pad_left 8 ''Mb/s'' @ '' '' @ pad_left 8 ''min'' @ '' '' @ pad_left 8 ''max'' @ '' '' @
     pad_left 9 ''host_cpus'' @ '' '' @ pad_left 8 ''uml_cpus'' @ [newline] @
     concat (map (radio_row t) [False, True]) @ ping_row ''idle'' (rt_idle t) @ ping_row ''loaded'' (rt_loaded t) @ [newline])"

definition radio_summary :: "radio_results \<Rightarrow> string" where
  "radio_summary r = concat (map radio_part (rx_targets r)) @
     concat (map (\<lambda>t. case rt_memory t of None \<Rightarrow> []
       | Some m \<Rightarrow> rt_name t @ '' memory, '' @ mem_summary m @ [newline, newline]) (rx_targets r)) @
     lines_of [''Mb/s is the median over the repetitions. host_cpus is how many of the'',
       ''host's CPUs were busy, and uml_cpus how many the guest's UML process took.'']"


subsection \<open>The commands\<close>

definition run_radio_target :: "radio_bench \<Rightarrow> float \<Rightarrow> string \<Rightarrow> radio_target res io" where
  "run_radio_target b hz name = do {
     _ \<leftarrow> println (''== '' @ name);
     (if name = ''native'' then run_radio_native b hz (new_radio_target name) else run_radio_guest b hz (new_radio_target name))}"

fun run_radio_targets :: "radio_bench \<Rightarrow> float \<Rightarrow> radio_results \<Rightarrow> string list \<Rightarrow> (radio_results \<times> err option) io" where
  "run_radio_targets b hz r [] = ret (r, None)"
| "run_radio_targets b hz r (name # rest) = do {
     ended \<leftarrow> ctx_ended;
     if ended then ret (r, Some (Msg ''stopped by a signal''))
     else do {
       t \<leftarrow> run_radio_target b hz name;
       (case t of
          Inl e \<Rightarrow> ret (r, Some (Msg (name @ '': '' @ err_text e)))
        | Inr t \<Rightarrow> do {
            let r = r\<lparr>rx_targets := rx_targets r @ [t]\<rparr>;
            e \<leftarrow> do_sys (WriteFile (path_join [rb_out b, ''results.json'']) (radio_file r) 420);
            if e \<noteq> None then ret (r, e) else run_radio_targets b hz r rest})}}"

text \<open>The card goes back to the driver it had.\<close>

definition return_card :: "string \<Rightarrow> string \<Rightarrow> unit io" where
  "return_card card' before = do {
     _ \<leftarrow> cleanup_dev wlan_bench_name;
     d \<leftarrow> pci_driver card';
     if d = before then ret ()
     else if before = ''vfio-pci'' then do {_ \<leftarrow> bind_vfio card'; ret ()}
     else do {_ \<leftarrow> bind_native card'; ret ()}}"

definition measure_wlan :: "radio_bench \<Rightarrow> float \<Rightarrow> string go_map \<Rightarrow> string list \<Rightarrow> err option io" where
  "measure_wlan b hz host targets = do {
     before \<leftarrow> pci_driver (rb_card b);
     (r, e) \<leftarrow> run_radio_targets b hz \<lparr>rx_host = host, rx_targets = []\<rparr> targets;
     e \<leftarrow> (if e \<noteq> None then ret e else print_summary (rb_out b) (radio_summary r));
     _ \<leftarrow> return_card (rb_card b) before;
     ret e}"

definition radio_host_info :: "radio_bench \<Rightarrow> string go_map io" where
  "radio_host_info b = do {
     uname \<leftarrow> run_trimmed ''uname'' [''-a''];
     pci \<leftarrow> run_trimmed ''lspci'' [''-s'', rb_card b];
     ret (map_from [(''uname'', uname), (''card'', pci), (''server'', rb_server b), (''reps'', show_int (rb_reps b)),
       (''time'', show_int (rb_seconds b))])}"

definition radio_tools :: "string list" where
  "radio_tools = [''iw'', ''wpa_supplicant'', ''wpa_cli'', ''iperf3'', ''busybox'', ''vdpa'', ''ping'']"

definition radio_host :: "radio_bench \<Rightarrow> err option io" where
  "radio_host b = and_then (bench_log (rb_out b)) (and_then (first_error need_tool radio_tools)
     (and_then (modprobe [''cfg80211'', ''vduse'', ''vdpa'', ''virtio_vdpa'', ''virtio_wlan'', ''vfio-pci''])
       (and_then (none_left [wlan_bench_name]) (card_free (rb_card b)))))"

definition run_wlan_bench :: "radio_bench \<Rightarrow> float \<Rightarrow> string list \<Rightarrow> err option io" where
  "run_wlan_bench b hz targets = and_then (radio_host b) (do {
     host \<leftarrow> radio_host_info b;
     and_then (do_sys (WriteFile (path_join [rb_out b, ''udhcpc.sh'']) wlan_bench_udhcpc 493)) (measure_wlan b hz host targets)})"

definition wlan_bench_usage :: string where
  "wlan_bench_usage = lines_of
    [''usage: invirtio-test bench-wlan [options] -conf <wpa_supplicant.conf> -server <address> [<target>...]'', [],
     ''Measure a WiFi card's throughput and latency against an iperf3 server that'',
     ''is reached through the access point. Each target is one of:'',
     ''  native   the card on its host driver'',
     ''  guest    the card driven by the invirtio guest under the launcher and'',
     ''           exported to the host's virtio_wlan'', [],
     ''The default runs both. For each, the interface is taken from'',
     ''NetworkManager and the system wpa_supplicant, and its wiphy moves into the'',
     ''network namespace wlan-bench, so that traffic to a server on this host'',
     ''crosses the radio instead of being delivered locally. There it joins the'',
     ''network of -conf with wpa_supplicant and gets a lease with busybox udhcpc.'',
     ''The server is one of this host's addresses on the access point's uplink,'',
     ''where bench-wlan runs an iperf3 server on port 5299 unless -no-server is'',
     ''given, or a host behind the access point that runs one. Each target runs'',
     ''iperf3 TCP to the server and from it, -reps times for -time seconds, and'',
     ''pings the server idle and during one more download. A run's CPU use is how'',
     ''many of the host's CPUs were busy, and with the guest, how many its UML'',
     ''process took. The guest runs with -mem in a cgroup of its own, as'',
     ''invirtio's guests do, and the results record the cgroup's peak memory and'',
     ''the most memory that the guest itself used between runs. The card must not'',
     ''be in use, so stop its invirtio service'',
     ''first, and it is returned to its driver afterwards. Build the guest with'',
     ''scripts/invirtio-build-guest.sh. The output directory gets results.json'',
     ''and the summary, which bench-wlan-summary prints again, and the logs. Run'',
     ''as root on the linux-host kernel, with iw, wpa_supplicant, iperf3 and'',
     ''busybox.'']"

definition wlan_bench_flags :: flag_set where
  "wlan_bench_flags = [(''guest'', StringFlag), (''out'', StringFlag), (''device'', StringFlag), (''conf'', StringFlag),
     (''server'', StringFlag), (''no-server'', BoolFlag), (''reps'', IntFlag), (''time'', IntFlag), (''mem'', StringFlag)]"

definition wlan_bench_defaults :: "string \<Rightarrow> flag_values" where
  "wlan_bench_defaults repo = Map.empty(''guest'' \<mapsto> path_join [repo, ''linux-uml/build-invirtio''],
     ''out'' \<mapsto> path_join [repo, ''build/bench-wlan''], ''device'' \<mapsto> ''0000:06:00.0'', ''reps'' \<mapsto> ''3'', ''time'' \<mapsto> ''10'',
     ''mem'' \<mapsto> ''256M'')"

definition new_radio_bench :: "flag_values \<Rightarrow> string \<Rightarrow> string \<Rightarrow> radio_bench" where
  "new_radio_bench v addr dir = \<lparr>rb_out = dir, rb_build = flag_string v ''guest'', rb_card = addr,
     rb_conf = flag_string v ''conf'', rb_server = flag_string v ''server'', rb_no_server = flag_bool v ''no-server'',
     rb_reps = flag_int v ''reps'', rb_seconds = flag_int v ''time'', rb_mem = flag_string v ''mem''\<rparr>"

definition cmd_bench_wlan :: "string list \<Rightarrow> outcome io" where
  "cmd_bench_wlan args = do {
     hz \<leftarrow> clock_ticks;
     repo \<leftarrow> repo_root;
     (case parse_flags wlan_bench_flags (wlan_bench_defaults repo) args of
        Inl n \<Rightarrow> usage_exit wlan_bench_usage n
      | Inr (v, rest) \<Rightarrow>
          (case card_targets rest of
             None \<Rightarrow> usage_exit wlan_bench_usage 2
           | Some targets \<Rightarrow>
               if flag_string v ''conf'' = [] \<or> flag_string v ''server'' = [] then usage_exit wlan_bench_usage 2
               else as_test_root (case normalize_address (flag_string v ''device'') of
                 Inl e \<Rightarrow> ret (Returned (Some e))
               | Inr addr \<Rightarrow> do {
                   p \<leftarrow> abs_path (flag_string v ''out'');
                   (case p of
                      Inl e \<Rightarrow> ret (Returned (Some e))
                    | Inr dir \<Rightarrow> do {
                        e \<leftarrow> run_wlan_bench (new_radio_bench v addr dir) hz targets;
                        ret (Returned e)})})))}"

definition cmd_bench_wlan_summary :: "string list \<Rightarrow> outcome io" where
  "cmd_bench_wlan_summary = summary_command
     (lines_of [''usage: invirtio-test bench-wlan-summary <output dir>'', [], ''Print the summary of a bench-wlan run from its results.json.''])
     (\<lambda>data. map_option radio_summary (read_radio_results data))"


subsection \<open>What was written is read\<close>

definition ping_ok :: "ping \<Rightarrow> bool" where
  "ping_ok p \<longleftrightarrow> in_int64 (p_received p) \<and> list_all (\<lambda>x. x \<noteq> None \<and> pred_option double x) [p_loss p, p_min p, p_avg p, p_max p, p_mdev p]"

definition radio_run_ok :: "radio_run \<Rightarrow> bool" where
  "radio_run_ok r \<longleftrightarrow> text_ok (rr_dir r) \<and> in_int64 (rr_rep r) \<and> double (rr_mbps r) \<and> in_int64 (rr_retransmits r) \<and>
     double (rr_host r) \<and> double (rr_uml r)"

definition radio_target_ok :: "radio_target \<Rightarrow> bool" where
  "radio_target_ok t \<longleftrightarrow> text_ok (rt_name t) \<and> map_ok text_ok (rt_link t) \<and> list_all radio_run_ok (rt_runs t) \<and>
     ping_ok (rt_idle t) \<and> ping_ok (rt_loaded t) \<and> pred_option memory_ok (rt_memory t)"

definition radio_results_ok :: "radio_results \<Rightarrow> bool" where
  "radio_results_ok r \<longleftrightarrow> map_ok text_ok (rx_host r) \<and> list_all radio_target_ok (rx_targets r)"

lemma ping_okE:
  assumes "ping_ok p"
  obtains n a b c d e where "p = \<lparr>p_received = n, p_loss = Some a, p_min = Some b, p_avg = Some c, p_max = Some d, p_mdev = Some e\<rparr>"
    "in_int64 n" "list_all double [a, b, c, d, e]"
  using assms by (cases p) (auto simp: ping_ok_def)

lemma set_figure_simps [simp]: "double x \<Longrightarrow> set_figure old (float_json x) = Some (Some x)"
  by (simp add: set_figure_def)

lemma ping_keys [simp]:
  "to_lower ''Received'' = ''received''" "to_lower ''Loss'' = ''loss''" "to_lower ''Min'' = ''min''"
  "to_lower ''Avg'' = ''avg''" "to_lower ''Max'' = ''max''" "to_lower ''Mdev'' = ''mdev''"
  by code_simp+

interpretation ping_codec: codec no_ping set_ping "\<lambda>p. the (ping_json p)" ping_ok
proof unfold_locales
  fix p assume "ping_ok p"
  then show "set_ping no_ping (the (ping_json p)) = Some p" "json_ok (the (ping_json p))"
    by (auto elim!: ping_okE simp: set_ping_def ping_json_def no_ping_def set_member_def intro!: ascii_text_ok)
qed

interpretation radio_run_codec: codec no_radio_run set_radio_run radio_run_json radio_run_ok
proof unfold_locales
  fix r assume r: "radio_run_ok r"
  then show "set_radio_run no_radio_run (radio_run_json r) = Some r"
    by (cases r) (simp add: set_radio_run_def radio_run_json_def no_radio_run_def radio_run_ok_def zero_figure decode_simps)
  from r show "json_ok (radio_run_json r)"
    by (auto simp: radio_run_json_def radio_run_ok_def intro!: ascii_text_ok)
qed

lemma ping_encoded: "ping_ok p \<Longrightarrow> \<exists>v. ping_json p = Some v"
  by (auto elim!: ping_okE simp: ping_json_def)

interpretation radio_target_codec: codec "new_radio_target []" set_radio_target "\<lambda>t. the (radio_target_json t)" radio_target_ok
proof unfold_locales
  fix t assume ok: "radio_target_ok t"
  obtain name link rs p q mem where t: "t = \<lparr>rt_name = name, rt_link = link, rt_runs = rs, rt_idle = p, rt_loaded = q, rt_memory = mem\<rparr>"
    by (cases t)
  have pq: "ping_ok p" "ping_ok q" using ok by (simp_all add: radio_target_ok_def t)
  then obtain v w where v: "ping_json p = Some v" "ping_json q = Some w" by (meson ping_encoded)
  have d: "set_ping no_ping v = Some p" "set_ping no_ping w = Some q" "json_ok v" "json_ok w"
    using ping_codec.decodes [OF pq(1)] ping_codec.decodes [OF pq(2)] ping_codec.encodes [OF pq(1)] ping_codec.encodes [OF pq(2)]
    by (simp_all add: v)
  show "set_radio_target (new_radio_target []) (the (radio_target_json t)) = Some t"
    using ok d set_memory_member [of mem]
    by (cases mem) (simp_all add: t v set_radio_target_def radio_target_json_def new_radio_target_def
      radio_target_ok_def radio_run_codec.slice string_codec.entries_all memory_member_def decode_simps)
  show "json_ok (the (radio_target_json t))"
    using ok d by (cases mem) (auto simp: t v radio_target_json_def radio_target_ok_def members_memory
      radio_run_codec.slice_ok string_codec.entries_ok memory_codec.encodes intro!: ascii_text_ok)
qed

lemma target_encoded:
  assumes "radio_target_ok t"
  shows "radio_target_json t \<noteq> None"
proof -
  obtain v w where "ping_json (rt_idle t) = Some v" "ping_json (rt_loaded t) = Some w"
    using assms ping_encoded unfolding radio_target_ok_def by meson
  then show ?thesis by (simp add: radio_target_json_def)
qed

text \<open>
  The results of the WiFi benchmark whose figures are finite are read back as they were written. The error of
  the encoder, which the code ignores, does not occur for them.
\<close>

lemma radio_results_read:
  assumes "radio_results_ok r"
  shows "read_radio_results (radio_file r) = Some r"
proof -
  have ts: "list_all radio_target_ok (rx_targets r)" and h: "map_ok text_ok (rx_host r)"
    using assms by (simp_all add: radio_results_ok_def)
  let ?v = "JObj [(''host'', map_json JStr (rx_host r)), (''targets'', slice_json (\<lambda>t. the (radio_target_json t)) (rx_targets r))]"
  have "radio_results_json r = Some ?v"
    using ts by (auto simp: radio_results_json_def list_all_iff dest!: target_encoded dest: sym)
  moreover have v: "json_ok ?v"
    by (auto simp: radio_target_codec.slice_ok [OF ts] string_codec.entries_ok [OF h] intro!: ascii_text_ok)
  moreover have "read_json (json_file ?v) = Some ?v"
    unfolding json_file_def using v by (rule read_show_json) simp
  moreover have "set_radio_results \<lparr>rx_host = [], rx_targets = []\<rparr> ?v = Some r"
    by (cases r) (use radio_target_codec.slice [OF ts] string_codec.entries_all [OF h] in \<open>simp add: set_radio_results_def decode_simps\<close>)
  ultimately show ?thesis
    by (simp only: read_radio_results_def radio_file_def unmarshal_with_def option.case)
qed

definition sample_radio_results :: radio_results where
  "sample_radio_results = \<lparr>rx_host = [(''server'', ''10.0.0.1'')], rx_targets = [(new_radio_target ''native'')
     \<lparr>rt_link := [(''SSID'', ''home''), (''freq'', ''5180'')],
      rt_runs := [no_radio_run\<lparr>rr_dir := ''upload'', rr_rep := 1, rr_mbps := Flt 6871947673600000 (- 38)\<rparr>]\<rparr>]\<rparr>"

lemma sample_radio_ok: "radio_results_ok sample_radio_results"
proof -
  have "double (Flt 6871947673600000 (- 38))" by (rule double_normal) simp_all
  then show ?thesis
    by (simp add: sample_radio_results_def radio_results_ok_def radio_target_ok_def radio_run_ok_def no_radio_run_def map_ok_def
      new_radio_target_def ping_ok_def no_ping_def ascii_text_ok in_int64_def max_int64_def)
qed

end
