(* ===== verification/Processes.thy ===== *)
theory Processes
  imports Rig
begin

text \<open>
  The processes that a command starts and does not see to their end. A process is one more from the call
  that starts it, and it is seen to its end by a wait without a limit, by a wait that succeeds, and by a look
  that finds it gone. An operation keeps the processes when it leaves none of its own, and it ends a process
  when it leaves none of its own and not that one.
\<close>

fun alive :: "string set \<Rightarrow> history \<Rightarrow> string set" where
  "alive S [] = S"
| "alive S ((c, r) # t) = alive (case c of
      StartProc a \<Rightarrow> if succeeded r then insert (datum r) S else S
    | GuestWait p n \<Rightarrow> if n = 0 \<or> succeeded r then S - {p} else S
    | GuestRunning p \<Rightarrow> if succeeded r then S else S - {p}
    | _ \<Rightarrow> S) t"

definition left :: "'a io \<Rightarrow> ('a \<Rightarrow> string set) \<Rightarrow> string set \<Rightarrow> bool" where
  "left m f A \<longleftrightarrow> emits m (\<lambda>x t. \<forall>S. alive (S \<union> A) t \<subseteq> S \<union> f x)"

abbreviation keeps :: "'a io \<Rightarrow> bool" where
  "keeps m \<equiv> left m (\<lambda>_. {}) {}"

abbreviation ends :: "string \<Rightarrow> 'a io \<Rightarrow> bool" where
  "ends p m \<equiv> left m (\<lambda>_. {}) {p}"

lemma alive_append [simp]: "alive S (t @ u) = alive (alive S t) u"
  by (induction t arbitrary: S) auto

lemma alive_mono: "S \<subseteq> T \<Longrightarrow> alive S t \<subseteq> alive T t"
proof (induction t arbitrary: S T)
  case (Cons c t)
  then show ?case by (cases c; cases "fst c") (auto intro!: Cons.IH split: call.splits)
qed simp

text \<open>What an operation leaves, of what it gets, is what the next one gets.\<close>

lemma left_bind:
  assumes "left m g A" "\<And>x. left (f x) h (g x)"
  shows "left (m \<bind> f) h A"
  unfolding left_def
proof (rule emits_bind [OF assms(1) [unfolded left_def]], rule emits_mono [OF assms(2) [unfolded left_def]], intro allI)
  fix x t y u S
  assume "\<forall>S. alive (S \<union> A) t \<subseteq> S \<union> g x" "\<forall>S. alive (S \<union> g x) u \<subseteq> S \<union> h y"
  then have "alive (alive (S \<union> A) t) u \<subseteq> S \<union> h y" using alive_mono [of "alive (S \<union> A) t" "S \<union> g x" u] by blast
  then show "alive (S \<union> A) (t @ u) \<subseteq> S \<union> h y" by simp
qed

lemma left_ret: "A \<subseteq> f x \<Longrightarrow> left (ret x) f A"
  unfolding left_def by (rule emits_ret) auto

lemma left_keeps: "keeps m \<Longrightarrow> left m (\<lambda>_. A) A"
  unfolding left_def
proof (erule emits_mono, intro allI)
  fix x :: 'a and t S
  assume "\<forall>S. alive (S \<union> {}) t \<subseteq> S \<union> {}"
  then show "alive (S \<union> A) t \<subseteq> S \<union> A" by (metis Un_empty_right)
qed

text \<open>Steps of an operation that get and leave the same.\<close>

lemma left_then: "keeps m \<Longrightarrow> (\<And>x. left (f x) h A) \<Longrightarrow> left (m \<bind> f) h A"
  by (rule left_bind [OF left_keeps])

lemma left_if: "(b \<Longrightarrow> left m f A) \<Longrightarrow> (\<not> b \<Longrightarrow> left n f A) \<Longrightarrow> left (if b then m else n) f A"
  by simp

lemma left_cases:
  "(a = None \<Longrightarrow> left m f A) \<Longrightarrow> (\<And>y. a = Some y \<Longrightarrow> left (g y) f A) \<Longrightarrow> left (case a of None \<Rightarrow> m | Some y \<Rightarrow> g y) f A"
  "(\<And>y. b = Inl y \<Longrightarrow> left (h y) f A) \<Longrightarrow> (\<And>y. b = Inr y \<Longrightarrow> left (k y) f A) \<Longrightarrow> left (case b of Inl y \<Rightarrow> h y | Inr y \<Rightarrow> k y) f A"
  "(c = [] \<Longrightarrow> left m f A) \<Longrightarrow> (\<And>y ys. c = y # ys \<Longrightarrow> left (l y ys) f A) \<Longrightarrow> left (case c of [] \<Rightarrow> m | y # ys \<Rightarrow> l y ys) f A"
  "(\<And>u v. d = (u, v) \<Longrightarrow> left (n u v) f A) \<Longrightarrow> left (case d of (u, v) \<Rightarrow> n u v) f A"
  by (auto split: option.split sum.split list.split prod.split)

fun starts_none :: "call \<Rightarrow> bool" where
  "starts_none (StartProc a) = False"
| "starts_none c = True"

lemma alive_none: "only starts_none t \<Longrightarrow> alive S t \<subseteq> S"
proof (induction t arbitrary: S)
  case (Cons c t)
  obtain k r where c: "c = (k, r)" by (cases c)
  have "alive S' t \<subseteq> S" if "S' \<subseteq> S" for S' using Cons.IH [of S'] Cons.prems that by (auto simp: c)
  with Cons.prems show ?case by (cases k) (auto simp: c)
qed simp

lemma keeps_makes: "makes starts_none m \<Longrightarrow> keeps m"
  unfolding left_def makes_def by (erule emits_mono) (simp add: alive_none)

lemma keeps_sys [intro!]:
  "starts_none c \<Longrightarrow> keeps (sys c)" "starts_none c \<Longrightarrow> keeps (do_sys c)" "starts_none c \<Longrightarrow> keeps (ask c)"
  "keeps (stat_ok p)" "keeps now" "keeps (println s)" "keeps (print s)"
  by (rule keeps_makes, simp add: makes_sys)+ (unfold print_def, intro left_then left_ret keeps_makes makes_sys, simp_all)

lemma keeps_lists: "(\<And>x. keeps (f x)) \<Longrightarrow> keeps (for_each f xs)" "(\<And>x. keeps (g x)) \<Longrightarrow> keeps (first_error g xs)"
  by (induction xs) (auto intro!: left_ret left_then left_cases)

lemma keeps_wait_loop:
  assumes "\<And>s. keeps (cond s)"
  shows "keeps (wait_loop cond timeout pause s)"
proof -
  have "keeps (wait_rounds k cond stop pause s)" for k stop s
    by (induction k arbitrary: s) (auto intro!: left_ret left_then left_if assms)
  then show ?thesis unfolding wait_loop_def by (intro left_then keeps_sys)
qed

lemma keeps_wait: "keeps cond \<Longrightarrow> keeps (wait cond timeout pause)"
  unfolding wait_def by (intro left_then left_ret keeps_wait_loop) simp_all

lemma keeps_and_then: "keeps m \<Longrightarrow> keeps n \<Longrightarrow> keeps (and_then m n)"
  unfolding and_then_def by (auto intro!: left_then left_ret split: option.split)

lemmas left_steps = left_then left_if left_cases left_ret empty_subsetI keeps_lists keeps_wait_loop keeps_wait keeps_and_then keeps_sys


subsection \<open>Operations that keep the processes\<close>

lemma keeps_io [intro!]:
  "keeps (sysfs_read p)" "keeps (sysfs_write p v)" "keeps (read_text p)" "keeps (command_run n xs)" "keeps ctx_ended"
  unfolding sysfs_read_def sysfs_write_def read_text_def command_run_def ctx_ended_def by (intro left_steps; simp)+

lemma keeps_run [intro!]:
  "keeps (run_context d n c xs)" "keeps (run_timeout n c xs)" "keeps (run_cmd c xs)" "keeps (must_run c xs)" "keeps (modprobe xs)"
  "keeps (glob_names p)" "keeps repo_root" "keeps (run_argv xs)"
  unfolding run_context_def run_timeout_def run_cmd_def must_run_def modprobe_def glob_names_def repo_root_def run_argv_def Let_def
  by (intro left_steps; simp)+

lemma keeps_loop: "(\<And>k. keeps (f k)) \<Longrightarrow> keeps (loop n f k)"
  by (induction n arbitrary: k) (auto intro!: left_ret left_then left_cases)

lemma keeps_vdpa [intro!]:
  "keeps (vdpa_remove n gone)" "keeps (vdpa_destroy n)" "keeps (cleanup_dev n)" "keeps (attach_dev n)" "keeps (vduse_exists n)"
proof -
  show r: "keeps (vdpa_remove n gone)" "keeps (vduse_exists n)" for n gone
    unfolding vdpa_remove_def vdpa_attached_def vduse_exists_def by (intro left_steps keeps_io; simp)+
  have "keeps (destroy_once n k)" for k
    unfolding destroy_once_def vdpa_attached_def by (intro left_steps; simp)
  then show d: "keeps (vdpa_destroy n)"
    unfolding vdpa_destroy_def by (intro left_steps keeps_loop r; simp)
  show "keeps (cleanup_dev n)" "keeps (attach_dev n)"
    unfolding cleanup_dev_def attach_dev_def vdpa_add_def bind_virtio_def Let_def by (intro left_steps keeps_io keeps_run d r; simp)+
qed

lemma keeps_guest [intro!]:
  "keeps (guest_log g)" "keeps (guest_running g)" "keeps (guest_output g l n)" "keeps (wait_text g s n)"
  "keeps (guest_signal g sig)" "keeps (guest_wait g n)" "keeps (guest_kill g)" "keeps (guest_stop g n)" "keeps (end_guest_of g)"
  unfolding guest_output_def guest_send_def wait_text_def shows_or_ended_def guest_log_def end_guest_of_def
    guest_stop_def guest_kill_def guest_signal_def guest_wait_def guest_running_def Let_def
  by (intro left_steps keeps_io; simp)+

lemma keeps_reads [intro!]:
  "keeps (pci_driver a)" "keeps (iommu_group a)" "keeps (pci_netdev a)" "keeps (host_interfaces n)" "keeps (pci_holders a)"
  "keeps (uml_pid l)" "keeps (process_ticks pid)" "keeps host_cpu" "keeps online_cpus" "keeps (read_cgroup cg m)"
proof -
  show r: "keeps (pci_driver a)" "keeps (iommu_group a)" "keeps (pci_netdev a)" "keeps (host_interfaces n)"
    "keeps (process_ticks pid)" "keeps host_cpu" "keeps online_cpus" "keeps (read_cgroup cg m)" for a n pid cg m
    unfolding pci_driver_def iommu_group_def pci_netdev_def host_interfaces_def process_ticks_def host_cpu_def online_cpus_def
      read_cgroup_def read_number_def Let_def
    by (intro left_steps keeps_io keeps_run; simp)+
  have "only starts_none t" if "only (\<lambda>c. \<exists>p. c = Readlink p) t" for t using that by (rule only_mono) auto
  then have "keeps (holders_of dev pids fds)" for dev pids fds
    by (intro keeps_makes, unfold makes_def, intro emits_mono [OF holders_emits]) simp
  then show "keeps (pci_holders a)" unfolding pci_holders_def by (intro left_steps r; simp)
  have u: "keeps (parent_pid pid)" "keeps (is_uml pid)" for pid
    unfolding parent_pid_def is_uml_def by (intro left_steps keeps_io; simp)+
  have above: "keeps (above k l p)" for k l p
    by (induction k arbitrary: p) (auto intro!: left_steps u)
  have "keeps (first_uml l ps)" for l ps
    by (induction ps) (auto simp: below_def intro!: left_steps u above)
  then show "keeps (uml_pid l)" unfolding uml_pid_def by (intro left_steps; simp)
qed

lemma keeps_changes [intro!]:
  "keeps (bind_vfio a)" "keeps (bind_native a)" "keeps (place_irqs n c)" "keeps (release net)" "keeps (need_tool tool)"
  "keeps (tee_output p)" "keeps (make_log_dir n)" "keeps (make_cgroup n)" "keeps (remove_cgroup d)" "keeps (wait_netdev a k)"
  unfolding bind_vfio_def bind_native_def place_irqs_def place_irq_def release_def unmanaged_def without_supplicant_def
    need_tool_def tee_output_def make_log_dir_def make_cgroup_def remove_cgroup_def wait_netdev_def Let_def
  by (intro left_steps keeps_io keeps_run keeps_reads; simp)+


subsection \<open>Processes from their start to their end\<close>

abbreviation begun :: "('a \<Rightarrow> string) \<Rightarrow> 'a res \<Rightarrow> string set" where
  "begun pid r \<equiv> (case r of Inl _ \<Rightarrow> {} | Inr x \<Rightarrow> {pid x})"

lemma left_start: "left (ask (StartProc argv)) (begun id) {}"
  unfolding ask_def left_def
  by (intro emits_sys_bind emits_ret) (auto simp: result_succeeded)

lemma left_result:
  "(\<And>e. left (h e) f {}) \<Longrightarrow> (\<And>x. left (k x) f {pid x}) \<Longrightarrow> left (case r of Inl e \<Rightarrow> h e | Inr x \<Rightarrow> k x) f (begun pid r)"
  by (cases r) simp_all

lemma left_end: "left m (\<lambda>_. {}) A \<Longrightarrow> (\<And>x. keeps (f x)) \<Longrightarrow> left (m \<bind> f) (\<lambda>_. {}) A"
  by (rule left_bind)

lemma ends_wait: "ends p (sys (GuestWait p 0))"
  unfolding left_def by (rule emits_sys) auto

lemma ends_server: "ends p (stop_server p)"
  unfolding stop_server_def by (intro left_then keeps_sys left_end [OF ends_wait] left_ret) simp_all

lemma left_began: "(\<And>e. left (h e) f {}) \<Longrightarrow> (\<And>p. left (k p) f {p}) \<Longrightarrow>
    left (ask (StartProc argv) \<bind> (\<lambda>r. case r of Inl e \<Rightarrow> h e | Inr p \<Rightarrow> k p)) f {}"
  by (rule left_bind [OF left_start], rule left_result) simp_all

lemma left_began_then: "(\<And>e. keeps (h e)) \<Longrightarrow> (\<And>p. ends p (k p)) \<Longrightarrow> (\<And>x. keeps (f x)) \<Longrightarrow>
    keeps (ask (StartProc argv) \<bind> (\<lambda>r. (case r of Inl e \<Rightarrow> h e | Inr p \<Rightarrow> k p) \<bind> f))"
  by (rule left_bind [OF left_start], rule left_end, rule left_result) simp_all

lemma start_guest_left: "left (start_guest_proc path argv) (begun g_pid) {}"
  unfolding start_guest_proc_def close_failed_def
  by (intro left_began left_then keeps_sys left_cases left_ret) simp_all

lemma launch_guest_left: "left (launch_guest path l) (begun g_pid) {}"
  unfolding launch_guest_def by (intro left_then keeps_run start_guest_left)

text \<open>A guest is seen to its end: it is gone already, or its end is waited for, or it is killed.\<close>

lemma ends_gone: "(\<And>b. b \<Longrightarrow> ends (g_pid g) (f b)) \<Longrightarrow> keeps (f False) \<Longrightarrow> ends (g_pid g) (guest_running g \<bind> f)"
proof -
  assume f: "\<And>b. b \<Longrightarrow> ends (g_pid g) (f b)" "keeps (f False)"
  have "left (guest_running g) (\<lambda>b. if b then {g_pid g} else {}) {g_pid g}"
    unfolding guest_running_def left_def by (intro emits_sys_bind emits_ret) auto
  then show ?thesis by (rule left_bind) (use f in \<open>auto split: if_split\<close>)
qed

lemma ends_kill: "ends (g_pid g) (guest_kill g)"
  unfolding guest_kill_def guest_signal_def
  by (rule ends_gone) (auto intro!: left_end [OF ends_wait] left_end left_then left_ret)

lemma ends_guest: "ends (g_pid g) (end_guest_of g)"
  unfolding end_guest_of_def by (intro left_then ends_kill keeps_guest)

text \<open>What goes on between the start of a guest and its end.\<close>

lemma left_guest: "(\<And>e. left (h e) f {}) \<Longrightarrow> (\<And>g. left (k g) f {g_pid g}) \<Longrightarrow>
    left (start_guest_proc path argv \<bind> (\<lambda>r. case r of Inl e \<Rightarrow> h e | Inr g \<Rightarrow> k g)) f {}"
  by (rule left_bind [OF start_guest_left], rule left_result) simp_all

lemma left_launch: "(\<And>e. keeps (h e)) \<Longrightarrow> (\<And>g. ends (g_pid g) (k g)) \<Longrightarrow> (\<And>x. keeps (f x)) \<Longrightarrow>
    keeps (launch_guest path l \<bind> (\<lambda>r. (case r of Inl e \<Rightarrow> h e | Inr g \<Rightarrow> k g) \<bind> f))"
  by (rule left_bind [OF launch_guest_left], rule left_end, rule left_result) simp_all

text \<open>No process is left of an operation that keeps them.\<close>

lemma none_alive: "keeps m \<Longrightarrow> alive {} (snd (run e m)) = {}"
  using emits_run [of m _ e "fst (run e m)" "snd (run e m)"] unfolding left_def by fastforce

lemma left_frame: "left m f A \<Longrightarrow> left m (\<lambda>x. f x \<union> B) (A \<union> B)"
  unfolding left_def
proof (erule emits_mono, intro allI)
  fix x t S
  assume "\<forall>S. alive (S \<union> A) t \<subseteq> S \<union> f x"
  then have "alive ((S \<union> B) \<union> A) t \<subseteq> (S \<union> B) \<union> f x" by (rule spec)
  then show "alive (S \<union> (A \<union> B)) t \<subseteq> S \<union> (f x \<union> B)" by (simp add: Un_ac)
qed

lemma left_servers: "left (for_each stop_server ps) (\<lambda>_. {}) (set ps)"
proof (induction ps)
  case (Cons p ps)
  have "left (stop_server p) (\<lambda>_. set ps) (set (p # ps))"
    using left_frame [OF ends_server [of p], where B = "set ps"] by (simp only: list.set Un_empty_left insert_is_Un [of p "set ps", symmetric])
  then show ?case unfolding for_each.simps by (rule left_bind) (rule Cons.IH)
qed (auto intro!: left_ret)

end
