(* ===== verification/BenchRuns.thy ===== *)
theory BenchRuns
  imports WlanBench Processes
begin

text \<open>
  What the benchmarks leave behind: no process that they started, and no device of theirs.
\<close>

subsection \<open>The block benchmark\<close>

lemma keeps_fio: "keeps (run_fio b dir dev pid g rep j)"
  unfolding run_fio_def dump_guest_def process_time_def Let_def
  by (intro left_steps keeps_run keeps_guest keeps_reads; simp)

lemma keeps_fios: "keeps (run_fios b dir dev pid g t js)"
proof (induction js arbitrary: g t)
  case (Cons j js)
  then show ?case by (cases j) (auto intro!: left_steps keeps_fio)
qed (auto intro!: left_ret)

lemma keeps_bench_jobs [intro!]: "keeps (run_bench_jobs b t dev pid g)"
  unfolding run_bench_jobs_def Let_def by (intro left_steps keeps_io keeps_fios; simp)

lemma keeps_attach [intro!]: "keeps (bench_attach b name)"
proof -
  have "keeps (find_disk name dev)" for dev unfolding find_disk_def by (intro left_steps keeps_run; simp)
  then show ?thesis unfolding bench_attach_def
    by (auto intro!: left_steps split: option.split prod.split bool.split)
qed

lemma keeps_attach_and_run: "(\<And>dev. keeps (k dev)) \<Longrightarrow> keeps (attach_and_run b t name k)"
  unfolding attach_and_run_def by (intro left_steps keeps_attach; simp)

lemma keeps_unload [intro!]: "keeps unload_null_blk"
  unfolding unload_null_blk_def by (intro left_steps keeps_run; simp)

lemma keeps_native: "keeps (run_native b t)"
  unfolding run_native_def by (intro left_steps keeps_run keeps_unload keeps_bench_jobs; simp)

lemma ends_qsd: "ends pid (stop_qsd pid)"
  unfolding stop_qsd_def by (intro left_end [OF ends_wait] left_then keeps_sys keeps_vdpa left_ret) simp_all

lemma keeps_qsd: "keeps (run_qsd b t)"
  unfolding run_qsd_def Let_def
  by (intro left_if left_began_then left_then left_end [OF ends_qsd] left_ret keeps_wait keeps_attach_and_run keeps_vdpa
      keeps_bench_jobs keeps_sys; simp)

lemma ends_bench_guest: "ends (g_pid g) (stop_bench_guest g)"
  unfolding stop_bench_guest_def by (intro left_end [OF ends_guest] left_then keeps_vdpa)

lemma keeps_measure_guest: "keeps (measure_guest b t g)"
  unfolding measure_guest_def device_pid_def
  by (intro left_steps keeps_guest keeps_attach_and_run keeps_reads keeps_bench_jobs; simp)

lemma keeps_guest_target: "keeps (run_guest_target b t)"
proof -
  have "keeps (run_with_guest b t argv)" for argv
    unfolding run_with_guest_def by (intro left_guest left_then left_end [OF ends_bench_guest] keeps_measure_guest left_ret) simp_all
  then show ?thesis unfolding run_guest_target_def make_log_dir_def Let_def by (intro left_steps keeps_run; simp)
qed

lemma keeps_targets: "keeps (run_targets b r specs)"
proof (induction specs arbitrary: r)
  case (Cons spec specs)
  have "keeps (run_target b ts spec)" for ts
    unfolding run_target_def Let_def by (intro left_steps keeps_native keeps_qsd keeps_guest_target; simp)
  then show ?case unfolding run_targets.simps bench_save_def Let_def by (intro left_steps keeps_io Cons.IH; simp)
qed (auto intro!: left_ret)

lemma keeps_summary: "keeps (print_summary dir s)"
  unfolding print_summary_def by (intro left_steps; simp)

lemma keeps_blk: "keeps (measure_targets b host specs)"
  unfolding measure_targets_def bench_cleanup_def
  by (intro left_steps keeps_targets keeps_summary keeps_vdpa keeps_unload; simp)


subsection \<open>The network benchmark\<close>

lemma keeps_peer_on_host: "keeps peer_on_host"
  unfolding peer_on_host_def by (intro left_steps keeps_reads; simp)

lemma left_far: "left (far_stop f) (\<lambda>_. {}) (set (fe_servers f))"
  unfolding far_stop_def
  by (intro left_end [OF left_servers] left_then keeps_run keeps_peer_on_host left_ret) simp

abbreviation servers_of :: "far_end res \<Rightarrow> string set" where
  "servers_of r \<equiv> (case r of Inl _ \<Rightarrow> {} | Inr f \<Rightarrow> set (fe_servers f))"

lemma left_start_servers: "left (start_servers f servers) servers_of (set (fe_servers f))"
proof (induction servers arbitrary: f)
  case (Cons server servers)
  have "left (ask (StartProc (server_argv server))) (\<lambda>p. begun id p \<union> set (fe_servers f)) (set (fe_servers f))"
    using left_frame [OF left_start, where B = "set (fe_servers f)"] by (simp only: Un_empty_left)
  then show ?case unfolding start_servers.simps
  proof (rule left_bind)
    fix p
    show "left (case p of Inl e \<Rightarrow> far_stop f \<bind> (\<lambda>_. ret (Inl e))
        | Inr pid \<Rightarrow> start_servers (f\<lparr>fe_servers := fe_servers f @ [pid]\<rparr>) servers) servers_of (begun id p \<union> set (fe_servers f))"
    proof (cases p)
      case (Inl e)
      have "left (far_stop f \<bind> (\<lambda>_. ret (Inl e))) servers_of (set (fe_servers f))"
        by (rule left_bind [OF left_far]) (simp add: left_ret)
      with Inl show ?thesis by simp
    next
      case (Inr pid)
      with Cons.IH [of "f\<lparr>fe_servers := fe_servers f @ [pid]\<rparr>"] show ?thesis by (simp add: Un_commute)
    qed
  qed
qed (auto intro!: left_ret)


lemma keeps_commands: "keeps (first_error must_argv cmds)"
  unfolding must_argv_def by (intro keeps_lists keeps_run)

lemma left_start_peer: "left (start_peer addr servers) servers_of {}"
proof -
  let ?f = "\<lambda>net flag. \<lparr>fe_net = net, fe_servers = [], fe_link_down = flag\<rparr>"
  have started: "left (start_servers (?f net flag) servers) servers_of {}" for net flag
    using left_start_servers [of "?f net flag" servers] by simp
  have "keeps (far_stop (?f net flag))" for net flag using left_far [of "?f net flag"] by simp
  then have stopped: "left (far_stop (?f net flag) \<bind> (\<lambda>_. ret (Inl e))) servers_of {}" for net flag e
    by (intro left_then left_ret) simp_all
  show ?thesis unfolding start_peer_def Let_def
    by (intro started stopped left_then keeps_run keeps_peer_on_host keeps_reads keeps_changes keeps_commands left_if left_cases
        left_ret) simp_all
qed

lemma keeps_net_run: "keeps (net_run_in b ns secs argv)"
  unfolding net_run_in_def Let_def by (rule keeps_run)

lemma keeps_net_job: "keeps (run_net_job l b ns)"
  unfolding run_net_job_def net_bench_tcp_def net_bench_udp_def net_bench_rr_def net_bench_ping_def bench_iperf_def Let_def
  by (cases l) (auto intro!: left_steps keeps_net_run split: prod.split)

lemma keeps_meter: "keeps (start_meter uml)" "keeps (stop_meter hz m)"
  unfolding start_meter_def stop_meter_def by (intro left_steps keeps_reads; simp)+

lemma keeps_sample: "keeps (sample_memory w)" "keeps (guest_cpu g)" "keeps (sample_watched v)" "keeps (watch_guest mem g uml)"
  "keeps (memory_of cg w)"
  unfolding sample_memory_def guest_cpu_def sample_watched_def watch_guest_def memory_of_def
  by (intro left_steps keeps_guest keeps_reads; simp)+

lemma keeps_net_once: "keeps (net_run_once b hz ns w j rep)"
  unfolding net_run_once_def watch_before_def watch_after_def Let_def
  by (intro left_steps keeps_net_job keeps_meter keeps_sample; simp)

lemma keeps_net_jobs: "keeps (run_net_jobs b hz ns w rs js)"
proof (induction js arbitrary: w rs)
  case (Cons j js)
  then show ?case by (cases j) (auto intro!: left_steps keeps_net_once keeps_io)
qed (auto intro!: left_ret)

lemma keeps_carrier: "keeps (carrier_in ns net)"
  unfolding carrier_in_def by (intro left_steps keeps_run; simp)

lemma keeps_net_native: "keeps (run_net_native b hz t)"
  unfolding run_net_native_def measure_native_def delete_native_def
  by (intro left_steps keeps_run keeps_reads keeps_changes keeps_commands keeps_carrier keeps_net_jobs; simp)

lemma keeps_net_guest: "keeps (measure_net_guest b hz cg t g)"
proof -
  have "keeps (find_bench_interface name net)" for name net
    unfolding find_bench_interface_def Let_def by (intro left_steps keeps_reads; simp)
  then have "keeps (bench_interface name)" for name unfolding bench_interface_def by (intro left_steps; simp)
  then have "keeps (guest_interface g)" for g
    unfolding guest_interface_def by (intro left_steps keeps_guest keeps_vdpa keeps_changes keeps_commands keeps_carrier; simp)
  then show ?thesis unfolding measure_net_guest_def shell_ready_def finish_net_guest_def
    by (intro left_steps keeps_guest keeps_reads keeps_sample keeps_net_jobs; simp)
qed

lemma ends_launched: "ends (g_pid g) (end_bench_guest name g)"
  unfolding end_bench_guest_def by (intro left_end [OF ends_guest] left_then keeps_vdpa keeps_guest)

lemma keeps_with_guest: "(\<And>cg g. keeps (k cg g)) \<Longrightarrow> keeps (with_guest_in name out_dir l k)"
  unfolding with_guest_in_def
  by (intro left_launch left_end [OF ends_launched] left_then left_cases left_ret keeps_changes keeps_sys; simp)

lemma keeps_net_targets: "keeps (run_net_targets b hz r ts)"
proof (induction ts arbitrary: r)
  case (Cons t ts)
  have "keeps (run_net_target b hz t)"
    unfolding run_net_target_def run_net_guest_def release_port_def
    by (intro left_steps keeps_net_native keeps_with_guest keeps_net_guest keeps_reads keeps_changes; simp)
  then show ?case unfolding run_net_targets.simps net_save_def Let_def by (intro left_steps keeps_io Cons.IH; simp)
qed (auto intro!: left_ret)

lemma keeps_net: "keeps (measure_net b hz driver host targets)"
  unfolding measure_net_def
proof (rule left_bind [OF left_start_peer])
  fix r
  have "left (net_bench_cleanup f driver) (\<lambda>_. {}) (set (fe_servers f))" for f
    unfolding net_bench_cleanup_def delete_native_def restore_port_def
    by (intro left_end [OF left_far] left_then left_if left_ret keeps_vdpa keeps_run keeps_reads keeps_changes; simp)
  note c = left_end [OF this]
  show "left (case r of Inl e \<Rightarrow> ret (Some e) | Inr f \<Rightarrow> do {
      (r, e) \<leftarrow> run_net_targets b hz \<lparr>nx_host = host, nx_targets = []\<rparr> targets;
      e \<leftarrow> (if e \<noteq> None then ret e else print_summary (nb_out b) (net_summary r));
      _ \<leftarrow> net_bench_cleanup f driver;
      ret e}) (\<lambda>_. {}) (servers_of r)"
    by (cases r) (auto intro!: c left_then left_cases left_if left_ret keeps_net_targets keeps_summary)
qed



subsection \<open>The WiFi benchmark\<close>

lemma ends_proc: "ends p (stop_proc p)"
proof -
  have "left (sys (GuestWait p 10000)) (\<lambda>r. if succeeded r then {} else {p}) {p}"
    unfolding left_def by (rule emits_sys) auto
  then have "ends p (sys (GuestWait p 10000) \<bind> (\<lambda>r. if succeeded r then ret () else stop_server p))"
  proof (rule left_bind)
    show "left (if succeeded r then ret () else stop_server p) (\<lambda>_. {}) (if succeeded r then {} else {p})" for r by (simp add: left_ret ends_server)
  qed
  then show ?thesis unfolding stop_proc_def by - (rule left_then, rule keeps_sys, simp_all)
qed

lemma keeps_with_proc:
  assumes "keeps m"
  shows "keeps (with_proc path argv m)"
proof -
  have "left (start_logged path argv) (begun id) {}"
    unfolding start_logged_def
  proof (intro left_then [OF keeps_sys(2)] left_cases(1) left_ret)
    show "left (ask (StartProc argv) \<bind> (\<lambda>p. sys (CloseFile path) \<bind> (\<lambda>_. ret p))) (begun id) {}"
      by (rule left_bind [OF left_start]) (intro left_then keeps_sys left_ret; simp)
  qed simp_all
  then show ?thesis unfolding with_proc_def
    by (rule left_bind, intro left_result) (auto intro!: left_ret left_then left_end [OF ends_proc] assms)
qed


lemma keeps_wiphy: "keeps (bench_wiphy dir)"
proof -
  have "keeps (look_wiphy dir old)" for old
    unfolding look_wiphy_def by (intro left_steps keeps_run; simp)
  then show ?thesis unfolding bench_wiphy_def by (auto intro!: left_steps split: option.split prod.split bool.split)
qed

lemma keeps_unblock: "keeps (unblock phy)"
  unfolding unblock_def by (intro left_steps keeps_io; simp)

lemma keeps_radio_run: "keeps (radio_run_in dir secs argv)"
  unfolding radio_run_in_def Let_def by (rule keeps_run)

lemma keeps_radio_iperf: "keeps (radio_iperf b dir down)"
proof -
  have "keeps (radio_tries k dir secs argv res)" for k secs argv res
  proof (induction k arbitrary: res)
    case (Suc k)
    show ?case unfolding radio_tries.simps Let_def by (intro left_steps keeps_radio_run Suc.IH; simp)
  qed (simp add: left_ret)
  then show ?thesis unfolding radio_iperf_def .
qed

lemma keeps_radio_ping: "keeps (radio_ping b dir n)"
  unfolding radio_ping_def by (intro left_steps keeps_radio_run; simp)

lemma keeps_radio_runs: "keeps (radio_runs b hz dir w rs js)"
proof (induction js arbitrary: w rs)
  case (Cons j js)
  have "keeps (radio_once b hz dir uml rep down)" for uml rep down
    unfolding radio_once_def by (intro left_steps keeps_meter keeps_radio_iperf; simp)
  with Cons show ?case by (cases j) (auto intro!: left_steps keeps_sample keeps_io)
qed (auto intro!: left_ret)

lemma keeps_radio: "keeps (measure_radio b hz phy net w t)"
proof -
  have "keeps (radio_figures b hz dir net w t)" for dir w t
    unfolding radio_figures_def radio_link_def loaded_ping_def Let_def
    by (intro left_steps keeps_run keeps_radio_ping keeps_radio_iperf keeps_radio_runs; simp)
  then have "keeps (radio_session b hz dir ctrl net w t)" for dir ctrl w t
    unfolding radio_session_def radio_joined_def radio_lease_def by (intro left_steps keeps_run; simp)
  then have "keeps (radio_network b hz dir net w t)" for dir w t
    unfolding radio_network_def Let_def by (intro left_steps keeps_with_proc; simp)
  then have "keeps (radio_served b hz dir net w t)" for dir w t
    unfolding radio_served_def by (intro left_if keeps_with_proc) simp_all
  then show ?thesis unfolding measure_radio_def delete_radio_def return_radio_def Let_def
    by (intro left_steps keeps_run keeps_changes keeps_commands keeps_unblock; simp)
qed

lemma keeps_radio_target: "keeps (run_radio_target b hz t)"
proof -
  have "keeps (guest_wiphy g)" for g
    unfolding guest_wiphy_def by (intro left_steps keeps_guest keeps_vdpa keeps_wiphy; simp)
  then have "keeps (measure_radio_guest b hz cg t g)" for cg t g
    unfolding measure_radio_guest_def finish_radio_guest_def by (intro left_steps keeps_reads keeps_sample keeps_radio; simp)
  then have "keeps (run_radio_guest b hz t)" for t
    unfolding run_radio_guest_def by (intro keeps_with_guest)
  moreover have "keeps (run_radio_native b hz t)" for t
    unfolding run_radio_native_def by (intro left_steps keeps_changes keeps_reads keeps_wiphy keeps_radio; simp)
  ultimately show ?thesis unfolding run_radio_target_def by (intro left_steps) simp_all
qed

lemma keeps_radio_targets: "keeps (run_radio_targets b hz r ts)"
proof (induction ts arbitrary: r)
  case (Cons t ts)
  then show ?case unfolding run_radio_targets.simps Let_def by (intro left_steps keeps_io keeps_radio_target Cons.IH; simp)
qed (auto intro!: left_ret)

lemma keeps_wlan: "keeps (measure_wlan b hz host targets)"
  unfolding measure_wlan_def return_card_def
  by (intro left_steps keeps_radio_targets keeps_reads keeps_changes keeps_vdpa keeps_summary; simp)


text \<open>
  C16 A benchmark sees every process that it started to its end: the guests, qemu-storage-daemon, the iperf3
  servers and netserver, and wpa_supplicant, whatever fails, whichever signal comes, and on every host.
\<close>

theorem bench_processes_end:
  "alive {} (snd (run e (measure_targets b host specs))) = {} \<and>
   alive {} (snd (run e (measure_net n hz driver host targets))) = {} \<and>
   alive {} (snd (run e (measure_wlan w hz host targets))) = {}"
  by (intro conjI none_alive keeps_blk keeps_net keeps_wlan)



subsection \<open>The devices\<close>

lemma calls_left: "left m f A \<Longrightarrow> emits m (\<lambda>x t. True)"
  unfolding left_def by (erule emits_mono) simp

abbreviation adds_none :: "'a io \<Rightarrow> bool" where
  "adds_none \<equiv> makes (\<lambda>c. \<not> is_add c)"

lemma adds_none_run: "adds_none (run_context d n c xs)" "adds_none (run_cmd c xs)" "adds_none (must_run c xs)"
  "adds_none (run_argv xs)"
  unfolding run_argv_def by (intro makes_run makes_cases makes_ret; simp add: is_add_def)+

lemma cleanup_adds_none: "adds_none (cleanup_dev n)"
  unfolding cleanup_dev_def vdpa_remove_def vdpa_attached_def command_run_def sysfs_write_def
  by (intro makes_steps destroy_adds_nothing [folded makes_def]) (simp_all add: is_add_def)

text \<open>A removal of the device that nothing but its end follows.\<close>

lemma removed_then: "emits m (\<lambda>x. removed_after n) \<Longrightarrow> (\<And>x. adds_none (f x)) \<Longrightarrow> emits (m \<bind> f) (\<lambda>x. removed_after n)"
  unfolding makes_def by (rule emits_bind, assumption, rule emits_mono, assumption) (rule removed_after_more)

lemma then_removed: "emits m (\<lambda>x t. True) \<Longrightarrow> (\<And>x. emits (f x) (\<lambda>x. removed_after n)) \<Longrightarrow> emits (m \<bind> f) (\<lambda>x. removed_after n)"
  by (rule emits_bind, assumption, rule emits_mono, assumption) (rule removed_after_append)

lemma unload_adds_none: "adds_none unload_null_blk"
  unfolding unload_null_blk_def by (intro makes_steps adds_none_run)

lemma blk_removes: "emits bench_cleanup (\<lambda>x. removed_after bench_name)" "emits bench_cleanup (\<lambda>x. removed_after bench_qsd_name)"
  unfolding bench_cleanup_def
  by (intro removed_then [OF cleanup_removes] makes_bind cleanup_adds_none unload_adds_none)
    (intro then_removed [OF calls_left [OF keeps_vdpa(3)]] removed_then [OF cleanup_removes] unload_adds_none)

lemma adds_none_card: "adds_none (pci_driver a)" "adds_none (sysfs_write p v)" "adds_none (bind_vfio a)" "adds_none (bind_native a)"
proof -
  show r: "adds_none (pci_driver a)" "adds_none (sysfs_write p v)" for a p v
    unfolding pci_driver_def sysfs_write_def by (intro makes_steps; simp add: is_add_def)+
  show "adds_none (bind_vfio a)" "adds_none (bind_native a)"
    unfolding bind_vfio_def bind_native_def by (intro makes_steps r; simp add: is_add_def)+
qed

lemma adds_none_far: "adds_none peer_on_host" "adds_none (far_stop f)"
proof -
  show p: "adds_none peer_on_host"
    unfolding peer_on_host_def pci_netdev_def glob_names_def by (intro makes_steps; simp add: is_add_def)
  have "adds_none (stop_server p)" for p unfolding stop_server_def by (intro makes_steps; simp add: is_add_def)
  then show "adds_none (far_stop f)"
    unfolding far_stop_def by (intro makes_steps adds_none_run p)
qed

lemma adds_none_peer: "adds_none (start_peer addr servers)"
proof -
  have "adds_none (start_servers f servers)" for f
  proof (induction servers arbitrary: f)
    case (Cons server servers)
    then show ?case unfolding start_servers.simps by (intro makes_steps adds_none_far Cons.IH) (simp add: is_add_def)
  qed (simp add: makes_ret)
  moreover have "adds_none (release net)" for net
    unfolding release_def unmanaged_def without_supplicant_def by (intro makes_steps adds_none_run; simp add: is_add_def)
  ultimately show ?thesis unfolding start_peer_def pci_netdev_def glob_names_def must_argv_def Let_def
    by (intro makes_steps adds_none_far adds_none_run; simp add: is_add_def)
qed

lemma net_removes: "emits (net_bench_cleanup f driver) (\<lambda>x. removed_after net_bench_name)"
  unfolding net_bench_cleanup_def restore_port_def delete_native_def
  by (intro removed_then [OF cleanup_removes] makes_steps adds_none_run adds_none_far adds_none_card)

lemma wlan_removes: "emits (return_card a d) (\<lambda>x. removed_after wlan_bench_name)"
  unfolding return_card_def by (intro removed_then [OF cleanup_removes] makes_steps adds_none_card)

text \<open>A device is not on the bus at the end: nothing added one, or it was removed after that.\<close>

definition off_bus :: "string \<Rightarrow> history \<Rightarrow> bool" where
  "off_bus name t \<longleftrightarrow> only (\<lambda>c. \<not> is_add c) t \<or> removed_after name t"

lemma removed_last:
  assumes "keeps m" "\<And>r e. keeps (p r e)" "emits c (\<lambda>x. removed_after n)"
  shows "emits (m \<bind> (\<lambda>(r, e). p r e \<bind> (\<lambda>e. c \<bind> (\<lambda>_. ret e)))) (\<lambda>x. removed_after n)"
proof (rule then_removed [OF calls_left [OF assms(1)]])
  show "emits (case x of (r, e) \<Rightarrow> p r e \<bind> (\<lambda>e. c \<bind> (\<lambda>_. ret e))) (\<lambda>x. removed_after n)" for x
    unfolding prod.case_eq_if by (intro then_removed [OF calls_left [OF assms(2)]] removed_then [OF assms(3)] makes_ret)
qed

lemma keeps_printed: "keeps (if e \<noteq> None then ret e else print_summary dir s)"
  by (simp add: left_ret keeps_summary)

lemma blk_off_bus: "emits (measure_targets b host specs) (\<lambda>x t. off_bus bench_name t \<and> off_bus bench_qsd_name t)"
  using emits_conj [OF blk_removes [THEN removed_last [OF keeps_targets keeps_printed]]]
  unfolding measure_targets_def off_bus_def by (rule emits_mono) auto

lemma net_off_bus: "emits (measure_net b hz driver host targets) (\<lambda>x. off_bus net_bench_name)"
  unfolding measure_net_def
proof (rule emits_bind [OF adds_none_peer [unfolded makes_def]])
  fix r t
  assume t: "only (\<lambda>c. \<not> is_add c) t"
  show "emits (case r of Inl e \<Rightarrow> ret (Some e) | Inr f \<Rightarrow> do {
      (r, e) \<leftarrow> run_net_targets b hz \<lparr>nx_host = host, nx_targets = []\<rparr> targets;
      e \<leftarrow> (if e \<noteq> None then ret e else print_summary (nb_out b) (net_summary r));
      _ \<leftarrow> net_bench_cleanup f driver;
      ret e}) (\<lambda>x u. off_bus net_bench_name (t @ u))"
  proof (cases r)
    case (Inl e)
    with t show ?thesis by (auto simp: off_bus_def intro!: emits_ret)
  next
    case (Inr f)
    show ?thesis unfolding Inr sum.case
      by (rule emits_mono [OF removed_last [OF keeps_net_targets keeps_printed net_removes]])
        (simp add: off_bus_def removed_after_append)
  qed
qed

lemma wlan_off_bus: "emits (measure_wlan b hz host targets) (\<lambda>x. off_bus wlan_bench_name)"
  unfolding measure_wlan_def
  by (rule emits_mono [OF then_removed [OF calls_left [OF keeps_reads(1)] removed_last [OF keeps_radio_targets keeps_printed wlan_removes]]])
    (simp add: off_bus_def)


subsection \<open>The results\<close>

text \<open>
  C31 The results that a benchmark saved are read back as they were by the command that prints them again:
  every float64 in the shortest text that stands for it, the members that are left out when they are zero, the
  maps in the order of their keys, and the pointers to a guest's memory. For the WiFi benchmark this needs its
  ping figures to be finite, since it ignores the error of the encoder.
\<close>

theorem results_read_back:
  assumes "bench_results_ok r" "net_results_ok n" "radio_results_ok w"
  shows "read_bench_results (json_file (bench_results_json r)) = Some r \<and>
    read_net_results (json_file (net_results_json n)) = Some n \<and> read_radio_results (radio_file w) = Some w"
  using assms by (simp add: bench_results_read net_results_read radio_results_read)

theorem results_read_back_witness:
  "read_bench_results (json_file (bench_results_json sample_bench_results)) = Some sample_bench_results \<and>
   read_net_results (json_file (net_results_json sample_net_results)) = Some sample_net_results \<and>
   read_radio_results (radio_file sample_radio_results) = Some sample_radio_results"
  by (rule results_read_back [OF sample_bench_ok sample_net_ok sample_radio_ok])

end
