(* ===== verification/Spec2Isabelle.thy ===== *)
theory Spec2Isabelle
  imports EscapeFilter LineLogger ConsoleServer Supervisor Commands BlkTests NetPeer WlanCountry BenchRuns
begin

text \<open>
  InvirtIO runs the driver of a host's WiFi or Ethernet device in a User Mode Linux guest and exports
  the device back to the host as a virtio device over VDUSE. This library is a model of its Go tools
  under src/tools, and of what makes them correct.

  \<^bold>\<open>The program.\<close> The command invirtio (cmd/invirtio) installs the guest, records devices in a
  configuration, and enables and disables them in stages of shell commands that it shows before it
  runs them. systemd runs \<open>invirtio run <name>\<close> for each device: it prepares the host, starts the
  launcher with the guest on a pty, attaches the guest's device to the vDPA bus, logs the console,
  serves it to clients on a socket, and cleans up when the guest ends. The packages under internal
  are what it does to the host: PCI drivers (pci), VDUSE devices (vdpa), files of sysfs (sysfs),
  commands (command) and the management console of a guest (mconsole). The command invirtio-test
  (cmd/invirtio-test) has tools for development and tests of the guests, on internal/harness.

  \<^bold>\<open>The host.\<close> Theory \<open>Host\<close> is the boundary: each thing that the program asks of the kernel, a command
  or a terminal is a value of the datatype \<open>call\<close>, and an environment answers it from the history of
  the calls before. An operation of the code is a computation of the state monad over the world, in
  the order of its calls, with its early returns, and errors are values of a sum type. \<open>emits m P\<close>
  states \<open>P\<close> of what \<open>m\<close> returns and of its calls in every environment; \<open>yields\<close> is for a host that does
  not change while it is looked at, and \<open>moves\<close> (Pci, Devices) for the documented rules of the PCI core,
  which are a hypothesis of the theorems that need them and have a witness. Go's ints are integers
  with \<open>wrap64\<close> where they can overflow, bytes are 8-bit words, strings are lists of characters as
  bytes, and maps are partial functions or, where their order is printed, lists.

  \<^bold>\<open>Base.\<close> \<open>Prelude\<close> has Go's packages strings, strconv and path/filepath as the tools use them. \<open>Utf8\<close>
  is unicode/utf8, \<open>Regex\<close> package regexp with its leftmost-first match, \<open>Json\<close> encoding/json, \<open>Glob\<close>
  path.Match and strconv.Quote, \<open>Sizes\<close> the sizes of memory, \<open>Flags\<close> package flag and the messages of
  main.go. \<open>Floats\<close> is float64: a number with its 53 bits, operations that round their exact result to the
  nearest number, and ParseFloat and fixed-point output on it. \<open>FloatText\<close> is the shortest text that
  encoding/json writes of a float64, with the theorem that it is read back as the same number.

  \<^bold>\<open>Interfaces.\<close> What components share is stated as locales, each interpreted on the code's model.
  \<open>byte_stage\<close> (Streams) is a filter of a byte stream whose output does not depend on how reads cut the
  stream. \<open>refines\<close> (Systems) is a step relation whose every run a deterministic specification accepts.
  \<open>failure_log\<close> and its extensions \<open>test_suite\<close> (Suite) and \<open>rig_log\<close> (Rig) are suites whose recorded and printed
  failures correspond. \<open>codec\<close> (Figures) is a type that is written as JSON and read back over its zero value,
  which gives the slices, maps and files of it.

  \<^bold>\<open>Console.\<close> \<open>EscapeFilter\<close> is the filter of console.go between a guest and a terminal; its theorems are
  that a terminal is safe from whatever the guest writes, that text passes unchanged, and that
  control strings are dropped. \<open>LineLogger\<close> is lineLogger of run.go, with clean and bounded lines in
  the journal. Both interpret \<open>byte_stage\<close>. \<open>ConsoleServer\<close> is the relay of the console to its clients,
  and \<open>ConsoleClient\<close> the command console; both are step relations of their goroutines that
  refine a specification with a log and positions in it.

  \<^bold>\<open>Devices of the host.\<close> \<open>Sysfs\<close>, \<open>Vdpa\<close> and \<open>Pci\<close> are the internal packages: the retries of
  Destroy, the order of Remove, the IOMMU group check, and the round trip of a device to vfio-pci and
  back. \<open>Memory\<close> is memory.go, \<open>Mconsole\<close> the packets of the management console, \<open>CpuMask\<close> the CPU masks,
  CPU lists and CPU times of internal/harness/cpu.go.

  \<^bold>\<open>Commands.\<close> \<open>Config\<close> is the configuration with its round trip and well-formedness; \<open>Plan\<close> the stages
  and actions, with what a dry run and a refused confirmation leave undone; \<open>Devices\<close> the commands
  enable, disable and uninstall; \<open>Install\<close> the command install; \<open>Status\<close> the commands status and list;
  \<open>RunSetup\<close> the command run up to the start of the guest; \<open>Supervisor\<close> what follows, as a step relation
  of its goroutines with a refinement and a progress theorem; \<open>Commands\<close> the dispatch of main.go.

  \<^bold>\<open>Tests.\<close> \<open>Waiting\<close> is Wait of internal/harness, \<open>Harness\<close> its checks, commands, kernel log and
  cgroups, \<open>Guest\<close> the guests that a test drives through their consoles, with launch.go and Release of
  netutil.go, and \<open>NetUtil\<close> the reports of ping and iperf3. \<open>TestDevices\<close> is main.go and devices.go of
  invirtio-test. \<open>Suite\<close> has a suite's state beside the world and the checker, \<open>Rig\<close> what the network and WiFi
  suites add to it, and \<open>BlkTests\<close>, \<open>NetTests\<close> and \<open>WlanTests\<close> are blk.go, net.go and wlan.go, with what the
  latter reads of iw in \<open>WlanParse\<close>. \<open>NetPeer\<close> and \<open>WlanCountry\<close> show what these suites leave: the far end
  returned and the country restored.

  \<^bold>\<open>Benchmarks.\<close> \<open>Figures\<close> has the median, the columns of the summaries and results.json. \<open>BlkBench\<close>, \<open>NetBench\<close>
  and \<open>WlanBench\<close> are blkbench.go, netbench.go and wlanbench.go: the jobs, what is parsed of fio, iperf3, netperf
  and ping, the targets with their guests and processes, the results and their summaries. \<open>Processes\<close> follows
  the processes that are started and not seen to their end, and \<open>BenchRuns\<close> shows that the benchmarks leave
  none, nor a device on the bus, and that their results are read back as they were.

  \<^bold>\<open>Bounds.\<close> Loops of the code that end on their own are structural recursions or have a measure. \<open>loop\<close>
  (Sysfs) and \<open>wait_rounds\<close> (Waiting) take the number of their rounds: 101 of Destroy, which counts
  them, and one per pause of a wait and two more, which is enough for every clock that a sleep
  moves on (\<open>wait_returns\<close>). \<open>above\<close> (Guest) follows the parents of a process for at most \<open>pid_max\<close> steps,
  the number of processes there can be. \<open>settle\<close> (WlanTests) has 51 rounds, of which \<open>settled_counter_returns\<close>
  shows that they are enough; the scans and iperf3 runs that are tried again have the code's own counts.
  \<open>read_value\<close> (Json) nests to the depth that its theorems show to be enough. \<open>shortest\<close> (FloatText) looks for at
  most 17 digits, which always suffice (\<open>shortest_rounds\<close>), and \<open>zeros_after\<close> counts at most 324 zeros, as the
  least number has. \<open>watch_irqs\<close> runs until it is interrupted, here after a given number of rounds. The
  waits of run.go for an interface and for the unmount of a log are loops with the code's own counts.

  \<^bold>\<open>Not modelled.\<close> The launcher (C), the scripts and the kernel configurations. The kernel, systemd and
  the guests are the environment. The table of flags of a usage message and the column layout of
  text/tabwriter beyond tables whose rows have the same cells. Times in the supervisor. Of floating-point
  numbers the infinities, NaN and the sign of zero: ParseFloat's texts for them, its hexadecimal syntax and
  underscores, and results beyond float64. In the tests and benchmarks: the copy of the output that a
  goroutine makes to a log, the line that the first signal prints, and where within it a command that goes
  on beside another one is interrupted, so such a command is one call where the code waits for it. What a
  goroutine of a step relation returns to the command around it (\<open>supervise_guest\<close> and \<open>relay\<close> in
  \<open>Commands\<close>) is a parameter.
\<close>

end
